(* ===== verification/Prelude.thy ===== *)
theory Prelude
  imports Main "HOL-Library.Word" "HOL-Library.AList" "HOL-Library.Multiset"
begin

text \<open>
  What every theory of the development shares: the machine-integer synonyms, Go maps, Go's
  \<^verbatim>\<open>sort.Slice\<close>, and the collections of facts the component proofs are run with.

  A Go map is an association list with distinct keys. Go leaves the order of a \<^verbatim>\<open>range\<close> over
  a map unspecified; here it is the order of the list, and every theorem is about all lists, so
  about every order. A \<^verbatim>\<open>nil\<close> map or slice is the empty list: the two differ only in a write to
  a \<^verbatim>\<open>nil\<close> map, which the code guards everywhere by a \<^verbatim>\<open>make\<close>.
\<close>

type_synonym u64 = "64 word"
type_synonym u32 = "32 word"
type_synonym u8 = "8 word"

type_synonym ('k, 'v) gomap = "('k \<times> 'v) list"

text \<open>Counting up a machine word that has room left.\<close>

lemma unat_succ: "unat (w :: 'a :: len word) + 1 < 2 ^ LENGTH('a) \<Longrightarrow> unat (w + 1) = unat w + 1"
  by (simp add: unat_word_ariths)

lemma word_less_succ: "unat (w :: 'a :: len word) + 1 < 2 ^ LENGTH('a) \<Longrightarrow> w < w + 1"
  by (simp only: word_less_nat_alt unat_succ)

lemma word_less_succ_iff:
  "unat (w :: 'a :: len word) + 1 < 2 ^ LENGTH('a) \<Longrightarrow> v < w + 1 \<longleftrightarrow> v < w \<or> v = w"
  by (auto simp only: word_less_nat_alt unat_succ word_unat_eq_iff)

text \<open>
  \<open>go_sort lt\<close> is the insertion sort that \<^verbatim>\<open>sort.Slice\<close> runs on short slices: each element
  in turn moves left past its larger neighbours. The accumulator is the sorted prefix, last
  element first. On longer slices \<^verbatim>\<open>sort.Slice\<close> uses another algorithm; where the order is a
  strict total one on the elements sorted, both give the one sorted permutation, which is what
  the locale \<open>slice_order\<close> below proves.
\<close>

fun shift_left :: "('a \<Rightarrow> 'a \<Rightarrow> bool) \<Rightarrow> 'a \<Rightarrow> 'a list \<Rightarrow> 'a list" where
  "shift_left lt x [] = [x]"
| "shift_left lt x (y # ys) = (if lt x y then y # shift_left lt x ys else x # y # ys)"

fun shift_all :: "('a \<Rightarrow> 'a \<Rightarrow> bool) \<Rightarrow> 'a list \<Rightarrow> 'a list \<Rightarrow> 'a list" where
  "shift_all lt [] acc = acc"
| "shift_all lt (x # xs) acc = shift_all lt xs (shift_left lt x acc)"

definition go_sort :: "('a \<Rightarrow> 'a \<Rightarrow> bool) \<Rightarrow> 'a list \<Rightarrow> 'a list" where
  "go_sort lt xs = rev (shift_all lt xs [])"

lemma mset_shift_left: "mset (shift_left lt x ys) = add_mset x (mset ys)"
  by (induction ys) auto

lemma mset_shift_all: "mset (shift_all lt xs acc) = mset xs + mset acc"
  by (induction xs arbitrary: acc) (auto simp: mset_shift_left)

lemma mset_go_sort [simp]: "mset (go_sort lt xs) = mset xs"
  by (simp add: go_sort_def mset_shift_all)

lemma set_go_sort [simp]: "set (go_sort lt xs) = set xs"
  by (metis mset_go_sort set_mset_mset)

lemma length_go_sort [simp]: "length (go_sort lt xs) = length xs"
  by (metis mset_go_sort size_mset)

lemma distinct_go_sort [simp]: "distinct (go_sort lt xs) = distinct xs"
  by (metis mset_go_sort mset_eq_imp_distinct_iff)

lemma go_sort_Nil [simp]: "go_sort lt [] = []"
  by (simp add: go_sort_def)

lemma go_sort_eq_Nil [simp]: "go_sort lt xs = [] \<longleftrightarrow> xs = []"
  by (metis length_0_conv length_go_sort)

text \<open>
  The interface \<^verbatim>\<open>sort.Slice\<close> expects of its comparison: a strict order, total on the elements
  of the slice. Its clients get that the result is sorted, and that it does not depend on the
  order in which the elements arrived.
\<close>

locale slice_order =
  fixes lt :: "'a \<Rightarrow> 'a \<Rightarrow> bool" and carrier :: "'a set"
  assumes less_irrefl: "x \<in> carrier \<Longrightarrow> \<not> lt x x"
    and less_trans: "x \<in> carrier \<Longrightarrow> y \<in> carrier \<Longrightarrow> z \<in> carrier \<Longrightarrow> lt x y \<Longrightarrow> lt y z \<Longrightarrow> lt x z"
    and less_total: "x \<in> carrier \<Longrightarrow> y \<in> carrier \<Longrightarrow> x \<noteq> y \<Longrightarrow> lt x y \<or> lt y x"
begin

lemma less_asym: "x \<in> carrier \<Longrightarrow> y \<in> carrier \<Longrightarrow> lt x y \<Longrightarrow> \<not> lt y x"
  using less_irrefl less_trans by blast

lemma shift_left_set: "set (shift_left lt x ys) = insert x (set ys)"
  by (induction ys) auto

lemma shift_left_sorted:
  "x \<in> carrier \<Longrightarrow> set ys \<subseteq> carrier \<Longrightarrow> sorted_wrt (\<lambda>a b. \<not> lt a b) ys \<Longrightarrow>
    sorted_wrt (\<lambda>a b. \<not> lt a b) (shift_left lt x ys)"
proof (induction ys)
  case Nil
  then show ?case by simp
next
  case (Cons y ys)
  show ?case
  proof (cases "lt x y")
    case True
    then have "\<not> lt y x" using Cons.prems less_asym by auto
    with True Cons show ?thesis by (auto simp: shift_left_set)
  next
    case False
    have "\<not> lt x z" if "z \<in> set ys" for z
    proof
      assume xz: "lt x z"
      from that Cons.prems have "\<not> lt y z" by simp
      moreover from that Cons.prems have "z \<in> carrier" "y \<in> carrier" by auto
      ultimately show False
        using xz False Cons.prems(1) less_trans less_total by metis
    qed
    with False Cons.prems show ?thesis by auto
  qed
qed

lemma shift_all_sorted:
  "set xs \<subseteq> carrier \<Longrightarrow> set acc \<subseteq> carrier \<Longrightarrow> sorted_wrt (\<lambda>a b. \<not> lt a b) acc \<Longrightarrow>
    sorted_wrt (\<lambda>a b. \<not> lt a b) (shift_all lt xs acc)"
  by (induction xs arbitrary: acc) (auto simp: shift_left_set shift_left_sorted)

lemma go_sort_sorted_le: "set xs \<subseteq> carrier \<Longrightarrow> sorted_wrt (\<lambda>a b. \<not> lt b a) (go_sort lt xs)"
  unfolding go_sort_def sorted_wrt_rev by (rule shift_all_sorted) auto

lemma sorted_strict:
  "set zs \<subseteq> carrier \<Longrightarrow> distinct zs \<Longrightarrow> sorted_wrt (\<lambda>a b. \<not> lt b a) zs \<Longrightarrow> sorted_wrt lt zs"
proof (induction zs)
  case (Cons z zs)
  then show ?case using less_total by fastforce
qed simp

lemma go_sort_sorted: "set xs \<subseteq> carrier \<Longrightarrow> distinct xs \<Longrightarrow> sorted_wrt lt (go_sort lt xs)"
  by (rule sorted_strict) (auto simp: go_sort_sorted_le)

lemma sorted_unique:
  assumes "set xs \<subseteq> carrier" "sorted_wrt lt xs" "sorted_wrt lt ys" "mset xs = mset ys"
  shows "xs = ys"
  using assms
proof (induction xs arbitrary: ys)
  case Nil
  then show ?case by simp
next
  case (Cons x xs)
  from Cons.prems(4) obtain y ys' where ys: "ys = y # ys'" by (cases ys) auto
  have set_eq: "set (x # xs) = set ys" using Cons.prems(4) by (rule mset_eq_setD)
  have "x = y"
  proof (rule ccontr)
    assume ne: "x \<noteq> y"
    then have "y \<in> set xs" "x \<in> set ys'" using set_eq ys by auto
    then have "lt x y" "lt y x" using Cons.prems ys by auto
    then show False using less_asym Cons.prems(1) \<open>y \<in> set xs\<close> by auto
  qed
  with Cons.prems ys have "xs = ys'" by (intro Cons.IH) auto
  with \<open>x = y\<close> ys show ?case by simp
qed

lemma go_sort_order_irrelevant:
  assumes "set xs \<subseteq> carrier" "distinct xs" "mset xs = mset ys"
  shows "go_sort lt xs = go_sort lt ys"
proof (rule sorted_unique)
  have "set ys \<subseteq> carrier" using assms mset_eq_setD by metis
  moreover have "distinct ys" using assms mset_eq_imp_distinct_iff by metis
  ultimately show "sorted_wrt lt (go_sort lt ys)" by (rule go_sort_sorted)
  show "sorted_wrt lt (go_sort lt xs)" using assms by (intro go_sort_sorted)
qed (use assms in auto)

lemma go_sort_head_least:
  assumes "set xs \<subseteq> carrier" "distinct xs" "go_sort lt xs = y # ys" "z \<in> set xs" "z \<noteq> y"
  shows "lt y z"
proof -
  have "sorted_wrt lt (y # ys)" using go_sort_sorted [OF assms(1,2)] assms(3) by simp
  moreover have "z \<in> set (y # ys)" using assms(3,4) by (metis set_go_sort)
  ultimately show ?thesis using assms(5) by auto
qed

end

end
