(* ===== verification/GoLib.thy ===== *)
theory GoLib
  imports Prelude
begin

text \<open>
  The parts of the Go standard library the program computes with: \<^verbatim>\<open>strings\<close>, \<^verbatim>\<open>strconv\<close>,
  \<^verbatim>\<open>unicode/utf8\<close>, \<^verbatim>\<open>time\<close> and the \<^verbatim>\<open>%d\<close> verb of \<^verbatim>\<open>fmt\<close>. A Go string is a list of bytes, which
  is what Isabelle's \<open>string\<close> is; \<open>length\<close> is Go's \<^verbatim>\<open>len\<close>. Times are nanoseconds since the epoch,
  durations are nanoseconds, both as \<open>int\<close>; a \<^verbatim>\<open>float32\<close> is compared but never computed with, so
  it is its exact value in units of \<open>2 ^ -149\<close> (every finite \<^verbatim>\<open>float32\<close> is such a multiple).
\<close>

section \<open>Bytes and prefixes\<close>

abbreviation byte :: "char \<Rightarrow> nat" where "byte c \<equiv> of_char c"

definition HasPrefix :: "string \<Rightarrow> string \<Rightarrow> bool" where
  "HasPrefix s p \<longleftrightarrow> take (length p) s = p"

definition TrimPrefix :: "string \<Rightarrow> string \<Rightarrow> string" where
  "TrimPrefix s p = (if HasPrefix s p then drop (length p) s else s)"

lemma HasPrefix_append [simp]: "HasPrefix (p @ s) p"
  by (simp add: HasPrefix_def)

lemma HasPrefix_iff: "HasPrefix s p \<longleftrightarrow> (\<exists>r. s = p @ r)"
  by (auto simp: HasPrefix_def) (metis append_take_drop_id)

fun Split :: "char \<Rightarrow> string \<Rightarrow> string list" where
  "Split sep [] = [[]]"
| "Split sep (c # cs) =
     (if c = sep then [] # Split sep cs
      else (case Split sep cs of [] \<Rightarrow> [[c]] | w # ws \<Rightarrow> (c # w) # ws))"

fun Join :: "string \<Rightarrow> string list \<Rightarrow> string" where
  "Join sep [] = []"
| "Join sep [w] = w"
| "Join sep (w # ws) = w @ sep @ Join sep ws"

lemma Split_nonempty [simp]: "Split sep s \<noteq> []"
  by (induction s) (auto split: list.splits)

lemma Split_no_sep: "sep \<notin> set s \<Longrightarrow> Split sep s = [s]"
  by (induction s) auto

lemma Split_append_sep: "sep \<notin> set a \<Longrightarrow> Split sep (a @ sep # b) = a # Split sep b"
  by (induction a) auto

lemma Join_Split: "Join [sep] (Split sep s) = s"
proof (induction s)
  case (Cons c cs)
  show ?case
  proof (cases "Split sep cs")
    case Nil then show ?thesis by simp
  next
    case (Cons w ws)
    then show ?thesis using Cons.IH by (cases ws) auto
  qed
qed simp

section \<open>Decimal numbers: \<^verbatim>\<open>%d\<close>, \<^verbatim>\<open>strconv.ParseUint\<close>\<close>

definition digit_char :: "nat \<Rightarrow> char" where
  "digit_char d = ''0123456789'' ! d"

definition is_digit :: "char \<Rightarrow> bool" where
  "is_digit c \<longleftrightarrow> 48 \<le> byte c \<and> byte c \<le> (57 :: nat)"

fun decimal :: "nat \<Rightarrow> string" where
  "decimal n = (if n < 10 then [digit_char n] else decimal (n div 10) @ [digit_char (n mod 10)])"

declare decimal.simps [simp del]

definition fmt_id :: "u64 \<Rightarrow> string" where
  "fmt_id w = decimal (unat w)"

fun parse_digits :: "nat \<Rightarrow> string \<Rightarrow> nat option" where
  "parse_digits acc [] = Some acc"
| "parse_digits acc (c # cs) =
     (if is_digit c then parse_digits (10 * acc + (byte c - 48)) cs else None)"

definition ParseUint :: "string \<Rightarrow> u64 option" where
  "ParseUint s =
     (if s = [] then None
      else (case parse_digits 0 s of
              None \<Rightarrow> None
            | Some n \<Rightarrow> if n < 2 ^ 64 then Some (of_nat n) else None))"

lemma digit_char_props:
  assumes "d < 10"
  shows "is_digit (digit_char d)" "byte (digit_char d) - 48 = d"
  using assms by (auto simp: digit_char_def is_digit_def less_Suc_eq numeral_eq_Suc)

lemma decimal_nonempty [simp]: "decimal n \<noteq> []"
  by (subst decimal.simps) simp

lemma parse_digits_snoc:
  "parse_digits acc (s @ [c]) =
     (case parse_digits acc s of None \<Rightarrow> None
      | Some n \<Rightarrow> if is_digit c then Some (10 * n + (byte c - 48)) else None)"
  by (induction acc s rule: parse_digits.induct) auto

lemma parse_decimal [simp]: "parse_digits 0 (decimal n) = Some n"
proof (induction n rule: decimal.induct)
  case (1 n)
  show ?case
  proof (cases "n < 10")
    case True
    then show ?thesis by (subst decimal.simps) (simp add: digit_char_props)
  next
    case False
    with 1 show ?thesis
      by (subst decimal.simps) (simp add: parse_digits_snoc digit_char_props)
  qed
qed

lemma ParseUint_fmt_id [simp]: "ParseUint (fmt_id w) = Some w"
  using unsigned_less [of w] by (simp add: ParseUint_def fmt_id_def)

lemma is_digit_decimal: "c \<in> set (decimal n) \<Longrightarrow> is_digit c"
proof (induction n rule: decimal.induct)
  case (1 n)
  then show ?case
    by (cases "n < 10") (auto simp: decimal.simps [of n] digit_char_props)
qed

lemma is_digit_fmt_id: "c \<in> set (fmt_id w) \<Longrightarrow> is_digit c"
  by (simp add: fmt_id_def is_digit_decimal)

lemma fmt_id_nonempty [simp]: "fmt_id w \<noteq> []"
  by (simp add: fmt_id_def)

lemma fmt_id_inject [simp]: "fmt_id a = fmt_id b \<longleftrightarrow> a = b"
  by (metis ParseUint_fmt_id option.inject)

lemma slash_not_digit [simp]: "\<not> is_digit CHR ''/''" "\<not> is_digit CHR ''t''"
  by (auto simp: is_digit_def)

lemma slash_notin_fmt_id [simp]: "CHR ''/'' \<notin> set (fmt_id w)"
  using is_digit_fmt_id by fastforce

lemma ParseUint_all_digits: "ParseUint s = Some w \<Longrightarrow> c \<in> set s \<Longrightarrow> is_digit c"
proof -
  have "parse_digits acc s = Some n \<Longrightarrow> c \<in> set s \<Longrightarrow> is_digit c" for acc n
    by (induction acc s rule: parse_digits.induct) (auto split: if_splits)
  then show "ParseUint s = Some w \<Longrightarrow> c \<in> set s \<Longrightarrow> is_digit c"
    by (auto simp: ParseUint_def split: if_splits option.splits)
qed

section \<open>White space: \<^verbatim>\<open>strings.TrimSpace\<close>, \<^verbatim>\<open>strings.Fields\<close>\<close>

text \<open>
  \<open>space_len s\<close> is the number of bytes of the Unicode white-space character at the start of
  \<open>s\<close>, and 0 if there is none: tab to carriage return, blank, U+0085, U+00A0, U+1680,
  U+2000 to U+200A, U+2028, U+2029, U+202F, U+205F, U+3000 in UTF-8. None of these byte
  sequences starts inside another character, so reading byte by byte finds the same characters
  as decoding does.
\<close>

definition space_bytes :: "nat list list" where
  "space_bytes = [[0xC2, 0x85], [0xC2, 0xA0], [0xE1, 0x9A, 0x80]]
     @ map (\<lambda>b. [0xE2, 0x80, b]) [0x80, 0x81, 0x82, 0x83, 0x84, 0x85, 0x86, 0x87, 0x88, 0x89, 0x8A,
                                     0xA8, 0xA9, 0xAF]
     @ [[0xE2, 0x81, 0x9F], [0xE3, 0x80, 0x80]]"

definition ascii_space :: "char \<Rightarrow> bool" where
  "ascii_space c \<longleftrightarrow> (9 \<le> byte c \<and> byte c \<le> (13 :: nat)) \<or> byte c = (32 :: nat)"

definition space_len :: "string \<Rightarrow> nat" where
  "space_len s =
     (case s of [] \<Rightarrow> 0
      | c # _ \<Rightarrow>
          if ascii_space c then 1
          else if map byte (take 2 s) \<in> set space_bytes then 2
          else if map byte (take 3 s) \<in> set space_bytes then 3 else 0)"

definition space_len_end :: "string \<Rightarrow> nat" where
  "space_len_end s =
     (if s = [] then 0
      else if ascii_space (last s) then 1
      else if map byte (drop (length s - 2) s) \<in> set space_bytes then 2
      else if map byte (drop (length s - 3) s) \<in> set space_bytes then 3 else 0)"

lemma space_len_Nil [simp]: "space_len [] = 0" "space_len_end [] = 0"
  by (simp_all add: space_len_def space_len_end_def)

function TrimLeft :: "string \<Rightarrow> string" where
  "TrimLeft s = (if space_len s = 0 then s else TrimLeft (drop (space_len s) s))"
  by pat_completeness auto
termination
proof (relation "measure length")
  show "(drop (space_len s) s, s) \<in> measure length" if "space_len s \<noteq> 0" for s :: string
    using that by (cases s) auto
qed simp

function TrimRight :: "string \<Rightarrow> string" where
  "TrimRight s = (if space_len_end s = 0 then s else TrimRight (take (length s - space_len_end s) s))"
  by pat_completeness auto
termination
proof (relation "measure length")
  show "(take (length s - space_len_end s) s, s) \<in> measure length" if "space_len_end s \<noteq> 0" for s :: string
    using that by (cases s) auto
qed simp

declare TrimLeft.simps [simp del] TrimRight.simps [simp del]

definition TrimSpace :: "string \<Rightarrow> string" where
  "TrimSpace s = TrimRight (TrimLeft s)"

text \<open>\<^verbatim>\<open>strings.Fields\<close>: the second argument is the field being read.\<close>

function fields_from :: "string \<Rightarrow> string \<Rightarrow> string list" where
  "fields_from cur [] = (if cur = [] then [] else [cur])"
| "fields_from cur (c # cs) =
     (if space_len (c # cs) = 0 then fields_from (cur @ [c]) cs
      else (if cur = [] then [] else [cur]) @ fields_from [] (drop (space_len (c # cs)) (c # cs)))"
  by pat_completeness auto
termination
  by (relation "measure (length \<circ> snd)") auto

definition Fields :: "string \<Rightarrow> string list" where
  "Fields s = fields_from [] s"

lemma TrimLeft_length: "length (TrimLeft s) \<le> length s"
proof (induction s rule: TrimLeft.induct)
  case (1 s)
  then show ?case by (subst TrimLeft.simps) (auto intro: le_trans)
qed

lemma TrimRight_length: "length (TrimRight s) \<le> length s"
proof (induction s rule: TrimRight.induct)
  case (1 s)
  then show ?case by (subst TrimRight.simps) (auto intro: le_trans)
qed

lemma TrimSpace_length: "length (TrimSpace s) \<le> length s"
  unfolding TrimSpace_def using TrimLeft_length TrimRight_length le_trans by blast

lemma TrimSpace_Nil [simp]: "TrimSpace [] = []"
  by (simp add: TrimSpace_def TrimLeft.simps TrimRight.simps space_len_def space_len_end_def)


section \<open>UTF-8\<close>

definition cont_byte :: "char \<Rightarrow> bool" where
  "cont_byte c \<longleftrightarrow> 128 \<le> byte c \<and> byte c \<le> (191 :: nat)"

definition RuneStart :: "char \<Rightarrow> bool" where
  "RuneStart c \<longleftrightarrow> \<not> cont_byte c"

definition second_ok :: "char \<Rightarrow> char \<Rightarrow> bool" where
  "second_ok a b \<longleftrightarrow>
     cont_byte b \<and> (byte a = (0xE0 :: nat) \<longrightarrow> 0xA0 \<le> byte b) \<and> (byte a = (0xED :: nat) \<longrightarrow> byte b \<le> (0x9F :: nat))
     \<and> (byte a = (0xF0 :: nat) \<longrightarrow> 0x90 \<le> byte b) \<and> (byte a = (0xF4 :: nat) \<longrightarrow> byte b \<le> (0x8F :: nat))"

text \<open>The width of the character encoded at the start of the string, 0 if it is not one.\<close>

definition rune_len :: "string \<Rightarrow> nat" where
  "rune_len s =
     (case s of
        [] \<Rightarrow> 0
      | a # r \<Rightarrow>
          if byte a < (0x80 :: nat) then 1
          else (case r of [] \<Rightarrow> 0
            | b # r' \<Rightarrow>
                if byte a < (0xC2 :: nat) \<or> (0xF4 :: nat) < byte a \<or> \<not> second_ok a b then 0
                else if byte a < (0xE0 :: nat) then 2
                else (case r' of [] \<Rightarrow> 0
                  | c # r'' \<Rightarrow>
                      if \<not> cont_byte c then 0
                      else if byte a < (0xF0 :: nat) then 3
                      else (case r'' of [] \<Rightarrow> 0 | d # _ \<Rightarrow> if cont_byte d then 4 else 0))))"

lemma rune_len_Nil [simp]: "rune_len [] = 0"
  by (simp add: rune_len_def)

function ValidString :: "string \<Rightarrow> bool" where
  "ValidString s = (if s = [] then True else if rune_len s = 0 then False
                    else ValidString (drop (rune_len s) s))"
  by pat_completeness auto
termination
  by (relation "measure length") auto

function to_valid :: "bool \<Rightarrow> string \<Rightarrow> string \<Rightarrow> string" where
  "to_valid invalid repl s =
     (if s = [] then []
      else if rune_len s = 0 then (if invalid then [] else repl) @ to_valid True repl (tl s)
      else take (rune_len s) s @ to_valid False repl (drop (rune_len s) s))"
  by pat_completeness auto
termination
  by (relation "measure (length \<circ> snd \<circ> snd)") auto

declare ValidString.simps [simp del] to_valid.simps [simp del]

definition ToValidUTF8 :: "string \<Rightarrow> string \<Rightarrow> string" where
  "ToValidUTF8 s repl = to_valid False repl s"

text \<open>The backward scan that the truncating functions share: the last rune start at or below an index.\<close>

fun rune_boundary :: "string \<Rightarrow> nat \<Rightarrow> nat" where
  "rune_boundary s 0 = 0"
| "rune_boundary s (Suc n) = (if RuneStart (s ! Suc n) then Suc n else rune_boundary s n)"

definition replacement_char :: string where
  "replacement_char = [char_of (0xEF :: nat), char_of (0xBF :: nat), char_of (0xBD :: nat)]"

lemma rune_boundary_le: "rune_boundary s n \<le> n"
  by (induction n) auto

lemma rune_boundary_start: "rune_boundary s n = 0 \<or> RuneStart (s ! rune_boundary s n)"
  by (induction n) auto

text \<open>The four shapes of an encoded character.\<close>

lemma rune_len_shape:
  assumes "rune_len s \<noteq> 0"
  shows "(\<exists>a r. s = a # r \<and> rune_len s = 1 \<and> (\<forall>r'. rune_len (a # r') = 1))
    \<or> (\<exists>a b r. s = a # b # r \<and> rune_len s = 2 \<and> cont_byte b \<and> (\<forall>r'. rune_len (a # b # r') = 2))
    \<or> (\<exists>a b c r. s = a # b # c # r \<and> rune_len s = 3 \<and> cont_byte b \<and> cont_byte c
          \<and> (\<forall>r'. rune_len (a # b # c # r') = 3))
    \<or> (\<exists>a b c d r. s = a # b # c # d # r \<and> rune_len s = 4 \<and> cont_byte b \<and> cont_byte c \<and> cont_byte d
          \<and> (\<forall>r'. rune_len (a # b # c # d # r') = 4))"
proof (cases s)
  case Nil
  with assms show ?thesis by simp
next
  case a: (Cons a r)
  show ?thesis
  proof (cases "byte a < (0x80 :: nat)")
    case True
    then show ?thesis using a by (simp add: rune_len_def)
  next
    case big: False
    with assms a obtain b r2 where b: "r = b # r2"
      by (cases r) (auto simp: rune_len_def)
    with assms a big have ok: "\<not> (byte a < (0xC2 :: nat) \<or> (0xF4 :: nat) < byte a \<or> \<not> second_ok a b)"
      by (auto simp: rune_len_def split: if_splits)
    then have cb: "cont_byte b" by (simp add: second_ok_def)
    show ?thesis
    proof (cases "byte a < (0xE0 :: nat)")
      case True
      then show ?thesis using a b big ok cb by (simp add: rune_len_def)
    next
      case ge: False
      with assms a b big ok obtain c r3 where c: "r2 = c # r3" "cont_byte c"
        by (cases r2) (auto simp: rune_len_def split: if_splits)
      show ?thesis
      proof (cases "byte a < (0xF0 :: nat)")
        case True
        then show ?thesis using a b c big ok cb ge by (simp add: rune_len_def)
      next
        case False
        with assms a b c big ok ge obtain d r4 where "r3 = d # r4" "cont_byte d"
          by (cases r3) (auto simp: rune_len_def split: if_splits)
        then show ?thesis using a b c big ok cb ge False by (simp add: rune_len_def)
      qed
    qed
  qed
qed

lemma rune_len_le: "rune_len s \<le> length s"
  using rune_len_shape [of s] by (cases "rune_len s = 0") auto

lemma rune_len_prefix:
  assumes "rune_len s \<noteq> 0" "take (rune_len s) t = take (rune_len s) s"
  shows "rune_len t = rune_len s"
proof -
  have t: "t = take (rune_len s) s @ drop (rune_len s) t"
    using assms(2) by (metis append_take_drop_id)
  show ?thesis using rune_len_shape [OF assms(1)] by (elim disjE exE conjE) (subst t, simp)+
qed

lemma rune_len_take: "rune_len s \<noteq> 0 \<Longrightarrow> rune_len s \<le> n \<Longrightarrow> rune_len (take n s) = rune_len s"
  by (rule rune_len_prefix) auto

lemma rune_len_append: "rune_len s \<noteq> 0 \<Longrightarrow> rune_len (s @ t) = rune_len s"
  using rune_len_le [of s] by (intro rune_len_prefix) auto

lemma rune_interior:
  assumes "rune_len s \<noteq> 0" "0 < i" "i < rune_len s"
  shows "\<not> RuneStart (s ! i)"
proof -
  have "i = 1 \<or> i = 2 \<or> i = 3"
    using rune_len_shape [OF assms(1)] assms(2,3) by auto
  then show ?thesis
    using rune_len_shape [OF assms(1)] assms(2,3) by (auto simp: RuneStart_def)
qed

lemma ValidString_Nil [simp]: "ValidString []"
  by (subst ValidString.simps) simp

lemma ValidString_append: "ValidString s \<Longrightarrow> ValidString t \<Longrightarrow> ValidString (s @ t)"
proof (induction s rule: ValidString.induct)
  case (1 s)
  show ?case
  proof (cases "s = []")
    case True then show ?thesis using 1 by simp
  next
    case False
    with 1(2) have r: "rune_len s \<noteq> 0" and v: "ValidString (drop (rune_len s) s)"
      by (subst (asm) ValidString.simps, simp split: if_splits)+
    from 1(1) [OF False r v 1(3)] have "ValidString (drop (rune_len (s @ t)) (s @ t))"
      using r rune_len_le [of s] by (simp add: rune_len_append)
    then show ?thesis using r by (subst ValidString.simps) (simp add: rune_len_append)
  qed
qed

lemma ValidString_take_boundary:
  assumes "ValidString s" "n \<le> length s" "n = 0 \<or> n = length s \<or> RuneStart (s ! n)"
  shows "ValidString (take n s)"
  using assms
proof (induction s arbitrary: n rule: ValidString.induct)
  case (1 s)
  show ?case
  proof (cases "n = 0 \<or> s = []")
    case True then show ?thesis by auto
  next
    case False
    with 1(2) have r: "rune_len s \<noteq> 0" and v: "ValidString (drop (rune_len s) s)"
      by (subst (asm) ValidString.simps, simp split: if_splits)+
    have le: "rune_len s \<le> n"
      using rune_interior [OF r, of n] 1(3,4) False rune_len_le [of s] by force
    have "ValidString (take (n - rune_len s) (drop (rune_len s) s))"
    proof (rule 1(1) [OF _ r v])
      show "n - rune_len s = 0 \<or> n - rune_len s = length (drop (rune_len s) s)
        \<or> RuneStart (drop (rune_len s) s ! (n - rune_len s))"
        using 1(3,4) le False rune_len_le [of s] by auto
    qed (use False 1(3) in auto)
    moreover have "drop (rune_len s) (take n s) = take (n - rune_len s) (drop (rune_len s) s)"
      using le by (simp add: drop_take)
    moreover have "rune_len (take n s) = rune_len s" using r le by (rule rune_len_take)
    ultimately show ?thesis using r by (subst ValidString.simps) simp
  qed
qed

lemma ValidString_rune: "rune_len s \<noteq> 0 \<Longrightarrow> ValidString (take (rune_len s) s)"
proof -
  assume r: "rune_len s \<noteq> 0"
  then have "rune_len (take (rune_len s) s) = rune_len s" by (intro rune_len_take) auto
  with r show ?thesis by (subst ValidString.simps) simp
qed

lemma ToValidUTF8_valid:
  assumes "ValidString repl"
  shows "ValidString (ToValidUTF8 s repl)"
proof -
  have "ValidString repl \<Longrightarrow> ValidString (to_valid b repl s)" for b
  proof (induction b repl s rule: to_valid.induct)
    case (1 b repl s)
    then show ?case
      by (subst to_valid.simps) (auto intro!: ValidString_append ValidString_rune)
  qed
  with assms have "ValidString (to_valid False repl s)" by blast
  then show ?thesis by (simp add: ToValidUTF8_def)
qed

lemma ValidString_replacement [simp]: "ValidString replacement_char" "ValidString ''...''"
  by (simp_all add: replacement_char_def ValidString.simps rune_len_def second_ok_def cont_byte_def)

section \<open>String order\<close>

text \<open>Go compares strings by their bytes; \<^verbatim>\<open>sort.Strings\<close> sorts by it.\<close>

fun str_less :: "string \<Rightarrow> string \<Rightarrow> bool" where
  "str_less _ [] = False"
| "str_less [] (y # ys) = True"
| "str_less (x # xs) (y # ys) = (byte x < (byte y :: nat) \<or> x = y \<and> str_less xs ys)"

definition sort_Strings :: "string list \<Rightarrow> string list" where
  "sort_Strings = go_sort str_less"

lemma str_less_irrefl: "\<not> str_less s s"
  by (induction s) auto

lemma str_less_trans: "str_less a b \<Longrightarrow> str_less b c \<Longrightarrow> str_less a c"
proof (induction a b arbitrary: c rule: str_less.induct)
  case (2 y ys)
  then show ?case by (cases c) auto
next
  case (3 x xs y ys)
  then show ?case by (cases c) auto
qed simp

lemma str_less_total: "a \<noteq> b \<Longrightarrow> str_less a b \<or> str_less b a"
proof (induction a b rule: str_less.induct)
  case (1 xs)
  then show ?case by (cases xs) auto
next
  case (3 x xs y ys)
  have "byte x < (byte y :: nat) \<or> byte y < (byte x :: nat) \<or> x = y"
    by (metis linorder_neqE_nat of_char_eq_iff)
  with 3 show ?case by auto
qed simp

interpretation str_order: slice_order str_less UNIV
  by unfold_locales (auto simp: str_less_irrefl str_less_total intro: str_less_trans)

lemma sort_Strings_props [simp]:
  "mset (sort_Strings xs) = mset xs" "set (sort_Strings xs) = set xs" "distinct (sort_Strings xs) = distinct xs"
  "length (sort_Strings xs) = length xs"
  by (simp_all add: sort_Strings_def)

lemma sort_Strings_sorted: "distinct xs \<Longrightarrow> sorted_wrt str_less (sort_Strings xs)"
  by (simp add: sort_Strings_def str_order.go_sort_sorted)

end
