(* ===== verification/GoTime.thy ===== *)
theory GoTime
  imports GoLib
begin

text \<open>
  Go's \<^verbatim>\<open>time\<close> package as the program uses it, and \<^verbatim>\<open>float32\<close> comparison. A \<open>gotime\<close> is
  nanoseconds since the epoch, a \<open>duration\<close> is nanoseconds. \<open>formatTimestamp\<close> (in
  \<^verbatim>\<open>protocol.go\<close>) renders a stored millisecond count in RFC 3339, with the civil date computed
  from the day number of the proleptic Gregorian calendar.
\<close>

type_synonym gotime = int
type_synonym duration = int

definition UnixMilli :: "gotime \<Rightarrow> int" where
  "UnixMilli t = t div 1000000"

definition millis :: "gotime \<Rightarrow> u64" where
  "millis t = word_of_int (UnixMilli t)"

text \<open>\<^verbatim>\<open>Duration.Milliseconds\<close> truncates towards zero, then the code converts to \<^verbatim>\<open>uint64\<close>.\<close>

definition Milliseconds :: "duration \<Rightarrow> int" where
  "Milliseconds d = sgn d * (\<bar>d\<bar> div 1000000)"

definition ttl_millis :: "duration \<Rightarrow> u64" where
  "ttl_millis d = word_of_int (Milliseconds d)"

section \<open>\<^verbatim>\<open>Duration.String\<close>\<close>

fun drop_trailing_zeros :: "string \<Rightarrow> string" where
  "drop_trailing_zeros s = rev (dropWhile (\<lambda>c. c = CHR ''0'') (rev s))"

definition pad :: "nat \<Rightarrow> nat \<Rightarrow> string" where
  "pad w n = replicate (w - length (decimal n)) CHR ''0'' @ decimal n"

definition fraction :: "nat \<Rightarrow> nat \<Rightarrow> string" where
  "fraction prec n =
     (let ds = drop_trailing_zeros (pad prec n) in if prec = 0 \<or> ds = [] then [] else CHR ''.'' # ds)"

definition micro_sign :: string where
  "micro_sign = [char_of (0xC2 :: nat), char_of (0xB5 :: nat)]"

definition duration_abs :: "nat \<Rightarrow> string" where
  "duration_abs u =
     (if u = 0 then ''0s''
      else if u < 1000 then decimal u @ ''ns''
      else if u < 1000000 then decimal (u div 1000) @ fraction 3 (u mod 1000) @ micro_sign @ ''s''
      else if u < 1000000000 then decimal (u div 1000000) @ fraction 6 (u mod 1000000) @ ''ms''
      else (let secs = u div 1000000000; mins = secs div 60; hours = mins div 60 in
              (if hours > 0 then decimal hours @ ''h'' else [])
              @ (if mins > 0 then decimal (mins mod 60) @ ''m'' else [])
              @ decimal (secs mod 60) @ fraction 9 (u mod 1000000000) @ ''s''))"

definition duration_string :: "duration \<Rightarrow> string" where
  "duration_string d = (if d < 0 then ''-'' else []) @ duration_abs (nat \<bar>d\<bar>)"

section \<open>RFC 3339 time stamps\<close>

definition civil_of_days :: "int \<Rightarrow> int \<times> nat \<times> nat" where
  "civil_of_days days =
     (let z = days + 719468;
          era = z div 146097;
          doe = z mod 146097;
          yoe = (doe - doe div 1460 + doe div 36524 - doe div 146096) div 365;
          doy = doe - (365 * yoe + yoe div 4 - yoe div 100);
          mp = (5 * doy + 2) div 153;
          d = doy - (153 * mp + 2) div 5 + 1;
          m = (if mp < 10 then mp + 3 else mp - 9)
      in (yoe + era * 400 + (if m \<le> 2 then 1 else 0), nat m, nat d))"

definition year_string :: "int \<Rightarrow> string" where
  "year_string y = (if y < 0 then ''-'' else []) @ pad 4 (nat \<bar>y\<bar>)"

definition formatTimestamp :: "u64 \<Rightarrow> string" where
  "formatTimestamp milliseconds =
     (let ms = sint milliseconds;
          secs = ms div 1000;
          tod = nat (secs mod 86400)
      in case civil_of_days (secs div 86400) of (y, m, d) \<Rightarrow>
           year_string y @ ''-'' @ pad 2 m @ ''-'' @ pad 2 d @ ''T''
           @ pad 2 (tod div 3600) @ '':'' @ pad 2 (tod div 60 mod 60) @ '':'' @ pad 2 (tod mod 60)
           @ fraction 3 (nat (ms mod 1000)) @ ''Z'')"

section \<open>\<^verbatim>\<open>float32\<close>\<close>

datatype float32 = NaN | Inf bool \<comment> \<open>\<open>Inf True\<close> is +Inf\<close> | Fin int

fun f_less :: "float32 \<Rightarrow> float32 \<Rightarrow> bool" where
  "f_less NaN _ = False"
| "f_less _ NaN = False"
| "f_less (Inf a) (Inf b) = (\<not> a \<and> b)"
| "f_less (Inf a) (Fin _) = (\<not> a)"
| "f_less (Fin _) (Inf b) = b"
| "f_less (Fin a) (Fin b) = (a < b)"

fun f_eq :: "float32 \<Rightarrow> float32 \<Rightarrow> bool" where
  "f_eq NaN _ = False"
| "f_eq _ NaN = False"
| "f_eq x y = (x = y)"

text \<open>The number 1 in units of \<open>2 ^ -149\<close>, and \<^verbatim>\<open>validPriority\<close> of \<^verbatim>\<open>priority.go\<close>.\<close>

definition f_one :: float32 where
  "f_one = Fin (2 ^ 149)"

definition f_zero :: float32 where
  "f_zero = Fin 0"

definition f_half :: float32 where
  "f_half = Fin (2 ^ 148)"

definition f_le :: "float32 \<Rightarrow> float32 \<Rightarrow> bool" where
  "f_le x y \<longleftrightarrow> f_less x y \<or> f_eq x y"

definition validPriority :: "float32 \<Rightarrow> bool" where
  "validPriority v \<longleftrightarrow> v \<noteq> NaN \<and> (\<forall>b. v \<noteq> Inf b) \<and> f_le f_zero v \<and> f_le v f_one"

lemma validPriority_code [code]:
  "validPriority v = (case v of Fin k \<Rightarrow> 0 \<le> k \<and> k \<le> 2 ^ 149 | _ \<Rightarrow> False)"
  by (auto simp: validPriority_def f_le_def f_zero_def f_one_def split: float32.splits)

lemma validPriority_Fin: "validPriority v \<longleftrightarrow> (\<exists>k. v = Fin k \<and> 0 \<le> k \<and> k \<le> 2 ^ 149)"
  by (cases v) (auto simp: validPriority_code)

lemma f_less_irrefl [simp]: "\<not> f_less x x"
  by (cases x) auto

lemma f_less_trans: "f_less x y \<Longrightarrow> f_less y z \<Longrightarrow> f_less x z"
  by (cases x; cases y; cases z) auto

lemma f_less_total: "x \<noteq> NaN \<Longrightarrow> y \<noteq> NaN \<Longrightarrow> f_less x y \<or> f_eq x y \<or> f_less y x"
  by (cases x; cases y) auto

lemma f_eq_iff: "f_eq x y \<longleftrightarrow> x = y \<and> x \<noteq> NaN"
  by (cases x; cases y) auto

end
