(* ===== verification/Errors.thy ===== *)
theory Errors
  imports GoTime
begin

text \<open>
  Error values and their classification (\<^verbatim>\<open>coordination_errors.go\<close>, \<^verbatim>\<open>errors.go\<close>,
  \<^verbatim>\<open>cmd_lifecycle_errors.go\<close>, \<^verbatim>\<open>input_limits.go\<close> for \<^verbatim>\<open>persistedInputError\<close>, and the numeric codes of
  \<^verbatim>\<open>serve.go\<close>, \<^verbatim>\<open>mcp_summary.go\<close> and \<^verbatim>\<open>conformance_trace.go\<close>). An error is the tree that
  \<^verbatim>\<open>errors.Is\<close> and \<^verbatim>\<open>errors.As\<close> walk: a sentinel, a \<^verbatim>\<open>fmt.Errorf\<close> with the errors its \<^verbatim>\<open>%w\<close> verbs
  wrap, or one of the program's error types. A message is kept as its format string and
  arguments; it is not rendered.
\<close>

section \<open>Sentinels, codes, diagnostics\<close>

datatype sentinel =
    errLeaseTaskNotFound | errLeaseNotActive | errLeaseNotOwner
  | errTaskNotFound | errAlreadyClaimed | errNotOwner | errDependency | errCycleDetected
  | errInvalidTransition
  | errNoReadyTasks | errAgentAtCapacity | errAcquireRequestConflict
  | errInvalidTTL

datatype ErrorCode =
    ErrTaskNotFound | ErrNotInitialized | ErrInvalidArgs | ErrCycleDetected | ErrAlreadyClaimed
  | ErrNotOwner | ErrDependency | ErrStoreCorrupted | ErrLockContention | ErrSchemaVersion | ErrNoWork
  | ErrAgentAtCapacity | ErrIdempotencyConflict | ErrLeaseNotActive | ErrInvalidTransition

datatype allocationReason =
    allocationReady | allocationNoPendingWork | allocationDependenciesIncomplete
  | allocationCapabilitiesUnavailable | allocationWorkOwnedByOthers | allocationWorkInProgress
  | allocationWorkerAtCapacity

record allocationQueueDiagnostics =
  q_Pending :: nat
  q_Ready :: nat
  q_CompatibleReady :: nat
  q_DependencyBlocked :: nat
  q_DependencyBlockers :: "string list"
  q_DependencyBlockersTotal :: nat
  q_DependencyBlockersTruncated :: bool
  q_CapabilityMismatch :: nat
  q_MissingCapabilities :: "string list"
  q_MissingCapabilitiesTotal :: nat
  q_MissingCapabilitiesTruncated :: bool
  q_InProgress :: nat
  q_Blocked :: nat
  q_Completed :: nat
  q_RetriedPending :: nat

record allocationWorkerDiagnostics =
  w_CurrentLoad :: nat
  w_MaxLoad :: int
  w_Owned :: nat
  w_OwnedByOthers :: nat

record allocationDiagnostics =
  d_Reason :: allocationReason
  d_RequestedCapabilities :: "string list"
  d_RequestedCapabilitiesTotal :: nat
  d_RequestedCapabilitiesTruncated :: bool
  d_Queue :: allocationQueueDiagnostics
  d_Worker :: "allocationWorkerDiagnostics option"

section \<open>Error values\<close>

datatype fmtarg = ArgId u64 | ArgStr string | ArgInt int | ArgDuration duration | ArgIds "u64 list"

datatype goerr =
    Sentinel sentinel
  | Errorf string "fmtarg list" "goerr list"
  | LifecycleCommandError ErrorCode string "fmtarg list"
  | PersistedInputError goerr
  | AllocationError goerr string "fmtarg list" allocationDiagnostics

text \<open>\<^verbatim>\<open>errors.Is\<close>: does the sentinel occur in the tree?\<close>

fun errors_Is :: "goerr \<Rightarrow> sentinel \<Rightarrow> bool" where
  "errors_Is (Sentinel x) t = (x = t)"
| "errors_Is (Errorf _ _ ws) t = (\<exists>w \<in> set ws. errors_Is w t)"
| "errors_Is (LifecycleCommandError _ _ _) t = False"
| "errors_Is (PersistedInputError e) t = errors_Is e t"
| "errors_Is (AllocationError e _ _ _) t = errors_Is e t"

fun first_some :: "'a option list \<Rightarrow> 'a option" where
  "first_some [] = None"
| "first_some (Some x # xs) = Some x"
| "first_some (None # xs) = first_some xs"

lemma first_some_eq_None: "first_some xs = None \<longleftrightarrow> (\<forall>x \<in> set xs. x = None)"
  by (induction xs rule: first_some.induct) auto

text \<open>\<^verbatim>\<open>errors.As\<close> for each of the three error types: the first match in the tree.\<close>

fun as_lifecycle :: "goerr \<Rightarrow> ErrorCode option" where
  "as_lifecycle (Sentinel _) = None"
| "as_lifecycle (Errorf _ _ ws) = first_some (map as_lifecycle ws)"
| "as_lifecycle (LifecycleCommandError c _ _) = Some c"
| "as_lifecycle (PersistedInputError e) = as_lifecycle e"
| "as_lifecycle (AllocationError e _ _ _) = as_lifecycle e"

fun isPersistedInputFailure :: "goerr \<Rightarrow> bool" where
  "isPersistedInputFailure (Sentinel _) = False"
| "isPersistedInputFailure (Errorf _ _ ws) = (\<exists>w \<in> set ws. isPersistedInputFailure w)"
| "isPersistedInputFailure (LifecycleCommandError _ _ _) = False"
| "isPersistedInputFailure (PersistedInputError _) = True"
| "isPersistedInputFailure (AllocationError e _ _ _) = isPersistedInputFailure e"

fun allocationDiagnosticsFromError :: "goerr \<Rightarrow> allocationDiagnostics option" where
  "allocationDiagnosticsFromError (Sentinel _) = None"
| "allocationDiagnosticsFromError (Errorf _ _ ws) = first_some (map allocationDiagnosticsFromError ws)"
| "allocationDiagnosticsFromError (LifecycleCommandError _ _ _) = None"
| "allocationDiagnosticsFromError (PersistedInputError e) = allocationDiagnosticsFromError e"
| "allocationDiagnosticsFromError (AllocationError _ _ _ d) = Some d"

definition persistedInputFailure :: "goerr option \<Rightarrow> goerr option" where
  "persistedInputFailure e = map_option PersistedInputError e"

definition lifecycleError :: "ErrorCode \<Rightarrow> string \<Rightarrow> fmtarg list \<Rightarrow> goerr" where
  "lifecycleError code format args = LifecycleCommandError code format args"

definition classifyCoordinationError :: "goerr \<Rightarrow> ErrorCode option" where
  "classifyCoordinationError err =
     (case as_lifecycle err of
        Some c \<Rightarrow> Some c
      | None \<Rightarrow>
          if errors_Is err errTaskNotFound \<or> errors_Is err errLeaseTaskNotFound then Some ErrTaskNotFound
          else if errors_Is err errAlreadyClaimed then Some ErrAlreadyClaimed
          else if errors_Is err errNotOwner \<or> errors_Is err errLeaseNotOwner then Some ErrNotOwner
          else if errors_Is err errDependency then Some ErrDependency
          else if errors_Is err errCycleDetected then Some ErrCycleDetected
          else if errors_Is err errLeaseNotActive then Some ErrLeaseNotActive
          else if errors_Is err errInvalidTransition then Some ErrInvalidTransition
          else if errors_Is err errNoReadyTasks then Some ErrNoWork
          else if errors_Is err errAgentAtCapacity then Some ErrAgentAtCapacity
          else if errors_Is err errAcquireRequestConflict then Some ErrIdempotencyConflict
          else None)"

section \<open>Codes of the surfaces\<close>

fun ErrorCode_string :: "ErrorCode \<Rightarrow> string" where
  "ErrorCode_string ErrTaskNotFound = ''TASK_NOT_FOUND''"
| "ErrorCode_string ErrNotInitialized = ''NOT_INITIALIZED''"
| "ErrorCode_string ErrInvalidArgs = ''INVALID_ARGS''"
| "ErrorCode_string ErrCycleDetected = ''CYCLE_DETECTED''"
| "ErrorCode_string ErrAlreadyClaimed = ''ALREADY_CLAIMED''"
| "ErrorCode_string ErrNotOwner = ''NOT_OWNER''"
| "ErrorCode_string ErrDependency = ''DEPENDENCY_ERROR''"
| "ErrorCode_string ErrStoreCorrupted = ''STORE_CORRUPTED''"
| "ErrorCode_string ErrLockContention = ''LOCK_CONTENTION''"
| "ErrorCode_string ErrSchemaVersion = ''SCHEMA_VERSION''"
| "ErrorCode_string ErrNoWork = ''NO_WORK''"
| "ErrorCode_string ErrAgentAtCapacity = ''AGENT_AT_CAPACITY''"
| "ErrorCode_string ErrIdempotencyConflict = ''IDEMPOTENCY_CONFLICT''"
| "ErrorCode_string ErrLeaseNotActive = ''LEASE_NOT_ACTIVE''"
| "ErrorCode_string ErrInvalidTransition = ''INVALID_TRANSITION''"

definition exitCode :: "ErrorCode \<Rightarrow> int" where
  "exitCode code =
     (if code \<in> {ErrTaskNotFound, ErrInvalidArgs, ErrNotOwner, ErrDependency, ErrInvalidTransition} then 1
      else if code \<in> {ErrNotInitialized, ErrStoreCorrupted, ErrSchemaVersion} then 2
      else if code = ErrLockContention then 3
      else if code = ErrCycleDetected then 4
      else if code = ErrAlreadyClaimed then 5
      else if code = ErrNoWork then 6
      else if code = ErrAgentAtCapacity then 7
      else if code = ErrIdempotencyConflict then 8
      else if code = ErrLeaseNotActive then 9
      else 1)"

abbreviation "rpcParse \<equiv> (- 32700 :: int)"
abbreviation "rpcInvalidRequest \<equiv> (- 32600 :: int)"
abbreviation "rpcMethodNotFound \<equiv> (- 32601 :: int)"
abbreviation "rpcInvalidParams \<equiv> (- 32602 :: int)"
abbreviation "rpcInternal \<equiv> (- 32603 :: int)"
abbreviation "rpcTaskNotFound \<equiv> (- 32001 :: int)"
abbreviation "rpcNotInitialized \<equiv> (- 32002 :: int)"
abbreviation "rpcCycleDetected \<equiv> (- 32003 :: int)"
abbreviation "rpcAlreadyClaimed \<equiv> (- 32004 :: int)"
abbreviation "rpcNotOwner \<equiv> (- 32005 :: int)"
abbreviation "rpcDependency \<equiv> (- 32006 :: int)"
abbreviation "rpcStoreCorrupted \<equiv> (- 32007 :: int)"
abbreviation "rpcLockContention \<equiv> (- 32008 :: int)"
abbreviation "rpcSchemaVersion \<equiv> (- 32009 :: int)"
abbreviation "rpcNoWork \<equiv> (- 32010 :: int)"
abbreviation "rpcAgentCapacity \<equiv> (- 32011 :: int)"
abbreviation "rpcIdempotencyConflict \<equiv> (- 32012 :: int)"
abbreviation "rpcLeaseNotActive \<equiv> (- 32013 :: int)"
abbreviation "rpcInvalidTransition \<equiv> (- 32014 :: int)"

fun rpcCodeForErrorCode :: "ErrorCode \<Rightarrow> int" where
  "rpcCodeForErrorCode ErrTaskNotFound = rpcTaskNotFound"
| "rpcCodeForErrorCode ErrNotInitialized = rpcNotInitialized"
| "rpcCodeForErrorCode ErrCycleDetected = rpcCycleDetected"
| "rpcCodeForErrorCode ErrAlreadyClaimed = rpcAlreadyClaimed"
| "rpcCodeForErrorCode ErrNotOwner = rpcNotOwner"
| "rpcCodeForErrorCode ErrDependency = rpcDependency"
| "rpcCodeForErrorCode ErrStoreCorrupted = rpcStoreCorrupted"
| "rpcCodeForErrorCode ErrLockContention = rpcLockContention"
| "rpcCodeForErrorCode ErrSchemaVersion = rpcSchemaVersion"
| "rpcCodeForErrorCode ErrNoWork = rpcNoWork"
| "rpcCodeForErrorCode ErrAgentAtCapacity = rpcAgentCapacity"
| "rpcCodeForErrorCode ErrIdempotencyConflict = rpcIdempotencyConflict"
| "rpcCodeForErrorCode ErrLeaseNotActive = rpcLeaseNotActive"
| "rpcCodeForErrorCode ErrInvalidTransition = rpcInvalidTransition"
| "rpcCodeForErrorCode ErrInvalidArgs = rpcInvalidParams"

text \<open>\<^verbatim>\<open>mcpErrorName\<close> looks the code up in a map; a missing key is the empty string.\<close>

definition mcpErrorName :: "int \<Rightarrow> string" where
  "mcpErrorName code =
     (case map_of
        [(rpcInvalidParams, ErrInvalidArgs), (rpcTaskNotFound, ErrTaskNotFound),
         (rpcNotInitialized, ErrNotInitialized), (rpcCycleDetected, ErrCycleDetected),
         (rpcAlreadyClaimed, ErrAlreadyClaimed), (rpcNotOwner, ErrNotOwner),
         (rpcDependency, ErrDependency), (rpcStoreCorrupted, ErrStoreCorrupted),
         (rpcLockContention, ErrLockContention), (rpcSchemaVersion, ErrSchemaVersion),
         (rpcNoWork, ErrNoWork), (rpcAgentCapacity, ErrAgentAtCapacity),
         (rpcIdempotencyConflict, ErrIdempotencyConflict), (rpcLeaseNotActive, ErrLeaseNotActive),
         (rpcInvalidTransition, ErrInvalidTransition)] code of
        Some c \<Rightarrow> ErrorCode_string c
      | None \<Rightarrow> [])"

definition conformanceDomainErrorCode :: "int \<Rightarrow> string" where
  "conformanceDomainErrorCode code =
     ErrorCode_string
       (if code = rpcTaskNotFound then ErrTaskNotFound
        else if code = rpcNotInitialized then ErrNotInitialized
        else if code = rpcCycleDetected then ErrCycleDetected
        else if code = rpcAlreadyClaimed then ErrAlreadyClaimed
        else if code = rpcNotOwner then ErrNotOwner
        else if code = rpcDependency then ErrDependency
        else if code = rpcStoreCorrupted then ErrStoreCorrupted
        else if code = rpcLockContention then ErrLockContention
        else if code = rpcSchemaVersion then ErrSchemaVersion
        else if code = rpcNoWork then ErrNoWork
        else if code = rpcAgentCapacity then ErrAgentAtCapacity
        else if code = rpcIdempotencyConflict then ErrIdempotencyConflict
        else if code = rpcLeaseNotActive then ErrLeaseNotActive
        else if code = rpcInvalidTransition then ErrInvalidTransition
        else ErrInvalidArgs)"

record rpcError =
  rpc_Code :: int
  rpc_Message :: goerr
  rpc_Data :: "allocationDiagnostics option"

definition rpcErrorFromDomain :: "goerr \<Rightarrow> rpcError" where
  "rpcErrorFromDomain err =
     (if isPersistedInputFailure err then \<lparr>rpc_Code = rpcInvalidParams, rpc_Message = err, rpc_Data = None\<rparr>
      else (case classifyCoordinationError err of
              Some code \<Rightarrow>
                (case allocationDiagnosticsFromError err of
                   Some d \<Rightarrow> \<lparr>rpc_Code = rpcCodeForErrorCode code, rpc_Message = err, rpc_Data = Some d\<rparr>
                 | None \<Rightarrow> \<lparr>rpc_Code = rpcCodeForErrorCode code, rpc_Message = err, rpc_Data = None\<rparr>)
            | None \<Rightarrow> \<lparr>rpc_Code = rpcStoreCorrupted, rpc_Message = err, rpc_Data = None\<rparr>))"

text \<open>
  The CLI's classification of a failed transaction, \<^verbatim>\<open>updateStore\<close> and \<^verbatim>\<open>failCoordination\<close>: the code
  with which the process fails.
\<close>

definition updateStore_code :: "goerr \<Rightarrow> ErrorCode" where
  "updateStore_code err =
     (if isPersistedInputFailure err then ErrInvalidArgs
      else (case classifyCoordinationError err of Some code \<Rightarrow> code | None \<Rightarrow> ErrStoreCorrupted))"

definition failCoordination_code :: "goerr \<Rightarrow> ErrorCode \<Rightarrow> ErrorCode" where
  "failCoordination_code err fallback =
     (if isPersistedInputFailure err then ErrInvalidArgs
      else (case classifyCoordinationError err of Some code \<Rightarrow> code | None \<Rightarrow> fallback))"

section \<open>The surfaces agree\<close>

text \<open>
  One classifier serves three renderings: the JSON-RPC code of a domain error is the code of the
  identifier with which the CLI fails.
\<close>

lemma rpc_code_agrees_with_cli: "rpc_Code (rpcErrorFromDomain err) = rpcCodeForErrorCode (updateStore_code err)"
  by (simp add: rpcErrorFromDomain_def updateStore_code_def split: option.splits)

lemma mcpErrorName_rpcCode: "mcpErrorName (rpcCodeForErrorCode c) = ErrorCode_string c"
  by (cases c) (simp_all add: mcpErrorName_def)

lemma conformance_rpcCode: "conformanceDomainErrorCode (rpcCodeForErrorCode c) = ErrorCode_string c"
  by (cases c) (simp_all add: conformanceDomainErrorCode_def)

lemma rpcCodeForErrorCode_inject: "rpcCodeForErrorCode a = rpcCodeForErrorCode b \<longleftrightarrow> a = b"
  by (cases a; cases b; simp)

lemma exitCode_range: "1 \<le> exitCode c \<and> exitCode c \<le> 9"
  by (cases c) (simp_all add: exitCode_def)

end
