(* ===== verification/Store.thy ===== *)
theory Store
  imports Errors
begin

text \<open>
  The package \<^verbatim>\<open>store\<close> (\<^verbatim>\<open>store/store.go\<close>): the persistent state and its primitive operations.
  A \<^verbatim>\<open>*Task\<close> held in the store's map is named by its map key; writing through the pointer is an
  update at that key. The first argument \<open>clk\<close> of an operation is what \<^verbatim>\<open>projectclock.Now\<close> returns
  inside it.
\<close>

section \<open>Data\<close>

type_synonym TaskStatus = u8

abbreviation StatusPending :: TaskStatus where "StatusPending \<equiv> 0"
abbreviation StatusInProgress :: TaskStatus where "StatusInProgress \<equiv> 1"
abbreviation StatusCompleted :: TaskStatus where "StatusCompleted \<equiv> 2"
abbreviation StatusBlocked :: TaskStatus where "StatusBlocked \<equiv> 3"

type_synonym EventType = string

abbreviation "EventTaskCreated \<equiv> ''created''"
abbreviation "EventTaskCompleted \<equiv> ''completed''"
abbreviation "EventTaskClaimed \<equiv> ''claimed''"
abbreviation "EventTaskReleased \<equiv> ''released''"
abbreviation "EventTaskBlocked \<equiv> ''blocked''"
abbreviation "EventTaskUnblocked \<equiv> ''unblocked''"
abbreviation "EventTaskUpdated \<equiv> ''updated''"
abbreviation "EventTaskDecomposed \<equiv> ''decomposed''"
abbreviation "EventTaskRemoved \<equiv> ''removed''"
abbreviation "EventDependencyAdded \<equiv> ''dep_added''"
abbreviation "EventDependencyRemoved \<equiv> ''dep_removed''"
abbreviation "EventLeaseExpired \<equiv> ''lease_expired''"
abbreviation "EventLeaseRenewed \<equiv> ''lease_renewed''"

record Event =
  event_ID :: u64
  event_Timestamp :: u64
  event_Type :: EventType
  event_TaskID :: u64
  event_Actor :: string
  event_Data :: "(string, string) gomap"

record LogEntry =
  log_Timestamp :: u64
  log_Agent :: string
  log_Message :: string

record Task =
  ID :: u64
  Title :: string
  Status :: TaskStatus
  Depends :: "string list"
  Created :: u64
  Completed :: u64
  Capabilities :: "string list"
  Owner :: string
  LeaseExpires :: u64
  Priority :: float32
  Lineage :: string
  Tags :: "string list"
  RetryCount :: u32
  LastError :: string
  BlockReason :: string
  Log :: "LogEntry list"
  Extra :: "(string, string) gomap"

record AcquisitionReceipt =
  receipt_RequestID :: string
  receipt_Operation :: string
  receipt_Fingerprint :: string
  receipt_Actor :: string
  receipt_Created :: u64
  receipt_Task :: Task

type_synonym tasks = "(u64, Task) gomap"

record TaskStore =
  SchemaVersion :: u32
  Tasks :: tasks
  NextID :: u64
  LastModified :: u64
  NextEventID :: u64
  Events :: "Event list"
  Acquisitions :: "(string, AcquisitionReceipt) gomap"

abbreviation CurrentSchemaVersion :: u32 where "CurrentSchemaVersion \<equiv> 4"

text \<open>Operations change the store in place and may fail half way: a failure has a state too.\<close>

type_synonym 'a res = "(goerr + 'a) \<times> TaskStore"

section \<open>Migrations\<close>

definition max_event_id :: "Event list \<Rightarrow> u64" where
  "max_event_id es = foldl (\<lambda>m e. if m < event_ID e then event_ID e else m) 0 es"

text \<open>
  The migrations. Those of versions 0 and 3 only replace \<^verbatim>\<open>nil\<close> maps and slices by empty ones, which
  the model does not tell apart; \<^verbatim>\<open>nil\<close> fields of tasks likewise.
\<close>

definition migrations :: "u32 \<Rightarrow> (TaskStore \<Rightarrow> TaskStore) option" where
  "migrations v =
     (if v = 0 then Some (\<lambda>s. s\<lparr>SchemaVersion := 1\<rparr>)
      else if v = 1 then
        Some (\<lambda>s. (if NextEventID s = 0
                   then s\<lparr>NextEventID := (if Events s \<noteq> [] then max_event_id (Events s) + 1 else 1)\<rparr>
                   else s)\<lparr>SchemaVersion := 2\<rparr>)
      else if v = 2 then Some (\<lambda>s. s\<lparr>SchemaVersion := 3\<rparr>)
      else if v = 3 then Some (\<lambda>s. s\<lparr>SchemaVersion := 4\<rparr>)
      else None)"

text \<open>The loop \<^verbatim>\<open>for v := s.SchemaVersion; v < CurrentSchemaVersion; v++\<close>, by the rounds left.\<close>

fun migrate_rounds :: "nat \<Rightarrow> u32 \<Rightarrow> TaskStore \<Rightarrow> goerr + TaskStore" where
  "migrate_rounds 0 v s = Inr s"
| "migrate_rounds (Suc n) v s =
     (case migrations v of
        None \<Rightarrow> Inl (Errorf ''no migration path from schema version %d to %d'' [ArgInt (uint v), ArgInt (uint (v + 1))] [])
      | Some migrate \<Rightarrow> migrate_rounds n (v + 1) (migrate s))"

definition runMigrations :: "TaskStore \<Rightarrow> goerr + TaskStore" where
  "runMigrations s = migrate_rounds (unat CurrentSchemaVersion - unat (SchemaVersion s)) (SchemaVersion s) s"

section \<open>Operations on the store\<close>

definition NewTaskStore :: TaskStore where
  "NewTaskStore = \<lparr>SchemaVersion = CurrentSchemaVersion, Tasks = [], NextID = 1, LastModified = 0,
                   NextEventID = 1, Events = [], Acquisitions = []\<rparr>"

definition AddTask :: "gotime \<Rightarrow> string \<Rightarrow> string list \<Rightarrow> TaskStore \<Rightarrow> Task \<times> TaskStore" where
  "AddTask clk title depends s =
     (let task = \<lparr>ID = NextID s, Title = title, Status = StatusPending, Depends = depends,
                  Created = millis clk, Completed = 0, Capabilities = [], Owner = [], LeaseExpires = 0,
                  Priority = f_zero, Lineage = [], Tags = [], RetryCount = 0, LastError = [],
                  BlockReason = [], Log = [], Extra = []\<rparr>
      in (task, s\<lparr>Tasks := AList.update (NextID s) task (Tasks s), NextID := NextID s + 1,
                  LastModified := millis clk\<rparr>))"

definition GetTask :: "TaskStore \<Rightarrow> u64 \<Rightarrow> Task option" where
  "GetTask s i = map_of (Tasks s) i"

definition put_task :: "u64 \<Rightarrow> Task \<Rightarrow> TaskStore \<Rightarrow> TaskStore" where
  "put_task i t s = s\<lparr>Tasks := AList.update i t (Tasks s)\<rparr>"

definition AddEvent ::
  "gotime \<Rightarrow> EventType \<Rightarrow> u64 \<Rightarrow> string \<Rightarrow> (string, string) gomap \<Rightarrow> TaskStore \<Rightarrow> TaskStore" where
  "AddEvent clk eventType taskID actor data s =
     s\<lparr>Events := Events s @ [\<lparr>event_ID = NextEventID s, event_Timestamp = millis clk, event_Type = eventType,
                             event_TaskID = taskID, event_Actor = actor, event_Data = data\<rparr>],
       NextEventID := NextEventID s + 1, LastModified := millis clk\<rparr>"

definition EventsSince :: "TaskStore \<Rightarrow> u64 \<Rightarrow> Event list" where
  "EventsSince s i = (if i = 0 then Events s else dropWhile (\<lambda>e. \<not> i < event_ID e) (Events s))"

definition AddLog :: "gotime \<Rightarrow> u64 \<Rightarrow> string \<Rightarrow> string \<Rightarrow> TaskStore \<Rightarrow> bool \<times> TaskStore" where
  "AddLog clk i agent message s =
     (case map_of (Tasks s) i of
        None \<Rightarrow> (False, s)
      | Some task \<Rightarrow>
          (True, (put_task i (task\<lparr>Log := Log task @ [\<lparr>log_Timestamp = millis clk, log_Agent = agent,
                                                       log_Message = message\<rparr>]\<rparr>) s)
                 \<lparr>LastModified := millis clk\<rparr>))"

definition RemoveTask :: "gotime \<Rightarrow> u64 \<Rightarrow> TaskStore \<Rightarrow> bool \<times> TaskStore" where
  "RemoveTask clk i s =
     (case map_of (Tasks s) i of
        None \<Rightarrow> (False, s)
      | Some _ \<Rightarrow>
          (True, s\<lparr>Tasks := AList.delete i (Tasks s),
                   Acquisitions := filter (\<lambda>(_, receipt). ID (receipt_Task receipt) \<noteq> i) (Acquisitions s),
                   LastModified := millis clk\<rparr>))"

definition GetAllTasks :: "TaskStore \<Rightarrow> Task list" where
  "GetAllTasks s = map snd (Tasks s)"

section \<open>Lease expiry\<close>

definition leaseIsExpired :: "u64 \<Rightarrow> u64 \<Rightarrow> bool" where
  "leaseIsExpired expiry now \<longleftrightarrow> expiry \<noteq> 0 \<and> expiry \<le> now"

definition task_expired :: "u64 \<Rightarrow> Task \<Rightarrow> bool" where
  "task_expired now t \<longleftrightarrow> Status t = StatusInProgress \<and> leaseIsExpired (LeaseExpires t) now"

definition HasExpiredLeases :: "gotime \<Rightarrow> TaskStore \<Rightarrow> bool" where
  "HasExpiredLeases clk s \<longleftrightarrow> list_ex (task_expired (millis clk)) (GetAllTasks s)"

text \<open>
  The body of the reclaiming loop: the lookup is by the task's own ID, so a task stored under
  another key is a nil dereference, which is the result \<open>None\<close>.
\<close>

fun clean_each :: "gotime \<Rightarrow> u64 list \<Rightarrow> TaskStore \<Rightarrow> TaskStore option" where
  "clean_each clk [] s = Some s"
| "clean_each clk (i # is) s =
     (case map_of (Tasks s) i of
        None \<Rightarrow> None
      | Some task \<Rightarrow>
          clean_each clk is
            (AddEvent clk EventLeaseExpired (ID task) (Owner task) [(''owner'', Owner task)]
              (put_task i (task\<lparr>Status := StatusPending, Owner := [], LeaseExpires := 0\<rparr>) s)))"

definition expired_ids :: "u64 \<Rightarrow> TaskStore \<Rightarrow> u64 list" where
  "expired_ids now s = go_sort (<) (map ID (filter (task_expired now) (GetAllTasks s)))"

definition CleanExpiredLeases :: "gotime \<Rightarrow> TaskStore \<Rightarrow> (nat \<times> TaskStore) option" where
  "CleanExpiredLeases clk s =
     (let expired = expired_ids (millis clk) s
      in case clean_each clk expired s of
           None \<Rightarrow> None
         | Some s' \<Rightarrow> Some (length expired, if expired \<noteq> [] then s'\<lparr>LastModified := millis clk\<rparr> else s'))"

section \<open>Invariants of the store\<close>

text \<open>Every map has distinct keys, and a task is stored under its own ID.\<close>

definition tasks_wf :: "tasks \<Rightarrow> bool" where
  "tasks_wf ts \<longleftrightarrow> distinct (map fst ts) \<and> (\<forall>(k, t) \<in> set ts. k = ID t)"

text \<open>The event log is strictly increasing and below the next event ID.\<close>

definition events_wf :: "TaskStore \<Rightarrow> bool" where
  "events_wf s \<longleftrightarrow>
     sorted_wrt (<) (map event_ID (Events s)) \<and> (\<forall>e \<in> set (Events s). event_ID e < NextEventID s)"


named_theorems store_simps \<open>what the primitive operations do to each field of the store\<close>

lemma map_of_iff_set: "distinct (map fst m) \<Longrightarrow> map_of m k = Some v \<longleftrightarrow> (k, v) \<in> set m"
  by (auto dest: map_of_SomeD)

lemma map_of_put_task [store_simps]: "map_of (Tasks (put_task i t s)) = (map_of (Tasks s))(i \<mapsto> t)"
  by (simp add: put_task_def update_conv')

lemma put_task_fields [store_simps]:
  "NextID (put_task i t s) = NextID s" "NextEventID (put_task i t s) = NextEventID s"
  "Events (put_task i t s) = Events s" "Acquisitions (put_task i t s) = Acquisitions s"
  "SchemaVersion (put_task i t s) = SchemaVersion s"
  by (simp_all add: put_task_def)

lemma AddEvent_fields [store_simps]:
  "Tasks (AddEvent clk ty i actor data s) = Tasks s"
  "NextID (AddEvent clk ty i actor data s) = NextID s"
  "NextEventID (AddEvent clk ty i actor data s) = NextEventID s + 1"
  "Acquisitions (AddEvent clk ty i actor data s) = Acquisitions s"
  "SchemaVersion (AddEvent clk ty i actor data s) = SchemaVersion s"
  by (simp_all add: AddEvent_def)

lemma AddLog_fields [store_simps]:
  "NextID (snd (AddLog clk i agent m s)) = NextID s"
  "NextEventID (snd (AddLog clk i agent m s)) = NextEventID s"
  "Events (snd (AddLog clk i agent m s)) = Events s"
  "Acquisitions (snd (AddLog clk i agent m s)) = Acquisitions s"
  "SchemaVersion (snd (AddLog clk i agent m s)) = SchemaVersion s"
  by (simp_all add: AddLog_def put_task_def split: option.splits)

definition log_entry :: "gotime \<Rightarrow> string \<Rightarrow> string \<Rightarrow> LogEntry" where
  "log_entry clk agent m = \<lparr>log_Timestamp = millis clk, log_Agent = agent, log_Message = m\<rparr>"

lemma map_of_AddLog [store_simps]:
  "map_of (Tasks (snd (AddLog clk i agent m s))) j =
     (if j = i then map_option (\<lambda>t. t\<lparr>Log := Log t @ [log_entry clk agent m]\<rparr>) (map_of (Tasks s) i)
      else map_of (Tasks s) j)"
  by (auto simp: AddLog_def log_entry_def update_conv' put_task_def split: option.splits)

lemma AddTask_fields [store_simps]:
  "Tasks (snd (AddTask clk title deps s)) = AList.update (NextID s) (fst (AddTask clk title deps s)) (Tasks s)"
  "NextID (snd (AddTask clk title deps s)) = NextID s + 1"
  "NextEventID (snd (AddTask clk title deps s)) = NextEventID s"
  "Events (snd (AddTask clk title deps s)) = Events s"
  "Acquisitions (snd (AddTask clk title deps s)) = Acquisitions s"
  "ID (fst (AddTask clk title deps s)) = NextID s"
  "Depends (fst (AddTask clk title deps s)) = deps"
  "Status (fst (AddTask clk title deps s)) = StatusPending"
  by (simp_all add: AddTask_def Let_def)

lemma keys_update: "map fst (AList.update k v m) = (if k \<in> fst ` set m then map fst m else map fst m @ [k])"
  by (induction m) auto

lemma set_update_subset: "set (AList.update k v m) \<subseteq> insert (k, v) (set m)"
  by (induction m) auto

lemma tasks_wfD: "tasks_wf ts \<Longrightarrow> map_of ts i = Some t \<Longrightarrow> ID t = i"
  by (auto simp: tasks_wf_def dest: map_of_SomeD)

lemma tasks_wf_distinct: "tasks_wf ts \<Longrightarrow> distinct (map fst ts)"
  by (simp add: tasks_wf_def)

lemma tasks_wf_iff_set: "tasks_wf ts \<Longrightarrow> (k, t) \<in> set ts \<longleftrightarrow> map_of ts k = Some t"
  by (simp add: map_of_iff_set tasks_wf_def)

lemma tasks_wf_Nil [simp]: "tasks_wf []"
  by (simp add: tasks_wf_def)

lemma tasks_wf_update: "tasks_wf ts \<Longrightarrow> ID t = k \<Longrightarrow> tasks_wf (AList.update k t ts)"
  using set_update_subset [of k t ts]
  by (auto simp: tasks_wf_def distinct_update)

lemma tasks_wf_delete: "tasks_wf ts \<Longrightarrow> tasks_wf (AList.delete k ts)"
  using distinct_delete [of ts k] by (auto simp: tasks_wf_def AList.delete_eq)

lemma tasks_wf_put_task: "tasks_wf (Tasks s) \<Longrightarrow> ID t = i \<Longrightarrow> tasks_wf (Tasks (put_task i t s))"
  by (simp add: put_task_def tasks_wf_update)

lemma tasks_wf_AddLog: "tasks_wf (Tasks s) \<Longrightarrow> tasks_wf (Tasks (snd (AddLog clk i agent m s)))"
  by (auto simp: AddLog_def put_task_def dest: tasks_wfD split: option.splits intro!: tasks_wf_update)

lemma tasks_wf_ids: "tasks_wf ts \<Longrightarrow> map (\<lambda>(k, t). ID t) ts = map fst ts"
  by (auto simp: tasks_wf_def)

lemma tasks_wf_all_ids: "tasks_wf (Tasks s) \<Longrightarrow> map ID (GetAllTasks s) = map fst (Tasks s)"
  by (auto simp: tasks_wf_def GetAllTasks_def)

lemma GetAllTasks_set: "tasks_wf (Tasks s) \<Longrightarrow> t \<in> set (GetAllTasks s) \<longleftrightarrow> map_of (Tasks s) (ID t) = Some t"
  by (force simp: GetAllTasks_def tasks_wf_def map_of_iff_set)

section \<open>Events are appended, numbered consecutively\<close>

lemma events_wf_AddEvent:
  assumes "events_wf s" "unat (NextEventID s) + 1 < 2 ^ 64"
  shows "events_wf (AddEvent clk ty i actor data s)"
proof -
  have "NextEventID s < NextEventID s + 1" using assms(2) by (intro word_less_succ) simp
  then show ?thesis
    using assms(1) by (auto simp: events_wf_def AddEvent_def sorted_wrt_append intro: less_trans)
qed

lemma EventsSince_filter:
  assumes "events_wf s"
  shows "EventsSince s i = (if i = 0 then Events s else filter (\<lambda>e. i < event_ID e) (Events s))"
proof -
  have "sorted_wrt (<) (map event_ID es) \<Longrightarrow> dropWhile (\<lambda>e. \<not> i < event_ID e) es = filter (\<lambda>e. i < event_ID e) es" for es
  proof (induction es)
    case (Cons e es)
    have "filter (\<lambda>e. i < event_ID e) es = es" if "i < event_ID e"
      using that Cons.prems by (intro filter_True) (auto intro: less_trans)
    with Cons show ?case by auto
  qed simp
  from this [of "Events s"] show ?thesis using assms by (simp add: EventsSince_def events_wf_def)
qed

section \<open>Reclaiming expired leases\<close>

definition reclaimed :: "Task \<Rightarrow> Task" where
  "reclaimed t = t\<lparr>Status := StatusPending, Owner := [], LeaseExpires := 0\<rparr>"

lemma reclaimed_fields [simp]:
  "ID (reclaimed t) = ID t" "Depends (reclaimed t) = Depends t" "Status (reclaimed t) = StatusPending"
  "Owner (reclaimed t) = []" "LeaseExpires (reclaimed t) = 0" "Priority (reclaimed t) = Priority t"
  "Completed (reclaimed t) = Completed t" "Capabilities (reclaimed t) = Capabilities t"
  by (simp_all add: reclaimed_def)

text \<open>Everything but the tasks, the event log and the modification time is left alone.\<close>

definition same_frame :: "TaskStore \<Rightarrow> TaskStore \<Rightarrow> bool" where
  "same_frame s s' \<longleftrightarrow> NextID s' = NextID s \<and> Acquisitions s' = Acquisitions s \<and> SchemaVersion s' = SchemaVersion s"

lemma same_frame_refl [simp]: "same_frame s s"
  by (simp add: same_frame_def)

lemma same_frame_put_task [simp]: "same_frame s (put_task i t s)"
  by (simp add: same_frame_def store_simps)

lemma same_frame_AddEvent [simp]: "same_frame s (AddEvent clk ty i actor data s)"
  by (simp add: same_frame_def store_simps)

lemma same_frame_trans: "same_frame s s' \<Longrightarrow> same_frame s' s'' \<Longrightarrow> same_frame s s''"
  by (simp add: same_frame_def)

lemma list_all2_mono_elem:
  assumes "list_all2 P xs ys" "\<And>x y. x \<in> set xs \<Longrightarrow> P x y \<Longrightarrow> Q x y"
  shows "list_all2 Q xs ys"
  using assms by (induction xs ys rule: list_all2_induct) auto

lemma clean_each_spec:
  assumes "tasks_wf (Tasks s)" "\<forall>i \<in> set is. map_of (Tasks s) i \<noteq> None" "distinct is"
  shows "\<exists>s' es. clean_each clk is s = Some s' \<and> tasks_wf (Tasks s') \<and> same_frame s s'
    \<and> map fst (Tasks s') = map fst (Tasks s)
    \<and> map_of (Tasks s') = (\<lambda>j. if j \<in> set is then map_option reclaimed (map_of (Tasks s) j) else map_of (Tasks s) j)
    \<and> Events s' = Events s @ es \<and> NextEventID s' = NextEventID s + of_nat (length is)
    \<and> list_all2 (\<lambda>i e. event_TaskID e = i \<and> event_Type e = EventLeaseExpired
         \<and> event_Actor e = Owner (the (map_of (Tasks s) i))) is es"
  using assms
proof (induction "is" arbitrary: s)
  case Nil
  then show ?case by auto
next
  case (Cons i js)
  then obtain t where t: "map_of (Tasks s) i = Some t" by auto
  then have idt: "ID t = i" using Cons.prems(1) by (rule tasks_wfD [rotated])
  let ?s1 = "AddEvent clk EventLeaseExpired (ID t) (Owner t) [(''owner'', Owner t)] (put_task i (reclaimed t) s)"
  have m1: "map_of (Tasks ?s1) = (map_of (Tasks s))(i \<mapsto> reclaimed t)" by (simp add: store_simps)
  have k1: "map fst (Tasks ?s1) = map fst (Tasks s)"
    using t by (force simp: store_simps put_task_def keys_update dest: map_of_SomeD)
  have "tasks_wf (Tasks ?s1)" using Cons.prems(1) idt by (simp add: store_simps tasks_wf_put_task)
  moreover have "\<forall>j \<in> set js. map_of (Tasks ?s1) j \<noteq> None" using Cons.prems(2) by (simp add: m1)
  ultimately obtain s' es where s': "clean_each clk js ?s1 = Some s'" "tasks_wf (Tasks s')" "same_frame ?s1 s'"
    "map fst (Tasks s') = map fst (Tasks ?s1)"
    "map_of (Tasks s') = (\<lambda>j. if j \<in> set js then map_option reclaimed (map_of (Tasks ?s1) j) else map_of (Tasks ?s1) j)"
    "Events s' = Events ?s1 @ es" "NextEventID s' = NextEventID ?s1 + of_nat (length js)"
    "list_all2 (\<lambda>j e. event_TaskID e = j \<and> event_Type e = EventLeaseExpired
       \<and> event_Actor e = Owner (the (map_of (Tasks ?s1) j))) js es"
    using Cons.IH [of ?s1] Cons.prems(3) by auto
  let ?e = "last (Events ?s1)"
  have es: "Events s' = Events s @ (?e # es)" using s'(6) by (simp add: AddEvent_def put_task_def)
  have e: "event_TaskID ?e = i" "event_Type ?e = EventLeaseExpired" "event_Actor ?e = Owner t"
    by (simp_all add: AddEvent_def idt)
  have "list_all2 (\<lambda>j e. event_TaskID e = j \<and> event_Type e = EventLeaseExpired
       \<and> event_Actor e = Owner (the (map_of (Tasks s) j))) js es"
    using s'(8) by (rule list_all2_mono_elem) (use Cons.prems(3) in \<open>auto simp: m1\<close>)
  then have l: "list_all2 (\<lambda>j e. event_TaskID e = j \<and> event_Type e = EventLeaseExpired
       \<and> event_Actor e = Owner (the (map_of (Tasks s) j))) (i # js) (?e # es)"
    using e t by simp
  have fr: "same_frame s s'" using s'(3) by (simp add: same_frame_def store_simps)
  have c: "clean_each clk (i # js) s = Some s'" using s'(1) t by (simp add: reclaimed_def)
  have mm: "map_of (Tasks s') = (\<lambda>j. if j \<in> set (i # js) then map_option reclaimed (map_of (Tasks s) j) else map_of (Tasks s) j)"
    using s'(5) t Cons.prems(3) by (auto simp: m1 fun_eq_iff)
  have ne: "NextEventID s' = NextEventID s + of_nat (length (i # js))"
    using s'(7) by (simp add: store_simps)
  show ?case
    by (intro exI [of _ s'] exI [of _ "?e # es"] conjI c s'(2) fr mm es ne l s'(4) [THEN trans] k1)
qed

interpretation u64_order: slice_order "(<) :: u64 \<Rightarrow> u64 \<Rightarrow> bool" UNIV
  by unfold_locales auto

lemma expired_ids_spec:
  assumes "tasks_wf (Tasks s)"
  shows "distinct (expired_ids now s)" and "sorted_wrt (<) (expired_ids now s)"
    and "i \<in> set (expired_ids now s) \<longleftrightarrow> (\<exists>t. map_of (Tasks s) i = Some t \<and> task_expired now t)"
proof -
  have "distinct (map ID (GetAllTasks s))"
    using assms by (simp add: tasks_wf_all_ids) (simp add: tasks_wf_def)
  then have d: "distinct (map ID (filter (task_expired now) (GetAllTasks s)))" by (rule distinct_map_filter)
  then show "distinct (expired_ids now s)" by (simp add: expired_ids_def)
  show "sorted_wrt (<) (expired_ids now s)" unfolding expired_ids_def by (rule u64_order.go_sort_sorted [OF _ d]) simp
  have "t \<in> set (GetAllTasks s) \<and> ID t = i \<longleftrightarrow> map_of (Tasks s) i = Some t" for t
    using GetAllTasks_set [OF assms, of t] tasks_wfD [OF assms, of i t] by auto
  then show "i \<in> set (expired_ids now s) \<longleftrightarrow> (\<exists>t. map_of (Tasks s) i = Some t \<and> task_expired now t)"
    by (simp add: expired_ids_def image_iff Bex_def) metis
qed

text \<open>The task that a lease sweep at time \<open>now\<close> leaves.\<close>

definition swept :: "u64 \<Rightarrow> Task \<Rightarrow> Task" where
  "swept now t = (if task_expired now t then reclaimed t else t)"

lemma not_expired_reclaimed [simp]: "\<not> task_expired now (reclaimed t)"
  by (simp add: task_expired_def leaseIsExpired_def)

lemma not_expired_swept [simp]: "\<not> task_expired now (swept now t)"
  by (simp add: swept_def)

lemma swept_fields [simp]: "ID (swept now t) = ID t" "Depends (swept now t) = Depends t"
  by (simp_all add: swept_def)

lemma HasExpiredLeases_iff:
  assumes "tasks_wf (Tasks s)"
  shows "HasExpiredLeases clk s \<longleftrightarrow> expired_ids (millis clk) s \<noteq> []"
  by (auto simp: HasExpiredLeases_def expired_ids_def list_ex_iff filter_empty_conv)

lemma CleanExpiredLeases_spec:
  assumes "tasks_wf (Tasks s)"
  shows "\<exists>s' es. CleanExpiredLeases clk s = Some (length (expired_ids (millis clk) s), s')
    \<and> tasks_wf (Tasks s') \<and> same_frame s s' \<and> map fst (Tasks s') = map fst (Tasks s)
    \<and> map_of (Tasks s') = (\<lambda>j. map_option (swept (millis clk)) (map_of (Tasks s) j))
    \<and> Events s' = Events s @ es
    \<and> NextEventID s' = NextEventID s + of_nat (length (expired_ids (millis clk) s))
    \<and> list_all2 (\<lambda>i e. event_TaskID e = i \<and> event_Type e = EventLeaseExpired
         \<and> event_Actor e = Owner (the (map_of (Tasks s) i))) (expired_ids (millis clk) s) es"
proof -
  let ?is = "expired_ids (millis clk) s"
  note ids = expired_ids_spec [OF assms, where now = "millis clk"]
  have present: "\<forall>i \<in> set ?is. map_of (Tasks s) i \<noteq> None" using ids(3) by auto
  from clean_each_spec [OF assms present ids(1), of clk]
  obtain s' es where s': "clean_each clk ?is s = Some s'" "tasks_wf (Tasks s')" "same_frame s s'"
    "map fst (Tasks s') = map fst (Tasks s)"
    "map_of (Tasks s') = (\<lambda>j. if j \<in> set ?is then map_option reclaimed (map_of (Tasks s) j) else map_of (Tasks s) j)"
    "Events s' = Events s @ es" "NextEventID s' = NextEventID s + of_nat (length ?is)"
    "list_all2 (\<lambda>i e. event_TaskID e = i \<and> event_Type e = EventLeaseExpired
         \<and> event_Actor e = Owner (the (map_of (Tasks s) i))) ?is es"
    by blast
  have m: "map_of (Tasks s') = (\<lambda>j. map_option (swept (millis clk)) (map_of (Tasks s) j))"
  proof (rule ext)
    fix j
    show "map_of (Tasks s') j = map_option (swept (millis clk)) (map_of (Tasks s) j)"
      by (cases "map_of (Tasks s) j") (auto simp: s'(5) swept_def ids(3))
  qed
  define r where "r = (if ?is \<noteq> [] then s'\<lparr>LastModified := millis clk\<rparr> else s')"
  have c: "CleanExpiredLeases clk s = Some (length ?is, r)" using s'(1) by (simp add: CleanExpiredLeases_def r_def)
  have f: "Tasks r = Tasks s'" "Events r = Events s'" "NextEventID r = NextEventID s'" "same_frame s r"
    using s'(3) by (simp_all add: r_def same_frame_def)
  show ?thesis
    by (rule exI [of _ r], rule exI [of _ es], unfold f(1-3)) (intro conjI c f(4) s'(2,4,6-8) m)
qed

lemma swept_not_expired_all:
  assumes "tasks_wf ts" "map_of ts = (\<lambda>j. map_option (swept now) (m j))" "t \<in> snd ` set ts"
  shows "\<not> task_expired now t"
proof -
  from assms(3) obtain k where "map_of ts k = Some t"
    using assms(1) by (auto simp: tasks_wf_def map_of_iff_set)
  then show ?thesis using assms(2) by auto
qed

lemma CleanExpiredLeases_idle:
  assumes "\<not> HasExpiredLeases clk s"
  shows "CleanExpiredLeases clk s = Some (0, s)"
proof -
  have "expired_ids (millis clk) s = []"
    using assms by (auto simp: HasExpiredLeases_def expired_ids_def list_ex_iff filter_empty_conv)
  then show ?thesis by (simp add: CleanExpiredLeases_def)
qed

section \<open>Properties\<close>

text \<open>
  C9: the lease sweep that opens every transaction. On a store whose tasks are stored under their
  own IDs it never dereferences a nil task. Exactly the tasks in progress whose lease has run out
  go back to pending without owner or lease, every other task is untouched, one
  \<^verbatim>\<open>lease_expired\<close> event per task is appended, in the order of the task IDs and under the old
  owner's name; and a second sweep at the same time finds nothing to do.
\<close>

theorem CleanExpiredLeases_reclaims:
  assumes "tasks_wf (Tasks s)"
  shows "\<exists>s' es. CleanExpiredLeases clk s = Some (length es, s')
    \<and> (\<forall>i. map_of (Tasks s') i = map_option (swept (millis clk)) (map_of (Tasks s) i))
    \<and> Events s' = Events s @ es
    \<and> sorted_wrt (<) (map event_TaskID es)
    \<and> (\<forall>e \<in> set es. \<exists>t. map_of (Tasks s) (event_TaskID e) = Some t \<and> task_expired (millis clk) t
         \<and> event_Type e = EventLeaseExpired \<and> event_Actor e = Owner t)
    \<and> (\<forall>i t. map_of (Tasks s) i = Some t \<and> task_expired (millis clk) t \<longrightarrow> i \<in> event_TaskID ` set es)
    \<and> CleanExpiredLeases clk s' = Some (0, s')"
proof -
  let ?is = "expired_ids (millis clk) s"
  note ids = expired_ids_spec [OF assms, where now = "millis clk"]
  from CleanExpiredLeases_spec [OF assms, of clk] obtain s' es where
    s': "CleanExpiredLeases clk s = Some (length ?is, s')" "tasks_wf (Tasks s')"
    "map_of (Tasks s') = (\<lambda>j. map_option (swept (millis clk)) (map_of (Tasks s) j))"
    "Events s' = Events s @ es"
    and es: "list_all2 (\<lambda>i e. event_TaskID e = i \<and> event_Type e = EventLeaseExpired
         \<and> event_Actor e = Owner (the (map_of (Tasks s) i))) ?is es"
    by blast
  from es have len: "length es = length ?is" and tids: "map event_TaskID es = ?is"
    by (auto dest: list_all2_lengthD simp: list_all2_conv_all_nth intro: nth_equalityI)
  have each: "event_Type e = EventLeaseExpired \<and> event_Actor e = Owner (the (map_of (Tasks s) (event_TaskID e)))"
    if "e \<in> set es" for e
    using es that by (auto simp: list_all2_conv_all_nth in_set_conv_nth)
  have tid: "event_TaskID e \<in> set ?is" if "e \<in> set es" for e
    using that tids by (metis image_eqI list.set_map)
  have "\<not> HasExpiredLeases clk s'"
    using swept_not_expired_all [OF s'(2,3)] by (auto simp: HasExpiredLeases_def list_ex_iff GetAllTasks_def)
  then have idle: "CleanExpiredLeases clk s' = Some (0, s')" by (rule CleanExpiredLeases_idle)
  have all: "event_TaskID ` set es = set ?is" using tids by (metis list.set_map)
  show ?thesis
    by (rule exI [of _ s'], rule exI [of _ es])
       (use s'(1,3,4) len tids ids each tid idle all in \<open>auto, fastforce\<close>)
qed

definition lapsed_store :: TaskStore where
  "lapsed_store =
     (let (t, s) = AddTask 0 ''deploy'' [] NewTaskStore
      in put_task 1 (t\<lparr>Status := StatusInProgress, Owner := ''ann'', LeaseExpires := 5\<rparr>) s)"

lemma CleanExpiredLeases_reclaims_witness:
  "tasks_wf (Tasks lapsed_store)
   \<and> (\<exists>s'. CleanExpiredLeases 6000000 lapsed_store = Some (1, s') \<and> map_option Status (map_of (Tasks s') 1) = Some StatusPending)"
proof -
  have wf: "tasks_wf (Tasks lapsed_store)"
    by (simp add: lapsed_store_def tasks_wf_def put_task_def AddTask_def NewTaskStore_def Let_def)
  have m: "millis 6000000 = 6" by (simp add: millis_def UnixMilli_def)
  have t: "map_option (task_expired 6) (map_of (Tasks lapsed_store) 1) = Some True" "Events lapsed_store = []"
    "map fst (Tasks lapsed_store) = [1]"
    by (simp_all add: lapsed_store_def put_task_def AddTask_def NewTaskStore_def Let_def task_expired_def leaseIsExpired_def)
  from CleanExpiredLeases_reclaims [OF wf, of 6000000] obtain s' and es :: "Event list" where
    s': "CleanExpiredLeases 6000000 lapsed_store = Some (length es, s')"
    "\<forall>i. map_of (Tasks s') i = map_option (swept 6) (map_of (Tasks lapsed_store) i)"
    "sorted_wrt (<) (map event_TaskID es)"
    "\<forall>e \<in> set es. \<exists>t. map_of (Tasks lapsed_store) (event_TaskID e) = Some t \<and> task_expired 6 t
         \<and> event_Type e = EventLeaseExpired \<and> event_Actor e = Owner t"
    "\<forall>i t. map_of (Tasks lapsed_store) i = Some t \<and> task_expired 6 t \<longrightarrow> i \<in> event_TaskID ` set es"
    unfolding m by blast
  have "set (map event_TaskID es) = {1}"
    using s'(4,5) t by (auto dest!: map_of_SomeD)
  moreover have "distinct (map event_TaskID es)" using s'(3) by (simp add: strict_sorted_iff)
  ultimately have "length (map event_TaskID es) = 1" by (metis distinct_card card.empty card_insert_disjoint empty_iff finite.emptyI One_nat_def)
  then show ?thesis using wf s'(1,2) t by (auto simp: swept_def)
qed

end
