(* ===== verification/Dag.thy ===== *)
theory Dag
  imports Store
begin

text \<open>
  The package \<^verbatim>\<open>dag\<close> (\<^verbatim>\<open>dag/dag.go\<close>) and \<^verbatim>\<open>canonicalDependency\<close> of \<^verbatim>\<open>coordination_ops.go\<close>:
  dependency references, the dependency graph, cycle detection by depth-first search, and which
  tasks are ready or blocked. The search is proved to find a cycle exactly when the graph has
  one, and the path it reports to be one.
\<close>

section \<open>Dependency references\<close>

definition alias_char :: "char \<Rightarrow> bool" where
  "alias_char c \<longleftrightarrow>
     (byte CHR ''a'' \<le> (byte c :: nat) \<and> byte c \<le> (byte CHR ''z'' :: nat))
     \<or> (byte CHR ''A'' \<le> (byte c :: nat) \<and> byte c \<le> (byte CHR ''Z'' :: nat))
     \<or> (byte CHR ''0'' \<le> (byte c :: nat) \<and> byte c \<le> (byte CHR ''9'' :: nat))
     \<or> c = CHR ''.'' \<or> c = CHR ''_'' \<or> c = CHR ''-''"

definition ParseTaskURI :: "string \<Rightarrow> goerr + (string \<times> u64)" where
  "ParseTaskURI uri =
     (if \<not> HasPrefix uri ''todo://''
      then Inl (Errorf ''dependency %q must be a task ID or todo://repository/id URI'' [ArgStr uri] [])
      else
        (let parts = Split CHR ''/'' (TrimPrefix uri ''todo://'')
         in if length parts \<noteq> 2 \<or> parts ! 0 = [] \<or> parts ! 1 = []
            then Inl (Errorf ''invalid task URI %q'' [ArgStr uri] [])
            else if \<not> list_all alias_char (parts ! 0)
            then Inl (Errorf ''invalid repository alias in task URI %q'' [ArgStr uri] [])
            else
              (case ParseUint (parts ! 1) of
                 None \<Rightarrow> Inl (Errorf ''invalid task ID in URI %q'' [ArgStr uri] [])
               | Some i \<Rightarrow> if i = 0 then Inl (Errorf ''invalid task ID in URI %q'' [ArgStr uri] [])
                           else Inr (parts ! 0, i))))"

definition parse_positive :: "string \<Rightarrow> u64 option" where
  "parse_positive uri = (case ParseUint uri of Some i \<Rightarrow> if i > 0 then Some i else None | None \<Rightarrow> None)"

definition ParseLocalID :: "string \<Rightarrow> u64 option" where
  "ParseLocalID uri =
     (if HasPrefix uri ''todo://local/''
      then (case ParseTaskURI uri of
              Inr (repository, i) \<Rightarrow> if repository = ''local'' then Some i else parse_positive uri
            | Inl _ \<Rightarrow> parse_positive uri)
      else parse_positive uri)"

definition local_uri :: "u64 \<Rightarrow> string" where
  "local_uri i = ''todo://local/'' @ fmt_id i"

definition canonicalDependency :: "string \<Rightarrow> goerr + string" where
  "canonicalDependency reference =
     (case ParseLocalID reference of
        Some i \<Rightarrow> Inr (local_uri i)
      | None \<Rightarrow>
          (case ParseTaskURI reference of
             Inl err \<Rightarrow> Inl err
           | Inr (repo, i) \<Rightarrow> Inr (''todo://'' @ repo @ ''/'' @ fmt_id i)))"

text \<open>The callers' fallback: a reference that cannot be interpreted is kept as it is spelled.\<close>

definition canonical_or_self :: "string \<Rightarrow> string" where
  "canonical_or_self dep = (case canonicalDependency dep of Inl _ \<Rightarrow> dep | Inr c \<Rightarrow> c)"

lemma ParseTaskURI_build:
  assumes "repo \<noteq> []" "list_all alias_char repo" "i \<noteq> 0"
  shows "ParseTaskURI (''todo://'' @ repo @ ''/'' @ fmt_id i) = Inr (repo, i)"
proof -
  have "CHR ''/'' \<notin> set repo"
    using assms(2) by (auto simp: list_all_iff alias_char_def)
  then have "Split CHR ''/'' (repo @ CHR ''/'' # fmt_id i) = [repo, fmt_id i]"
    by (simp add: Split_append_sep Split_no_sep)
  then show ?thesis
    using assms by (simp add: ParseTaskURI_def HasPrefix_def TrimPrefix_def)
qed

lemma ParseTaskURI_local_uri: "i \<noteq> 0 \<Longrightarrow> ParseTaskURI (local_uri i) = Inr (''local'', i)"
  using ParseTaskURI_build [of "''local''" i] by (simp add: local_uri_def alias_char_def)

lemma ParseLocalID_local_uri [simp]: "i \<noteq> 0 \<Longrightarrow> ParseLocalID (local_uri i) = Some i"
  using ParseTaskURI_local_uri [of i] by (simp add: ParseLocalID_def HasPrefix_def local_uri_def)

lemma parse_positive_Some: "parse_positive s = Some i \<Longrightarrow> ParseUint s = Some i \<and> i \<noteq> 0"
  by (auto simp: parse_positive_def split: option.splits if_splits)

lemma uri_guards:
  assumes "(if \<not> P then Inl a
      else if length parts \<noteq> 2 \<or> parts ! 0 = [] \<or> parts ! 1 = [] then Inl b
      else if \<not> list_all alias_char (parts ! 0) then Inl c
      else case ParseUint (parts ! 1) of None \<Rightarrow> Inl d
           | Some i \<Rightarrow> if i = 0 then Inl e else Inr (parts ! 0, i)) = Inr (repo, i)"
  shows "P" "length parts = 2" "parts ! 0 = repo" "repo \<noteq> []" "list_all alias_char repo"
    "ParseUint (parts ! 1) = Some i" "i \<noteq> 0"
  using assms by (simp_all split: if_split_asm option.split_asm)

lemmas ParseTaskURI_parts = uri_guards [OF trans [OF ParseTaskURI_def [unfolded Let_def, symmetric]]]

lemma ParseTaskURI_InrD:
  assumes "ParseTaskURI uri = Inr (repo, i)"
  shows "i \<noteq> 0 \<and> repo \<noteq> [] \<and> list_all alias_char repo
    \<and> (\<exists>n. ParseUint n = Some i \<and> uri = ''todo://'' @ repo @ ''/'' @ n)"
proof -
  let ?r = "TrimPrefix uri ''todo://''"
  note p = ParseTaskURI_parts [OF assms]
  from p(2) obtain x y where xy: "Split CHR ''/'' ?r = [x, y]"
    by (auto simp: length_Suc_conv numeral_2_eq_2)
  with p(3,6) have "x = repo" "ParseUint y = Some i" by simp_all
  moreover from p(1) have "uri = ''todo://'' @ ?r" by (auto simp: HasPrefix_iff TrimPrefix_def)
  moreover have "?r = x @ ''/'' @ y" using Join_Split [of "CHR ''/''" ?r] xy by simp
  ultimately show ?thesis using p(4,5,7) by auto
qed

lemma ParseTaskURI_ParseLocalID:
  assumes "ParseTaskURI uri = Inr (repo, i)"
  shows "ParseLocalID uri = (if repo = ''local'' then Some i else None)"
proof -
  from ParseTaskURI_InrD [OF assms] obtain n where n: "uri = ''todo://'' @ repo @ ''/'' @ n"
    and ch: "list_all alias_char repo" by auto
  have "parse_positive uri = None"
  proof (rule ccontr)
    assume "parse_positive uri \<noteq> None"
    then have "is_digit CHR ''t''"
      using n ParseUint_all_digits [of uri _ "CHR ''t''"] parse_positive_Some by fastforce
    then show False by simp
  qed
  moreover have "repo = ''local''" if "HasPrefix uri ''todo://local/''"
  proof -
    from that obtain r where "repo @ CHR ''/'' # n = ''local'' @ CHR ''/'' # r"
      using n by (auto simp: HasPrefix_iff)
    moreover have "CHR ''/'' \<notin> set repo" using ch by (auto simp: list_all_iff alias_char_def)
    ultimately show ?thesis
      using Split_append_sep [of "CHR ''/''" repo n] Split_append_sep [of "CHR ''/''" "''local''" r] by simp
  qed
  moreover have "HasPrefix uri ''todo://local/''" if "repo = ''local''"
    using that n by (simp add: HasPrefix_def)
  ultimately show ?thesis using assms by (auto simp: ParseLocalID_def)
qed

lemma ParseLocalID_nonzero: "ParseLocalID uri = Some i \<Longrightarrow> i \<noteq> 0"
  by (auto simp: ParseLocalID_def split: if_splits sum.splits prod.splits
      dest: parse_positive_Some ParseTaskURI_InrD)

lemma canonicalDependency_local:
  assumes "ParseLocalID r = Some i"
  shows "canonicalDependency r = Inr (local_uri i)"
  using assms by (simp add: canonicalDependency_def)

lemma canonicalDependency_foreign:
  assumes "ParseTaskURI r = Inr (repo, i)" "repo \<noteq> ''local''"
  shows "canonicalDependency r = Inr (''todo://'' @ repo @ ''/'' @ fmt_id i)"
  using assms by (simp add: canonicalDependency_def ParseTaskURI_ParseLocalID)

lemma canonicalDependency_ParseLocalID:
  assumes "canonicalDependency r = Inr c"
  shows "ParseLocalID c = ParseLocalID r"
proof (cases "ParseLocalID r")
  case (Some i)
  with assms ParseLocalID_nonzero show ?thesis by (auto simp: canonicalDependency_local)
next
  case None
  with assms obtain repo i where p: "ParseTaskURI r = Inr (repo, i)"
    and c: "c = ''todo://'' @ repo @ ''/'' @ fmt_id i"
    by (auto simp: canonicalDependency_def split: sum.splits)
  from ParseTaskURI_InrD [OF p] have "ParseTaskURI c = Inr (repo, i)"
    unfolding c by (intro ParseTaskURI_build) auto
  with p show ?thesis by (simp add: ParseTaskURI_ParseLocalID)
qed

lemma canonicalDependency_idem:
  assumes "canonicalDependency r = Inr c"
  shows "canonicalDependency c = Inr c"
proof (cases "ParseLocalID r")
  case (Some i)
  then show ?thesis using assms canonicalDependency_ParseLocalID [OF assms]
    by (simp add: canonicalDependency_local)
next
  case None
  with assms obtain repo i where p: "ParseTaskURI r = Inr (repo, i)"
    and c: "c = ''todo://'' @ repo @ ''/'' @ fmt_id i"
    by (auto simp: canonicalDependency_def split: sum.splits)
  have ne: "repo \<noteq> ''local''" using None p by (auto simp: ParseTaskURI_ParseLocalID)
  from ParseTaskURI_InrD [OF p] have "ParseTaskURI c = Inr (repo, i)"
    unfolding c by (intro ParseTaskURI_build) auto
  then show ?thesis using ne by (simp add: canonicalDependency_foreign c)
qed

lemma canonicalDependency_ParseTaskURI:
  assumes "canonicalDependency r = Inr c" "ParseLocalID r = None"
  shows "\<exists>repo i. ParseTaskURI r = Inr (repo, i) \<and> ParseTaskURI c = Inr (repo, i)"
proof -
  from assms obtain repo i where p: "ParseTaskURI r = Inr (repo, i)"
    and c: "c = ''todo://'' @ repo @ ''/'' @ fmt_id i"
    by (auto simp: canonicalDependency_def split: sum.splits)
  from ParseTaskURI_InrD [OF p] have "ParseTaskURI c = Inr (repo, i)"
    unfolding c by (intro ParseTaskURI_build) auto
  with p show ?thesis by blast
qed

lemma canonical_or_self_ParseLocalID [simp]: "ParseLocalID (canonical_or_self d) = ParseLocalID d"
  by (auto simp: canonical_or_self_def canonicalDependency_ParseLocalID split: sum.splits)

lemma canonical_or_self_idem [simp]: "canonical_or_self (canonical_or_self d) = canonical_or_self d"
  by (auto simp: canonical_or_self_def canonicalDependency_idem split: sum.splits)


section \<open>The graph\<close>

type_synonym adjacency = "(u64, u64 list) gomap"

record DAG =
  adjacency :: adjacency

definition NewDAG :: DAG where
  "NewDAG = \<lparr>adjacency = []\<rparr>"

text \<open>Reading a missing key gives the \<^verbatim>\<open>nil\<close> slice.\<close>

definition succs :: "adjacency \<Rightarrow> u64 \<Rightarrow> u64 list" where
  "succs adj n = (case map_of adj n of None \<Rightarrow> [] | Some ns \<Rightarrow> ns)"

definition add_edge :: "u64 \<Rightarrow> u64 \<Rightarrow> adjacency \<Rightarrow> adjacency" where
  "add_edge from to adj = AList.update from (succs adj from @ [to]) adj"

definition AddEdge :: "u64 \<Rightarrow> u64 \<Rightarrow> DAG \<Rightarrow> DAG" where
  "AddEdge from to d = d\<lparr>adjacency := add_edge from to (adjacency d)\<rparr>"

text \<open>The edges into one task from its local dependencies, as both loops over dependencies add them.\<close>

fun add_deps :: "string list \<Rightarrow> u64 \<Rightarrow> adjacency \<Rightarrow> adjacency" where
  "add_deps [] target adj = adj"
| "add_deps (depURI # deps) target adj =
     add_deps deps target
       (case ParseLocalID depURI of Some i \<Rightarrow> add_edge i target adj | None \<Rightarrow> adj)"

fun add_tasks :: "tasks \<Rightarrow> adjacency \<Rightarrow> adjacency" where
  "add_tasks [] adj = adj"
| "add_tasks ((_, task) # ts) adj = add_tasks ts (add_deps (Depends task) (ID task) adj)"

definition BuildFromTasks :: "tasks \<Rightarrow> DAG" where
  "BuildFromTasks tasks = \<lparr>adjacency = add_tasks tasks []\<rparr>"

definition edges :: "adjacency \<Rightarrow> (u64 \<times> u64) set" where
  "edges adj = {(a, b). b \<in> set (succs adj a)}"

definition nodes :: "adjacency \<Rightarrow> u64 set" where
  "nodes adj = fst ` set adj"

lemma succs_outside: "n \<notin> nodes adj \<Longrightarrow> succs adj n = []"
  by (auto simp: succs_def nodes_def map_of_eq_None_iff split: option.splits)
     (metis fst_conv image_eqI map_of_SomeD)

lemma finite_nodes [simp]: "finite (nodes adj)"
  by (simp add: nodes_def)

lemma edges_source: "(a, b) \<in> edges adj \<Longrightarrow> a \<in> nodes adj"
  using succs_outside [of a adj] by (force simp: edges_def)

lemma edges_add_edge [simp]: "edges (add_edge a b adj) = insert (a, b) (edges adj)"
  by (auto simp: edges_def add_edge_def succs_def update_conv' split: if_splits option.splits)

definition local_deps :: "string list \<Rightarrow> u64 set" where
  "local_deps deps = {i. \<exists>d \<in> set deps. ParseLocalID d = Some i}"

lemma local_deps_simps [simp]:
  "local_deps [] = {}"
  "local_deps (d # ds) = (case ParseLocalID d of Some i \<Rightarrow> insert i (local_deps ds) | None \<Rightarrow> local_deps ds)"
  "local_deps (ds @ es) = local_deps ds \<union> local_deps es"
  by (auto simp: local_deps_def split: option.splits)

lemma local_deps_canonical [simp]: "local_deps (map canonical_or_self ds) = local_deps ds"
  by (simp add: local_deps_def)

lemma local_deps_set: "set ds = set es \<Longrightarrow> local_deps ds = local_deps es"
  by (simp add: local_deps_def)

lemma local_deps_mono: "set ds \<subseteq> set es \<Longrightarrow> local_deps ds \<subseteq> local_deps es"
  by (auto simp: local_deps_def)

lemma edges_add_deps: "edges (add_deps deps t adj) = edges adj \<union> local_deps deps \<times> {t}"
  by (induction deps t adj rule: add_deps.induct) (auto split: option.splits)

definition dep_edges :: "tasks \<Rightarrow> (u64 \<times> u64) set" where
  "dep_edges ts = (\<Union>(k, t) \<in> set ts. local_deps (Depends t) \<times> {ID t})"

lemma edges_add_tasks: "edges (add_tasks ts adj) = edges adj \<union> dep_edges ts"
  by (induction ts adj rule: add_tasks.induct) (auto simp: edges_add_deps dep_edges_def)

lemma edges_BuildFromTasks: "edges (adjacency (BuildFromTasks ts)) = dep_edges ts"
  by (simp add: BuildFromTasks_def edges_add_tasks) (simp add: edges_def succs_def)

section \<open>Cycle detection\<close>

text \<open>
  The recursive closure \<^verbatim>\<open>dfs\<close> is its loop over the successors of a node: \<open>dfs_loop\<close> takes the
  successors still to look at and the three captured variables, the visited nodes, the nodes on
  the stack, and the path. Its result is the path of a cycle, or the variables at the end.
\<close>

type_synonym dfs_state = "u64 set \<times> u64 set \<times> u64 list"

function dfs_loop :: "adjacency \<Rightarrow> u64 list \<Rightarrow> dfs_state \<Rightarrow> u64 list + dfs_state" where
  "dfs_loop adj [] st = Inr st"
| "dfs_loop adj (next # rest) (visited, onStack, path) =
     (if next \<notin> visited
      then (case dfs_loop adj (succs adj next) (insert next visited, insert next onStack, path @ [next]) of
              Inl cycle \<Rightarrow> Inl cycle
            | Inr (visited', onStack', path') \<Rightarrow>
                dfs_loop adj rest (visited', onStack' - {next}, butlast path'))
      else if next \<in> onStack then Inl (path @ [next])
      else dfs_loop adj rest (visited, onStack, path))"
  by pat_completeness auto

lemma dfs_loop_visited:
  "dfs_loop_dom (adj, ns, st) \<Longrightarrow> dfs_loop adj ns st = Inr st' \<Longrightarrow> fst st \<subseteq> fst st'"
  by (induction adj ns st arbitrary: st' rule: dfs_loop.pinduct)
     (fastforce simp: dfs_loop.psimps split: if_splits sum.splits prod.splits)+

termination dfs_loop
proof (relation "inv_image (finite_psubset <*lex*> less_than)
    (\<lambda>(adj, ns, (visited, _, _)). (nodes adj - visited, length ns))", goal_cases)
  case 1
  show ?case by auto
next
  case (2 adj n rest visited onStack path)
  then show ?case
    by (cases "n \<in> nodes adj") (auto simp: finite_psubset_def succs_outside)
next
  case (3 adj n rest visited onStack path st' visited' x onStack' path')
  have "insert n visited \<subseteq> visited'"
    using dfs_loop_visited [of adj "succs adj n" "(insert n visited, insert n onStack, path @ [n])"
        "(visited', onStack', path')"] 3 by auto
  then show ?case by (auto simp: finite_psubset_def)
next
  case 4
  then show ?case by auto
qed

definition dfs :: "adjacency \<Rightarrow> u64 \<Rightarrow> dfs_state \<Rightarrow> u64 list + dfs_state" where
  "dfs adj node st =
     (case st of (visited, onStack, path) \<Rightarrow>
        (case dfs_loop adj (succs adj node) (insert node visited, insert node onStack, path @ [node]) of
           Inl cycle \<Rightarrow> Inl cycle
         | Inr (visited', onStack', path') \<Rightarrow> Inr (visited', onStack' - {node}, butlast path')))"

fun dfs_roots :: "adjacency \<Rightarrow> u64 list \<Rightarrow> dfs_state \<Rightarrow> u64 list option" where
  "dfs_roots adj [] st = None"
| "dfs_roots adj (node # rest) st =
     (if node \<notin> fst st
      then (case dfs adj node st of Inl cycle \<Rightarrow> Some cycle | Inr st' \<Rightarrow> dfs_roots adj rest st')
      else dfs_roots adj rest st)"

definition find_cycle :: "adjacency \<Rightarrow> u64 list option" where
  "find_cycle adj = dfs_roots adj (map fst adj) ({}, {}, [])"

definition DetectCycle :: "string list \<Rightarrow> u64 \<Rightarrow> DAG \<Rightarrow> goerr option" where
  "DetectCycle newDeps newTaskID d =
     (let adj = add_deps newDeps newTaskID (adjacency d)
      in map_option (\<lambda>path. Errorf ''cycle detected: %v'' [ArgIds path] []) (find_cycle adj))"

subsection \<open>Correctness of the search\<close>

text \<open>A path of the graph, and a cycle: a path whose last node occurs before.\<close>

fun chain :: "('a \<times> 'a) set \<Rightarrow> 'a list \<Rightarrow> bool" where
  "chain r [] = True"
| "chain r [x] = True"
| "chain r (x # y # zs) = ((x, y) \<in> r \<and> chain r (y # zs))"

lemma chain_snoc: "chain r (xs @ [x, y]) \<longleftrightarrow> chain r (xs @ [x]) \<and> (x, y) \<in> r"
  by (induction r xs rule: chain.induct) auto

lemma chain_append: "chain r (xs @ y # zs) \<longleftrightarrow> chain r (xs @ [y]) \<and> chain r (y # zs)"
  by (induction r xs rule: chain.induct) auto

lemma chain_trancl: "chain r (x # zs @ [y]) \<Longrightarrow> (x, y) \<in> r\<^sup>+"
proof (induction zs arbitrary: x)
  case (Cons z zs)
  then have "(x, z) \<in> r" "(z, y) \<in> r\<^sup>+" by auto
  then show ?case by (rule trancl_into_trancl2)
qed simp

definition cycle_path :: "adjacency \<Rightarrow> u64 list \<Rightarrow> bool" where
  "cycle_path adj cyc \<longleftrightarrow> (\<exists>ys x zs. cyc = ys @ x # zs @ [x] \<and> chain (edges adj) cyc)"

lemma cycle_path_cyclic:
  assumes "cycle_path adj cyc"
  shows "\<not> acyclic (edges adj)"
proof -
  from assms obtain ys x zs where "chain (edges adj) (ys @ x # zs @ [x])"
    by (auto simp: cycle_path_def)
  then have "chain (edges adj) (x # zs @ [x])"
    using chain_append [of "edges adj" ys x "zs @ [x]"] by simp
  then have "(x, x) \<in> (edges adj)\<^sup>+" by (rule chain_trancl)
  then show ?thesis by (auto simp: acyclic_def)
qed

lemma acyclic_add_source:
  assumes "acyclic r" "r \<subseteq> F \<times> F" "n \<notin> F" "S \<subseteq> F"
  shows "acyclic (r \<union> {n} \<times> S)"
proof -
  have step: "y \<in> F \<and> (x \<in> F \<longrightarrow> (x, y) \<in> r\<^sup>+)" if "(x, y) \<in> (r \<union> {n} \<times> S)\<^sup>+" for x y
    using that
  proof (induction rule: trancl_induct)
    case (base y)
    then show ?case using assms by auto
  next
    case (step y z)
    then have "(y, z) \<in> r" using assms(3) by auto
    with step.IH assms(2) show ?case by (auto intro: trancl_into_trancl)
  qed
  show ?thesis
    unfolding acyclic_def using step assms(1,3) by (metis acyclic_def)
qed

text \<open>
  The invariant of the search: the stack is the path, and the finished nodes are closed under
  successors and carry no cycle.
\<close>

definition finished :: "dfs_state \<Rightarrow> u64 set" where
  "finished st = fst st - fst (snd st)"

definition dfs_inv :: "adjacency \<Rightarrow> dfs_state \<Rightarrow> bool" where
  "dfs_inv adj st \<longleftrightarrow>
     (case st of (visited, onStack, path) \<Rightarrow>
        onStack \<subseteq> visited \<and> set path = onStack \<and> distinct path \<and> chain (edges adj) path)
     \<and> edges adj `` finished st \<subseteq> finished st
     \<and> acyclic (edges adj \<inter> finished st \<times> UNIV)"

lemma dfs_inv_init: "dfs_inv adj ({}, {}, [])"
  by (simp add: dfs_inv_def finished_def acyclic_def)

lemma dfs_inv_push:
  assumes "dfs_inv adj (visited, onStack, path)" "n \<notin> visited"
    "path \<noteq> [] \<Longrightarrow> (last path, n) \<in> edges adj"
  shows "dfs_inv adj (insert n visited, insert n onStack, path @ [n])"
proof -
  have "chain (edges adj) (path @ [n])"
    using assms by (cases path rule: rev_cases) (auto simp: dfs_inv_def chain_snoc)
  moreover have "finished (insert n visited, insert n onStack, path @ [n]) = finished (visited, onStack, path)"
    using assms by (auto simp: finished_def dfs_inv_def)
  ultimately show ?thesis using assms(1,2) by (auto simp: dfs_inv_def)
qed

lemma dfs_inv_pop:
  assumes inv: "dfs_inv adj (visited, insert n onStack, path @ [n])"
    and fresh: "n \<notin> onStack" and finish: "set (succs adj n) \<subseteq> visited - insert n onStack"
  shows "dfs_inv adj (visited, onStack, path)"
proof -
  let ?F = "visited - insert n onStack"
  have F: "finished (visited, onStack, path) = insert n ?F"
    using inv fresh by (auto simp: finished_def dfs_inv_def)
  have closed: "edges adj `` ?F \<subseteq> ?F" and ac: "acyclic (edges adj \<inter> ?F \<times> UNIV)"
    using inv by (auto simp: dfs_inv_def finished_def)
  have "edges adj \<inter> insert n ?F \<times> UNIV = (edges adj \<inter> ?F \<times> UNIV) \<union> {n} \<times> set (succs adj n)"
    by (auto simp: edges_def)
  moreover have "acyclic ((edges adj \<inter> ?F \<times> UNIV) \<union> {n} \<times> set (succs adj n))"
    using closed ac finish by (intro acyclic_add_source [where F = ?F]) auto
  moreover have "edges adj `` insert n ?F \<subseteq> insert n ?F"
    using closed finish by (auto simp: edges_def)
  moreover have "chain (edges adj) path"
    using inv by (cases path rule: rev_cases) (auto simp: dfs_inv_def chain_snoc)
  ultimately show ?thesis
    using inv fresh by (auto simp: dfs_inv_def F)
qed

lemma dfs_loop_correct:
  assumes "dfs_inv adj st" "snd (snd st) \<noteq> []" "set ns \<subseteq> set (succs adj (last (snd (snd st))))"
  shows "case dfs_loop adj ns st of
      Inl cyc \<Rightarrow> cycle_path adj cyc
    | Inr st' \<Rightarrow> dfs_inv adj st' \<and> snd st' = snd st \<and> fst st \<subseteq> fst st' \<and> set ns \<subseteq> finished st'"
  using assms
proof (induction adj ns st rule: dfs_loop.induct)
  case (1 adj st)
  then show ?case by simp
next
  case (2 adj n rest visited onStack path)
  have inv: "dfs_inv adj (visited, onStack, path)" and ne: "path \<noteq> []"
    and edge: "(last path, n) \<in> edges adj" and rest: "set rest \<subseteq> set (succs adj (last path))"
    using 2 by (auto simp: edges_def)
  show ?case
  proof (cases "n \<in> visited")
    case False
    let ?st1 = "(insert n visited, insert n onStack, path @ [n])"
    have "dfs_inv adj ?st1" using inv False edge by (rule dfs_inv_push)
    with 2(1) [OF False] have IH1: "case dfs_loop adj (succs adj n) ?st1 of Inl cyc \<Rightarrow> cycle_path adj cyc
      | Inr st' \<Rightarrow> dfs_inv adj st' \<and> snd st' = snd ?st1 \<and> fst ?st1 \<subseteq> fst st' \<and> set (succs adj n) \<subseteq> finished st'"
      by simp
    show ?thesis
    proof (cases "dfs_loop adj (succs adj n) ?st1")
      case (Inl cyc)
      with IH1 False show ?thesis by simp
    next
      case (Inr st')
      obtain v' where st': "st' = (v', insert n onStack, path @ [n])"
        using IH1 Inr by (cases st') auto
      with IH1 Inr have r: "dfs_inv adj (v', insert n onStack, path @ [n])"
        "insert n visited \<subseteq> v'" "set (succs adj n) \<subseteq> v' - insert n onStack"
        by (auto simp: finished_def)
      have fresh: "n \<notin> onStack" using inv False by (auto simp: dfs_inv_def)
      then have pop: "insert n onStack - {n} = onStack" "butlast (path @ [n]) = path" by auto
      have inv2: "dfs_inv adj (v', onStack, path)"
        using r(1) fresh r(3) by (rule dfs_inv_pop)
      have "case dfs_loop adj rest (v', onStack, path) of Inl cyc \<Rightarrow> cycle_path adj cyc
        | Inr st' \<Rightarrow> dfs_inv adj st' \<and> snd st' = snd (v', onStack, path) \<and> fst (v', onStack, path) \<subseteq> fst st'
            \<and> set rest \<subseteq> finished st'"
        using 2(2) [OF False Inr st' [symmetric] refl] inv2 ne rest unfolding pop by simp
      moreover have "n \<in> v'" using r by auto
      ultimately show ?thesis
        using False Inr st' r fresh pop by (auto simp: finished_def split: sum.splits)
    qed
  next
    case True
    show ?thesis
    proof (cases "n \<in> onStack")
      case True
      then have "n \<in> set path" using inv by (simp add: dfs_inv_def)
      then obtain ys zs where p: "path = ys @ n # zs" by (metis split_list)
      have "chain (edges adj) (path @ [n])"
        using inv ne edge by (cases path rule: rev_cases) (auto simp: dfs_inv_def chain_snoc)
      with p have "cycle_path adj (path @ [n])" by (auto simp: cycle_path_def)
      with True \<open>n \<in> visited\<close> show ?thesis by simp
    next
      case False
      with True 2(3) inv ne rest show ?thesis by (auto simp: finished_def split: sum.splits)
    qed
  qed
qed

lemma dfs_correct:
  assumes "dfs_inv adj (visited, {}, [])" "n \<notin> visited"
  shows "case dfs adj n (visited, {}, []) of
      Inl cyc \<Rightarrow> cycle_path adj cyc
    | Inr st' \<Rightarrow> dfs_inv adj st' \<and> snd st' = ({}, []) \<and> insert n visited \<subseteq> fst st'"
proof -
  let ?st1 = "(insert n visited, {n}, [n])"
  have "dfs_inv adj ?st1" using dfs_inv_push [OF assms] by simp
  then have *: "case dfs_loop adj (succs adj n) ?st1 of Inl cyc \<Rightarrow> cycle_path adj cyc
    | Inr st' \<Rightarrow> dfs_inv adj st' \<and> snd st' = snd ?st1 \<and> fst ?st1 \<subseteq> fst st' \<and> set (succs adj n) \<subseteq> finished st'"
    by (intro dfs_loop_correct) auto
  show ?thesis
  proof (cases "dfs_loop adj (succs adj n) ?st1")
    case (Inl cyc)
    with * show ?thesis by (simp add: dfs_def)
  next
    case (Inr st')
    then obtain v' where "st' = (v', {n}, [n])" using * by (cases st') auto
    then show ?thesis
      using * Inr dfs_inv_pop [of adj v' n "{}" "[]"] by (auto simp: dfs_def finished_def)
  qed
qed

lemma dfs_roots_correct:
  assumes "dfs_inv adj (visited, {}, [])"
  shows "case dfs_roots adj ns (visited, {}, []) of
      Some cyc \<Rightarrow> cycle_path adj cyc
    | None \<Rightarrow> \<exists>v. dfs_inv adj (v, {}, []) \<and> visited \<union> set ns \<subseteq> v"
  using assms
proof (induction ns arbitrary: visited)
  case Nil
  then show ?case by auto
next
  case (Cons n ns)
  show ?case
  proof (cases "n \<in> visited")
    case True
    with Cons show ?thesis by (fastforce split: option.splits)
  next
    case False
    show ?thesis
    proof (cases "dfs adj n (visited, {}, [])")
      case (Inl cyc)
      with dfs_correct [OF Cons.prems False] False show ?thesis by simp
    next
      case (Inr st')
      then obtain v' where v': "st' = (v', {}, [])" "dfs_inv adj (v', {}, [])" "insert n visited \<subseteq> v'"
        using dfs_correct [OF Cons.prems False] by (cases st') auto
      from Cons.IH [OF v'(2)] v' Inr False show ?thesis by (fastforce split: option.splits)
    qed
  qed
qed

lemma find_cycle_Some: "find_cycle adj = Some cyc \<Longrightarrow> cycle_path adj cyc"
  using dfs_roots_correct [OF dfs_inv_init, of adj "map fst adj"] by (simp add: find_cycle_def)

lemma find_cycle_None_iff: "find_cycle adj = None \<longleftrightarrow> acyclic (edges adj)"
proof
  assume "find_cycle adj = None"
  then obtain v where v: "dfs_inv adj (v, {}, [])" "nodes adj \<subseteq> v"
    using dfs_roots_correct [OF dfs_inv_init, of adj "map fst adj"]
    by (auto simp: find_cycle_def nodes_def)
  then have "edges adj \<inter> finished (v, {}, []) \<times> UNIV = edges adj"
    by (auto simp: finished_def dest: edges_source)
  with v show "acyclic (edges adj)" by (simp add: dfs_inv_def)
next
  assume "acyclic (edges adj)"
  then show "find_cycle adj = None"
    using find_cycle_Some cycle_path_cyclic by (cases "find_cycle adj") auto
qed

lemma DetectCycle_None_iff:
  "DetectCycle newDeps t d = None \<longleftrightarrow> acyclic (edges (adjacency d) \<union> local_deps newDeps \<times> {t})"
  by (simp add: DetectCycle_def Let_def find_cycle_None_iff edges_add_deps)

lemma DetectCycle_tasks:
  "DetectCycle newDeps t (BuildFromTasks ts) = None \<longleftrightarrow> acyclic (dep_edges ts \<union> local_deps newDeps \<times> {t})"
  by (simp add: DetectCycle_None_iff edges_BuildFromTasks)

section \<open>Ready and blocked tasks\<close>

text \<open>The resolver of foreign references; \<open>None\<close> is the \<^verbatim>\<open>nil\<close> resolver.\<close>

type_synonym DependencyResolver = "(string \<Rightarrow> bool) option"

definition resolves :: "DependencyResolver \<Rightarrow> string \<Rightarrow> bool" where
  "resolves resolver depURI = (case resolver of None \<Rightarrow> False | Some r \<Rightarrow> r depURI)"

fun deps_complete :: "string list \<Rightarrow> tasks \<Rightarrow> DependencyResolver \<Rightarrow> bool" where
  "deps_complete [] ts resolver = True"
| "deps_complete (depURI # deps) ts resolver =
     (case ParseLocalID depURI of
        None \<Rightarrow> if \<not> resolves resolver depURI then False else deps_complete deps ts resolver
      | Some depID \<Rightarrow>
          (case map_of ts depID of
             None \<Rightarrow> False
           | Some depTask \<Rightarrow>
               if Status depTask \<noteq> StatusCompleted then False else deps_complete deps ts resolver))"

definition DependenciesCompleteWithResolver :: "Task \<Rightarrow> tasks \<Rightarrow> DependencyResolver \<Rightarrow> bool" where
  "DependenciesCompleteWithResolver task ts resolver = deps_complete (Depends task) ts resolver"

definition DependenciesComplete :: "Task \<Rightarrow> tasks \<Rightarrow> bool" where
  "DependenciesComplete task ts = DependenciesCompleteWithResolver task ts None"

definition GetReadyTasksWithResolver :: "tasks \<Rightarrow> DependencyResolver \<Rightarrow> Task list" where
  "GetReadyTasksWithResolver ts resolver =
     filter (\<lambda>task. Status task = StatusPending \<and> DependenciesCompleteWithResolver task ts resolver) (map snd ts)"

text \<open>Is the reference one of those appended to \<^verbatim>\<open>blocked[task.ID]\<close>?\<close>

definition dep_blocks :: "tasks \<Rightarrow> DependencyResolver \<Rightarrow> string \<Rightarrow> bool" where
  "dep_blocks ts resolver depURI =
     (case ParseLocalID depURI of
        Some depID \<Rightarrow>
          (case map_of ts depID of None \<Rightarrow> True | Some depTask \<Rightarrow> Status depTask \<noteq> StatusCompleted)
      | None \<Rightarrow> \<not> resolves resolver depURI)"

definition append_blocked :: "u64 \<Rightarrow> string \<Rightarrow> (u64, string list) gomap \<Rightarrow> (u64, string list) gomap" where
  "append_blocked i uri m =
     AList.update i ((case map_of m i of None \<Rightarrow> [] | Some us \<Rightarrow> us) @ [uri]) m"

definition block_task :: "tasks \<Rightarrow> DependencyResolver \<Rightarrow> Task \<Rightarrow> (u64, string list) gomap \<Rightarrow> (u64, string list) gomap" where
  "block_task ts resolver task blocked =
     (if Status task = StatusCompleted then blocked
      else fold (append_blocked (ID task)) (filter (dep_blocks ts resolver) (Depends task)) blocked)"

definition GetBlockedTasksWithResolver :: "tasks \<Rightarrow> DependencyResolver \<Rightarrow> (u64, string list) gomap" where
  "GetBlockedTasksWithResolver ts resolver = fold (\<lambda>(_, task). block_task ts resolver task) ts []"

lemma deps_complete_iff: "deps_complete deps ts resolver \<longleftrightarrow> (\<forall>d \<in> set deps. \<not> dep_blocks ts resolver d)"
  by (induction deps) (auto simp: dep_blocks_def split: option.splits)

lemma map_of_append_blocked:
  "map_of (fold (append_blocked i) uris m) j =
     (if j = i \<and> uris \<noteq> [] then Some ((case map_of m i of None \<Rightarrow> [] | Some us \<Rightarrow> us) @ uris) else map_of m j)"
  by (induction uris arbitrary: m) (auto simp: append_blocked_def update_conv')

text \<open>The dependencies a task is blocked on, when there are any.\<close>

definition blocked_on :: "tasks \<Rightarrow> DependencyResolver \<Rightarrow> Task \<Rightarrow> string list option" where
  "blocked_on ts resolver task =
     (let us = filter (dep_blocks ts resolver) (Depends task)
      in if Status task = StatusCompleted \<or> us = [] then None else Some us)"

lemma map_of_block_task:
  assumes "map_of m (ID t) = None"
  shows "map_of (block_task ts resolver t m) = (map_of m)(ID t := blocked_on ts resolver t)"
  using assms by (auto simp: block_task_def blocked_on_def map_of_append_blocked Let_def fun_eq_iff)

lemma blocked_fold:
  assumes "distinct (map fst ts)" "\<forall>(k, t) \<in> set ts. k = ID t" "\<forall>k \<in> fst ` set ts. map_of m k = None"
  shows "map_of (fold (\<lambda>(_, task). block_task ts0 resolver task) ts m) j
     = (case map_of ts j of None \<Rightarrow> map_of m j | Some task \<Rightarrow> blocked_on ts0 resolver task)"
  using assms
proof (induction ts arbitrary: m)
  case Nil
  then show ?case by simp
next
  case (Cons kt ts)
  obtain k t where kt: "kt = (k, t)" by (cases kt)
  let ?m = "block_task ts0 resolver t m"
  have k: "k = ID t" "k \<notin> fst ` set ts" "map_of m (ID t) = None" using Cons.prems kt by auto
  note m' = map_of_block_task [OF k(3), of ts0 resolver]
  have "\<forall>j \<in> fst ` set ts. map_of ?m j = None"
    using Cons.prems(3) k(1,2) kt by (force simp: m')
  with Cons.prems kt have "map_of (fold (\<lambda>(_, task). block_task ts0 resolver task) ts ?m) j
     = (case map_of ts j of None \<Rightarrow> map_of ?m j | Some task \<Rightarrow> blocked_on ts0 resolver task)"
    by (intro Cons.IH) auto
  moreover have "map_of ts k = None" using k by (simp add: map_of_eq_None_iff)
  ultimately show ?case using k(1) by (simp add: kt m' split: option.splits)
qed

lemma map_of_GetBlockedTasks:
  assumes "tasks_wf ts"
  shows "map_of (GetBlockedTasksWithResolver ts resolver) i = Option.bind (map_of ts i) (blocked_on ts resolver)"
  using assms blocked_fold [of ts "[]" ts resolver i]
  by (simp add: GetBlockedTasksWithResolver_def tasks_wf_def split: option.splits)

lemma ready_in_tasks: "t \<in> set (GetReadyTasksWithResolver ts resolver) \<Longrightarrow> t \<in> snd ` set ts"
  by (auto simp: GetReadyTasksWithResolver_def)

section \<open>Properties\<close>

text \<open>
  C6: the cycle check that guards every change of the dependency graph is a decision procedure.
  It always ends; when it accepts, the graph with the new edges is acyclic; when it rejects, the
  graph has a cycle and the path in the message is a path of the graph that returns to a node of
  its own.
\<close>

theorem DetectCycle_decides:
  "case DetectCycle newDeps t (BuildFromTasks ts) of
     None \<Rightarrow> acyclic (dep_edges ts \<union> local_deps newDeps \<times> {t})
   | Some err \<Rightarrow>
       \<not> acyclic (dep_edges ts \<union> local_deps newDeps \<times> {t})
       \<and> (\<exists>path. err = Errorf ''cycle detected: %v'' [ArgIds path] []
            \<and> cycle_path (add_deps newDeps t (adjacency (BuildFromTasks ts))) path)"
proof (cases "find_cycle (add_deps newDeps t (adjacency (BuildFromTasks ts)))")
  case None
  then have "DetectCycle newDeps t (BuildFromTasks ts) = None" by (simp add: DetectCycle_def)
  then show ?thesis using DetectCycle_tasks [of newDeps t ts] by simp
next
  case (Some path)
  then have "DetectCycle newDeps t (BuildFromTasks ts) = Some (Errorf ''cycle detected: %v'' [ArgIds path] [])"
    by (simp add: DetectCycle_def)
  then show ?thesis using DetectCycle_tasks [of newDeps t ts] find_cycle_Some [OF Some] by auto
qed

text \<open>
  A stored reference means what the user wrote. Canonicalising a reference that is accepted
  gives a fixed point that denotes the same local task, or the same task of another repository.
\<close>

theorem canonicalDependency_denotes:
  assumes "canonicalDependency r = Inr c"
  shows "canonicalDependency c = Inr c \<and> ParseLocalID c = ParseLocalID r
    \<and> (ParseLocalID r = None \<longrightarrow> ParseTaskURI c = ParseTaskURI r)"
proof (intro conjI impI)
  assume "ParseLocalID r = None"
  then show "ParseTaskURI c = ParseTaskURI r" using canonicalDependency_ParseTaskURI [OF assms] by auto
qed (use assms canonicalDependency_idem canonicalDependency_ParseLocalID in auto)

lemma canonicalDependency_denotes_witness:
  "canonicalDependency ''todo://infra/007'' = Inr ''todo://infra/7''
   \<and> canonicalDependency ''todo://infra/7'' = Inr ''todo://infra/7''"
proof -
  have n: "ParseUint ''007'' = Some 7" by (simp add: ParseUint_def is_digit_def of_char_def)
  have "ParseTaskURI ''todo://infra/007'' = Inr (''infra'', 7)"
    by (simp add: ParseTaskURI_def HasPrefix_def TrimPrefix_def alias_char_def of_char_def n)
  then have r: "canonicalDependency ''todo://infra/007'' = Inr ''todo://infra/7''"
    by (simp add: canonicalDependency_foreign fmt_id_def decimal.simps digit_char_def)
  show ?thesis using canonicalDependency_denotes [OF r] r by simp
qed

text \<open>
  C13: the two readings of the graph agree. A task is handed out as ready exactly when it is in
  the store, pending, and the report of blocked tasks has no entry for it.
\<close>

theorem ready_iff_unblocked:
  assumes "tasks_wf ts"
  shows "t \<in> set (GetReadyTasksWithResolver ts resolver) \<longleftrightarrow>
    map_of ts (ID t) = Some t \<and> Status t = StatusPending
    \<and> map_of (GetBlockedTasksWithResolver ts resolver) (ID t) = None"
proof -
  have "t \<in> snd ` set ts \<longleftrightarrow> map_of ts (ID t) = Some t"
    using assms by (force simp: tasks_wf_def map_of_iff_set)
  moreover have "blocked_on ts resolver t = None \<longleftrightarrow> (\<forall>d \<in> set (Depends t). \<not> dep_blocks ts resolver d)"
    if "Status t = StatusPending"
    using that by (simp add: blocked_on_def Let_def filter_empty_conv)
  ultimately show ?thesis
    using assms
    by (auto simp: GetReadyTasksWithResolver_def DependenciesCompleteWithResolver_def deps_complete_iff
        map_of_GetBlockedTasks)
qed

definition two_tasks :: tasks where
  "two_tasks =
     [(1, fst (AddTask 0 ''schema'' [] NewTaskStore)),
      (2, (fst (AddTask 0 ''api'' [''1''] NewTaskStore))\<lparr>ID := 2\<rparr>)]"

lemma ready_iff_unblocked_witness:
  "tasks_wf two_tasks \<and> map_of (GetBlockedTasksWithResolver two_tasks None) 1 = None
   \<and> fst (AddTask 0 ''schema'' [] NewTaskStore) \<in> set (GetReadyTasksWithResolver two_tasks None)"
proof -
  have wf: "tasks_wf two_tasks"
    by (simp add: tasks_wf_def two_tasks_def AddTask_def NewTaskStore_def Let_def)
  let ?t = "fst (AddTask 0 ''schema'' [] NewTaskStore)"
  have "map_of two_tasks (ID ?t) = Some ?t" "Status ?t = StatusPending" "ID ?t = 1" "Depends ?t = []"
    by (simp_all add: two_tasks_def AddTask_def NewTaskStore_def Let_def)
  moreover from this have "map_of (GetBlockedTasksWithResolver two_tasks None) 1 = None"
    by (simp add: map_of_GetBlockedTasks [OF wf] blocked_on_def)
  ultimately show ?thesis using ready_iff_unblocked [OF wf, of ?t None] wf by simp
qed

end
