(* ===== verification/StoreFile.thy ===== *)
theory StoreFile
  imports Store
begin

text \<open>
  The store on disk (\<^verbatim>\<open>loadUnlocked\<close>, \<^verbatim>\<open>writeStore\<close>, \<^verbatim>\<open>Save\<close>, \<^verbatim>\<open>Load\<close>, \<^verbatim>\<open>LoadCurrent\<close> and \<^verbatim>\<open>Update\<close> of
  \<^verbatim>\<open>store/store.go\<close>, and the retry loop of \<^verbatim>\<open>lock/lock.go\<close>). The encoding is MessagePack, a third
  party package: a codec is a parameter. The operating system is a parameter too: every call that
  can fail has its outcome in the environment, so a theorem over all environments covers every
  failure, and every disk state on the way is kept, so that it covers a crash between two calls.
\<close>

section \<open>Parameters: the codec and the operating system\<close>

datatype 'b stored_file = FileAbsent | FileUnreadable goerr | FileBytes 'b

record 'b codec =
  Marshal :: "TaskStore \<Rightarrow> goerr + 'b"
  Unmarshal :: "'b \<Rightarrow> goerr + TaskStore"

text \<open>
  What the program relies on: a store that was encoded decodes to itself. (MessagePack writes a
  \<^verbatim>\<open>nil\<close> slice and an empty one differently; the model has one value for both.)
\<close>

definition codec_ok :: "'b codec \<Rightarrow> bool" where
  "codec_ok c \<longleftrightarrow> (\<forall>s b. Marshal c s = Inr b \<longrightarrow> Unmarshal c b = Inr s)"

definition plain_codec :: "TaskStore codec" where
  "plain_codec = \<lparr>Marshal = Inr, Unmarshal = Inr\<rparr>"

lemma plain_codec_ok [simp]: "codec_ok plain_codec"
  by (simp add: codec_ok_def plain_codec_def)

text \<open>The temporary file of a write: not there, incomplete, or holding all the bytes.\<close>

datatype 'b temp = TempAbsent | TempPartial | TempBytes 'b

record 'b disk =
  target :: "'b stored_file"
  temporary :: "'b temp"

record write_env =
  CreateTemp_err :: "goerr option"
  Chmod_err :: "goerr option"
  ReadFrom_err :: "goerr option"
  Sync_err :: "goerr option"
  Close_err :: "goerr option"
  Rename_err :: "goerr option"
  SyncDir_err :: "goerr option"

definition no_write_errors :: write_env where
  "no_write_errors = \<lparr>CreateTemp_err = None, Chmod_err = None, ReadFrom_err = None, Sync_err = None,
                      Close_err = None, Rename_err = None, SyncDir_err = None\<rparr>"

record io_env =
  MkdirAll_err :: "goerr option"
  Open_err :: "goerr option"
  Acquire_err :: "goerr option"
  writing :: write_env
  clean_time :: gotime
  write_time :: gotime

definition no_io_errors :: "gotime \<Rightarrow> gotime \<Rightarrow> io_env" where
  "no_io_errors c w = \<lparr>MkdirAll_err = None, Open_err = None, Acquire_err = None,
                      writing = no_write_errors, clean_time = c, write_time = w\<rparr>"

section \<open>Waiting for the lock\<close>

datatype attempt = Acquired | Contended | LockFailed goerr

text \<open>
  \<^verbatim>\<open>AcquireWithTimeout\<close>, by what each \<^verbatim>\<open>tryAcquire\<close> gives and the clock after it. The loop may wait
  for ever: \<open>None\<close> is that it is still waiting after the attempts listed.
\<close>

fun acquire_loop :: "duration \<Rightarrow> gotime \<Rightarrow> (attempt \<times> gotime) list \<Rightarrow> (goerr + unit) option" where
  "acquire_loop timeout deadline [] = None"
| "acquire_loop timeout deadline ((result, now) # attempts) =
     (case result of
        Acquired \<Rightarrow> Some (Inr ())
      | LockFailed err \<Rightarrow> Some (Inl err)
      | Contended \<Rightarrow>
          if timeout > 0 \<and> now > deadline
          then Some (Inl (Errorf ''lock acquisition timed out after %v'' [ArgDuration timeout] []))
          else acquire_loop timeout deadline attempts)"

definition AcquireWithTimeout :: "duration \<Rightarrow> gotime \<Rightarrow> (attempt \<times> gotime) list \<Rightarrow> (goerr + unit) option" where
  "AcquireWithTimeout timeout start attempts = acquire_loop timeout (start + timeout) attempts"

definition Acquire :: "gotime \<Rightarrow> (attempt \<times> gotime) list \<Rightarrow> (goerr + unit) option" where
  "Acquire start attempts = AcquireWithTimeout 0 start attempts"

lemma acquire_loop_blocking:
  "acquire_loop 0 d attempts =
     (case dropWhile (\<lambda>(r, _). r = Contended) attempts of
        [] \<Rightarrow> None
      | (r, _) # _ \<Rightarrow> Some (case r of LockFailed err \<Rightarrow> Inl err | _ \<Rightarrow> Inr ()))"
  by (induction "0 :: duration" d attempts rule: acquire_loop.induct) (auto split: attempt.splits)

section \<open>Reading and writing the file\<close>

definition loadUnlocked :: "'b codec \<Rightarrow> 'b stored_file \<Rightarrow> goerr + TaskStore" where
  "loadUnlocked c f =
     (case f of
        FileAbsent \<Rightarrow> Inr NewTaskStore
      | FileUnreadable err \<Rightarrow> Inl err
      | FileBytes data \<Rightarrow>
          (case Unmarshal c data of
             Inl err \<Rightarrow> Inl err
           | Inr s \<Rightarrow>
               if SchemaVersion s < CurrentSchemaVersion then runMigrations s
               else if SchemaVersion s > CurrentSchemaVersion
               then Inl (Errorf ''store schema version %d is newer than this binary (max %d); upgrade todo''
                           [ArgInt (uint (SchemaVersion s)), ArgInt (uint CurrentSchemaVersion)] [])
               else Inr s))"

text \<open>
  The calls of \<^verbatim>\<open>writeStore\<close> after the encoding: for each its error, and the disk it leaves when it
  succeeds and when it fails. The result is the error and every state of the disk.
\<close>

type_synonym 'b io_step = "goerr option \<times> ('b disk \<Rightarrow> 'b disk) \<times> ('b disk \<Rightarrow> 'b disk)"

fun run_steps :: "'b io_step list \<Rightarrow> 'b disk \<Rightarrow> goerr option \<times> 'b disk list" where
  "run_steps [] d = (None, [d])"
| "run_steps ((err, ok, failed) # steps) d =
     (case err of
        Some e \<Rightarrow> (Some e, [d, failed d])
      | None \<Rightarrow> (case run_steps steps (ok d) of (r, ds) \<Rightarrow> (r, d # ds)))"

definition write_steps :: "write_env \<Rightarrow> 'b \<Rightarrow> 'b io_step list" where
  "write_steps e data =
     [(CreateTemp_err e, \<lambda>d. d\<lparr>temporary := TempPartial\<rparr>, \<lambda>d. d),
      (Chmod_err e, \<lambda>d. d, \<lambda>d. d),
      (ReadFrom_err e, \<lambda>d. d\<lparr>temporary := TempBytes data\<rparr>, \<lambda>d. d\<lparr>temporary := TempPartial\<rparr>),
      (Sync_err e, \<lambda>d. d, \<lambda>d. d),
      (Close_err e, \<lambda>d. d, \<lambda>d. d),
      (Rename_err e, \<lambda>d. d\<lparr>target := (case temporary d of TempBytes b \<Rightarrow> FileBytes b | _ \<Rightarrow> target d),
                          temporary := TempAbsent\<rparr>, \<lambda>d. d),
      (SyncDir_err e, \<lambda>d. d, \<lambda>d. d)]"

text \<open>The deferred \<^verbatim>\<open>os.Remove\<close> of the temporary file ends the trace.\<close>

definition writeStore ::
  "'b codec \<Rightarrow> write_env \<Rightarrow> gotime \<Rightarrow> TaskStore \<Rightarrow> 'b disk \<Rightarrow> goerr option \<times> TaskStore \<times> 'b disk list" where
  "writeStore c e clk s d =
     (let s = s\<lparr>SchemaVersion := CurrentSchemaVersion, LastModified := millis clk\<rparr>
      in case Marshal c s of
           Inl err \<Rightarrow> (Some err, s, [d])
         | Inr data \<Rightarrow>
             (case run_steps (write_steps e data) d of
                (err, ds) \<Rightarrow> (err, s, ds @ [(last ds)\<lparr>temporary := TempAbsent\<rparr>])))"

definition stamped :: "gotime \<Rightarrow> TaskStore \<Rightarrow> TaskStore" where
  "stamped clk s = s\<lparr>SchemaVersion := CurrentSchemaVersion, LastModified := millis clk\<rparr>"

section \<open>Transactions\<close>

text \<open>The prologue shared by the callers: the directory, the lock file, the lock.\<close>

definition locked :: "io_env \<Rightarrow> goerr option" where
  "locked e = (case MkdirAll_err e of Some err \<Rightarrow> Some err | None \<Rightarrow>
                (case Open_err e of Some err \<Rightarrow> Some err | None \<Rightarrow> Acquire_err e))"

definition Save :: "'b codec \<Rightarrow> io_env \<Rightarrow> TaskStore \<Rightarrow> 'b disk \<Rightarrow> goerr option \<times> 'b disk list" where
  "Save c e s d =
     (case locked e of
        Some err \<Rightarrow> (Some err, [d])
      | None \<Rightarrow> (case writeStore c (writing e) (write_time e) s d of (err, _, ds) \<Rightarrow> (err, ds)))"

definition Load :: "'b codec \<Rightarrow> io_env \<Rightarrow> 'b disk \<Rightarrow> goerr + TaskStore" where
  "Load c e d =
     (case Open_err e of
        Some err \<Rightarrow> Inl err
      | None \<Rightarrow> (case Acquire_err e of Some err \<Rightarrow> Inl err | None \<Rightarrow> loadUnlocked c (target d)))"

text \<open>
  \<^verbatim>\<open>LoadCurrent\<close> reads under the read lock and, when a lease has run out, again under the write
  lock: \<open>d1\<close> and \<open>d2\<close> are the disks it finds, other processes having run in between. As for
  \<open>Update\<close>, \<open>None\<close> is a panic.
\<close>

definition LoadCurrent ::
  "'b codec \<Rightarrow> io_env \<Rightarrow> io_env \<Rightarrow> gotime \<Rightarrow> 'b disk \<Rightarrow> 'b disk \<Rightarrow> ((goerr + TaskStore) \<times> 'b disk list) option" where
  "LoadCurrent c e1 e2 clk d1 d2 =
     (case Load c e1 d1 of
        Inl err \<Rightarrow> Some (Inl err, [d2])
      | Inr snapshot \<Rightarrow>
          if \<not> HasExpiredLeases clk snapshot then Some (Inr snapshot, [d2])
          else
            (case Load c e2 d2 of
               Inl err \<Rightarrow> Some (Inl err, [d2])
             | Inr s \<Rightarrow>
                 (case CleanExpiredLeases (clean_time e2) s of
                    None \<Rightarrow> None
                  | Some (cleaned, s) \<Rightarrow>
                      if cleaned > 0
                      then (case writeStore c (writing e2) (write_time e2) s d2 of
                              (Some err, _, ds) \<Rightarrow> Some (Inl err, ds)
                            | (None, s, ds) \<Rightarrow> Some (Inr s, ds))
                      else Some (Inr s, [d2]))))"

definition Update ::
  "'b codec \<Rightarrow> io_env \<Rightarrow> (TaskStore \<Rightarrow> 'a res) \<Rightarrow> 'b disk \<Rightarrow> ((goerr + 'a \<times> TaskStore) \<times> 'b disk list) option" where
  "Update c e mutate d =
     (case locked e of
        Some err \<Rightarrow> Some (Inl err, [d])
      | None \<Rightarrow>
          (case loadUnlocked c (target d) of
             Inl err \<Rightarrow> Some (Inl err, [d])
           | Inr s \<Rightarrow>
               (case CleanExpiredLeases (clean_time e) s of
                  None \<Rightarrow> None
                | Some (cleaned, s) \<Rightarrow>
                    (case mutate s of
                       (Inl err, s) \<Rightarrow>
                         if cleaned > 0
                         then (case writeStore c (writing e) (write_time e) s d of
                                 (Some writeErr, _, ds) \<Rightarrow>
                                   Some (Inl (Errorf ''mutation failed: %w; persisting lease expiration: %w''
                                                [] [err, writeErr]), ds)
                               | (None, _, ds) \<Rightarrow> Some (Inl err, ds))
                         else Some (Inl err, [d])
                     | (Inr a, s) \<Rightarrow>
                         (case writeStore c (writing e) (write_time e) s d of
                            (Some err, _, ds) \<Rightarrow> Some (Inl err, ds)
                          | (None, s, ds) \<Rightarrow> Some (Inr (a, s), ds))))))"

section \<open>What a write leaves on disk\<close>

lemma migrate_rounds_version:
  "migrate_rounds n v s = Inr s' \<Longrightarrow> SchemaVersion s = v \<Longrightarrow> SchemaVersion s' = v + of_nat n"
  by (induction n arbitrary: v s) (auto simp: migrations_def split: if_splits)

lemma runMigrations_version:
  assumes "runMigrations s = Inr s'" "SchemaVersion s < CurrentSchemaVersion"
  shows "SchemaVersion s' = CurrentSchemaVersion"
proof -
  have "unat (SchemaVersion s) < 4" using assms(2) by (simp add: word_less_nat_alt)
  then have "(of_nat (unat CurrentSchemaVersion - unat (SchemaVersion s)) :: u32) = 4 - SchemaVersion s"
    by (simp add: of_nat_diff)
  then show ?thesis using migrate_rounds_version [OF assms(1) [unfolded runMigrations_def]] by simp
qed

lemma loadUnlocked_version: "loadUnlocked c f = Inr s \<Longrightarrow> SchemaVersion s = CurrentSchemaVersion"
  by (auto simp: loadUnlocked_def NewTaskStore_def runMigrations_version
      split: stored_file.splits sum.splits if_splits)

lemma loadUnlocked_Marshal:
  assumes "codec_ok c" "Marshal c s = Inr b" "SchemaVersion s = CurrentSchemaVersion"
  shows "loadUnlocked c (FileBytes b) = Inr s"
  using assms by (simp add: loadUnlocked_def codec_ok_def)

lemma stamped_version [simp]: "SchemaVersion (stamped clk s) = CurrentSchemaVersion"
  by (simp add: stamped_def)

lemma stamped_fields [simp]:
  "Tasks (stamped clk s) = Tasks s" "NextID (stamped clk s) = NextID s" "Events (stamped clk s) = Events s"
  "NextEventID (stamped clk s) = NextEventID s" "Acquisitions (stamped clk s) = Acquisitions s"
  by (simp_all add: stamped_def)

text \<open>At every moment of a write the file holds the old bytes or all of the new ones.\<close>

lemma write_steps_trace:
  assumes "run_steps (write_steps e data) d = (err, ds)"
  shows "ds \<noteq> [] \<and> (\<forall>d' \<in> set ds. target d' = target d \<or> target d' = FileBytes data)
    \<and> (err = None \<longrightarrow> target (last ds) = FileBytes data)"
  using assms by (auto simp: write_steps_def split: option.splits prod.splits)

lemma writeStore_trace:
  assumes "writeStore c e clk s d = (err, s', ds)"
  shows "s' = stamped clk s \<and> ds \<noteq> []
    \<and> (\<forall>d' \<in> set ds. target d' = target d \<or> (\<exists>b. Marshal c s' = Inr b \<and> target d' = FileBytes b))
    \<and> (err = None \<longrightarrow> (\<exists>b. Marshal c s' = Inr b \<and> target (last ds) = FileBytes b))"
  using assms write_steps_trace [where d = d and e = e]
  by (fastforce simp: writeStore_def stamped_def Let_def split: sum.splits prod.splits)

text \<open>The store that a disk holds; a file that cannot be read holds none.\<close>

definition holds :: "'b codec \<Rightarrow> 'b disk \<Rightarrow> TaskStore \<Rightarrow> bool" where
  "holds c d s \<longleftrightarrow> loadUnlocked c (target d) = Inr s"

lemma writeStore_holds:
  assumes "codec_ok c" "writeStore c e clk s d = (err, s', ds)"
  shows "\<forall>d' \<in> set ds. target d' = target d \<or> holds c d' (stamped clk s)"
    and "err = None \<Longrightarrow> holds c (last ds) (stamped clk s)"
  using writeStore_trace [OF assms(2)] loadUnlocked_Marshal [OF assms(1)]
  by (auto simp: holds_def)

lemma writeStore_success:
  assumes "Marshal c (stamped clk s) = Inr b"
  shows "\<exists>ds. writeStore c no_write_errors clk s d = (None, stamped clk s, ds)"
  using assms
  by (simp add: writeStore_def stamped_def Let_def write_steps_def no_write_errors_def split: prod.splits)

lemma Update_trace_nonempty: "Update c e mutate d = Some (r, ds) \<Longrightarrow> ds \<noteq> []"
  using writeStore_trace
  by (fastforce simp: Update_def split: option.splits sum.splits prod.splits if_splits)

section \<open>Interfaces: invariants, mutators, atomic mutators\<close>

text \<open>An invariant of the store that the work of a transaction around the callback keeps.\<close>

locale store_invariant =
  fixes inv :: "TaskStore \<Rightarrow> bool"
  assumes inv_wf: "inv s \<Longrightarrow> tasks_wf (Tasks s)"
    and inv_new: "inv NewTaskStore"
    and inv_stamped: "inv s \<Longrightarrow> inv (stamped clk s)"
    and inv_sweep: "inv s \<Longrightarrow> CleanExpiredLeases clk s = Some (n, s') \<Longrightarrow> inv s'"
begin

lemma sweep_total: "inv s \<Longrightarrow> \<exists>n s'. CleanExpiredLeases clk s = Some (n, s') \<and> inv s'"
  using CleanExpiredLeases_spec [OF inv_wf, of s clk] inv_sweep by blast

lemma LoadCurrent_inv:
  assumes "codec_ok c" "holds c d1 s1" "inv s1" "holds c d2 s2" "inv s2"
  shows "\<exists>r ds. LoadCurrent c e1 e2 clk d1 d2 = Some (r, ds)
    \<and> (\<forall>s. r = Inr s \<longrightarrow> inv s) \<and> (\<forall>d' \<in> set ds. \<exists>s. holds c d' s \<and> inv s)"
proof -
  obtain n s where s: "CleanExpiredLeases (clean_time e2) s2 = Some (n, s)" "inv s"
    using sweep_total [OF assms(5)] by blast
  obtain err s' ds where w: "writeStore c (writing e2) (write_time e2) s d2 = (err, s', ds)"
    by (metis prod_cases3)
  have s': "s' = stamped (write_time e2) s" "inv s'" using writeStore_trace [OF w] inv_stamped s(2) by auto
  have "\<forall>d' \<in> set ds. \<exists>s. holds c d' s \<and> inv s"
    using writeStore_holds(1) [OF assms(1) w] s' assms(4,5) by (auto simp: holds_def)
  then show ?thesis
    using assms s s' w
    by (auto simp: LoadCurrent_def Load_def holds_def split: option.splits prod.splits sum.splits)
qed

end

text \<open>A callback of \<^verbatim>\<open>Update\<close> that keeps the invariant on success and on failure.\<close>

locale mutator = store_invariant inv
  for inv :: "TaskStore \<Rightarrow> bool" +
  fixes mutate :: "TaskStore \<Rightarrow> 'a res" and pre :: "TaskStore \<Rightarrow> bool"
  assumes pre_sweep: "inv s \<Longrightarrow> pre s \<Longrightarrow> CleanExpiredLeases clk s = Some (n, s') \<Longrightarrow> pre s'"
    and keeps: "inv s \<Longrightarrow> pre s \<Longrightarrow> inv (snd (mutate s))"
begin

lemma Update_inv:
  assumes "codec_ok c" "holds c d s" "inv s" "pre s"
  shows "\<exists>r ds. Update c e mutate d = Some (r, ds)
    \<and> (\<forall>a s'. r = Inr (a, s') \<longrightarrow> inv s') \<and> (\<forall>d' \<in> set ds. \<exists>s'. holds c d' s' \<and> inv s')"
proof -
  obtain n s1 where s1: "CleanExpiredLeases (clean_time e) s = Some (n, s1)" "inv s1"
    using sweep_total [OF assms(3)] by blast
  then have "pre s1" using pre_sweep assms(3,4) by blast
  obtain r s2 where m: "mutate s1 = (r, s2)" by (cases "mutate s1")
  then have s2: "inv s2" using keeps [OF s1(2) \<open>pre s1\<close>] by simp
  obtain err s' ds where w: "writeStore c (writing e) (write_time e) s2 d = (err, s', ds)"
    by (metis prod_cases3)
  have s': "s' = stamped (write_time e) s2" "inv s'" using writeStore_trace [OF w] inv_stamped s2 by auto
  have "\<forall>d' \<in> set ds. \<exists>s. holds c d' s \<and> inv s"
    using writeStore_holds(1) [OF assms(1) w] s' assms(2,3) by (auto simp: holds_def)
  then show ?thesis
    using assms s1 m s' w
    by (cases r) (auto simp: Update_def holds_def split: option.splits)
qed

end

text \<open>A callback that changes nothing when it fails: then a failed transaction shows nothing of it.\<close>

locale atomic_mutator = mutator +
  assumes failure_unchanged: "mutate s = (Inl err, s') \<Longrightarrow> s' = s"
begin

lemma Update_failure_invisible:
  assumes "codec_ok c" "holds c d s" "CleanExpiredLeases (clean_time e) s = Some (n, s1)"
    "mutate s1 = (Inl err, s2)" "Update c e mutate d = Some (r, ds)" "d' \<in> set ds"
  shows "holds c d' s \<or> holds c d' (stamped (write_time e) s1)"
proof -
  have s2: "s2 = s1" using assms(4) by (rule failure_unchanged)
  obtain err s' ds' where w: "writeStore c (writing e) (write_time e) s1 d = (err, s', ds')"
    by (metis prod_cases3)
  from writeStore_holds(1) [OF assms(1) w] assms(2-6) w s2 show ?thesis
    by (auto simp: Update_def holds_def split: option.splits if_splits)
qed

end

section \<open>Properties\<close>

lemma migrations_keep:
  "migrations v = Some m \<Longrightarrow> Tasks (m s) = Tasks s \<and> Events (m s) = Events s \<and> NextID (m s) = NextID s
    \<and> Acquisitions (m s) = Acquisitions s \<and> (NextEventID s \<noteq> 0 \<longrightarrow> NextEventID (m s) = NextEventID s)"
  by (auto simp: migrations_def split: if_splits)

lemma migrate_rounds_keep:
  "migrate_rounds n v s = Inr s' \<Longrightarrow> Tasks s' = Tasks s \<and> Events s' = Events s \<and> NextID s' = NextID s
    \<and> Acquisitions s' = Acquisitions s \<and> (NextEventID s \<noteq> 0 \<longrightarrow> NextEventID s' = NextEventID s)"
  by (induction n arbitrary: v s) (auto dest: migrations_keep split: option.splits)

lemma migrate_rounds_total: "unat v + n \<le> 4 \<Longrightarrow> \<exists>s'. migrate_rounds n v s = Inr s'"
proof (induction n arbitrary: v s)
  case (Suc n)
  then have v: "unat v < 4" by simp
  then have "unat v \<in> {0, 1, 2, 3}" by auto
  then have "v = 0 \<or> v = 1 \<or> v = 2 \<or> v = 3" by (auto simp: word_unat_eq_iff)
  then obtain m where m: "migrations v = Some m" by (auto simp: migrations_def)
  have "unat (v + 1) = unat v + 1" using v by (intro unat_succ) simp
  with Suc show ?case by (simp add: m)
qed simp

text \<open>
  Every store of an older version loads. The chain of migrations from any version before the
  current one has no gap, ends at the current version, and loses nothing: tasks, event log,
  identifiers and receipts are those of the file, and an event counter already in use is kept.
\<close>

theorem runMigrations_total:
  assumes "SchemaVersion s < CurrentSchemaVersion"
  shows "\<exists>s'. runMigrations s = Inr s' \<and> SchemaVersion s' = CurrentSchemaVersion
    \<and> Tasks s' = Tasks s \<and> Events s' = Events s \<and> NextID s' = NextID s \<and> Acquisitions s' = Acquisitions s
    \<and> (NextEventID s \<noteq> 0 \<longrightarrow> NextEventID s' = NextEventID s)"
proof -
  have "unat (SchemaVersion s) < 4" using assms by (simp add: word_less_nat_alt)
  then obtain s' where s': "runMigrations s = Inr s'"
    using migrate_rounds_total [of "SchemaVersion s" "4 - unat (SchemaVersion s)" s] by (auto simp: runMigrations_def)
  then show ?thesis
    using runMigrations_version [OF s' assms] migrate_rounds_keep [OF s' [unfolded runMigrations_def]] by blast
qed

lemma runMigrations_total_witness:
  "\<exists>s'. runMigrations (NewTaskStore\<lparr>SchemaVersion := 1, NextEventID := 9\<rparr>) = Inr s' \<and> NextEventID s' = 9"
  using runMigrations_total [of "NewTaskStore\<lparr>SchemaVersion := 1, NextEventID := 9\<rparr>"] by auto

text \<open>
  C7: a transaction is atomic on disk, whatever call fails and wherever the process stops. At
  every moment the file is the old one or the complete encoding of the store that the callback
  left; a successful transaction ends with the file holding the result it returns.
\<close>

theorem Update_atomic:
  assumes "codec_ok c" "Update c e mutate d = Some (r, ds)"
  shows "(\<forall>d' \<in> set ds. target d' = target d
           \<or> (\<exists>s n s1. holds c d s \<and> CleanExpiredLeases (clean_time e) s = Some (n, s1)
                \<and> holds c d' (stamped (write_time e) (snd (mutate s1)))))
    \<and> (\<forall>a s'. r = Inr (a, s') \<longrightarrow> holds c (last ds) s'
         \<and> (\<exists>s n s1 s2. holds c d s \<and> CleanExpiredLeases (clean_time e) s = Some (n, s1)
              \<and> mutate s1 = (Inr a, s2) \<and> s' = stamped (write_time e) s2))"
proof -
  show ?thesis
  proof (cases "locked e = None \<and> (\<exists>s. holds c d s)")
    case False
    with assms(2) show ?thesis
      by (auto simp: Update_def holds_def split: option.splits sum.splits)
  next
    case True
    then obtain s where s: "locked e = None" "holds c d s" by blast
    with assms(2) obtain n s1 where s1: "CleanExpiredLeases (clean_time e) s = Some (n, s1)"
      by (auto simp: Update_def holds_def split: option.splits)
    obtain q s2 where m: "mutate s1 = (q, s2)" by (cases "mutate s1")
    obtain err s' ds' where w: "writeStore c (writing e) (write_time e) s2 d = (err, s', ds')"
      by (metis prod_cases3)
    have s': "s' = stamped (write_time e) s2" using writeStore_trace [OF w] by simp
    have cases: "(ds = [d] \<or> ds = ds') \<and> (\<forall>a s''. r = Inr (a, s'') \<longrightarrow> q = Inr a \<and> s'' = s' \<and> ds = ds' \<and> err = None)"
      using assms(2) s s1 m w
      by (cases q) (auto simp: Update_def holds_def split: option.splits if_splits)
    then have "\<forall>d' \<in> set ds. target d' = target d \<or> holds c d' (stamped (write_time e) (snd (mutate s1)))"
      using writeStore_holds(1) [OF assms(1) w] by (auto simp: m)
    moreover have "holds c (last ds) s'" if "r = Inr (a, s'')" for a s''
      using writeStore_holds(2) [OF assms(1) w] cases that s' by auto
    ultimately show ?thesis using cases s(2) s1 m s' by blast
  qed
qed

definition fresh_disk :: "TaskStore disk" where
  "fresh_disk = \<lparr>target = FileAbsent, temporary = TempAbsent\<rparr>"

lemma Update_atomic_witness:
  "\<exists>s' ds. Update plain_codec (no_io_errors 0 0) (\<lambda>s. (Inr (), s\<lparr>NextID := 7\<rparr>)) fresh_disk = Some (Inr ((), s'), ds)
     \<and> holds plain_codec (last ds) s' \<and> NextID s' = 7"
proof -
  have clean: "CleanExpiredLeases 0 NewTaskStore = Some (0, NewTaskStore)"
    by (simp add: CleanExpiredLeases_def expired_ids_def NewTaskStore_def GetAllTasks_def)
  have "Marshal plain_codec (stamped 0 (NewTaskStore\<lparr>NextID := 7\<rparr>)) = Inr (stamped 0 (NewTaskStore\<lparr>NextID := 7\<rparr>))"
    by (simp add: plain_codec_def)
  from writeStore_success [OF this, of fresh_disk] obtain ds where "writeStore plain_codec no_write_errors 0 (NewTaskStore\<lparr>NextID := 7\<rparr>) fresh_disk
      = (None, stamped 0 (NewTaskStore\<lparr>NextID := 7\<rparr>), ds)"
    by blast
  then have u: "Update plain_codec (no_io_errors 0 0) (\<lambda>s. (Inr (), s\<lparr>NextID := 7\<rparr>)) fresh_disk
      = Some (Inr ((), stamped 0 (NewTaskStore\<lparr>NextID := 7\<rparr>)), ds)"
    using clean by (simp add: Update_def no_io_errors_def locked_def fresh_disk_def loadUnlocked_def)
  show ?thesis using Update_atomic [OF plain_codec_ok u] u by auto
qed

end
