(* ===== verification/Invariant.thy ===== *)
theory Invariant
  imports Dag StoreFile
begin

text \<open>
  The invariants that \<^verbatim>\<open>todo doctor\<close> checks (\<^verbatim>\<open>storeInvariantProblems\<close> of \<^verbatim>\<open>cmd_doctor.go\<close>), as the
  code's checker and as a predicate; the two are proved equivalent. The predicate is the
  invariant of the development: the components prove that their operations keep it.
\<close>

section \<open>The checker\<close>

text \<open>One constructor per message of the checker. Tasks of the model are never \<^verbatim>\<open>nil\<close>.\<close>

datatype problem =
    KeyMismatch u64 u64
  | InvalidStatus u64 u8
  | InvalidPriority u64 float32
  | IncompleteLease u64
  | StrayOwnership u64
  | CompletedWithoutTimestamp u64
  | StrayTimestamp u64
  | InvalidDependency u64 string
  | MissingDependency u64 u64
  | NextIDTooSmall u64 u64
  | CyclicGraph goerr

definition dep_problems :: "tasks \<Rightarrow> u64 \<Rightarrow> string \<Rightarrow> problem list" where
  "dep_problems ts i dep =
     (case (case ParseTaskURI dep of
              Inr (repository, depID) \<Rightarrow> Some (repository, depID)
            | Inl _ \<Rightarrow> (case ParseLocalID dep of Some localID \<Rightarrow> Some (''local'', localID) | None \<Rightarrow> None)) of
        None \<Rightarrow> [InvalidDependency i dep]
      | Some (repository, depID) \<Rightarrow>
          if repository = ''local'' \<and> map_of ts depID = None then [MissingDependency i depID] else [])"

definition task_problems :: "tasks \<Rightarrow> u64 \<Rightarrow> Task \<Rightarrow> problem list" where
  "task_problems ts key task =
     (if key \<noteq> ID task then [KeyMismatch key (ID task)] else [])
     @ (if Status task > StatusBlocked then [InvalidStatus (ID task) (Status task)] else [])
     @ (if \<not> validPriority (Priority task) then [InvalidPriority (ID task) (Priority task)] else [])
     @ (if Status task = StatusInProgress
        then (if Owner task = [] \<or> LeaseExpires task = 0 then [IncompleteLease (ID task)] else [])
        else (if Owner task \<noteq> [] \<or> LeaseExpires task \<noteq> 0 then [StrayOwnership (ID task)] else []))
     @ (if Status task = StatusCompleted \<and> Completed task = 0 then [CompletedWithoutTimestamp (ID task)] else [])
     @ (if Status task \<noteq> StatusCompleted \<and> Completed task \<noteq> 0 then [StrayTimestamp (ID task)] else [])
     @ concat (map (dep_problems ts (ID task)) (Depends task))"

definition max_task_id :: "tasks \<Rightarrow> u64" where
  "max_task_id ts = fold (\<lambda>(_, task) maxID. if ID task > maxID then ID task else maxID) ts 0"

definition storeInvariantProblems :: "TaskStore \<Rightarrow> problem list" where
  "storeInvariantProblems s =
     concat (map (\<lambda>(key, task). task_problems (Tasks s) key task) (Tasks s))
     @ (let maxID = max_task_id (Tasks s)
        in if NextID s = 0 \<or> NextID s \<le> maxID then [NextIDTooSmall (NextID s) maxID] else [])
     @ (case DetectCycle [] 0 (BuildFromTasks (Tasks s)) of None \<Rightarrow> [] | Some err \<Rightarrow> [CyclicGraph err])"

section \<open>The invariant\<close>

text \<open>What the fields of a single task satisfy.\<close>

definition task_sound :: "Task \<Rightarrow> bool" where
  "task_sound t \<longleftrightarrow>
     Status t \<le> StatusBlocked \<and> validPriority (Priority t)
     \<and> (if Status t = StatusInProgress then Owner t \<noteq> [] \<and> LeaseExpires t \<noteq> 0
        else Owner t = [] \<and> LeaseExpires t = 0)
     \<and> (Status t = StatusCompleted \<longleftrightarrow> Completed t \<noteq> 0)"

text \<open>A dependency denotes a task: a local one that exists, or one of another repository.\<close>

definition dep_sound :: "u64 set \<Rightarrow> string \<Rightarrow> bool" where
  "dep_sound ids d \<longleftrightarrow>
     (case ParseLocalID d of Some i \<Rightarrow> i \<in> ids | None \<Rightarrow> \<exists>repo i. ParseTaskURI d = Inr (repo, i))"

definition graph_of :: "(u64 \<rightharpoonup> Task) \<Rightarrow> (u64 \<times> u64) set" where
  "graph_of m = {(a, b). \<exists>t. m b = Some t \<and> a \<in> local_deps (Depends t)}"

definition store_inv :: "TaskStore \<Rightarrow> bool" where
  "store_inv s \<longleftrightarrow>
     tasks_wf (Tasks s)
     \<and> (\<forall>i t. map_of (Tasks s) i = Some t \<longrightarrow>
          task_sound t \<and> (\<forall>d \<in> set (Depends t). dep_sound (dom (map_of (Tasks s))) d) \<and> i < NextID s)
     \<and> NextID s \<noteq> 0
     \<and> acyclic (graph_of (map_of (Tasks s)))"

lemma dep_edges_graph_of: "tasks_wf ts \<Longrightarrow> dep_edges ts = graph_of (map_of ts)"
  by (force simp: dep_edges_def graph_of_def tasks_wf_def map_of_iff_set)

lemma store_invD:
  assumes "store_inv s" "map_of (Tasks s) i = Some t"
  shows "ID t = i" "task_sound t" "i < NextID s" "d \<in> set (Depends t) \<Longrightarrow> dep_sound (dom (map_of (Tasks s))) d"
  using assms by (auto simp: store_inv_def dest: tasks_wfD)

lemma store_inv_wf: "store_inv s \<Longrightarrow> tasks_wf (Tasks s)"
  by (simp add: store_inv_def)

section \<open>The checker decides the invariant\<close>

lemma dep_problems_Nil: "dep_problems ts i d = [] \<longleftrightarrow> dep_sound (dom (map_of ts)) d"
proof (cases "ParseTaskURI d")
  case (Inl err)
  then show ?thesis by (auto simp: dep_problems_def dep_sound_def split: option.splits)
next
  case (Inr r)
  then obtain repo k where "ParseTaskURI d = Inr (repo, k)" by (cases r) auto
  with ParseTaskURI_ParseLocalID [OF this] show ?thesis
    by (auto simp: dep_problems_def dep_sound_def)
qed

lemma task_problems_Nil:
  "task_problems ts k t = [] \<longleftrightarrow> k = ID t \<and> task_sound t \<and> (\<forall>d \<in> set (Depends t). dep_sound (dom (map_of ts)) d)"
  by (auto simp: task_problems_def task_sound_def dep_problems_Nil not_less)

lemma fold_max_less:
  fixes m0 :: u64
  shows "fold (\<lambda>(_, task) m. if ID task > m then ID task else m) ts m0 < n
    \<longleftrightarrow> m0 < n \<and> (\<forall>(k, t) \<in> set ts. ID t < n)"
  by (induction ts arbitrary: m0) (auto simp: not_less intro: less_trans le_less_trans split: if_splits)

lemma max_task_id_less: "max_task_id ts < n \<longleftrightarrow> 0 < n \<and> (\<forall>(k, t) \<in> set ts. ID t < n)"
  by (simp add: max_task_id_def fold_max_less)

lemma DetectCycle_whole: "DetectCycle [] 0 (BuildFromTasks ts) = None \<longleftrightarrow> acyclic (dep_edges ts)"
  by (simp add: DetectCycle_tasks)

lemma problems_Nil_iff:
  assumes "distinct (map fst (Tasks s))"
  shows "storeInvariantProblems s = [] \<longleftrightarrow> store_inv s"
proof -
  have all: "(\<forall>(k, t) \<in> set (Tasks s). P k t) \<longleftrightarrow> (\<forall>k t. map_of (Tasks s) k = Some t \<longrightarrow> P k t)" for P
    using assms by (auto simp: map_of_iff_set)
  have keys: "concat (map (\<lambda>(key, task). task_problems (Tasks s) key task) (Tasks s)) = []
      \<longleftrightarrow> tasks_wf (Tasks s) \<and> (\<forall>i t. map_of (Tasks s) i = Some t \<longrightarrow>
            task_sound t \<and> (\<forall>d \<in> set (Depends t). dep_sound (dom (map_of (Tasks s))) d))"
    using assms by (simp add: tasks_wf_def all task_problems_Nil split_beta) (metis fst_conv snd_conv assms map_of_iff_set surj_pair)
  have next_id: "(if NextID s = 0 \<or> NextID s \<le> max_task_id (Tasks s) then [NextIDTooSmall (NextID s) (max_task_id (Tasks s))] else []) = []
      \<longleftrightarrow> NextID s \<noteq> 0 \<and> (\<forall>k t. map_of (Tasks s) k = Some t \<longrightarrow> ID t < NextID s)"
    using all [of "\<lambda>k t. ID t < NextID s"] max_task_id_less [of "Tasks s" "NextID s"]
    by (auto simp: not_le word_neq_0_conv)
  have cyc: "(case DetectCycle [] 0 (BuildFromTasks (Tasks s)) of None \<Rightarrow> [] | Some err \<Rightarrow> [CyclicGraph err]) = []
      \<longleftrightarrow> acyclic (dep_edges (Tasks s))"
    using DetectCycle_whole [of "Tasks s"] by (auto split: option.splits)
  show ?thesis
    unfolding storeInvariantProblems_def append_is_Nil_conv Let_def keys next_id cyc store_inv_def
    using tasks_wfD [of "Tasks s"] dep_edges_graph_of [of "Tasks s"] by metis
qed

section \<open>Preservation\<close>

text \<open>
  Most operations rewrite fields of tasks and keep the dependencies: then the invariant of the
  new store is the soundness of the tasks.
\<close>

lemma store_inv_transfer:
  assumes "store_inv s" "tasks_wf (Tasks s')" "NextID s' = NextID s"
    "\<And>i. rel_option (\<lambda>t t'. Depends t' = Depends t \<and> task_sound t') (map_of (Tasks s) i) (map_of (Tasks s') i)"
  shows "store_inv s'"
proof -
  have dom: "dom (map_of (Tasks s')) = dom (map_of (Tasks s))"
    using assms(4) by (force simp: dom_def option_rel_Some1 option_rel_Some2 rel_option_iff split: option.splits)
  have graph: "graph_of (map_of (Tasks s')) = graph_of (map_of (Tasks s))"
    using assms(4) by (force simp: graph_of_def rel_option_iff split: option.splits)
  have "task_sound t \<and> (\<forall>d \<in> set (Depends t). dep_sound (dom (map_of (Tasks s'))) d) \<and> i < NextID s'"
    if "map_of (Tasks s') i = Some t" for i t
    using assms(4) [of i] that store_invD [OF assms(1), of i] by (auto simp: option_rel_Some2 dom assms(3))
  then show ?thesis using assms graph by (simp add: store_inv_def)
qed

lemma task_sound_reclaimed: "task_sound t \<Longrightarrow> Status t = StatusInProgress \<Longrightarrow> task_sound (reclaimed t)"
  by (simp add: task_sound_def)

lemma task_sound_swept: "task_sound t \<Longrightarrow> task_sound (swept now t)"
  by (auto simp: swept_def task_expired_def intro: task_sound_reclaimed)

lemma store_inv_sweep:
  assumes "store_inv s" "CleanExpiredLeases clk s = Some (n, s')"
  shows "store_inv s'"
proof -
  from CleanExpiredLeases_spec [OF store_inv_wf [OF assms(1)], of clk] assms(2)
  have s': "tasks_wf (Tasks s')" "same_frame s s'"
    "map_of (Tasks s') = (\<lambda>j. map_option (swept (millis clk)) (map_of (Tasks s) j))" by auto
  show ?thesis
    by (rule store_inv_transfer [OF assms(1) s'(1)])
       (use s' store_invD(2) [OF assms(1)] in \<open>auto simp: same_frame_def rel_option_iff task_sound_swept split: option.splits\<close>)
qed

lemma store_inv_stamped: "store_inv s \<Longrightarrow> store_inv (stamped clk s)"
  by (simp add: store_inv_def)

lemma store_inv_new: "store_inv NewTaskStore"
  by (simp add: store_inv_def NewTaskStore_def graph_of_def acyclic_def)

interpretation doctor: store_invariant store_inv
  by unfold_locales (auto intro: store_inv_wf store_inv_new store_inv_stamped store_inv_sweep)

section \<open>Properties\<close>

text \<open>
  C11: \<^verbatim>\<open>todo doctor\<close> is a decision procedure for the invariant: it has no problem to report
  exactly when every task is stored under its own ID with sound fields, every dependency denotes
  a task, the next ID is fresh and the dependency graph is acyclic.
\<close>

theorem doctor_decides_invariant:
  assumes "distinct (map fst (Tasks s))"
  shows "storeInvariantProblems s = [] \<longleftrightarrow> store_inv s"
  using assms by (rule problems_Nil_iff)

lemma doctor_decides_invariant_witness:
  "store_inv NewTaskStore \<and> storeInvariantProblems NewTaskStore = []"
  using doctor_decides_invariant [of NewTaskStore] store_inv_new store_inv_wf tasks_wf_distinct by blast

end
