(* ===== verification/InputLimits.thy ===== *)
theory InputLimits
  imports Errors
begin

text \<open>
  The limits on persisted input (\<^verbatim>\<open>input_limits.go\<close>). \<open>None\<close> is no error. The message arguments of
  the formats are kept.
\<close>

abbreviation "maxTaskTitleBytes \<equiv> (1024 :: nat)"
abbreviation "maxActorBytes \<equiv> (128 :: nat)"
abbreviation "maxReasonBytes \<equiv> (8 * 1024 :: nat)"
abbreviation "maxErrorBytes \<equiv> (8 * 1024 :: nat)"
abbreviation "maxLogMessageBytes \<equiv> (16 * 1024 :: nat)"
abbreviation "maxMetadataKeyBytes \<equiv> (128 :: nat)"
abbreviation "maxMetadataValueBytes \<equiv> (16 * 1024 :: nat)"
abbreviation "maxDependencyBytes \<equiv> (512 :: nat)"
abbreviation "maxCapabilityBytes \<equiv> (128 :: nat)"
abbreviation "maxTagBytes \<equiv> (128 :: nat)"
abbreviation "maxAgentDescriptionBytes \<equiv> (4 * 1024 :: nat)"
abbreviation "maxTaskDependencies \<equiv> (128 :: nat)"
abbreviation "maxTaskCapabilities \<equiv> (64 :: nat)"
abbreviation "maxTaskTags \<equiv> (64 :: nat)"
abbreviation "maxTaskExtraEntries \<equiv> (128 :: nat)"

definition validatePersistedString :: "string \<Rightarrow> string \<Rightarrow> nat \<Rightarrow> goerr option" where
  "validatePersistedString field val maxBytes =
     (if \<not> ValidString val then Some (Errorf ''%s must be valid UTF-8'' [ArgStr field] [])
      else if length val > maxBytes
      then Some (Errorf ''%s must be at most %d UTF-8 bytes'' [ArgStr field, ArgInt (int maxBytes)] [])
      else None)"

definition validateRequiredPersistedString :: "string \<Rightarrow> string \<Rightarrow> nat \<Rightarrow> goerr option" where
  "validateRequiredPersistedString field val maxBytes =
     (if TrimSpace val = [] then Some (Errorf ''%s is required'' [ArgStr field] [])
      else validatePersistedString field val maxBytes)"

definition validateActor :: "string \<Rightarrow> bool \<Rightarrow> goerr option" where
  "validateActor actor required =
     (if actor = [] \<and> \<not> required then None
      else validateRequiredPersistedString ''actor'' actor maxActorBytes)"

text \<open>The loop, with the set of the values seen.\<close>

fun normalize_values :: "string list \<Rightarrow> string set \<Rightarrow> string list" where
  "normalize_values [] seen = []"
| "normalize_values (v # vs) seen =
     (let v = TrimSpace v
      in if v = [] then normalize_values vs seen
         else if v \<in> seen then normalize_values vs seen
         else v # normalize_values vs (insert v seen))"

definition normalizePersistedValues :: "string list \<Rightarrow> string list" where
  "normalizePersistedValues values = normalize_values values {}"

fun validate_items :: "string \<Rightarrow> string \<Rightarrow> string list \<Rightarrow> nat \<Rightarrow> goerr option" where
  "validate_items field itemName [] maxItemBytes = None"
| "validate_items field itemName (v # vs) maxItemBytes =
     (if TrimSpace v = [] then Some (Errorf ''%s cannot contain an empty %s'' [ArgStr field, ArgStr itemName] [])
      else (case validatePersistedString itemName v maxItemBytes of
              Some err \<Rightarrow> Some err
            | None \<Rightarrow> validate_items field itemName vs maxItemBytes))"

definition validatePersistedList :: "string \<Rightarrow> string \<Rightarrow> string list \<Rightarrow> nat \<Rightarrow> nat \<Rightarrow> goerr option" where
  "validatePersistedList field itemName values maxItems maxItemBytes =
     (if length values > maxItems
      then Some (Errorf ''%s must contain at most %d items'' [ArgStr field, ArgInt (int maxItems)] [])
      else validate_items field itemName values maxItemBytes)"

fun first_comma :: "string list \<Rightarrow> goerr option" where
  "first_comma [] = None"
| "first_comma (v # vs) =
     (if CHR '','' \<in> set v then Some (Errorf (''capability %q cannot contain '' @ [CHR 0x27, CHR '','', CHR 0x27]) [ArgStr v] []) else first_comma vs)"

definition validateCapabilities :: "string list \<Rightarrow> goerr option" where
  "validateCapabilities values =
     (case validatePersistedList ''capabilities'' ''capability'' values maxTaskCapabilities maxCapabilityBytes of
        Some err \<Rightarrow> Some err
      | None \<Rightarrow> first_comma values)"

definition validateTags :: "string list \<Rightarrow> goerr option" where
  "validateTags values = validatePersistedList ''tags'' ''tag'' values maxTaskTags maxTagBytes"

definition validateDependencies :: "string list \<Rightarrow> goerr option" where
  "validateDependencies values =
     validatePersistedList ''dependencies'' ''dependency'' values maxTaskDependencies maxDependencyBytes"

fun validate_entries :: "(string, string) gomap \<Rightarrow> goerr option" where
  "validate_entries [] = None"
| "validate_entries ((key, val) # kvs) =
     (if TrimSpace key = [] then Some (Errorf ''extra key cannot be empty'' [] [])
      else (case validatePersistedString ''extra key'' key maxMetadataKeyBytes of
              Some err \<Rightarrow> Some err
            | None \<Rightarrow>
                (case validatePersistedString ''extra value'' val maxMetadataValueBytes of
                   Some err \<Rightarrow> Some err
                 | None \<Rightarrow> validate_entries kvs)))"

definition validateExtra :: "(string, string) gomap \<Rightarrow> goerr option" where
  "validateExtra extra =
     (if length extra > maxTaskExtraEntries
      then Some (Errorf ''extra must contain at most %d entries'' [ArgInt (int maxTaskExtraEntries)] [])
      else validate_entries extra)"

definition validateProjectedCardinality :: "string \<Rightarrow> nat \<Rightarrow> nat \<Rightarrow> nat \<Rightarrow> goerr option" where
  "validateProjectedCardinality field current projected maxItems =
     (if projected > maxItems \<and> projected > current
      then Some (Errorf ''%s must contain at most %d items'' [ArgStr field, ArgInt (int maxItems)] [])
      else None)"

definition projectedExtraCount :: "(string, string) gomap \<Rightarrow> (string, string) gomap \<Rightarrow> nat" where
  "projectedExtraCount current updates =
     length current + length (filter (\<lambda>(key, _). map_of current key = None) updates)"

section \<open>What accepted input satisfies\<close>

lemma validatePersistedString_None:
  "validatePersistedString f v n = None \<longleftrightarrow> ValidString v \<and> length v \<le> n"
  by (simp add: validatePersistedString_def not_less)

lemma validate_items_None:
  "validate_items f i vs n = None \<longleftrightarrow> (\<forall>v \<in> set vs. TrimSpace v \<noteq> [] \<and> ValidString v \<and> length v \<le> n)"
  by (induction f i vs n rule: validate_items.induct)
     (auto simp: validatePersistedString_def)

lemma validatePersistedList_None:
  "validatePersistedList f i vs m n = None \<longleftrightarrow>
     length vs \<le> m \<and> (\<forall>v \<in> set vs. TrimSpace v \<noteq> [] \<and> ValidString v \<and> length v \<le> n)"
  by (simp add: validatePersistedList_def validate_items_None not_less)

lemma first_comma_None: "first_comma vs = None \<longleftrightarrow> (\<forall>v \<in> set vs. CHR '','' \<notin> set v)"
  by (induction vs) auto

lemma validateCapabilities_None:
  "validateCapabilities vs = None \<longleftrightarrow>
     length vs \<le> 64 \<and> (\<forall>v \<in> set vs. TrimSpace v \<noteq> [] \<and> ValidString v \<and> length v \<le> 128 \<and> CHR '','' \<notin> set v)"
proof (cases "validatePersistedList ''capabilities'' ''capability'' vs maxTaskCapabilities maxCapabilityBytes")
  case None
  then show ?thesis
    by (simp add: validateCapabilities_def first_comma_None) (auto simp: validatePersistedList_None)
next
  case (Some err)
  then have "\<not> (length vs \<le> maxTaskCapabilities \<and> (\<forall>v \<in> set vs. TrimSpace v \<noteq> [] \<and> ValidString v \<and> length v \<le> maxCapabilityBytes))"
    using validatePersistedList_None [of _ _ vs maxTaskCapabilities maxCapabilityBytes] by (metis option.distinct(1))
  with Some show ?thesis by (auto simp: validateCapabilities_def)
qed

lemma normalize_values_set:
  "set (normalize_values vs seen) = {v \<in> TrimSpace ` set vs. v \<noteq> [] \<and> v \<notin> seen}"
  by (induction vs seen rule: normalize_values.induct) (auto simp: Let_def)

lemma normalize_values_distinct: "distinct (normalize_values vs seen)"
  by (induction vs seen rule: normalize_values.induct) (auto simp: Let_def normalize_values_set)

lemma keys_fold_update:
  "fst ` set (fold (\<lambda>(k, v). AList.update k v) us m) = fst ` set m \<union> fst ` set us"
proof (induction us arbitrary: m)
  case (Cons u us)
  obtain k v where u: "u = (k, v)" by (cases u)
  have "fst ` set (AList.update k v m) = insert k (fst ` set m)"
    by (induction m) auto
  then show ?case using Cons by (auto simp: u)
qed simp

lemma distinct_fold_update:
  "distinct (map fst m) \<Longrightarrow> distinct (map fst (fold (\<lambda>(k, v). AList.update k v) us m))"
  by (induction us arbitrary: m) (auto simp: distinct_update)

text \<open>The count the code projects is the size of the map after the merge.\<close>

lemma projectedExtraCount_merge:
  assumes "distinct (map fst current)" "distinct (map fst updates)"
  shows "length (fold (\<lambda>(k, v). AList.update k v) updates current) = projectedExtraCount current updates"
proof -
  let ?m = "fold (\<lambda>(k, v). AList.update k v) updates current"
  have "length ?m = card (fst ` set ?m)"
    using distinct_card [OF distinct_fold_update [OF assms(1), of updates]] by simp
  also have "fst ` set ?m = fst ` set current \<union> fst ` set (filter (\<lambda>(key, _). map_of current key = None) updates)"
    by (force simp: keys_fold_update map_of_eq_None_iff)
  also have "card \<dots> = card (fst ` set current) + card (fst ` set (filter (\<lambda>(key, _). map_of current key = None) updates))"
    by (rule card_Un_disjoint) (simp, simp, force simp: map_of_eq_None_iff)
  also have "card (fst ` set current) = length current"
    using distinct_card [OF assms(1)] by simp
  also have "card (fst ` set (filter (\<lambda>(key, _). map_of current key = None) updates))
      = length (filter (\<lambda>(key, _). map_of current key = None) updates)"
    using distinct_card [OF distinct_map_filter [OF assms(2)]] by (metis length_map list.set_map)
  finally show ?thesis by (simp add: projectedExtraCount_def)
qed

end
