(* ===== verification/Coordination.thy ===== *)
theory Coordination
  imports Invariant InputLimits
begin

text \<open>
  The lifecycle operations (\<^verbatim>\<open>coordination_ops.go\<close>, \<^verbatim>\<open>lease.go\<close>, \<^verbatim>\<open>handoff.go\<close>) and their guards
  (\<^verbatim>\<open>coordination_errors.go\<close>). An operation returns the pointer to the task, its map key, and
  the store; \<open>now\<close> is the time its caller passes, \<open>clk\<close> what the store reads from the clock for
  log entries and events.
\<close>

section \<open>Guards\<close>

definition requireTask :: "TaskStore \<Rightarrow> u64 \<Rightarrow> goerr + Task" where
  "requireTask s i =
     (case GetTask s i of
        None \<Rightarrow> Inl (Errorf ''task %d not found: %w'' [ArgId i] [Sentinel errTaskNotFound])
      | Some task \<Rightarrow> Inr task)"

definition requireOwner :: "Task \<Rightarrow> string \<Rightarrow> goerr option" where
  "requireOwner task actor =
     (if Owner task \<noteq> [] \<and> Owner task \<noteq> actor
      then Some (Errorf ''task %d is claimed by %s: %w'' [ArgId (ID task), ArgStr (Owner task)] [Sentinel errNotOwner])
      else None)"

definition requireDependenciesComplete :: "Task \<Rightarrow> tasks \<Rightarrow> DependencyResolver \<Rightarrow> goerr option" where
  "requireDependenciesComplete task ts resolver =
     (if \<not> DependenciesCompleteWithResolver task ts resolver
      then Some (Errorf ''task %d has incomplete dependencies: %w'' [ArgId (ID task)] [Sentinel errDependency])
      else None)"

definition requireInProgress :: "Task \<Rightarrow> goerr option" where
  "requireInProgress task =
     (if Status task \<noteq> StatusInProgress
      then Some (Errorf ''task %d is not in progress: %w'' [ArgId (ID task)] [Sentinel errLeaseNotActive])
      else None)"

definition requireClaimableStatus :: "Task \<Rightarrow> goerr option" where
  "requireClaimableStatus task =
     (if Status task = StatusCompleted
      then Some (Errorf ''task %d is already completed: %w'' [ArgId (ID task)] [Sentinel errInvalidTransition])
      else if Status task = StatusBlocked
      then Some (Errorf ''task %d is blocked: %w'' [ArgId (ID task)] [Sentinel errDependency])
      else None)"

text \<open>The remaining time in the message is computed on wrapping 64-bit integers.\<close>

definition requireLeaseAvailable :: "Task \<Rightarrow> string \<Rightarrow> gotime \<Rightarrow> goerr option" where
  "requireLeaseAvailable task actor now =
     (let nowMillis = millis now
      in if Owner task \<noteq> [] \<and> Owner task \<noteq> actor \<and> LeaseExpires task > nowMillis
         then Some (Errorf ''task %d already claimed by %s (expires in %s): %w''
                      [ArgId (ID task), ArgStr (Owner task),
                       ArgDuration (sint ((LeaseExpires task - nowMillis) * 1000000))]
                      [Sentinel errAlreadyClaimed])
         else None)"

section \<open>Operations\<close>

text \<open>Early return on an error, and a write through a task pointer.\<close>

definition check :: "goerr option \<Rightarrow> TaskStore \<Rightarrow> 'a res \<Rightarrow> 'a res" where
  "check e s rest = (case e of Some err \<Rightarrow> (Inl err, s) | None \<Rightarrow> rest)"

definition modify_task :: "u64 \<Rightarrow> (Task \<Rightarrow> Task) \<Rightarrow> TaskStore \<Rightarrow> TaskStore" where
  "modify_task i f s = (case map_of (Tasks s) i of None \<Rightarrow> s | Some t \<Rightarrow> put_task i (f t) s)"

definition completed_error :: "u64 \<Rightarrow> goerr" where
  "completed_error i = Errorf ''task %d is already completed: %w'' [ArgId i] [Sentinel errInvalidTransition]"

definition claimTask ::
  "gotime \<Rightarrow> u64 \<Rightarrow> string \<Rightarrow> duration \<Rightarrow> DependencyResolver \<Rightarrow> gotime \<Rightarrow> TaskStore \<Rightarrow> u64 res" where
  "claimTask clk i actor ttl resolver now s =
     (case requireTask s i of
        Inl err \<Rightarrow> (Inl err, s)
      | Inr task \<Rightarrow>
          check (requireClaimableStatus task) s
          (check (requireDependenciesComplete task (Tasks s) resolver) s
          (check (requireLeaseAvailable task actor now) s
          (let s = modify_task i (\<lambda>t. t\<lparr>Owner := actor, Status := StatusInProgress,
                                      LeaseExpires := millis now + ttl_millis ttl\<rparr>) s;
               s = snd (AddLog clk i actor ''claimed'' s);
               s = AddEvent clk EventTaskClaimed i actor [(''ttl'', duration_string ttl)] s
           in (Inr i, s)))))"

definition completeTask :: "gotime \<Rightarrow> u64 \<Rightarrow> string \<Rightarrow> DependencyResolver \<Rightarrow> gotime \<Rightarrow> TaskStore \<Rightarrow> u64 res" where
  "completeTask clk i actor resolver now s =
     (case requireTask s i of
        Inl err \<Rightarrow> (Inl err, s)
      | Inr task \<Rightarrow>
          if Status task = StatusCompleted then (Inl (completed_error i), s)
          else
          check (requireDependenciesComplete task (Tasks s) resolver) s
          (check (requireOwner task actor) s
          (let s = modify_task i (\<lambda>t. t\<lparr>Status := StatusCompleted, Completed := millis now, Owner := [],
                                      LeaseExpires := 0, BlockReason := []\<rparr>) s;
               s = AddEvent clk EventTaskCompleted i actor [] s
           in (Inr i, s))))"

definition releaseTask :: "gotime \<Rightarrow> u64 \<Rightarrow> string \<Rightarrow> string \<Rightarrow> TaskStore \<Rightarrow> u64 res" where
  "releaseTask clk i actor failure s =
     (case requireTask s i of
        Inl err \<Rightarrow> (Inl err, s)
      | Inr task \<Rightarrow>
          check (requireInProgress task) s
          (check (requireOwner task actor) s
          (let s = modify_task i (\<lambda>t. t\<lparr>RetryCount := RetryCount t + 1\<rparr>) s;
               (data, s) =
                 (if failure \<noteq> []
                  then ([(''error'', failure)],
                        snd (AddLog clk i actor (''released with error: '' @ failure)
                               (modify_task i (\<lambda>t. t\<lparr>LastError := failure\<rparr>) s)))
                  else ([], snd (AddLog clk i actor ''released'' s)));
               s = AddEvent clk EventTaskReleased i actor data s;
               s = modify_task i (\<lambda>t. t\<lparr>Owner := [], LeaseExpires := 0, Status := StatusPending\<rparr>) s
           in (Inr i, s))))"

definition blockTask :: "gotime \<Rightarrow> u64 \<Rightarrow> string \<Rightarrow> string \<Rightarrow> TaskStore \<Rightarrow> u64 res" where
  "blockTask clk i actor reason s =
     (case requireTask s i of
        Inl err \<Rightarrow> (Inl err, s)
      | Inr task \<Rightarrow>
          if Status task = StatusCompleted then (Inl (completed_error i), s)
          else
          check (requireOwner task actor) s
          (let s = modify_task i (\<lambda>t. t\<lparr>Status := StatusBlocked, BlockReason := reason, Owner := [],
                                      LeaseExpires := 0\<rparr>) s;
               s = snd (AddLog clk i actor (''blocked: '' @ reason) s);
               s = AddEvent clk EventTaskBlocked i actor [(''reason'', reason)] s
           in (Inr i, s)))"

definition unblockTask :: "gotime \<Rightarrow> u64 \<Rightarrow> string \<Rightarrow> TaskStore \<Rightarrow> u64 res" where
  "unblockTask clk i actor s =
     (case requireTask s i of
        Inl err \<Rightarrow> (Inl err, s)
      | Inr task \<Rightarrow>
          if Status task \<noteq> StatusBlocked
          then (Inl (Errorf ''task %d is not blocked: %w'' [ArgId i] [Sentinel errInvalidTransition]), s)
          else
          (let s = modify_task i (\<lambda>t. t\<lparr>Status := StatusPending, BlockReason := [], Owner := [],
                                      LeaseExpires := 0\<rparr>) s;
               s = snd (AddLog clk i actor ''unblocked'' s);
               s = AddEvent clk EventTaskUnblocked i actor [] s
           in (Inr i, s)))"

definition logTask :: "gotime \<Rightarrow> u64 \<Rightarrow> string \<Rightarrow> string \<Rightarrow> TaskStore \<Rightarrow> u64 res" where
  "logTask clk i actor message s =
     (case requireTask s i of
        Inl err \<Rightarrow> (Inl err, s)
      | Inr task \<Rightarrow>
          check (requireOwner task actor) s
          (Inr i, snd (AddLog clk i actor message s)))"

definition lease_active :: "Task \<Rightarrow> u64 \<Rightarrow> bool" where
  "lease_active task nowMillis \<longleftrightarrow>
     \<not> (Status task \<noteq> StatusInProgress \<or> Owner task = [] \<or> LeaseExpires task = 0 \<or> LeaseExpires task \<le> nowMillis)"

definition lease_errors :: "TaskStore \<Rightarrow> u64 \<Rightarrow> string \<Rightarrow> gotime \<Rightarrow> goerr + Task" where
  "lease_errors s i actor now =
     (case GetTask s i of
        None \<Rightarrow> Inl (Errorf ''task %d not found: %w'' [ArgId i] [Sentinel errLeaseTaskNotFound])
      | Some task \<Rightarrow>
          if \<not> lease_active task (millis now)
          then Inl (Errorf ''task %d: %w'' [ArgId i] [Sentinel errLeaseNotActive])
          else if Owner task \<noteq> actor
          then Inl (Errorf ''task %d is claimed by %s: %w'' [ArgId i, ArgStr (Owner task)] [Sentinel errLeaseNotOwner])
          else Inr task)"

definition renewLease :: "gotime \<Rightarrow> u64 \<Rightarrow> string \<Rightarrow> duration \<Rightarrow> gotime \<Rightarrow> TaskStore \<Rightarrow> u64 res" where
  "renewLease clk i actor ttl now s =
     (case lease_errors s i actor now of
        Inl err \<Rightarrow> (Inl err, s)
      | Inr task \<Rightarrow>
          (let previousExpiry = LeaseExpires task;
               s = modify_task i (\<lambda>t. t\<lparr>LeaseExpires := millis now + ttl_millis ttl\<rparr>) s;
               s = AddEvent clk EventLeaseRenewed i actor
                     [(''ttl'', duration_string ttl), (''previous_expires'', formatTimestamp previousExpiry)] s
           in (Inr i, s)))"

definition merge_extra :: "(string, string) gomap \<Rightarrow> (string, string) gomap \<Rightarrow> (string, string) gomap" where
  "merge_extra updates extra = fold (\<lambda>(key, val). AList.update key val) updates extra"

definition handoffTask ::
  "gotime \<Rightarrow> u64 \<Rightarrow> string \<Rightarrow> (string, string) gomap \<Rightarrow> gotime \<Rightarrow> TaskStore \<Rightarrow> u64 res" where
  "handoffTask clk i actor extra now s =
     (case lease_errors s i actor now of
        Inl err \<Rightarrow> (Inl err, s)
      | Inr task \<Rightarrow>
          check (persistedInputFailure (validateProjectedCardinality ''extra'' (length (Extra task))
                   (projectedExtraCount (Extra task) extra) maxTaskExtraEntries)) s
          (let s = modify_task i (\<lambda>t. t\<lparr>Extra := merge_extra extra (Extra t)\<rparr>) s;
               s = AddEvent clk EventTaskUpdated i actor [(''source'', ''handoff'')] s;
               s = snd (AddLog clk i actor ''handed off with structured context'' s);
               s = AddEvent clk EventTaskReleased i actor [(''handoff'', ''true'')] s;
               s = modify_task i (\<lambda>t. t\<lparr>Owner := [], LeaseExpires := 0, Status := StatusPending\<rparr>) s
           in (Inr i, s)))"

section \<open>What an operation did\<close>

text \<open>
  \<open>updates i t' s s'\<close>: from \<open>s\<close> to \<open>s'\<close> the only task that changed is the one at key \<open>i\<close>, now
  \<open>t'\<close>; the keys, the next ID, the receipts and the schema version are the same.
\<close>

definition updates :: "u64 \<Rightarrow> Task \<Rightarrow> TaskStore \<Rightarrow> TaskStore \<Rightarrow> bool" where
  "updates i t' s s' \<longleftrightarrow>
     map_of (Tasks s') = (map_of (Tasks s))(i \<mapsto> t') \<and> map fst (Tasks s') = map fst (Tasks s) \<and> same_frame s s'"

named_theorems updates_intros \<open>how primitive writes compose to one update\<close>

lemma updates_refl [updates_intros]: "map_of (Tasks s) i = Some t \<Longrightarrow> updates i t s s"
  by (auto simp: updates_def)

lemma updates_at: "updates i t s s' \<Longrightarrow> map_of (Tasks s') i = Some t"
  by (simp add: updates_def)

lemma keys_put_task: "map_of (Tasks s) i = Some t \<Longrightarrow> map fst (Tasks (put_task i t' s)) = map fst (Tasks s)"
  by (force simp: put_task_def keys_update dest: map_of_SomeD)

lemma updates_modify [updates_intros]:
  assumes "updates i t s s1" "t' = f t"
  shows "updates i t' s (modify_task i f s1)"
  using assms updates_at [OF assms(1)]
  by (simp add: updates_def modify_task_def map_of_put_task keys_put_task same_frame_def put_task_fields)

lemma updates_AddLog [updates_intros]:
  assumes "updates i t s s1" "t' = t\<lparr>Log := Log t @ [log_entry clk actor m]\<rparr>"
  shows "updates i t' s (snd (AddLog clk i actor m s1))"
proof -
  have "map fst (Tasks (snd (AddLog clk i actor m s1))) = map fst (Tasks s1)"
    using updates_at [OF assms(1)] keys_put_task by (simp add: AddLog_def)
  moreover have "map_of (Tasks (snd (AddLog clk i actor m s1))) = (map_of (Tasks s1))(i \<mapsto> t')"
    using assms(2) updates_at [OF assms(1)] by (simp add: map_of_AddLog fun_eq_iff)
  ultimately show ?thesis using assms(1) by (simp add: updates_def same_frame_def AddLog_fields)
qed

lemma updates_AddEvent [updates_intros]:
  "updates i t s s1 \<Longrightarrow> updates i t s (AddEvent clk ty j actor data s1)"
  by (simp add: updates_def AddEvent_fields same_frame_def)

lemma updates_other: "updates i t s s' \<Longrightarrow> j \<noteq> i \<Longrightarrow> map_of (Tasks s') j = map_of (Tasks s) j"
  by (simp add: updates_def)

lemma updates_wf:
  assumes "updates i t s s'" "tasks_wf (Tasks s)" "ID t = i"
  shows "tasks_wf (Tasks s')"
proof -
  have d: "distinct (map fst (Tasks s'))" using assms(1,2) by (simp add: updates_def tasks_wf_def)
  have "k = ID x" if "(k, x) \<in> set (Tasks s')" for k x
  proof -
    have "map_of (Tasks s') k = Some x" using that d by (simp add: map_of_iff_set)
    then show ?thesis
      using assms tasks_wfD [OF assms(2), of k x] by (auto simp: updates_def split: if_splits)
  qed
  then show ?thesis using d by (auto simp: tasks_wf_def)
qed

lemma store_inv_updates:
  assumes "store_inv s" "updates i t' s s'" "map_of (Tasks s) i = Some t" "ID t' = ID t" "Depends t' = Depends t"
    "task_sound t'"
  shows "store_inv s'"
proof (rule store_inv_transfer [OF assms(1)])
  show "tasks_wf (Tasks s')"
    using updates_wf [OF assms(2) store_inv_wf [OF assms(1)]] assms(4) store_invD(1) [OF assms(1,3)] by simp
  show "NextID s' = NextID s" using assms(2) by (simp add: updates_def same_frame_def)
  show "rel_option (\<lambda>t t'. Depends t' = Depends t \<and> task_sound t') (map_of (Tasks s) j) (map_of (Tasks s') j)" for j
    using assms store_invD(2) [OF assms(1), of j]
    by (auto simp: updates_def rel_option_iff split: option.splits)
qed

section \<open>Effects of the operations\<close>

lemma requireTask_simps:
  "requireTask s i = Inr t \<longleftrightarrow> map_of (Tasks s) i = Some t"
  "requireTask s i = Inl err \<longleftrightarrow> map_of (Tasks s) i = None \<and> err = Errorf ''task %d not found: %w'' [ArgId i] [Sentinel errTaskNotFound]"
  by (auto simp: requireTask_def GetTask_def split: option.splits)

lemma check_simps [simp]:
  "check None s r = r" "check (Some err) s r = (Inl err, s)"
  by (simp_all add: check_def)

lemma check_Inr: "check e s r = (Inr x, s') \<longleftrightarrow> e = None \<and> r = (Inr x, s')"
  by (auto simp: check_def split: option.splits)

lemma check_Inl: "check e s r = (Inl err, s') \<longleftrightarrow> e = Some err \<and> s' = s \<or> e = None \<and> r = (Inl err, s')"
  by (auto simp: check_def split: option.splits)

definition claimed :: "gotime \<Rightarrow> string \<Rightarrow> u64 \<Rightarrow> Task \<Rightarrow> Task" where
  "claimed clk actor lease t =
     t\<lparr>Owner := actor, Status := StatusInProgress, LeaseExpires := lease,
       Log := Log t @ [log_entry clk actor ''claimed'']\<rparr>"

lemma claimTask_effect:
  assumes "claimTask clk i actor ttl resolver now s = (Inr r, s')"
  shows "r = i \<and> (\<exists>t. map_of (Tasks s) i = Some t \<and> requireClaimableStatus t = None
    \<and> DependenciesCompleteWithResolver t (Tasks s) resolver \<and> requireLeaseAvailable t actor now = None
    \<and> updates i (claimed clk actor (millis now + ttl_millis ttl) t) s s')"
  using assms
  by (auto simp: claimTask_def check_Inr requireTask_simps requireDependenciesComplete_def claimed_def Let_def
      split: sum.splits if_splits intro!: updates_intros)

definition completed_task :: "u64 \<Rightarrow> Task \<Rightarrow> Task" where
  "completed_task at t = t\<lparr>Status := StatusCompleted, Completed := at, Owner := [], LeaseExpires := 0, BlockReason := []\<rparr>"

lemma completeTask_effect:
  assumes "completeTask clk i actor resolver now s = (Inr r, s')"
  shows "r = i \<and> (\<exists>t. map_of (Tasks s) i = Some t \<and> Status t \<noteq> StatusCompleted
    \<and> DependenciesCompleteWithResolver t (Tasks s) resolver \<and> requireOwner t actor = None
    \<and> updates i (completed_task (millis now) t) s s')"
  using assms
  by (auto simp: completeTask_def check_Inr requireTask_simps requireDependenciesComplete_def completed_task_def Let_def
      split: sum.splits if_splits intro!: updates_intros)

definition released :: "gotime \<Rightarrow> string \<Rightarrow> string \<Rightarrow> Task \<Rightarrow> Task" where
  "released clk actor failure t =
     t\<lparr>RetryCount := RetryCount t + 1, LastError := (if failure \<noteq> [] then failure else LastError t),
       Log := Log t @ [log_entry clk actor (if failure \<noteq> [] then ''released with error: '' @ failure else ''released'')],
       Owner := [], LeaseExpires := 0, Status := StatusPending\<rparr>"

lemma releaseTask_effect:
  assumes "releaseTask clk i actor failure s = (Inr r, s')"
  shows "r = i \<and> (\<exists>t. map_of (Tasks s) i = Some t \<and> Status t = StatusInProgress \<and> requireOwner t actor = None
    \<and> updates i (released clk actor failure t) s s')"
  using assms
  by (cases "failure = []")
     (auto simp: releaseTask_def check_Inr requireTask_simps requireInProgress_def released_def Let_def
      split: sum.splits if_splits intro!: updates_intros)

definition blocked_task :: "gotime \<Rightarrow> string \<Rightarrow> string \<Rightarrow> Task \<Rightarrow> Task" where
  "blocked_task clk actor reason t =
     t\<lparr>Status := StatusBlocked, BlockReason := reason, Owner := [], LeaseExpires := 0,
       Log := Log t @ [log_entry clk actor (''blocked: '' @ reason)]\<rparr>"

lemma blockTask_effect:
  assumes "blockTask clk i actor reason s = (Inr r, s')"
  shows "r = i \<and> (\<exists>t. map_of (Tasks s) i = Some t \<and> Status t \<noteq> StatusCompleted \<and> requireOwner t actor = None
    \<and> updates i (blocked_task clk actor reason t) s s')"
  using assms
  by (auto simp: blockTask_def check_Inr requireTask_simps blocked_task_def Let_def
      split: sum.splits if_splits intro!: updates_intros)

definition unblocked_task :: "gotime \<Rightarrow> string \<Rightarrow> Task \<Rightarrow> Task" where
  "unblocked_task clk actor t =
     t\<lparr>Status := StatusPending, BlockReason := [], Owner := [], LeaseExpires := 0,
       Log := Log t @ [log_entry clk actor ''unblocked'']\<rparr>"

lemma unblockTask_effect:
  assumes "unblockTask clk i actor s = (Inr r, s')"
  shows "r = i \<and> (\<exists>t. map_of (Tasks s) i = Some t \<and> Status t = StatusBlocked
    \<and> updates i (unblocked_task clk actor t) s s')"
  using assms
  by (auto simp: unblockTask_def check_Inr requireTask_simps unblocked_task_def Let_def
      split: sum.splits if_splits intro!: updates_intros)

lemma logTask_effect:
  assumes "logTask clk i actor message s = (Inr r, s')"
  shows "r = i \<and> (\<exists>t. map_of (Tasks s) i = Some t \<and> requireOwner t actor = None
    \<and> updates i (t\<lparr>Log := Log t @ [log_entry clk actor message]\<rparr>) s s')"
  using assms
  by (auto simp: logTask_def check_Inr requireTask_simps split: sum.splits intro!: updates_intros)

lemma lease_errors_Inr:
  "lease_errors s i actor now = Inr t \<longleftrightarrow>
     map_of (Tasks s) i = Some t \<and> lease_active t (millis now) \<and> Owner t = actor"
  by (auto simp: lease_errors_def GetTask_def split: option.splits)

lemma renewLease_effect:
  assumes "renewLease clk i actor ttl now s = (Inr r, s')"
  shows "r = i \<and> (\<exists>t. map_of (Tasks s) i = Some t \<and> lease_active t (millis now) \<and> Owner t = actor
    \<and> updates i (t\<lparr>LeaseExpires := millis now + ttl_millis ttl\<rparr>) s s')"
  using assms
  by (auto simp: renewLease_def lease_errors_Inr Let_def split: sum.splits intro!: updates_intros)

definition handed_off :: "gotime \<Rightarrow> string \<Rightarrow> (string, string) gomap \<Rightarrow> Task \<Rightarrow> Task" where
  "handed_off clk actor extra t =
     t\<lparr>Extra := merge_extra extra (Extra t), Log := Log t @ [log_entry clk actor ''handed off with structured context''],
       Owner := [], LeaseExpires := 0, Status := StatusPending\<rparr>"

lemma handoffTask_effect:
  assumes "handoffTask clk i actor extra now s = (Inr r, s')"
  shows "r = i \<and> (\<exists>t. map_of (Tasks s) i = Some t \<and> lease_active t (millis now) \<and> Owner t = actor
    \<and> validateProjectedCardinality ''extra'' (length (Extra t)) (projectedExtraCount (Extra t) extra) maxTaskExtraEntries = None
    \<and> updates i (handed_off clk actor extra t) s s')"
  using assms
  by (auto simp: handoffTask_def lease_errors_Inr check_Inr persistedInputFailure_def handed_off_def Let_def
      split: sum.splits intro!: updates_intros)

end
