(* ===== verification/GraphOps.thy ===== *)
theory GraphOps
  imports Coordination
begin

text \<open>
  The operations that grow or rewire the task graph: \<^verbatim>\<open>decomposeTask\<close>, \<^verbatim>\<open>updateTask\<close> and
  \<^verbatim>\<open>applyDependencyEdits\<close> of \<^verbatim>\<open>coordination_ops.go\<close>, and the transactions of \<^verbatim>\<open>cmd_add.go\<close>
  and of the handler that adds tasks. A Go \<^verbatim>\<open>map[string]bool\<close> used as a set is a list
  without duplicates, in the unspecified order of its iteration.
\<close>

section \<open>Adding a task\<close>

text \<open>The loop over the dependencies of a new task.\<close>

fun resolve_after :: "string list \<Rightarrow> tasks \<Rightarrow> goerr + string list" where
  "resolve_after [] ts = Inr []"
| "resolve_after (dep # deps) ts =
     (case ParseLocalID dep of
        Some depID \<Rightarrow>
          if map_of ts depID = None
          then Inl (Errorf ''dependency task %d not found: %w'' [ArgId depID] [Sentinel errTaskNotFound])
          else (case resolve_after deps ts of Inl err \<Rightarrow> Inl err | Inr fs \<Rightarrow> Inr (local_uri depID # fs))
      | None \<Rightarrow>
          (case ParseTaskURI dep of
             Inl err \<Rightarrow> Inl (PersistedInputError err)
           | Inr _ \<Rightarrow> (case resolve_after deps ts of Inl err \<Rightarrow> Inl err | Inr fs \<Rightarrow> Inr (dep # fs))))"

record new_task =
  n_Title :: string
  n_After :: "string list"
  n_Priority :: float32
  n_Capabilities :: "string list"
  n_Tags :: "string list"

definition insert_new :: "gotime \<Rightarrow> new_task \<Rightarrow> string list \<Rightarrow> TaskStore \<Rightarrow> u64 res" where
  "insert_new clk p finalDeps s =
     (let (task, s) = AddTask clk (n_Title p) finalDeps s;
          s = modify_task (ID task) (\<lambda>t. t\<lparr>Priority := n_Priority p, Capabilities := n_Capabilities p, Tags := n_Tags p\<rparr>) s;
          s = AddEvent clk EventTaskCreated (ID task) [] [(''title'', n_Title p)] s
      in (Inr (ID task), s))"

text \<open>The CLI wraps a cycle in its sentinel; the handler returns it as it is.\<close>

definition cmdAdd_mutate :: "gotime \<Rightarrow> new_task \<Rightarrow> TaskStore \<Rightarrow> u64 res" where
  "cmdAdd_mutate clk p s =
     (case resolve_after (n_After p) (Tasks s) of
        Inl err \<Rightarrow> (Inl err, s)
      | Inr finalDeps \<Rightarrow>
          (case DetectCycle finalDeps (NextID s) (BuildFromTasks (Tasks s)) of
             Some err \<Rightarrow> (Inl (Errorf ''%w: %w'' [] [err, Sentinel errCycleDetected]), s)
           | None \<Rightarrow> insert_new clk p finalDeps s))"

definition handleAdd_mutate :: "gotime \<Rightarrow> new_task \<Rightarrow> TaskStore \<Rightarrow> u64 res" where
  "handleAdd_mutate clk p s =
     (case resolve_after (n_After p) (Tasks s) of
        Inl err \<Rightarrow> (Inl err, s)
      | Inr finalDeps \<Rightarrow>
          (case DetectCycle finalDeps (NextID s) (BuildFromTasks (Tasks s)) of
             Some err \<Rightarrow> (Inl err, s)
           | None \<Rightarrow> insert_new clk p finalDeps s))"

section \<open>Decomposition\<close>

record decomposeSubtask =
  sub_Title :: string
  sub_Capabilities :: "string list"

definition dep_key_set :: "string list \<Rightarrow> string list" where
  "dep_key_set deps = remdups (map canonical_or_self deps)"

fun add_children :: "gotime \<Rightarrow> u64 \<Rightarrow> decomposeSubtask list \<Rightarrow> TaskStore \<Rightarrow> u64 list \<times> TaskStore" where
  "add_children clk parentID [] s = ([], s)"
| "add_children clk parentID (sub # subs) s =
     (let (child, s) = AddTask clk (sub_Title sub) [] s;
          s = modify_task (ID child) (\<lambda>t. t\<lparr>Capabilities := sub_Capabilities sub, Lineage := local_uri parentID\<rparr>) s;
          s = modify_task parentID (\<lambda>t. t\<lparr>Depends := Depends t @ [local_uri (ID child)]\<rparr>) s;
          (added, s) = add_children clk parentID subs s
      in (ID child # added, s))"

definition decomposeTask ::
  "gotime \<Rightarrow> u64 \<Rightarrow> string \<Rightarrow> decomposeSubtask list \<Rightarrow> TaskStore \<Rightarrow> (u64 \<times> u64 list) res" where
  "decomposeTask clk parentID actor subtasks s =
     (case requireTask s parentID of
        Inl _ \<Rightarrow> (Inl (Errorf ''parent task %d not found: %w'' [ArgId parentID] [Sentinel errTaskNotFound]), s)
      | Inr parent \<Rightarrow>
          if Status parent = StatusCompleted
          then (Inl (Errorf ''parent task %d is already completed: %w'' [ArgId parentID] [Sentinel errInvalidTransition]), s)
          else
          check (requireOwner parent actor) s
          (let parentDepSet = dep_key_set (Depends parent);
               projectedDeps = parentDepSet @ map (\<lambda>k. local_uri (NextID s + of_nat k)) [0..<length subtasks]
           in check (persistedInputFailure (validateProjectedCardinality ''dependencies'' (length parentDepSet)
                       (length projectedDeps) maxTaskDependencies)) s
              (case DetectCycle projectedDeps parentID (BuildFromTasks (Tasks s)) of
                 Some err \<Rightarrow> (Inl (Errorf ''decompose would create a cycle: %w: %w'' [] [err, Sentinel errCycleDetected]), s)
               | None \<Rightarrow>
                   (let (added, s) = add_children clk parentID subtasks s;
                        s = modify_task parentID (\<lambda>t. t\<lparr>Status := StatusPending, Owner := [], LeaseExpires := 0,
                                                        BlockReason := []\<rparr>) s;
                        s = AddEvent clk EventTaskDecomposed parentID actor
                              [(''count'', decimal (length subtasks))] s
                    in (Inr (parentID, added), s)))))"

section \<open>Metadata and dependency edits\<close>

record taskUpdate =
  u_Title :: "string option"
  u_Priority :: "float32 option"
  u_SetCapabilities :: bool
  u_Capabilities :: "string list"
  u_Extra :: "(string, string) gomap"
  u_AddDeps :: "string list"
  u_RemoveDeps :: "string list"

fun remove_deps :: "u64 \<Rightarrow> string list \<Rightarrow> string set \<Rightarrow> string list \<Rightarrow> goerr + string list" where
  "remove_deps i [] seenRemove depSet = Inr depSet"
| "remove_deps i (dep # deps) seenRemove depSet =
     (case canonicalDependency dep of
        Inl err \<Rightarrow> Inl (PersistedInputError err)
      | Inr canonical \<Rightarrow>
          if canonical \<in> seenRemove then remove_deps i deps seenRemove depSet
          else if canonical \<notin> set depSet
          then Inl (Errorf ''dependency %q not found on task %d: %w'' [ArgStr dep, ArgId i] [Sentinel errTaskNotFound])
          else remove_deps i deps (insert canonical seenRemove) (removeAll canonical depSet))"

fun add_new_deps :: "string list \<Rightarrow> tasks \<Rightarrow> string list \<Rightarrow> goerr + string list" where
  "add_new_deps [] ts depSet = Inr depSet"
| "add_new_deps (dep # deps) ts depSet =
     (case canonicalDependency dep of
        Inl err \<Rightarrow> Inl (PersistedInputError err)
      | Inr canonical \<Rightarrow>
          if canonical \<in> set depSet then add_new_deps deps ts depSet
          else
          (case ParseLocalID canonical of
             Some depID \<Rightarrow>
               if map_of ts depID = None
               then Inl (Errorf ''dependency task %d not found: %w'' [ArgId depID] [Sentinel errTaskNotFound])
               else add_new_deps deps ts (depSet @ [canonical])
           | None \<Rightarrow> add_new_deps deps ts (depSet @ [canonical])))"

fun dep_events :: "gotime \<Rightarrow> EventType \<Rightarrow> u64 \<Rightarrow> string \<Rightarrow> string list \<Rightarrow> TaskStore \<Rightarrow> TaskStore" where
  "dep_events clk ty i actor [] s = s"
| "dep_events clk ty i actor (dep # deps) s = dep_events clk ty i actor deps (AddEvent clk ty i actor [(''dep'', dep)] s)"

text \<open>The task under edit is found through its pointer, key \<open>i\<close>.\<close>

definition applyDependencyEdits ::
  "gotime \<Rightarrow> u64 \<Rightarrow> Task \<Rightarrow> string \<Rightarrow> string list \<Rightarrow> string list \<Rightarrow> TaskStore \<Rightarrow> unit res" where
  "applyDependencyEdits clk i task actor add remove s =
     (let oldSet = dep_key_set (Depends task)
      in case remove_deps (ID task) remove {} oldSet of
           Inl err \<Rightarrow> (Inl err, s)
         | Inr depSet \<Rightarrow>
             (case add_new_deps add (Tasks s) depSet of
                Inl err \<Rightarrow> (Inl err, s)
              | Inr depSet \<Rightarrow>
                  check (persistedInputFailure (validateProjectedCardinality ''dependencies''
                           (length (Depends task)) (length depSet) maxTaskDependencies)) s
                  (let newDeps = sort_Strings depSet;
                       projected = Tasks (modify_task i (\<lambda>t. t\<lparr>Depends := newDeps\<rparr>) s)
                   in case DetectCycle [] (ID task) (BuildFromTasks projected) of
                        Some err \<Rightarrow>
                          (Inl (Errorf ''cannot update dependencies: %w: %w'' [] [err, Sentinel errCycleDetected]), s)
                      | None \<Rightarrow>
                          (let s = dep_events clk EventDependencyAdded (ID task) actor
                                     (filter (\<lambda>dep. dep \<notin> set oldSet) newDeps) s;
                               s = dep_events clk EventDependencyRemoved (ID task) actor
                                     (filter (\<lambda>dep. dep \<notin> set depSet) oldSet) s;
                               s = modify_task i (\<lambda>t. t\<lparr>Depends := newDeps\<rparr>) s
                           in (Inr (), s)))))"

text \<open>The steps of \<^verbatim>\<open>updateTask\<close> after the dependencies, each with its early return.\<close>

definition update_title :: "u64 \<Rightarrow> taskUpdate \<Rightarrow> TaskStore \<Rightarrow> unit res" where
  "update_title i u s =
     (case u_Title u of
        None \<Rightarrow> (Inr (), s)
      | Some raw \<Rightarrow>
          (let title = TrimSpace raw
           in if title = [] then (Inl (lifecycleError ErrInvalidArgs ''title cannot be empty'' []), s)
              else (Inr (), modify_task i (\<lambda>t. t\<lparr>Title := title\<rparr>) s)))"

definition update_priority :: "u64 \<Rightarrow> taskUpdate \<Rightarrow> TaskStore \<Rightarrow> unit res" where
  "update_priority i u s =
     (case u_Priority u of
        None \<Rightarrow> (Inr (), s)
      | Some p \<Rightarrow>
          if \<not> validPriority p then (Inl (lifecycleError ErrInvalidArgs ''priority must be between 0 and 1'' []), s)
          else (Inr (), modify_task i (\<lambda>t. t\<lparr>Priority := p\<rparr>) s))"

definition update_rest :: "gotime \<Rightarrow> u64 \<Rightarrow> string \<Rightarrow> taskUpdate \<Rightarrow> TaskStore \<Rightarrow> u64 res" where
  "update_rest clk i actor u s =
     (let s = (if u_SetCapabilities u then modify_task i (\<lambda>t. t\<lparr>Capabilities := u_Capabilities u\<rparr>) s else s)
      in case requireTask s i of
           Inl err \<Rightarrow> (Inl err, s)
         | Inr task \<Rightarrow>
             check (persistedInputFailure (validateProjectedCardinality ''extra'' (length (Extra task))
                      (projectedExtraCount (Extra task) (u_Extra u)) maxTaskExtraEntries)) s
             (let s = modify_task i (\<lambda>t. t\<lparr>Extra := merge_extra (u_Extra u) (Extra t)\<rparr>) s;
                  s = (if u_Title u \<noteq> None \<or> u_Priority u \<noteq> None \<or> u_SetCapabilities u \<or> u_Extra u \<noteq> []
                       then AddEvent clk EventTaskUpdated (ID task) actor [] s else s)
              in (Inr i, s)))"

definition bind_res :: "'a res \<Rightarrow> ('a \<Rightarrow> TaskStore \<Rightarrow> 'b res) \<Rightarrow> 'b res" where
  "bind_res r k = (case r of (Inl err, s) \<Rightarrow> (Inl err, s) | (Inr a, s) \<Rightarrow> k a s)"

definition updateTask :: "gotime \<Rightarrow> u64 \<Rightarrow> string \<Rightarrow> taskUpdate \<Rightarrow> TaskStore \<Rightarrow> u64 res" where
  "updateTask clk i actor u s =
     (case requireTask s i of
        Inl err \<Rightarrow> (Inl err, s)
      | Inr task \<Rightarrow>
          check (requireOwner task actor) s
          (bind_res (if u_AddDeps u \<noteq> [] \<or> u_RemoveDeps u \<noteq> []
                     then applyDependencyEdits clk i task actor (u_AddDeps u) (u_RemoveDeps u) s
                     else (Inr (), s))
             (\<lambda>_ s. bind_res (update_title i u s)
               (\<lambda>_ s. bind_res (update_priority i u s)
                 (\<lambda>_ s. update_rest clk i actor u s)))))"

section \<open>Shape of the graph under writes\<close>

lemma dep_sound_mono: "dep_sound A d \<Longrightarrow> A \<subseteq> B \<Longrightarrow> dep_sound B d"
  by (auto simp: dep_sound_def split: option.splits)

lemma dep_sound_local: "ParseLocalID d = Some i \<Longrightarrow> dep_sound A d \<longleftrightarrow> i \<in> A"
  by (simp add: dep_sound_def)

lemma dep_sound_foreign: "ParseLocalID d = None \<Longrightarrow> ParseTaskURI d = Inr r \<Longrightarrow> dep_sound A d"
  by (cases r) (simp add: dep_sound_def)

lemma dep_sound_local_uri [simp]: "i \<noteq> 0 \<Longrightarrow> dep_sound A (local_uri i) \<longleftrightarrow> i \<in> A"
  by (simp add: dep_sound_def)

lemma dep_sound_canonical: "dep_sound A d \<Longrightarrow> dep_sound A (canonical_or_self d)"
  by (cases "canonicalDependency d")
     (auto simp: dep_sound_def canonical_or_self_def canonicalDependency_ParseLocalID
      dest: canonicalDependency_ParseTaskURI split: option.splits)

lemma graph_of_update:
  "graph_of (m(n \<mapsto> t)) = {(a, b). (a, b) \<in> graph_of m \<and> b \<noteq> n} \<union> local_deps (Depends t) \<times> {n}"
  by (auto simp: graph_of_def)

lemma graph_of_update_new: "m n = None \<Longrightarrow> graph_of (m(n \<mapsto> t)) = graph_of m \<union> local_deps (Depends t) \<times> {n}"
  by (auto simp: graph_of_update) (auto simp: graph_of_def)

lemma graph_of_DetectCycle:
  "tasks_wf ts \<Longrightarrow> DetectCycle deps i (BuildFromTasks ts) = None \<longleftrightarrow> acyclic (graph_of (map_of ts) \<union> local_deps deps \<times> {i})"
  by (simp add: DetectCycle_tasks dep_edges_graph_of)

lemma fresh_NextID: "store_inv s \<Longrightarrow> NextID s \<le> i \<Longrightarrow> map_of (Tasks s) i = None"
  using store_invD(3) [of s i] by (cases "map_of (Tasks s) i") (auto simp: not_le [symmetric])

lemma NextID_nonzero: "store_inv s \<Longrightarrow> NextID s \<noteq> 0"
  by (simp add: store_inv_def)

text \<open>A dependency list keeps its local dependencies under the projection of the code.\<close>

lemma dep_key_set_props [simp]:
  "distinct (dep_key_set deps)" "set (dep_key_set deps) = canonical_or_self ` set deps"
  "local_deps (dep_key_set deps) = local_deps deps"
  by (simp_all add: dep_key_set_def)
     (metis local_deps_canonical local_deps_set set_map set_remdups dep_key_set_def)

lemma modify_task_map [store_simps]:
  "map_of (Tasks (modify_task i f s)) j = (if j = i then map_option f (map_of (Tasks s) i) else map_of (Tasks s) j)"
  by (auto simp: modify_task_def map_of_put_task split: option.splits)

lemma modify_task_fields [store_simps]:
  "NextID (modify_task i f s) = NextID s" "NextEventID (modify_task i f s) = NextEventID s"
  "Events (modify_task i f s) = Events s" "Acquisitions (modify_task i f s) = Acquisitions s"
  "SchemaVersion (modify_task i f s) = SchemaVersion s"
  by (simp_all add: modify_task_def put_task_fields split: option.splits)

lemma tasks_wf_modify_task: "tasks_wf (Tasks s) \<Longrightarrow> (\<And>t. ID (f t) = ID t) \<Longrightarrow> tasks_wf (Tasks (modify_task i f s))"
  by (auto simp: modify_task_def intro!: tasks_wf_put_task dest: tasks_wfD split: option.splits)

lemma tasks_wf_AddTask: "tasks_wf (Tasks s) \<Longrightarrow> tasks_wf (Tasks (snd (AddTask clk title deps s)))"
  by (simp add: AddTask_fields tasks_wf_update)

section \<open>Adding a task keeps the invariant\<close>

definition added_task :: "gotime \<Rightarrow> new_task \<Rightarrow> string list \<Rightarrow> u64 \<Rightarrow> Task" where
  "added_task clk p deps i =
     \<lparr>ID = i, Title = n_Title p, Status = StatusPending, Depends = deps, Created = millis clk, Completed = 0,
      Capabilities = n_Capabilities p, Owner = [], LeaseExpires = 0, Priority = n_Priority p, Lineage = [],
      Tags = n_Tags p, RetryCount = 0, LastError = [], BlockReason = [], Log = [], Extra = []\<rparr>"

lemma added_task_fields [simp]:
  "ID (added_task clk p deps i) = i" "Depends (added_task clk p deps i) = deps"
  "task_sound (added_task clk p deps i) = validPriority (n_Priority p)"
  by (simp_all add: added_task_def task_sound_def)

lemma insert_new_effect:
  assumes "insert_new clk p deps s = (r, s')"
  shows "r = Inr (NextID s)"
    "map_of (Tasks s') = (map_of (Tasks s))(NextID s \<mapsto> added_task clk p deps (NextID s))"
    "NextID s' = NextID s + 1" "tasks_wf (Tasks s) \<Longrightarrow> tasks_wf (Tasks s')"
    "Acquisitions s' = Acquisitions s" "Events s' = Events s @ drop (length (Events s)) (Events s')"
proof -
  let ?a = "AddTask clk (n_Title p) deps s"
  let ?m = "modify_task (NextID s) (\<lambda>t. t\<lparr>Priority := n_Priority p, Capabilities := n_Capabilities p, Tags := n_Tags p\<rparr>) (snd ?a)"
  have e: "r = Inr (NextID s)" "s' = AddEvent clk EventTaskCreated (NextID s) [] [(''title'', n_Title p)] ?m"
    using assms by (auto simp: insert_new_def AddTask_def Let_def)
  show "r = Inr (NextID s)" by (rule e(1))
  show "map_of (Tasks s') = (map_of (Tasks s))(NextID s \<mapsto> added_task clk p deps (NextID s))"
    by (rule ext) (simp add: e(2) store_simps update_conv' added_task_def AddTask_def Let_def)
  show "NextID s' = NextID s + 1" "Acquisitions s' = Acquisitions s" by (simp_all add: e(2) store_simps)
  show "tasks_wf (Tasks s) \<Longrightarrow> tasks_wf (Tasks s')"
    unfolding e(2) AddEvent_fields by (intro tasks_wf_modify_task tasks_wf_AddTask) simp_all
  show "Events s' = Events s @ drop (length (Events s)) (Events s')"
    by (simp add: e(2) AddEvent_def store_simps)
qed

lemma resolve_after_sound:
  "resolve_after deps ts = Inr fs \<Longrightarrow> (\<forall>d \<in> set fs. dep_sound (dom (map_of ts)) d) \<and> local_deps fs = local_deps deps"
  by (induction deps ts arbitrary: fs rule: resolve_after.induct)
     (auto simp: dep_sound_local dep_sound_foreign ParseLocalID_nonzero domI split: option.splits if_splits sum.splits)

lemma store_inv_insert_new:
  assumes inv: "store_inv s" and room: "unat (NextID s) + 1 < 2 ^ 64" and prio: "validPriority (n_Priority p)"
    and deps: "\<forall>d \<in> set deps. dep_sound (dom (map_of (Tasks s))) d"
    and acyc: "DetectCycle deps (NextID s) (BuildFromTasks (Tasks s)) = None"
    and ins: "insert_new clk p deps s = (r, s')"
  shows "store_inv s'"
proof -
  note e = insert_new_effect [OF ins]
  have lt: "NextID s < NextID s + 1" using room by (intro word_less_succ) simp
  have fresh: "map_of (Tasks s) (NextID s) = None" using inv by (rule fresh_NextID) simp
  have wf: "tasks_wf (Tasks s)" using inv by (rule store_inv_wf)
  have "graph_of (map_of (Tasks s')) = graph_of (map_of (Tasks s)) \<union> local_deps deps \<times> {NextID s}"
    by (simp add: e(2) graph_of_update_new [where m = "map_of (Tasks s)", OF fresh])
  then have ac: "acyclic (graph_of (map_of (Tasks s')))" using acyc by (simp add: graph_of_DetectCycle [OF wf])
  have dom: "dom (map_of (Tasks s)) \<subseteq> dom (map_of (Tasks s'))" by (auto simp: e(2))
  have "task_sound t \<and> (\<forall>d \<in> set (Depends t). dep_sound (dom (map_of (Tasks s'))) d) \<and> i < NextID s'"
    if "map_of (Tasks s') i = Some t" for i t
  proof (cases "i = NextID s")
    case True
    with that have "t = added_task clk p deps (NextID s)" by (simp add: e(2))
    with True show ?thesis using prio deps dom lt by (auto simp: e(3) intro: dep_sound_mono)
  next
    case False
    with that have "map_of (Tasks s) i = Some t" by (simp add: e(2))
    from store_invD [OF inv this] show ?thesis using dom lt by (auto simp: e(3) intro: dep_sound_mono)
  qed
  moreover have "NextID s' \<noteq> 0" using lt by (auto simp: e(3))
  ultimately show ?thesis using e(4) [OF wf] ac by (simp add: store_inv_def)
qed

lemma store_inv_handleAdd:
  assumes "store_inv s" "unat (NextID s) + 1 < 2 ^ 64" "validPriority (n_Priority p)"
  shows "store_inv (snd (handleAdd_mutate clk p s))"
proof (cases "resolve_after (n_After p) (Tasks s)")
  case (Inl err)
  with assms show ?thesis by (simp add: handleAdd_mutate_def)
next
  case (Inr fs)
  note deps = conjunct1 [OF resolve_after_sound [OF Inr]]
  show ?thesis
  proof (cases "DetectCycle fs (NextID s) (BuildFromTasks (Tasks s))")
    case None
    then have "store_inv (snd (insert_new clk p fs s))"
      using store_inv_insert_new [OF assms deps None] by (metis prod.collapse)
    with None Inr show ?thesis by (simp add: handleAdd_mutate_def)
  qed (use Inr assms in \<open>simp add: handleAdd_mutate_def\<close>)
qed

lemma cmdAdd_same_store: "snd (cmdAdd_mutate clk p s) = snd (handleAdd_mutate clk p s)"
  by (simp add: cmdAdd_mutate_def handleAdd_mutate_def split: sum.splits option.splits)

lemma handleAdd_failure: "handleAdd_mutate clk p s = (Inl err, s') \<Longrightarrow> s' = s"
  using insert_new_effect(1) [of clk p _ s]
  by (auto simp: handleAdd_mutate_def split: sum.splits option.splits)

lemma cmdAdd_failure: "cmdAdd_mutate clk p s = (Inl err, s') \<Longrightarrow> s' = s"
  using insert_new_effect(1) [of clk p _ s]
  by (auto simp: cmdAdd_mutate_def split: sum.splits option.splits)

section \<open>Decomposition keeps the invariant\<close>

definition child_task :: "gotime \<Rightarrow> u64 \<Rightarrow> decomposeSubtask \<Rightarrow> u64 \<Rightarrow> Task" where
  "child_task clk parentID sub i =
     \<lparr>ID = i, Title = sub_Title sub, Status = StatusPending, Depends = [], Created = millis clk, Completed = 0,
      Capabilities = sub_Capabilities sub, Owner = [], LeaseExpires = 0, Priority = f_zero,
      Lineage = local_uri parentID, Tags = [], RetryCount = 0, LastError = [], BlockReason = [], Log = [], Extra = []\<rparr>"

lemma child_task_fields [simp]:
  "ID (child_task clk p sub i) = i" "Depends (child_task clk p sub i) = []" "task_sound (child_task clk p sub i)"
  by (simp_all add: child_task_def task_sound_def validPriority_code f_zero_def)

definition child_ids :: "u64 \<Rightarrow> nat \<Rightarrow> u64 list" where
  "child_ids n k = map (\<lambda>j. n + of_nat j) [0..<k]"

lemma child_ids_Suc: "child_ids n (Suc k) = n # child_ids (n + 1) k"
  by (simp add: child_ids_def upt_conv_Cons map_Suc_upt [symmetric] del: upt_Suc)

lemma unat_plus_of_nat: "unat n + k < 2 ^ 64 \<Longrightarrow> unat (n + of_nat k :: u64) = unat n + k"
  by (simp add: unat_word_ariths unat_of_nat)

lemma child_ids_range:
  assumes "unat n + k < 2 ^ 64"
  shows "i \<in> set (child_ids n k) \<longleftrightarrow> n \<le> i \<and> i < n + of_nat k"
proof
  assume "i \<in> set (child_ids n k)"
  then obtain j where "j < k" "i = n + of_nat j" by (auto simp: child_ids_def)
  then show "n \<le> i \<and> i < n + of_nat k"
    using assms by (simp add: word_le_nat_alt word_less_nat_alt unat_plus_of_nat)
next
  assume i: "n \<le> i \<and> i < n + of_nat k"
  then have "i = n + of_nat (unat i - unat n)"
    by (simp add: word_le_nat_alt of_nat_diff)
  moreover have "unat i - unat n < k"
    using i assms unat_plus_of_nat [of n k] unfolding word_le_nat_alt word_less_nat_alt by linarith
  ultimately show "i \<in> set (child_ids n k)" by (auto simp: child_ids_def)
qed

lemma length_child_ids [simp]: "length (child_ids n k) = k"
  by (simp add: child_ids_def)

lemma child_ids_tail: "unat n + Suc k < 2 ^ 64 \<Longrightarrow> n \<notin> set (child_ids (n + 1) k)"
  by (auto simp: child_ids_range unat_succ word_le_nat_alt)

lemma add_children_spec:
  assumes "add_children clk p subs s = (added, s')" "map_of (Tasks s) p = Some par"
    "p \<notin> set (child_ids (NextID s) (length subs))" "unat (NextID s) + length subs < 2 ^ 64"
  shows "added = child_ids (NextID s) (length subs) \<and> NextID s' = NextID s + of_nat (length subs)
    \<and> map_of (Tasks s') = (map_of (Tasks s))(p \<mapsto> par\<lparr>Depends := Depends par @ map local_uri added\<rparr>)
         ++ map_of (zip added (map2 (child_task clk p) subs added))
    \<and> (tasks_wf (Tasks s) \<longrightarrow> tasks_wf (Tasks s')) \<and> Acquisitions s' = Acquisitions s \<and> Events s' = Events s
    \<and> NextEventID s' = NextEventID s"
  using assms
proof (induction subs arbitrary: s par added)
  case Nil
  then show ?case by (auto simp: child_ids_def)
next
  case (Cons sub subs)
  let ?n = "NextID s"
  let ?s1 = "modify_task p (\<lambda>t. t\<lparr>Depends := Depends t @ [local_uri ?n]\<rparr>)
    (modify_task ?n (\<lambda>t. t\<lparr>Capabilities := sub_Capabilities sub, Lineage := local_uri p\<rparr>) (snd (AddTask clk (sub_Title sub) [] s)))"
  let ?par = "par\<lparr>Depends := Depends par @ [local_uri ?n]\<rparr>"
  obtain rest where rest: "add_children clk p subs ?s1 = (rest, s')" "added = ?n # rest"
    using Cons.prems(1) by (auto simp: AddTask_def Let_def split: prod.splits)
  have pn: "p \<noteq> ?n" using Cons.prems(3) by (auto simp: child_ids_Suc)
  have m1: "map_of (Tasks ?s1) = (map_of (Tasks s))(?n \<mapsto> child_task clk p sub ?n, p \<mapsto> ?par)"
    using pn Cons.prems(2)
    by (intro ext) (simp add: store_simps update_conv' child_task_def AddTask_def Let_def f_zero_def)
  have n1: "NextID ?s1 = ?n + 1" by (simp add: store_simps)
  have room: "unat (NextID ?s1) + length subs < 2 ^ 64"
    using Cons.prems(4) unat_succ [of ?n] by (simp add: n1)
  have IH: "rest = child_ids (?n + 1) (length subs) \<and> NextID s' = ?n + 1 + of_nat (length subs)
    \<and> map_of (Tasks s') = (map_of (Tasks ?s1))(p \<mapsto> ?par\<lparr>Depends := Depends ?par @ map local_uri rest\<rparr>)
         ++ map_of (zip rest (map2 (child_task clk p) subs rest))
    \<and> (tasks_wf (Tasks ?s1) \<longrightarrow> tasks_wf (Tasks s')) \<and> Acquisitions s' = Acquisitions ?s1 \<and> Events s' = Events ?s1
    \<and> NextEventID s' = NextEventID ?s1"
  proof -
    have par: "map_of (Tasks ?s1) p = Some ?par" by (simp add: m1)
    have new: "p \<notin> set (child_ids (NextID ?s1) (length subs))" using Cons.prems(3) by (simp add: n1 child_ids_Suc)
    show ?thesis using Cons.IH [OF rest(1) par new room] unfolding n1 .
  qed
  have fresh: "map_of (zip rest (map2 (child_task clk p) subs rest)) ?n = None"
    using IH child_ids_tail [of ?n "length subs"] Cons.prems(4) by (auto simp: map_of_eq_None_iff dest: set_zip_leftD)
  have "map_of (Tasks s') = (map_of (Tasks s))(p \<mapsto> par\<lparr>Depends := Depends par @ map local_uri added\<rparr>)
         ++ map_of (zip added (map2 (child_task clk p) (sub # subs) added))"
  proof -
    define Z where "Z = map_of (zip rest (map2 (child_task clk p) subs rest))"
    define Q where "Q = par\<lparr>Depends := Depends par @ map local_uri added\<rparr>"
    have Q: "?par\<lparr>Depends := Depends ?par @ map local_uri rest\<rparr> = Q" by (simp add: Q_def rest(2))
    have "map_of (Tasks s') = (map_of (Tasks ?s1))(p \<mapsto> Q) ++ Z" using IH unfolding Q Z_def by blast
    then have lhs: "map_of (Tasks s') = (map_of (Tasks s))(?n \<mapsto> child_task clk p sub ?n, p \<mapsto> Q) ++ Z"
      unfolding m1 by simp
    have "Z ?n = None" using fresh by (simp add: Z_def)
    then have "map_of (Tasks s') = (map_of (Tasks s))(p \<mapsto> Q) ++ Z(?n \<mapsto> child_task clk p sub ?n)"
      unfolding lhs using pn by (intro ext) (simp add: map_add_def split: option.splits)
    then show ?thesis unfolding Q_def rest(2) Z_def by simp
  qed
  note a3 = this
  have a4: "tasks_wf (Tasks s) \<longrightarrow> tasks_wf (Tasks ?s1)"
    by (intro impI tasks_wf_modify_task tasks_wf_AddTask) simp_all
  have a5: "Acquisitions ?s1 = Acquisitions s" "Events ?s1 = Events s" "NextEventID ?s1 = NextEventID s"
    by (simp_all add: store_simps)
  show ?case
  proof (intro conjI)
    show "added = child_ids ?n (length (sub # subs))" using IH rest(2) by (simp add: child_ids_Suc)
    show "NextID s' = ?n + of_nat (length (sub # subs))" using IH by (simp add: ac_simps)
    show "tasks_wf (Tasks s) \<longrightarrow> tasks_wf (Tasks s')" using IH a4 by blast
    show "Acquisitions s' = Acquisitions s" "Events s' = Events s" "NextEventID s' = NextEventID s"
      using IH a5 by simp_all
  qed (rule a3)
qed

lemma local_deps_local_uri: "0 \<notin> set is \<Longrightarrow> local_deps (map local_uri is) = set is"
  by (induction "is") auto

lemma map2_Some:
  "map_of (zip xs (map2 f ys xs)) i = Some t \<Longrightarrow> length xs = length ys \<Longrightarrow> i \<in> set xs \<and> (\<exists>y \<in> set ys. t = f y i)"
  by (induction xs ys rule: list_induct2') (auto split: if_splits)

lemma map2_None: "map_of (zip xs (map2 f ys xs)) i = None \<longleftrightarrow> i \<notin> set xs" if "length xs = length ys"
  using that by (induction xs ys rule: list_induct2') auto

definition returned_parent :: "u64 list \<Rightarrow> Task \<Rightarrow> Task" where
  "returned_parent added t =
     t\<lparr>Depends := Depends t @ map local_uri added, Status := StatusPending, Owner := [], LeaseExpires := 0, BlockReason := []\<rparr>"

lemma decomposeTask_failure: "decomposeTask clk p actor subs s = (Inl err, s') \<Longrightarrow> s' = s"
  by (auto simp: decomposeTask_def check_Inl Let_def split: sum.splits if_splits option.splits prod.splits)

lemma decomposeTask_effect:
  assumes run: "decomposeTask clk p actor subs s = (Inr (q, added), s')" and inv: "store_inv s"
    and room: "unat (NextID s) + length subs < 2 ^ 64"
  shows "q = p \<and> added = child_ids (NextID s) (length subs) \<and> NextID s' = NextID s + of_nat (length subs)
    \<and> (\<exists>par. map_of (Tasks s) p = Some par \<and> Status par \<noteq> StatusCompleted \<and> requireOwner par actor = None
         \<and> acyclic (graph_of (map_of (Tasks s)) \<union> (local_deps (Depends par) \<union> set added) \<times> {p})
         \<and> map_of (Tasks s') = (map_of (Tasks s))(p \<mapsto> returned_parent added par)
              ++ map_of (zip added (map2 (child_task clk p) subs added)))
    \<and> tasks_wf (Tasks s')"
proof -
  note wf = store_inv_wf [OF inv]
  let ?ids = "child_ids (NextID s) (length subs)"
  let ?proj = "\<lambda>par. dep_key_set (Depends par) @ map (\<lambda>k. local_uri (NextID s + of_nat k)) [0..<length subs]"
  from run obtain par s1 where par: "map_of (Tasks s) p = Some par" "Status par \<noteq> StatusCompleted" "requireOwner par actor = None"
    and dc: "DetectCycle (?proj par) p (BuildFromTasks (Tasks s)) = None"
    and ac: "add_children clk p subs s = (added, s1)" and q: "q = p"
    and s': "s' = AddEvent clk EventTaskDecomposed p actor [(''count'', decimal (length subs))]
        (modify_task p (\<lambda>t. t\<lparr>Status := StatusPending, Owner := [], LeaseExpires := 0, BlockReason := []\<rparr>) s1)"
    by (auto simp: decomposeTask_def check_Inr requireTask_simps Let_def split: sum.splits if_splits option.splits prod.splits)
  have p_old: "p < NextID s" using store_invD(3) [OF inv par(1)] .
  then have pn: "p \<notin> set ?ids" by (auto simp: child_ids_range [OF room])
  have nz: "0 \<notin> set ?ids" using NextID_nonzero [OF inv] by (auto simp: child_ids_range [OF room])
  have ch: "added = ?ids" "NextID s1 = NextID s + of_nat (length subs)"
    "map_of (Tasks s1) = (map_of (Tasks s))(p \<mapsto> par\<lparr>Depends := Depends par @ map local_uri added\<rparr>)
         ++ map_of (zip added (map2 (child_task clk p) subs added))" "tasks_wf (Tasks s1)"
    using add_children_spec [OF ac par(1) pn room] wf by simp_all
  have pz: "map_of (zip added (map2 (child_task clk p) subs added)) p = None"
    using pn ch(1) by (simp add: map2_None)
  have "map_of (Tasks s') = (map_of (Tasks s))(p \<mapsto> returned_parent added par)
              ++ map_of (zip added (map2 (child_task clk p) subs added))"
    by (rule ext) (use pz in \<open>simp add: s' store_simps ch(3) returned_parent_def map_add_def split: option.splits\<close>)
  moreover have "map (\<lambda>k. local_uri (NextID s + of_nat k)) [0..<length subs] = map local_uri ?ids"
    by (simp add: child_ids_def)
  then have "local_deps (?proj par) = local_deps (Depends par) \<union> set added"
    using local_deps_local_uri [OF nz] by (simp add: ch(1))
  with dc have "acyclic (graph_of (map_of (Tasks s)) \<union> (local_deps (Depends par) \<union> set added) \<times> {p})"
    by (simp add: graph_of_DetectCycle [OF wf])
  moreover have "tasks_wf (Tasks s')" unfolding s' AddEvent_fields by (intro tasks_wf_modify_task ch(4)) simp
  moreover have "NextID s' = NextID s + of_nat (length subs)" by (simp add: s' store_simps ch(2))
  ultimately show ?thesis using q ch(1) par by blast
qed

lemma store_inv_decomposeTask:
  assumes inv: "store_inv s" and room: "unat (NextID s) + length subs < 2 ^ 64"
  shows "store_inv (snd (decomposeTask clk p actor subs s))"
proof (cases "decomposeTask clk p actor subs s")
  case (Pair r s')
  show ?thesis
  proof (cases r)
    case (Inl err)
    with Pair decomposeTask_failure [of clk p actor subs s err s'] inv show ?thesis by simp
  next
    case (Inr qa)
    then obtain q added where run: "decomposeTask clk p actor subs s = (Inr (q, added), s')" using Pair by (cases qa) auto
    note e = decomposeTask_effect [OF run inv room]
    let ?kids = "map_of (zip added (map2 (child_task clk p) subs added))"
    from e obtain par where par: "map_of (Tasks s) p = Some par" and open_par: "Status par \<noteq> StatusCompleted"
      and acyc: "acyclic (graph_of (map_of (Tasks s)) \<union> (local_deps (Depends par) \<union> set added) \<times> {p})"
      and m: "map_of (Tasks s') = (map_of (Tasks s))(p \<mapsto> returned_parent added par) ++ ?kids" by blast
    have ids: "i \<in> set added \<longleftrightarrow> NextID s \<le> i \<and> i < NextID s'" for i
      using e child_ids_range [OF room] by simp
    have len: "length added = length subs" using e by simp
    have nz: "0 \<notin> set added" using NextID_nonzero [OF inv] by (auto simp: ids)
    have le: "NextID s \<le> NextID s'"
      using e room by (simp add: word_le_nat_alt unat_plus_of_nat)
    have dom: "dom (map_of (Tasks s')) = dom (map_of (Tasks s)) \<union> set added"
      using par by (auto simp: m dom_def map2_None [OF len] map_add_def split: option.splits)
    have cases: "i \<in> set added \<and> (\<exists>sub. t = child_task clk p sub i) \<or> i = p \<and> t = returned_parent added par
        \<or> map_of (Tasks s) i = Some t" if "map_of (Tasks s') i = Some t" for i t
      using that map2_Some [OF _ len] by (fastforce simp: m map_add_def split: option.splits if_splits)
    have "task_sound t \<and> (\<forall>d \<in> set (Depends t). dep_sound (dom (map_of (Tasks s'))) d) \<and> i < NextID s'"
      if "map_of (Tasks s') i = Some t" for i t
      using cases [OF that]
    proof (elim disjE conjE exE)
      fix sub assume "i \<in> set added" "t = child_task clk p sub i"
      then show ?thesis by (simp add: ids)
    next
      assume t: "i = p" "t = returned_parent added par"
      have "dep_sound (dom (map_of (Tasks s'))) d" if "d \<in> set (Depends t)" for d
      proof (cases "d \<in> set (Depends par)")
        case True
        from store_invD(4) [OF inv par this] show ?thesis by (rule dep_sound_mono) (simp add: dom)
      next
        case False
        with that t obtain k where "k \<in> set added" "d = local_uri k" by (auto simp: returned_parent_def)
        moreover from this nz have "k \<noteq> 0" by auto
        ultimately show ?thesis by (simp add: dom)
      qed
      then show ?thesis
        using store_invD(2,3) [OF inv par] t le open_par
        by (auto simp: returned_parent_def task_sound_def split: if_splits intro: less_le_trans)
    next
      assume "map_of (Tasks s) i = Some t"
      from store_invD [OF inv this] show ?thesis using le by (auto simp: dom intro: dep_sound_mono less_le_trans)
    qed
    moreover have "graph_of (map_of (Tasks s')) \<subseteq> graph_of (map_of (Tasks s)) \<union> (local_deps (Depends par) \<union> set added) \<times> {p}"
    proof -
      have "local_deps (Depends (returned_parent added par)) = local_deps (Depends par) \<union> set added"
        using local_deps_local_uri [OF nz] by (simp add: returned_parent_def)
      then show ?thesis using cases by (fastforce simp: graph_of_def)
    qed
    then have "acyclic (graph_of (map_of (Tasks s')))" using acyc acyclic_subset by blast
    moreover have "NextID s' \<noteq> 0" using le NextID_nonzero [OF inv] by auto
    ultimately have "store_inv s'" using e by (simp add: store_inv_def)
    then show ?thesis using Pair by simp
  qed
qed

section \<open>Edits of a task keep the invariant\<close>

lemma store_inv_AddEvent [simp]: "store_inv (AddEvent clk ty i actor data s) = store_inv s"
  by (simp add: store_inv_def AddEvent_fields)

lemma store_inv_modify:
  assumes "store_inv s"
    "\<And>t. ID (f t) = ID t \<and> Depends (f t) = Depends t \<and> (task_sound t \<longrightarrow> task_sound (f t))"
  shows "store_inv (modify_task i f s)"
proof (cases "map_of (Tasks s) i")
  case None
  then show ?thesis using assms by (simp add: modify_task_def)
next
  case (Some t)
  have up: "updates i (f t) s (modify_task i f s)" using Some by (intro updates_intros) simp_all
  show ?thesis
    by (rule store_inv_updates [OF assms(1) up Some]) (use assms(2) [of t] store_invD(2) [OF assms(1) Some] in auto)
qed

lemma store_inv_updates_deps:
  assumes inv: "store_inv s" and up: "updates i t' s s'" and at: "map_of (Tasks s) i = Some t"
    and t': "ID t' = ID t" "task_sound t'" "\<forall>d \<in> set (Depends t'). dep_sound (dom (map_of (Tasks s))) d"
    and ac: "acyclic (graph_of ((map_of (Tasks s))(i \<mapsto> t')))"
  shows "store_inv s'"
proof -
  have m: "map_of (Tasks s') = (map_of (Tasks s))(i \<mapsto> t')" "NextID s' = NextID s"
    using up by (simp_all add: updates_def same_frame_def)
  have dom: "dom (map_of (Tasks s')) = dom (map_of (Tasks s))" using at by (auto simp: m)
  have "tasks_wf (Tasks s')"
    using updates_wf [OF up store_inv_wf [OF inv]] t'(1) store_invD(1) [OF inv at] by simp
  then show ?thesis
    using inv t' ac store_invD(3) [OF inv at] unfolding store_inv_def dom by (auto simp: m)
qed

definition canonical_set :: "string list \<Rightarrow> string set" where
  "canonical_set refs = {c. \<exists>r \<in> set refs. canonicalDependency r = Inr c}"

lemma remove_deps_spec:
  "remove_deps i rm seen ds = Inr ds' \<Longrightarrow> seen \<inter> set ds = {} \<Longrightarrow>
    set ds' = set ds - canonical_set rm \<and> (distinct ds \<longrightarrow> distinct ds')"
proof (induction i rm seen ds rule: remove_deps.induct)
  case (2 i dep deps seen ds)
  then obtain c where c: "canonicalDependency dep = Inr c" by (auto split: sum.splits)
  have cs: "canonical_set (dep # deps) = insert c (canonical_set deps)" using c by (auto simp: canonical_set_def)
  show ?case
  proof (cases "c \<in> seen")
    case True
    then have "set ds' = set ds - canonical_set deps \<and> (distinct ds \<longrightarrow> distinct ds')"
      using 2 c by simp
    with True 2(4) show ?thesis by (auto simp: cs)
  next
    case False
    then have "set ds' = set (removeAll c ds) - canonical_set deps \<and> (distinct (removeAll c ds) \<longrightarrow> distinct ds')"
      using 2(2) [OF c False] 2(3,4) c by (auto split: if_splits)
    then show ?thesis by (auto simp: cs distinct_removeAll)
  qed
qed (simp add: canonical_set_def)

lemma add_new_deps_spec:
  "add_new_deps ad ts ds = Inr ds' \<Longrightarrow>
    set ds' = set ds \<union> canonical_set ad \<and> (distinct ds \<longrightarrow> distinct ds')
    \<and> ((\<forall>d \<in> set ds. dep_sound (dom (map_of ts)) d) \<longrightarrow> (\<forall>d \<in> set ds'. dep_sound (dom (map_of ts)) d))"
proof (induction ad ts ds rule: add_new_deps.induct)
  case (2 dep deps ts ds)
  then obtain c where c: "canonicalDependency dep = Inr c" by (auto split: sum.splits)
  have cs: "canonical_set (dep # deps) = insert c (canonical_set deps)" using c by (auto simp: canonical_set_def)
  show ?case
  proof (cases "c \<in> set ds")
    case True
    then show ?thesis using 2 c by (auto simp: cs)
  next
    case False
    have sound: "dep_sound (dom (map_of ts)) c" and rest: "add_new_deps deps ts (ds @ [c]) = Inr ds'"
      using 2(4) False c canonicalDependency_ParseTaskURI [OF c] canonicalDependency_ParseLocalID [OF c]
      by (auto simp: dep_sound_local dep_sound_foreign split: option.splits if_splits)
    have "set ds' = set (ds @ [c]) \<union> canonical_set deps \<and> (distinct (ds @ [c]) \<longrightarrow> distinct ds')
        \<and> ((\<forall>d \<in> set (ds @ [c]). dep_sound (dom (map_of ts)) d) \<longrightarrow> (\<forall>d \<in> set ds'. dep_sound (dom (map_of ts)) d))"
    proof (cases "ParseLocalID c")
      case None
      from 2(2) [OF c False None rest] show ?thesis .
    next
      case (Some k)
      then have "map_of ts k \<noteq> None" using 2(4) c False by (auto split: if_splits)
      from 2(3) [OF c False Some this rest] show ?thesis .
    qed
    then show ?thesis using sound False by (auto simp: cs)
  qed
qed (simp add: canonical_set_def)

lemma updates_dep_events [updates_intros]: "updates i t s s1 \<Longrightarrow> updates i t s (dep_events clk ty j actor ds s1)"
  by (induction clk ty j actor ds s1 rule: dep_events.induct) (auto intro: updates_AddEvent)

lemma applyDependencyEdits_failure: "applyDependencyEdits clk i task actor ad rm s = (Inl err, s') \<Longrightarrow> s' = s"
  by (auto simp: applyDependencyEdits_def check_Inl Let_def split: sum.splits option.splits)

definition edited_deps :: "string list \<Rightarrow> string list \<Rightarrow> string list \<Rightarrow> string set" where
  "edited_deps old ad rm = (canonical_or_self ` set old - canonical_set rm) \<union> canonical_set ad"

lemma applyDependencyEdits_effect:
  assumes run: "applyDependencyEdits clk i task actor ad rm s = (Inr u, s')" and at: "map_of (Tasks s) i = Some task"
    and wf: "tasks_wf (Tasks s)"
  shows "\<exists>ds. updates i (task\<lparr>Depends := ds\<rparr>) s s' \<and> sorted_wrt str_less ds
    \<and> set ds = edited_deps (Depends task) ad rm
    \<and> acyclic (graph_of ((map_of (Tasks s))(i \<mapsto> task\<lparr>Depends := ds\<rparr>)))
    \<and> ((\<forall>d \<in> set (Depends task). dep_sound (dom (map_of (Tasks s))) d) \<longrightarrow> (\<forall>d \<in> set ds. dep_sound (dom (map_of (Tasks s))) d))"
proof -
  from run obtain ds1 ds2 where r: "remove_deps (ID task) rm {} (dep_key_set (Depends task)) = Inr ds1"
    and a: "add_new_deps ad (Tasks s) ds1 = Inr ds2"
    and dc: "DetectCycle [] (ID task) (BuildFromTasks (Tasks (modify_task i (\<lambda>t. t\<lparr>Depends := sort_Strings ds2\<rparr>) s))) = None"
    and s': "s' = modify_task i (\<lambda>t. t\<lparr>Depends := sort_Strings ds2\<rparr>)
        (dep_events clk EventDependencyRemoved (ID task) actor (filter (\<lambda>dep. dep \<notin> set ds2) (dep_key_set (Depends task)))
        (dep_events clk EventDependencyAdded (ID task) actor (filter (\<lambda>dep. dep \<notin> set (dep_key_set (Depends task))) (sort_Strings ds2)) s))"
    by (auto simp: applyDependencyEdits_def check_Inr Let_def split: sum.splits option.splits)
  note rs = remove_deps_spec [OF r] and as = add_new_deps_spec [OF a]
  have d1: "distinct ds1" using rs by simp
  have "updates i (task\<lparr>Depends := sort_Strings ds2\<rparr>) s s'" unfolding s' using at by (intro updates_intros) simp_all
  moreover have "sorted_wrt str_less (sort_Strings ds2)" using as d1 by (intro sort_Strings_sorted) simp
  moreover have "set (sort_Strings ds2) = edited_deps (Depends task) ad rm"
    using rs as by (simp add: edited_deps_def)
  moreover have "map_of (Tasks (modify_task i (\<lambda>t. t\<lparr>Depends := sort_Strings ds2\<rparr>) s))
      = (map_of (Tasks s))(i \<mapsto> task\<lparr>Depends := sort_Strings ds2\<rparr>)"
    by (rule ext) (simp add: modify_task_map at)
  with dc have "acyclic (graph_of ((map_of (Tasks s))(i \<mapsto> task\<lparr>Depends := sort_Strings ds2\<rparr>)))"
    by (subst (asm) graph_of_DetectCycle) (simp_all add: tasks_wf_modify_task [OF wf])
  moreover have "(\<forall>d \<in> set (Depends task). dep_sound (dom (map_of (Tasks s))) d)
      \<longrightarrow> (\<forall>d \<in> set (sort_Strings ds2). dep_sound (dom (map_of (Tasks s))) d)"
    using rs as dep_sound_canonical by fastforce
  ultimately show ?thesis by blast
qed

lemma bind_res_keeps:
  "P (snd r) \<Longrightarrow> (\<And>a s. P s \<Longrightarrow> P (snd (k a s))) \<Longrightarrow> P (snd (bind_res r k))"
  by (cases r; cases "fst r") (auto simp: bind_res_def)

lemma check_keeps: "P s \<Longrightarrow> (e = None \<Longrightarrow> P (snd r)) \<Longrightarrow> P (snd (check e s r))"
  by (cases e) auto

lemma store_inv_applyDependencyEdits:
  assumes inv: "store_inv s" and at: "map_of (Tasks s) i = Some task"
  shows "store_inv (snd (applyDependencyEdits clk i task actor ad rm s))"
proof (cases "applyDependencyEdits clk i task actor ad rm s")
  case (Pair r s')
  show ?thesis
  proof (cases r)
    case (Inl err)
    with Pair applyDependencyEdits_failure [of clk i task actor ad rm s err s'] inv show ?thesis by simp
  next
    case (Inr u)
    with Pair applyDependencyEdits_effect [of clk i task actor ad rm s u s', OF _ at store_inv_wf [OF inv]]
    obtain ds where ds: "updates i (task\<lparr>Depends := ds\<rparr>) s s'"
      "acyclic (graph_of ((map_of (Tasks s))(i \<mapsto> task\<lparr>Depends := ds\<rparr>)))"
      "(\<forall>d \<in> set (Depends task). dep_sound (dom (map_of (Tasks s))) d) \<longrightarrow> (\<forall>d \<in> set ds. dep_sound (dom (map_of (Tasks s))) d)"
      by blast
    have "store_inv s'"
      by (rule store_inv_updates_deps [OF inv ds(1) at])
         (use ds store_invD [OF inv at] in \<open>auto simp: task_sound_def split: if_splits\<close>)
    then show ?thesis using Pair by simp
  qed
qed

lemma store_inv_update_title: "store_inv s \<Longrightarrow> store_inv (snd (update_title i u s))"
  by (simp add: update_title_def Let_def store_inv_modify task_sound_def split: option.splits)

lemma store_inv_update_priority: "store_inv s \<Longrightarrow> store_inv (snd (update_priority i u s))"
  by (simp add: update_priority_def store_inv_modify task_sound_def split: option.splits)

lemma store_inv_update_rest:
  assumes "store_inv s"
  shows "store_inv (snd (update_rest clk i actor u s))"
proof -
  define S where "S = (if u_SetCapabilities u then modify_task i (\<lambda>t. t\<lparr>Capabilities := u_Capabilities u\<rparr>) s else s)"
  have s1: "store_inv S" using assms by (simp add: S_def store_inv_modify task_sound_def)
  then have s2: "store_inv (modify_task i (\<lambda>t. t\<lparr>Extra := merge_extra (u_Extra u) (Extra t)\<rparr>) S)"
    by (rule store_inv_modify) (simp add: task_sound_def)
  show ?thesis
  proof (cases "requireTask S i")
    case (Inl err)
    then show ?thesis unfolding update_rest_def Let_def S_def [symmetric] using s1 by simp
  next
    case (Inr task)
    show ?thesis
      unfolding update_rest_def Let_def S_def [symmetric] Inr sum.case
      by (rule check_keeps [where P = store_inv, OF s1]) (simp only: s2 snd_conv store_inv_AddEvent simp_thms split: if_split)
  qed
qed

lemma store_inv_updateTask:
  assumes "store_inv s"
  shows "store_inv (snd (updateTask clk i actor u s))"
proof (cases "requireTask s i")
  case (Inl err)
  with assms show ?thesis by (simp add: updateTask_def)
next
  case (Inr task)
  then have at: "map_of (Tasks s) i = Some task" by (simp add: requireTask_simps)
  let ?deps = "if u_AddDeps u \<noteq> [] \<or> u_RemoveDeps u \<noteq> []
      then applyDependencyEdits clk i task actor (u_AddDeps u) (u_RemoveDeps u) s else (Inr (), s)"
  have 1: "store_inv (snd ?deps)" using store_inv_applyDependencyEdits [OF assms at] assms by simp
  have 2: "store_inv (snd (bind_res ?deps (\<lambda>_ s. bind_res (update_title i u s)
      (\<lambda>_ s. bind_res (update_priority i u s) (\<lambda>_ s. update_rest clk i actor u s)))))"
    by (rule bind_res_keeps, rule 1, rule bind_res_keeps, erule store_inv_update_title,
        rule bind_res_keeps, erule store_inv_update_priority, erule store_inv_update_rest)
  show ?thesis
    unfolding updateTask_def using Inr assms 2 by (simp add: check_keeps [where P = store_inv])
qed

section \<open>A store with two tasks\<close>

text \<open>Built by the operations themselves: task 2 waits for task 1. The witnesses run on it.\<close>

definition plain_task :: "string \<Rightarrow> new_task" where
  "plain_task title = \<lparr>n_Title = title, n_After = [], n_Priority = f_half, n_Capabilities = [], n_Tags = []\<rparr>"

definition one_store :: TaskStore where
  "one_store = snd (insert_new 0 (plain_task ''schema'') [] NewTaskStore)"

definition two_store :: TaskStore where
  "two_store = snd (insert_new 0 (plain_task ''api'') [local_uri 1] one_store)"

abbreviation first_task :: Task where "first_task \<equiv> added_task 0 (plain_task ''schema'') [] 1"
abbreviation second_task :: Task where "second_task \<equiv> added_task 0 (plain_task ''api'') [local_uri 1] 2"

lemma NewTaskStore_simps [simp]: "Tasks NewTaskStore = []" "NextID NewTaskStore = 1" "Events NewTaskStore = []"
  "NextEventID NewTaskStore = 1" "Acquisitions NewTaskStore = []" "SchemaVersion NewTaskStore = CurrentSchemaVersion"
  by (simp_all add: NewTaskStore_def)

lemma one_store: "map_of (Tasks one_store) = [1 \<mapsto> first_task]" "NextID one_store = 2"
  using insert_new_effect(2,3) [OF surjective_pairing [of "insert_new 0 (plain_task ''schema'') [] NewTaskStore"]]
  by (simp_all add: one_store_def)

lemma two_store: "map_of (Tasks two_store) = [1 \<mapsto> first_task, 2 \<mapsto> second_task]" "NextID two_store = 3"
  using insert_new_effect(2,3) [OF surjective_pairing [of "insert_new 0 (plain_task ''api'') [local_uri 1] one_store"]]
  by (simp_all add: two_store_def one_store)

lemma plain_task_priority [simp]: "validPriority (n_Priority (plain_task t))"
  by (simp add: plain_task_def validPriority_code f_half_def)

lemma one_store_inv: "store_inv one_store"
proof -
  have "DetectCycle [] 1 (BuildFromTasks []) = None"
    by (simp add: graph_of_DetectCycle) (simp add: graph_of_def acyclic_def)
  then show ?thesis
    unfolding one_store_def
    by (intro store_inv_insert_new [OF store_inv_new _ _ _ _ surjective_pairing]) simp_all
qed

lemma two_store_inv: "store_inv two_store"
proof -
  have "graph_of [1 \<mapsto> first_task] = {}" by (auto simp: graph_of_def)
  then have "acyclic (graph_of (map_of (Tasks one_store)) \<union> local_deps [local_uri 1] \<times> {2})"
    by (simp add: one_store acyclic_def trancl_insert)
  then have "DetectCycle [local_uri 1] 2 (BuildFromTasks (Tasks one_store)) = None"
    by (simp only: graph_of_DetectCycle [OF store_inv_wf [OF one_store_inv]])
  then show ?thesis
    unfolding two_store_def
    by (intro store_inv_insert_new [OF one_store_inv _ _ _ _ surjective_pairing]) (simp_all add: one_store)
qed

lemma sample_fields [simp]:
  "Status (added_task clk p deps i) = StatusPending" "Owner (added_task clk p deps i) = []"
  "LeaseExpires (added_task clk p deps i) = 0" "Completed (added_task clk p deps i) = 0"
  "Capabilities (added_task clk p deps i) = n_Capabilities p" "Extra (added_task clk p deps i) = []"
  by (simp_all add: added_task_def)

end
