(* ===== verification/Removal.thy ===== *)
theory Removal
  imports GraphOps
begin

text \<open>
  The operations that complete and remove tasks: the transactions of \<^verbatim>\<open>cmd_done.go\<close> and
  \<^verbatim>\<open>cmd_rm.go\<close>, \<^verbatim>\<open>pruneCompletedTasks\<close> and \<^verbatim>\<open>newlyReadyAfter\<close> of \<^verbatim>\<open>coordination_ops.go\<close>. Removal
  never leaves a dependency on a task that is gone, and the report of newly ready tasks is exact.
\<close>

section \<open>Completing a batch\<close>

text \<open>The transaction of \<^verbatim>\<open>todo done\<close>: the first failure ends it, what went before stays in the store.\<close>

fun done_mutate ::
  "gotime \<Rightarrow> u64 list \<Rightarrow> string \<Rightarrow> DependencyResolver \<Rightarrow> gotime \<Rightarrow> TaskStore \<Rightarrow> u64 list res" where
  "done_mutate clk [] actor resolver now s = (Inr [], s)"
| "done_mutate clk (i # is) actor resolver now s =
     (case completeTask clk i actor resolver now s of
        (Inl err, s) \<Rightarrow> (Inl err, s)
      | (Inr task, s) \<Rightarrow>
          (case done_mutate clk is actor resolver now s of
             (Inl err, s) \<Rightarrow> (Inl err, s)
           | (Inr completed, s) \<Rightarrow> (Inr (task # completed), s)))"

section \<open>Removing tasks\<close>

fun check_removable :: "u64 list \<Rightarrow> tasks \<Rightarrow> goerr + Task list" where
  "check_removable [] ts = Inr []"
| "check_removable (i # is) ts =
     (case map_of ts i of
        None \<Rightarrow> Inl (lifecycleError ErrTaskNotFound ''task %d not found'' [ArgId i])
      | Some task \<Rightarrow>
          if Status task = StatusInProgress \<and> Owner task \<noteq> []
          then Inl (lifecycleError ErrNotOwner ''cannot remove task %d: active lease is owned by %s; release it first''
                      [ArgId i, ArgStr (Owner task)])
          else (case check_removable is ts of Inl err \<Rightarrow> Inl err | Inr rs \<Rightarrow> Inr (task # rs)))"

text \<open>The first surviving task, in iteration order, that depends on a task to be removed.\<close>

fun removed_dep :: "u64 list \<Rightarrow> string list \<Rightarrow> u64 option" where
  "removed_dep is [] = None"
| "removed_dep is (d # ds) =
     (case ParseLocalID d of
        Some i \<Rightarrow> if i \<in> set is then Some i else removed_dep is ds
      | None \<Rightarrow> removed_dep is ds)"

fun check_dependents :: "u64 list \<Rightarrow> tasks \<Rightarrow> goerr option" where
  "check_dependents is [] = None"
| "check_dependents is ((_, task) # ts) =
     (if ID task \<in> set is then check_dependents is ts
      else (case removed_dep is (Depends task) of
              Some i \<Rightarrow> Some (lifecycleError ErrDependency ''cannot remove task %d: task %d depends on it''
                               [ArgId i, ArgId (ID task)])
            | None \<Rightarrow> check_dependents is ts))"

fun remove_each :: "gotime \<Rightarrow> u64 list \<Rightarrow> TaskStore \<Rightarrow> TaskStore" where
  "remove_each clk [] s = s"
| "remove_each clk (i # is) s =
     remove_each clk is (snd (RemoveTask clk i (AddEvent clk EventTaskRemoved i [] [] s)))"

definition rm_mutate :: "gotime \<Rightarrow> u64 list \<Rightarrow> TaskStore \<Rightarrow> Task list res" where
  "rm_mutate clk is s =
     (case check_removable is (Tasks s) of
        Inl err \<Rightarrow> (Inl err, s)
      | Inr removed \<Rightarrow> check (check_dependents is (Tasks s)) s (Inr removed, remove_each clk is s))"

section \<open>Pruning\<close>

definition completed_tasks :: "TaskStore \<Rightarrow> Task list" where
  "completed_tasks s = filter (\<lambda>t. Status t = StatusCompleted) (GetAllTasks s)"

definition kept_deps :: "u64 set \<Rightarrow> string list \<Rightarrow> string list" where
  "kept_deps completed deps =
     filter (\<lambda>canonical. case ParseLocalID canonical of Some i \<Rightarrow> i \<notin> completed | None \<Rightarrow> True)
       (map canonical_or_self deps)"

definition prune_edges :: "u64 set \<Rightarrow> tasks \<Rightarrow> tasks" where
  "prune_edges completed ts =
     map (\<lambda>(k, t). (k, if ID t \<in> completed then t else t\<lparr>Depends := kept_deps completed (Depends t)\<rparr>)) ts"

fun remove_all :: "gotime \<Rightarrow> u64 list \<Rightarrow> TaskStore \<Rightarrow> TaskStore" where
  "remove_all clk [] s = s"
| "remove_all clk (i # is) s = remove_all clk is (snd (RemoveTask clk i s))"

definition pruneCompletedTasks :: "gotime \<Rightarrow> TaskStore \<Rightarrow> Task list \<times> TaskStore" where
  "pruneCompletedTasks clk s =
     (let removed = completed_tasks s;
          completed = set (map ID removed);
          s = s\<lparr>Tasks := prune_edges completed (Tasks s)\<rparr>;
          s = remove_all clk (remdups (map ID removed)) s
      in (go_sort (\<lambda>a b. ID a < ID b) removed, s))"

section \<open>What a completion released\<close>

definition depends_on_any :: "u64 list \<Rightarrow> Task \<Rightarrow> bool" where
  "depends_on_any completedIDs task \<longleftrightarrow>
     list_ex (\<lambda>d. case ParseLocalID d of Some i \<Rightarrow> i \<in> set completedIDs | None \<Rightarrow> False) (Depends task)"

definition newlyReadyAfter :: "TaskStore \<Rightarrow> u64 list \<Rightarrow> DependencyResolver \<Rightarrow> Task list" where
  "newlyReadyAfter s completedIDs resolver =
     (if completedIDs = [] then []
      else go_sort (\<lambda>a b. ID a < ID b)
             (filter (\<lambda>task. Status task = StatusPending
                       \<and> DependenciesCompleteWithResolver task (Tasks s) resolver
                       \<and> depends_on_any completedIDs task) (GetAllTasks s)))"

section \<open>Removal keeps the invariant\<close>

lemma RemoveTask_fields [store_simps]:
  "map_of (Tasks (snd (RemoveTask clk i s))) = (map_of (Tasks s))(i := None)"
  "NextID (snd (RemoveTask clk i s)) = NextID s" "NextEventID (snd (RemoveTask clk i s)) = NextEventID s"
  "Events (snd (RemoveTask clk i s)) = Events s" "SchemaVersion (snd (RemoveTask clk i s)) = SchemaVersion s"
  by (auto simp: RemoveTask_def delete_conv' fun_eq_iff split: option.splits)

lemma tasks_wf_RemoveTask: "tasks_wf (Tasks s) \<Longrightarrow> tasks_wf (Tasks (snd (RemoveTask clk i s)))"
  by (simp add: RemoveTask_def tasks_wf_delete split: option.splits)

lemma remove_all_spec:
  "map_of (Tasks (remove_all clk is s)) = (\<lambda>j. if j \<in> set is then None else map_of (Tasks s) j)
   \<and> NextID (remove_all clk is s) = NextID s \<and> (tasks_wf (Tasks s) \<longrightarrow> tasks_wf (Tasks (remove_all clk is s)))"
  by (induction clk "is" s rule: remove_all.induct) (auto simp: RemoveTask_fields tasks_wf_RemoveTask fun_eq_iff)

lemma remove_each_spec:
  "map_of (Tasks (remove_each clk is s)) = (\<lambda>j. if j \<in> set is then None else map_of (Tasks s) j)
   \<and> NextID (remove_each clk is s) = NextID s \<and> (tasks_wf (Tasks s) \<longrightarrow> tasks_wf (Tasks (remove_each clk is s)))"
  by (induction clk "is" s rule: remove_each.induct)
     (auto simp: RemoveTask_fields AddEvent_fields tasks_wf_RemoveTask fun_eq_iff)

text \<open>
  Dropping a set of tasks keeps the invariant when what remains is sound and no remaining task has
  gained a dependency.
\<close>

lemma store_inv_shrink:
  assumes inv: "store_inv s" and wf: "tasks_wf (Tasks s')" and nid: "NextID s' = NextID s"
    and sub: "\<And>j t'. map_of (Tasks s') j = Some t' \<Longrightarrow> \<exists>t. map_of (Tasks s) j = Some t \<and> task_sound t'
       \<and> local_deps (Depends t') \<subseteq> local_deps (Depends t) \<and> (\<forall>d \<in> set (Depends t'). dep_sound (dom (map_of (Tasks s'))) d)"
  shows "store_inv s'"
proof -
  have "graph_of (map_of (Tasks s')) \<subseteq> graph_of (map_of (Tasks s))"
    using sub by (fastforce simp: graph_of_def)
  then have "acyclic (graph_of (map_of (Tasks s')))"
    using inv acyclic_subset unfolding store_inv_def by blast
  moreover have "task_sound t \<and> (\<forall>d \<in> set (Depends t). dep_sound (dom (map_of (Tasks s'))) d) \<and> i < NextID s'"
    if "map_of (Tasks s') i = Some t" for i t
    using sub [OF that] store_invD(3) [OF inv] by (auto simp: nid)
  ultimately show ?thesis using inv wf nid by (simp add: store_inv_def)
qed

subsection \<open>Pruning\<close>

definition completed_ids :: "TaskStore \<Rightarrow> u64 set" where
  "completed_ids s = {i. \<exists>t. map_of (Tasks s) i = Some t \<and> Status t = StatusCompleted}"

lemma GetAllTasks_at: "tasks_wf (Tasks s) \<Longrightarrow> t \<in> set (GetAllTasks s) \<and> ID t = i \<longleftrightarrow> map_of (Tasks s) i = Some t"
  using GetAllTasks_set [of s t] tasks_wfD [of "Tasks s" i t] by auto

lemma completed_tasks_ids:
  assumes "tasks_wf (Tasks s)"
  shows "ID ` set (completed_tasks s) = completed_ids s"
proof -
  have "i \<in> ID ` set (completed_tasks s) \<longleftrightarrow> (\<exists>t. (t \<in> set (GetAllTasks s) \<and> ID t = i) \<and> Status t = StatusCompleted)" for i
    by (auto simp: completed_tasks_def)
  then show ?thesis unfolding GetAllTasks_at [OF assms] by (auto simp: completed_ids_def)
qed

lemma map_of_prune_edges:
  "map_of (prune_edges c ts) j = map_option (\<lambda>t. if ID t \<in> c then t else t\<lparr>Depends := kept_deps c (Depends t)\<rparr>) (map_of ts j)"
  by (induction ts) (auto simp: prune_edges_def)

lemma tasks_wf_prune_edges: "tasks_wf ts \<Longrightarrow> tasks_wf (prune_edges c ts)"
  by (auto simp: tasks_wf_def prune_edges_def comp_def split_beta image_iff split: if_splits)

lemma prune_effect:
  assumes "pruneCompletedTasks clk s = (removed, s')" "tasks_wf (Tasks s)"
  shows "map_of (Tasks s') = (\<lambda>j. if j \<in> completed_ids s then None
      else map_option (\<lambda>t. t\<lparr>Depends := kept_deps (completed_ids s) (Depends t)\<rparr>) (map_of (Tasks s) j))"
    "NextID s' = NextID s" "tasks_wf (Tasks s')" "mset removed = mset (completed_tasks s)"
proof -
  let ?c = "completed_ids s"
  have c: "set (map ID (completed_tasks s)) = ?c" using completed_tasks_ids [OF assms(2)] by simp
  let ?s1 = "s\<lparr>Tasks := prune_edges ?c (Tasks s)\<rparr>"
  have s': "s' = remove_all clk (remdups (map ID (completed_tasks s))) ?s1"
    and removed: "removed = go_sort (\<lambda>a b. ID a < ID b) (completed_tasks s)"
    using assms(1) unfolding pruneCompletedTasks_def Let_def c by auto
  note r = remove_all_spec [of clk "remdups (map ID (completed_tasks s))" ?s1]
  show "map_of (Tasks s') = (\<lambda>j. if j \<in> ?c then None
      else map_option (\<lambda>t. t\<lparr>Depends := kept_deps ?c (Depends t)\<rparr>) (map_of (Tasks s) j))"
  proof (rule ext)
    fix j
    show "map_of (Tasks s') j = (if j \<in> ?c then None
      else map_option (\<lambda>t. t\<lparr>Depends := kept_deps ?c (Depends t)\<rparr>) (map_of (Tasks s) j))"
      using r c tasks_wfD [OF assms(2), of j]
      by (cases "map_of (Tasks s) j") (auto simp: s' map_of_prune_edges)
  qed
  show "NextID s' = NextID s" "tasks_wf (Tasks s')"
    using r tasks_wf_prune_edges [OF assms(2)] by (simp_all add: s')
  show "mset removed = mset (completed_tasks s)" by (simp add: removed)
qed

lemma kept_deps_sound:
  assumes "\<forall>d \<in> set deps. dep_sound A d"
  shows "\<forall>d \<in> set (kept_deps c deps). dep_sound (A - c) d" "local_deps (kept_deps c deps) = local_deps deps - c"
proof -
  have "dep_sound (A - c) (canonical_or_self d)"
    if "d \<in> set deps" "case ParseLocalID d of Some i \<Rightarrow> i \<notin> c | None \<Rightarrow> True" for d
  proof -
    have "dep_sound A (canonical_or_self d)" using that(1) assms by (simp add: dep_sound_canonical)
    then show ?thesis using that(2) by (cases "ParseLocalID d") (simp_all add: dep_sound_def)
  qed
  then show "\<forall>d \<in> set (kept_deps c deps). dep_sound (A - c) d" by (auto simp: kept_deps_def)
  show "local_deps (kept_deps c deps) = local_deps deps - c"
    by (force simp: kept_deps_def local_deps_def split: option.splits)
qed

lemma store_inv_prune:
  assumes inv: "store_inv s"
  shows "store_inv (snd (pruneCompletedTasks clk s))"
proof (cases "pruneCompletedTasks clk s")
  case (Pair removed s')
  note e = prune_effect [OF Pair store_inv_wf [OF inv]]
  let ?c = "completed_ids s"
  have dom: "dom (map_of (Tasks s')) = dom (map_of (Tasks s)) - ?c" by (auto simp: e(1) split: if_splits)
  have "store_inv s'"
  proof (rule store_inv_shrink [OF inv e(3,2)])
    fix j t' assume "map_of (Tasks s') j = Some t'"
    then obtain t where t: "map_of (Tasks s) j = Some t" "t' = t\<lparr>Depends := kept_deps ?c (Depends t)\<rparr>"
      by (auto simp: e(1) split: if_splits)
    note k = kept_deps_sound [of "Depends t" "dom (map_of (Tasks s))" ?c]
    show "\<exists>t. map_of (Tasks s) j = Some t \<and> task_sound t' \<and> local_deps (Depends t') \<subseteq> local_deps (Depends t)
        \<and> (\<forall>d \<in> set (Depends t'). dep_sound (dom (map_of (Tasks s'))) d)"
      using t k store_invD(2,4) [OF inv t(1)] by (auto simp: dom task_sound_def)
  qed
  then show ?thesis using Pair by simp
qed

subsection \<open>Removing chosen tasks\<close>

lemma removed_dep_None: "removed_dep is ds = None \<longleftrightarrow> local_deps ds \<inter> set is = {}"
  by (induction "is" ds rule: removed_dep.induct) (auto split: option.splits)

lemma removed_dep_Some: "removed_dep is ds = Some x \<Longrightarrow> local_deps ds \<inter> set is \<noteq> {}"
  using removed_dep_None [of "is" ds] by auto

lemma check_dependents_None:
  "check_dependents is ts = None \<longleftrightarrow> (\<forall>(k, t) \<in> set ts. ID t \<in> set is \<or> local_deps (Depends t) \<inter> set is = {})"
  by (induction "is" ts rule: check_dependents.induct) (auto simp: removed_dep_None dest: removed_dep_Some split: option.splits)

lemma check_removable_spec:
  "check_removable is ts = Inr removed \<Longrightarrow>
    map Some removed = map (map_of ts) is \<and> (\<forall>t \<in> set removed. \<not> (Status t = StatusInProgress \<and> Owner t \<noteq> []))"
proof (induction "is" ts arbitrary: removed rule: check_removable.induct)
  case (2 i js ts)
  from 2(2) obtain t rs where t: "map_of ts i = Some t" "\<not> (Status t = StatusInProgress \<and> Owner t \<noteq> [])"
    "check_removable js ts = Inr rs" "removed = t # rs"
    by (simp split: option.splits if_splits sum.splits)
  from 2(1) [OF t(1-3)] show ?case using t by simp
qed simp

lemma rm_failure: "rm_mutate clk is s = (Inl err, s') \<Longrightarrow> s' = s"
  by (auto simp: rm_mutate_def check_Inl split: sum.splits)

lemma rm_effect:
  assumes "rm_mutate clk is s = (Inr removed, s')"
  shows "s' = remove_each clk is s" "map Some removed = map (map_of (Tasks s)) is"
    "\<forall>t \<in> set removed. \<not> (Status t = StatusInProgress \<and> Owner t \<noteq> [])"
    "\<forall>(k, t) \<in> set (Tasks s). ID t \<in> set is \<or> local_deps (Depends t) \<inter> set is = {}"
  using assms check_removable_spec [of "is" "Tasks s" removed]
  by (auto simp: rm_mutate_def check_Inr check_dependents_None split: sum.splits)

lemma store_inv_rm:
  assumes inv: "store_inv s"
  shows "store_inv (snd (rm_mutate clk is s))"
proof (cases "rm_mutate clk is s")
  case (Pair r s')
  show ?thesis
  proof (cases r)
    case (Inl err)
    with Pair rm_failure [of clk "is" s err s'] inv show ?thesis by simp
  next
    case (Inr removed)
    note e = rm_effect [OF Pair [unfolded Inr]]
    note r = remove_each_spec [of clk "is" s, folded e(1)]
    have dom: "dom (map_of (Tasks s')) = dom (map_of (Tasks s)) - set is" using r by (auto split: if_splits)
    have "store_inv s'"
    proof (rule store_inv_shrink [OF inv])
      show "tasks_wf (Tasks s')" "NextID s' = NextID s" using r store_inv_wf [OF inv] by auto
      fix j t assume "map_of (Tasks s') j = Some t"
      then have t: "map_of (Tasks s) j = Some t" "j \<notin> set is" using r by (auto split: if_splits)
      have "ID t = j" using store_invD(1) [OF inv t(1)] .
      then have free: "local_deps (Depends t) \<inter> set is = {}" using e(4) map_of_SomeD [OF t(1)] t(2) by auto
      have "dep_sound (dom (map_of (Tasks s'))) d" if "d \<in> set (Depends t)" for d
        using store_invD(4) [OF inv t(1) that] free that
        by (cases "ParseLocalID d") (auto simp: dep_sound_def dom local_deps_def)
      then show "\<exists>t'. map_of (Tasks s) j = Some t' \<and> task_sound t \<and> local_deps (Depends t) \<subseteq> local_deps (Depends t')
          \<and> (\<forall>d \<in> set (Depends t). dep_sound (dom (map_of (Tasks s'))) d)"
        using t store_invD(2) [OF inv t(1)] by auto
    qed
    then show ?thesis using Pair by simp
  qed
qed

section \<open>Completing a batch\<close>

lemma done_mutate_effect:
  assumes "done_mutate clk is actor resolver now s = (Inr completed, s')"
  shows "completed = is \<and> distinct is \<and> map fst (Tasks s') = map fst (Tasks s) \<and> same_frame s s'
    \<and> (\<forall>i \<in> set is. \<exists>t. map_of (Tasks s) i = Some t \<and> Status t \<noteq> StatusCompleted \<and> requireOwner t actor = None)
    \<and> map_of (Tasks s') = (\<lambda>j. if j \<in> set is then map_option (completed_task (millis now)) (map_of (Tasks s) j)
         else map_of (Tasks s) j)"
  using assms
proof (induction clk "is" actor resolver now s arbitrary: completed rule: done_mutate.induct)
  case (1 clk actor resolver now s)
  then show ?case by simp
next
  case (2 clk i js actor resolver now s)
  from 2(2) obtain r s1 rest where c: "completeTask clk i actor resolver now s = (Inr r, s1)"
    and rest: "done_mutate clk js actor resolver now s1 = (Inr rest, s')" "completed = r # rest"
    by (auto split: prod.splits sum.splits)
  from completeTask_effect [OF c] obtain t where t: "r = i" "map_of (Tasks s) i = Some t" "Status t \<noteq> StatusCompleted"
    "requireOwner t actor = None" and up: "updates i (completed_task (millis now) t) s s1" by blast
  have m1: "map_of (Tasks s1) = (map_of (Tasks s))(i \<mapsto> completed_task (millis now) t)"
    "map fst (Tasks s1) = map fst (Tasks s)" "same_frame s s1"
    using up by (simp_all add: updates_def)
  have IH: "rest = js \<and> distinct js \<and> map fst (Tasks s') = map fst (Tasks s1) \<and> same_frame s1 s'
    \<and> (\<forall>i \<in> set js. \<exists>t. map_of (Tasks s1) i = Some t \<and> Status t \<noteq> StatusCompleted \<and> requireOwner t actor = None)
    \<and> map_of (Tasks s') = (\<lambda>j. if j \<in> set js then map_option (completed_task (millis now)) (map_of (Tasks s1) j)
         else map_of (Tasks s1) j)"
    by (rule 2(1) [OF c [symmetric] refl rest(1)])
  have fresh: "i \<notin> set js" using IH by (force simp: m1 completed_task_def)
  have "map_of (Tasks s') = (\<lambda>j. if j \<in> set (i # js) then map_option (completed_task (millis now)) (map_of (Tasks s) j)
         else map_of (Tasks s) j)"
    using IH fresh t(2) by (auto simp: m1 fun_eq_iff)
  moreover have "\<forall>k \<in> set (i # js). \<exists>t. map_of (Tasks s) k = Some t \<and> Status t \<noteq> StatusCompleted \<and> requireOwner t actor = None"
  proof
    fix k assume "k \<in> set (i # js)"
    then show "\<exists>t. map_of (Tasks s) k = Some t \<and> Status t \<noteq> StatusCompleted \<and> requireOwner t actor = None"
      using IH fresh t by (cases "k = i") (auto simp: m1)
  qed
  ultimately show ?case
    using IH fresh t(1) rest(2) m1 same_frame_trans [of s s1 s'] by simp
qed

lemma ID_completed_task [simp]: "ID (completed_task at t) = ID t" "Status (completed_task at t) = StatusCompleted"
  "Depends (completed_task at t) = Depends t"
  by (simp_all add: completed_task_def)

lemma done_mutate_wf:
  assumes run: "done_mutate clk is actor resolver now s = (Inr completed, s')" and wf: "tasks_wf (Tasks s)"
  shows "tasks_wf (Tasks s')"
proof -
  note e = done_mutate_effect [OF run]
  have d: "distinct (map fst (Tasks s'))" using e wf by (simp add: tasks_wf_def)
  have "k = ID t" if "(k, t) \<in> set (Tasks s')" for k t
  proof -
    have "map_of (Tasks s') k = Some t" using that d by (simp add: map_of_iff_set)
    then show ?thesis using e tasks_wfD [OF wf, of k] by (auto split: if_splits)
  qed
  then show ?thesis using d by (auto simp: tasks_wf_def)
qed

text \<open>A batch can only unblock, and what it unblocks depends on one of the tasks it completed.\<close>

lemma done_dep_blocks:
  assumes "done_mutate clk is actor resolver now s = (Inr completed, s')"
  shows "dep_blocks (Tasks s') r d \<longleftrightarrow>
    dep_blocks (Tasks s) r d \<and> (\<forall>i. ParseLocalID d = Some i \<longrightarrow> i \<notin> set is)"
  using done_mutate_effect [OF assms]
  by (cases "ParseLocalID d") (auto simp: dep_blocks_def split: option.splits)

lemma done_blocks_before:
  assumes "done_mutate clk is actor resolver now s = (Inr completed, s')" "ParseLocalID d = Some i" "i \<in> set is"
  shows "dep_blocks (Tasks s) r d"
  using done_mutate_effect [OF assms(1)] assms(2,3) by (auto simp: dep_blocks_def)

lemma id_order: "slice_order (\<lambda>a b :: Task. ID a < ID b) {t. map_of ts (ID t) = Some t}"
  by unfold_locales (auto dest: neq_iff [THEN iffD1] intro: less_trans, metis linorder_neqE option.inject)

lemma newlyReadyAfter_set:
  assumes "done_mutate clk is actor resolver now s = (Inr completed, s')"
  shows "set (newlyReadyAfter s' completed resolver) =
      {t \<in> set (GetReadyTasksWithResolver (Tasks s') resolver). \<not> DependenciesCompleteWithResolver t (Tasks s) resolver}"
proof -
  note e = done_mutate_effect [OF assms]
  let ?sel = "\<lambda>task. Status task = StatusPending \<and> DependenciesCompleteWithResolver task (Tasks s') resolver
      \<and> depends_on_any completed task"
  have any: "depends_on_any is t \<longleftrightarrow> (\<exists>d \<in> set (Depends t). \<exists>i \<in> set is. ParseLocalID d = Some i)" for t
    by (auto simp: depends_on_any_def list_ex_iff split: option.splits)
  have key: "depends_on_any is t \<longleftrightarrow> \<not> DependenciesCompleteWithResolver t (Tasks s) resolver"
    if "DependenciesCompleteWithResolver t (Tasks s') resolver" for t
    using that done_dep_blocks [OF assms] done_blocks_before [OF assms]
    unfolding any DependenciesCompleteWithResolver_def deps_complete_iff by metis
  have set: "set (newlyReadyAfter s' completed resolver) = {t \<in> set (GetAllTasks s'). ?sel t}"
    using e by (auto simp: newlyReadyAfter_def depends_on_any_def list_ex_iff split: option.splits)
  show ?thesis
    unfolding set using e key by (auto simp: GetReadyTasksWithResolver_def GetAllTasks_def)
qed

section \<open>Properties\<close>

text \<open>
  C8: the answer to "what did I just unblock?" is exact. After a batch of tasks has been completed,
  \<^verbatim>\<open>newlyReadyAfter\<close> lists, in order of their IDs, precisely the tasks that are ready now and
  whose dependencies were not complete before the batch.
\<close>

theorem newlyReadyAfter_exact:
  assumes "done_mutate clk is actor resolver now s = (Inr completed, s')" "tasks_wf (Tasks s)"
  shows "set (newlyReadyAfter s' completed resolver) =
      {t \<in> set (GetReadyTasksWithResolver (Tasks s') resolver). \<not> DependenciesCompleteWithResolver t (Tasks s) resolver}
    \<and> sorted_wrt (\<lambda>a b. ID a < ID b) (newlyReadyAfter s' completed resolver)"
proof
  show "set (newlyReadyAfter s' completed resolver) =
      {t \<in> set (GetReadyTasksWithResolver (Tasks s') resolver). \<not> DependenciesCompleteWithResolver t (Tasks s) resolver}"
    by (rule newlyReadyAfter_set [OF assms(1)])
  note wf' = done_mutate_wf [OF assms]
  let ?sel = "\<lambda>task. Status task = StatusPending \<and> DependenciesCompleteWithResolver task (Tasks s') resolver
      \<and> depends_on_any completed task"
  have "distinct (map ID (GetAllTasks s'))"
    using wf' tasks_wf_all_ids [OF wf'] by (simp add: tasks_wf_def)
  then have "distinct (filter ?sel (GetAllTasks s'))" by (simp add: distinct_map)
  moreover have "set (filter ?sel (GetAllTasks s')) \<subseteq> {t. map_of (Tasks s') (ID t) = Some t}"
    using GetAllTasks_set [OF wf'] by auto
  ultimately show "sorted_wrt (\<lambda>a b. ID a < ID b) (newlyReadyAfter s' completed resolver)"
    using slice_order.go_sort_sorted [OF id_order] by (simp add: newlyReadyAfter_def)
qed

definition first_done :: TaskStore where
  "first_done = snd (done_mutate 0 [1] [] None 9000000 two_store)"

lemma first_done_run: "done_mutate 0 [1] [] None 9000000 two_store = (Inr [1], first_done)"
proof -
  have "fst (done_mutate 0 [1] [] None 9000000 two_store) = Inr [1]"
    by (simp add: completeTask_def requireTask_def GetTask_def two_store requireDependenciesComplete_def requireOwner_def
        DependenciesCompleteWithResolver_def Let_def)
  then show ?thesis by (metis first_done_def prod.collapse)
qed

lemma first_done: "map_of (Tasks first_done) = [1 \<mapsto> completed_task 9 first_task, 2 \<mapsto> second_task]"
  using done_mutate_effect [OF first_done_run] by (auto simp: two_store fun_eq_iff millis_def UnixMilli_def)

lemma newlyReadyAfter_exact_witness: "second_task \<in> set (newlyReadyAfter first_done [1] None)"
proof -
  have wf: "tasks_wf (Tasks first_done)"
    using done_mutate_wf [OF first_done_run store_inv_wf [OF two_store_inv]] .
  have "map_of (Tasks first_done) (ID second_task) = Some second_task" by (simp add: first_done)
  then have "second_task \<in> set (GetAllTasks first_done)" using GetAllTasks_set [OF wf] by blast
  then have "second_task \<in> set (GetReadyTasksWithResolver (Tasks first_done) None)"
    by (simp add: GetReadyTasksWithResolver_def GetAllTasks_def DependenciesCompleteWithResolver_def first_done)
  moreover have "\<not> DependenciesCompleteWithResolver second_task (Tasks two_store) None"
    by (simp add: DependenciesCompleteWithResolver_def two_store)
  ultimately show ?thesis
    using newlyReadyAfter_exact [OF first_done_run store_inv_wf [OF two_store_inv]] by simp
qed



text \<open>
  Removing tasks never breaks the graph or takes work from a live worker. Either nothing
  changes, or exactly the named tasks are gone, none of them was under an owner's lease, every
  other task is untouched and the invariant still holds.
\<close>

theorem rm_safe:
  assumes "store_inv s" "rm_mutate clk is s = (r, s')"
  shows "store_inv s'
    \<and> (case r of
         Inl err \<Rightarrow> s' = s
       | Inr removed \<Rightarrow>
           map Some removed = map (map_of (Tasks s)) is
           \<and> (\<forall>t \<in> set removed. Status t \<noteq> StatusInProgress)
           \<and> map_of (Tasks s') = (\<lambda>i. if i \<in> set is then None else map_of (Tasks s) i))"
proof (cases r)
  case (Inl err)
  then show ?thesis using rm_failure [of clk "is" s err s'] assms by simp
next
  case (Inr removed)
  note e = rm_effect [OF assms(2) [unfolded Inr]]
  have "Status t \<noteq> StatusInProgress" if "t \<in> set removed" for t
  proof -
    from that have "Some t \<in> set (map (map_of (Tasks s)) is)" using e(2) by (metis image_eqI list.set_map)
    then obtain i where "map_of (Tasks s) i = Some t" by auto
    with store_invD(2) [OF assms(1)] e(3) that show ?thesis by (auto simp: task_sound_def split: if_splits)
  qed
  then show ?thesis
    using store_inv_rm [OF assms(1), of clk "is"] assms(2) e(1,2) remove_each_spec [of clk "is" s] by (simp add: Inr)
qed

lemma rm_safe_witness:
  "\<exists>s'. rm_mutate 0 [2] two_store = (Inr [second_task], s') \<and> store_inv s' \<and> map_of (Tasks s') 2 = None"
proof -
  have "Tasks two_store = [(1, first_task), (2, second_task)]"
    by (simp add: two_store_def one_store_def insert_new_def AddTask_def AddEvent_def modify_task_def put_task_def
        added_task_def Let_def)
  then have "fst (rm_mutate 0 [2] two_store) = Inr [second_task]"
    by (simp add: rm_mutate_def check_def)
  then obtain s' where r: "rm_mutate 0 [2] two_store = (Inr [second_task], s')" by (metis prod.collapse)
  then show ?thesis using rm_safe [OF two_store_inv r] by auto
qed

end
