(* ===== verification/Lifecycle.thy ===== *)
theory Lifecycle
  imports Removal
begin

text \<open>
  The lifecycle as a whole. Every operation on one task refines a partial function on that task
  alone; the operations on the graph are added, and every operation keeps the invariant of the
  store, follows the state machine of the statuses and respects the leases. The transactions that
  run them are instances of the interfaces of \<open>StoreFile\<close>.
\<close>

section \<open>Operations on one task, and their specification\<close>

datatype task_call =
    Claim string duration DependencyResolver gotime
  | Complete string DependencyResolver gotime
  | Release string string
  | Block string string
  | Unblock string
  | LogMsg string string
  | Renew string duration gotime
  | Handoff string "(string, string) gomap" gotime

fun perform :: "gotime \<Rightarrow> u64 \<Rightarrow> task_call \<Rightarrow> TaskStore \<Rightarrow> u64 res" where
  "perform clk i (Claim actor ttl resolver now) s = claimTask clk i actor ttl resolver now s"
| "perform clk i (Complete actor resolver now) s = completeTask clk i actor resolver now s"
| "perform clk i (Release actor failure) s = releaseTask clk i actor failure s"
| "perform clk i (Block actor reason) s = blockTask clk i actor reason s"
| "perform clk i (Unblock actor) s = unblockTask clk i actor s"
| "perform clk i (LogMsg actor message) s = logTask clk i actor message s"
| "perform clk i (Renew actor ttl now) s = renewLease clk i actor ttl now s"
| "perform clk i (Handoff actor extra now) s = handoffTask clk i actor extra now s"

text \<open>May the actor change the task at all?\<close>

definition may_mutate :: "string \<Rightarrow> Task \<Rightarrow> bool" where
  "may_mutate actor t \<longleftrightarrow> Owner t = [] \<or> Owner t = actor"

text \<open>The specification: the task after the call, or no result where the call is refused.\<close>

fun task_effect :: "gotime \<Rightarrow> task_call \<Rightarrow> tasks \<Rightarrow> Task \<Rightarrow> Task option" where
  "task_effect clk (Claim actor ttl resolver now) ts t =
     (if Status t \<notin> {StatusCompleted, StatusBlocked} \<and> DependenciesCompleteWithResolver t ts resolver
         \<and> (may_mutate actor t \<or> LeaseExpires t \<le> millis now)
      then Some (claimed clk actor (millis now + ttl_millis ttl) t) else None)"
| "task_effect clk (Complete actor resolver now) ts t =
     (if Status t \<noteq> StatusCompleted \<and> DependenciesCompleteWithResolver t ts resolver \<and> may_mutate actor t
      then Some (completed_task (millis now) t) else None)"
| "task_effect clk (Release actor failure) ts t =
     (if Status t = StatusInProgress \<and> may_mutate actor t then Some (released clk actor failure t) else None)"
| "task_effect clk (Block actor reason) ts t =
     (if Status t \<noteq> StatusCompleted \<and> may_mutate actor t then Some (blocked_task clk actor reason t) else None)"
| "task_effect clk (Unblock actor) ts t =
     (if Status t = StatusBlocked then Some (unblocked_task clk actor t) else None)"
| "task_effect clk (LogMsg actor message) ts t =
     (if may_mutate actor t then Some (t\<lparr>Log := Log t @ [log_entry clk actor message]\<rparr>) else None)"
| "task_effect clk (Renew actor ttl now) ts t =
     (if lease_active t (millis now) \<and> Owner t = actor
      then Some (t\<lparr>LeaseExpires := millis now + ttl_millis ttl\<rparr>) else None)"
| "task_effect clk (Handoff actor extra now) ts t =
     (if lease_active t (millis now) \<and> Owner t = actor
         \<and> (projectedExtraCount (Extra t) extra \<le> max maxTaskExtraEntries (length (Extra t)))
      then Some (handed_off clk actor extra t) else None)"

lemma requireOwner_None [simp]: "requireOwner t actor = None \<longleftrightarrow> may_mutate actor t"
  by (auto simp: requireOwner_def may_mutate_def)

lemma requireClaimableStatus_None [simp]:
  "requireClaimableStatus t = None \<longleftrightarrow> Status t \<notin> {StatusCompleted, StatusBlocked}"
  by (simp add: requireClaimableStatus_def)

lemma requireDependenciesComplete_None [simp]:
  "requireDependenciesComplete t ts resolver = None \<longleftrightarrow> DependenciesCompleteWithResolver t ts resolver"
  by (simp add: requireDependenciesComplete_def)

lemma requireLeaseAvailable_None [simp]:
  "requireLeaseAvailable t actor now = None \<longleftrightarrow> may_mutate actor t \<or> LeaseExpires t \<le> millis now"
  by (auto simp: requireLeaseAvailable_def may_mutate_def Let_def not_less)

lemma requireInProgress_None [simp]: "requireInProgress t = None \<longleftrightarrow> Status t = StatusInProgress"
  by (simp add: requireInProgress_def)

lemma projected_None:
  "validateProjectedCardinality f c p m = None \<longleftrightarrow> p \<le> max m c"
  by (auto simp: validateProjectedCardinality_def)

lemma persistedInputFailure_None [simp]: "persistedInputFailure e = None \<longleftrightarrow> e = None"
  by (simp add: persistedInputFailure_def)

lemma perform_failure: "perform clk i c s = (Inl err, s') \<Longrightarrow> s' = s"
  by (cases c)
     (auto simp: claimTask_def completeTask_def releaseTask_def blockTask_def unblockTask_def logTask_def
        renewLease_def handoffTask_def check_Inl Let_def split: sum.splits if_splits)

lemma perform_success:
  assumes "perform clk i c s = (Inr r, s')"
  shows "r = i \<and> (\<exists>t t'. map_of (Tasks s) i = Some t \<and> task_effect clk c (Tasks s) t = Some t' \<and> updates i t' s s')"
proof (cases c)
  case (Claim actor ttl resolver now)
  with assms claimTask_effect [of clk i actor ttl resolver now s r s'] show ?thesis by auto
next
  case (Complete actor resolver now)
  with assms completeTask_effect [of clk i actor resolver now s r s'] show ?thesis by auto
next
  case (Release actor failure)
  with assms releaseTask_effect [of clk i actor failure s r s'] show ?thesis by auto
next
  case (Block actor reason)
  with assms blockTask_effect [of clk i actor reason s r s'] show ?thesis by auto
next
  case (Unblock actor)
  with assms unblockTask_effect [of clk i actor s r s'] show ?thesis by auto
next
  case (LogMsg actor message)
  with assms logTask_effect [of clk i actor message s r s'] show ?thesis by auto
next
  case (Renew actor ttl now)
  with assms renewLease_effect [of clk i actor ttl now s r s'] show ?thesis by auto
next
  case (Handoff actor extra now)
  with assms handoffTask_effect [of clk i actor extra now s r s'] show ?thesis by (auto simp: projected_None)
qed

lemma fst_check: "fst (check e s r) = (case e of Some err \<Rightarrow> Inl err | None \<Rightarrow> fst r)"
  by (simp add: check_def split: option.splits)

lemma guard_Some:
  "requireOwner t actor = Some err \<Longrightarrow> \<not> may_mutate actor t"
  "requireInProgress t = Some err \<Longrightarrow> Status t \<noteq> StatusInProgress"
  using requireOwner_None [of t actor] requireInProgress_None [of t] by auto

lemma perform_accepts:
  assumes "map_of (Tasks s) i = Some t" "task_effect clk c (Tasks s) t = Some t'"
  shows "fst (perform clk i c s) = Inr i"
  using assms
  by (cases c)
     (auto simp: claimTask_def completeTask_def releaseTask_def blockTask_def unblockTask_def logTask_def
        renewLease_def handoffTask_def lease_errors_def GetTask_def requireTask_def fst_check Let_def
        projected_None [THEN iffD2] split: if_splits option.splits dest: guard_Some)

section \<open>All operations that change tasks\<close>

datatype call =
    OnTask u64 task_call
  | Decompose u64 string "decomposeSubtask list"
  | Update_task u64 string taskUpdate
  | Add new_task
  | Done "u64 list" string DependencyResolver gotime
  | Remove "u64 list"
  | Prune

definition ignore :: "'a res \<Rightarrow> unit res" where
  "ignore r = (case r of (Inl err, s) \<Rightarrow> (Inl err, s) | (Inr _, s) \<Rightarrow> (Inr (), s))"

fun exec :: "gotime \<Rightarrow> call \<Rightarrow> TaskStore \<Rightarrow> unit res" where
  "exec clk (OnTask i c) s = ignore (perform clk i c s)"
| "exec clk (Decompose i actor subs) s = ignore (decomposeTask clk i actor subs s)"
| "exec clk (Update_task i actor u) s = ignore (updateTask clk i actor u s)"
| "exec clk (Add p) s = ignore (handleAdd_mutate clk p s)"
| "exec clk (Done is actor resolver now) s = ignore (done_mutate clk is actor resolver now s)"
| "exec clk (Remove is) s = ignore (rm_mutate clk is s)"
| "exec clk Prune s = (Inr (), snd (pruneCompletedTasks clk s))"

lemma snd_ignore [simp]: "snd (ignore r) = snd r"
  by (simp add: ignore_def split: prod.splits sum.splits)

text \<open>
  What the callers ensure before they open the transaction: a claim names a worker, leases and
  completion times are not the zero time stamp, priorities are valid, and there are IDs left.
\<close>

fun task_call_ok :: "task_call \<Rightarrow> bool" where
  "task_call_ok (Claim actor ttl resolver now) = (actor \<noteq> [] \<and> millis now + ttl_millis ttl \<noteq> 0)"
| "task_call_ok (Complete actor resolver now) = (millis now \<noteq> 0)"
| "task_call_ok (Renew actor ttl now) = (millis now + ttl_millis ttl \<noteq> 0)"
| "task_call_ok _ = True"

fun call_ok :: "call \<Rightarrow> TaskStore \<Rightarrow> bool" where
  "call_ok (OnTask i c) s = task_call_ok c"
| "call_ok (Decompose i actor subs) s = (unat (NextID s) + length subs < 2 ^ 64)"
| "call_ok (Add p) s = (unat (NextID s) + 1 < 2 ^ 64 \<and> validPriority (n_Priority p))"
| "call_ok (Done is actor resolver now) s = (millis now \<noteq> 0)"
| "call_ok _ s = True"

lemma task_effect_sound:
  assumes "task_effect clk c ts t = Some t'" "task_sound t" "task_call_ok c"
  shows "task_sound t'" "ID t' = ID t" "Depends t' = Depends t"
  using assms
  by (cases c; auto simp: task_sound_def claimed_def completed_task_def released_def blocked_task_def
      unblocked_task_def handed_off_def lease_active_def split: if_splits)+

lemma store_inv_perform:
  assumes "store_inv s" "task_call_ok c"
  shows "store_inv (snd (perform clk i c s))"
proof (cases "perform clk i c s")
  case (Pair r s')
  show ?thesis
  proof (cases r)
    case (Inl err)
    with Pair perform_failure [of clk i c s err s'] assms show ?thesis by simp
  next
    case (Inr q)
    from perform_success [OF Pair [unfolded Inr]] obtain t t' where t: "map_of (Tasks s) i = Some t"
      "task_effect clk c (Tasks s) t = Some t'" "updates i t' s s'" by blast
    note sound = task_effect_sound [OF t(2) store_invD(2) [OF assms(1) t(1)] assms(2)]
    show ?thesis using store_inv_updates [OF assms(1) t(3,1) sound(2,3,1)] Pair by simp
  qed
qed

lemma done_step_perform: "completeTask clk i actor resolver now s = perform clk i (Complete actor resolver now) s"
  by simp

lemma store_inv_done:
  assumes "store_inv s" "millis now \<noteq> 0"
  shows "store_inv (snd (done_mutate clk is actor resolver now s))"
  using assms(1)
proof (induction "is" arbitrary: s)
  case (Cons i js)
  obtain r s1 where r: "completeTask clk i actor resolver now s = (r, s1)" by fastforce
  then have "store_inv s1"
    using store_inv_perform [OF Cons.prems, of "Complete actor resolver now" clk i] assms(2) by simp
  then have "store_inv (snd (done_mutate clk js actor resolver now s1))" by (rule Cons.IH)
  with r \<open>store_inv s1\<close> show ?case by (auto split: sum.splits prod.splits)
qed simp

lemma store_inv_exec:
  assumes "store_inv s" "call_ok c s"
  shows "store_inv (snd (exec clk c s))"
  using assms
  by (cases c) (simp_all add: store_inv_perform store_inv_decomposeTask store_inv_updateTask store_inv_handleAdd
      store_inv_done store_inv_rm store_inv_prune)

section \<open>The state machine of a task\<close>

text \<open>What a call can do to one task: nothing, remove it, or change it as follows.\<close>

definition allowed :: "Task \<Rightarrow> Task \<Rightarrow> bool" where
  "allowed t t' \<longleftrightarrow>
     (Status t = StatusCompleted \<longrightarrow> Status t' = StatusCompleted \<and> Completed t' = Completed t)
     \<and> (Status t = StatusBlocked \<longrightarrow> Status t' \<noteq> StatusInProgress)"

lemma allowed_refl [simp]: "allowed t t"
  by (simp add: allowed_def)

lemma allowed_task_effect:
  assumes "task_effect clk c ts t = Some t'" "task_sound t"
  shows "allowed t t'"
  using assms
  by (cases c)
     (auto simp: allowed_def task_sound_def claimed_def completed_task_def released_def blocked_task_def
      unblocked_task_def handed_off_def lease_active_def split: if_splits)

lemma updates_allowed:
  assumes "updates i t' s s'" "map_of (Tasks s) i = Some t" "allowed t t'" "map_of (Tasks s) j = Some x"
    "map_of (Tasks s') j = Some x'"
  shows "allowed x x'"
  using assms by (auto simp: updates_def split: if_splits)

lemma allowed_perform:
  assumes "store_inv s" "map_of (Tasks s) j = Some x" "map_of (Tasks (snd (perform clk i c s))) j = Some x'"
  shows "allowed x x'"
proof (cases "perform clk i c s")
  case (Pair r s')
  show ?thesis
  proof (cases r)
    case (Inl err)
    with Pair perform_failure [of clk i c s err s'] assms show ?thesis by simp
  next
    case (Inr q)
    from perform_success [OF Pair [unfolded Inr]] obtain t t' where t: "map_of (Tasks s) i = Some t"
      "task_effect clk c (Tasks s) t = Some t'" "updates i t' s s'" by blast
    then show ?thesis
      using updates_allowed allowed_task_effect store_invD(2) [OF assms(1)] assms(2,3) Pair by fastforce
  qed
qed

lemma allowed_fields:
  assumes "Status t' = Status t" "Completed t' = Completed t"
  shows "allowed t t'"
  using assms by (simp add: allowed_def)

text \<open>
  The edits of a task leave its status, completion time and lease alone, and touch no other task.
\<close>

definition same_status :: "u64 \<Rightarrow> TaskStore \<Rightarrow> TaskStore \<Rightarrow> bool" where
  "same_status i s s' \<longleftrightarrow>
     rel_option (\<lambda>t t'. Status t' = Status t \<and> Completed t' = Completed t \<and> Owner t' = Owner t
                       \<and> LeaseExpires t' = LeaseExpires t) (map_of (Tasks s) i) (map_of (Tasks s') i)
     \<and> (\<forall>j. j \<noteq> i \<longrightarrow> map_of (Tasks s') j = map_of (Tasks s) j) \<and> NextID s' = NextID s"

lemma same_status_refl [simp]: "same_status i s s"
  by (simp add: same_status_def option.rel_refl)

lemma same_status_trans:
  assumes "same_status i s s'" "same_status i s' s''"
  shows "same_status i s s''"
  using assms unfolding same_status_def
  by (cases "map_of (Tasks s) i"; cases "map_of (Tasks s') i"; cases "map_of (Tasks s'') i") auto

lemma same_status_modify:
  assumes "\<And>t. Status (f t) = Status t \<and> Completed (f t) = Completed t \<and> Owner (f t) = Owner t \<and> LeaseExpires (f t) = LeaseExpires t"
  shows "same_status i s (modify_task i f s)"
  using assms by (simp add: same_status_def modify_task_map modify_task_fields rel_option_iff split: option.splits)

lemma same_status_Tasks: "Tasks s' = Tasks s \<Longrightarrow> NextID s' = NextID s \<Longrightarrow> same_status i s s'"
  by (simp add: same_status_def option.rel_refl)

lemma same_status_dep_events:
  "Tasks (dep_events clk ty i actor ds s) = Tasks s" "NextID (dep_events clk ty i actor ds s) = NextID s"
  by (induction clk ty i actor ds s rule: dep_events.induct) (simp_all add: AddEvent_fields)

lemma same_status_applyDependencyEdits: "same_status i s (snd (applyDependencyEdits clk i task actor ad rm s))"
proof (cases "applyDependencyEdits clk i task actor ad rm s")
  case (Pair r s')
  have "same_status i s s'"
  proof (cases r)
    case (Inl err)
    with Pair applyDependencyEdits_failure [of clk i task actor ad rm s err s'] show ?thesis by simp
  next
    case (Inr u)
    with Pair obtain ds f s1 where "s' = modify_task i (\<lambda>t. t\<lparr>Depends := ds\<rparr>) s1" "Tasks s1 = Tasks s" "NextID s1 = NextID s"
      by (auto simp: applyDependencyEdits_def check_Inr Let_def same_status_dep_events split: sum.splits option.splits)
    then show ?thesis using same_status_trans [OF same_status_Tasks same_status_modify] by simp
  qed
  with Pair show ?thesis by simp
qed

lemma same_status_updateTask: "same_status i s (snd (updateTask clk i actor u s))"
proof (cases "requireTask s i")
  case (Inl err)
  then show ?thesis by (simp add: updateTask_def)
next
  case (Inr task)
  have title: "same_status i s1 (snd (update_title i u s1))" for s1
    by (simp add: update_title_def Let_def same_status_modify split: option.splits)
  have prio: "same_status i s1 (snd (update_priority i u s1))" for s1
    by (simp add: update_priority_def same_status_modify split: option.splits)
  have rest: "same_status i s1 (snd (update_rest clk i actor u s1))" for s1
  proof -
    define S where "S = (if u_SetCapabilities u then modify_task i (\<lambda>t. t\<lparr>Capabilities := u_Capabilities u\<rparr>) s1 else s1)"
    have 1: "same_status i s1 S" by (simp add: S_def same_status_modify)
    then have 2: "same_status i s1 (modify_task i (\<lambda>t. t\<lparr>Extra := merge_extra (u_Extra u) (Extra t)\<rparr>) S)"
      by (rule same_status_trans) (simp add: same_status_modify)
    then have 3: "same_status i s1 (AddEvent clk ty j actor data (modify_task i (\<lambda>t. t\<lparr>Extra := merge_extra (u_Extra u) (Extra t)\<rparr>) S))" for ty j data
      by (rule same_status_trans) (simp add: same_status_Tasks AddEvent_fields)
    show ?thesis
    proof (cases "requireTask S i")
      case (Inl err)
      then show ?thesis unfolding update_rest_def Let_def S_def [symmetric] using 1 by simp
    next
      case (Inr task)
      show ?thesis
        unfolding update_rest_def Let_def S_def [symmetric] Inr sum.case
        by (rule check_keeps [where P = "same_status i s1", OF 1]) (simp only: 2 3 snd_conv simp_thms split: if_split)
    qed
  qed
  let ?deps = "if u_AddDeps u \<noteq> [] \<or> u_RemoveDeps u \<noteq> []
      then applyDependencyEdits clk i task actor (u_AddDeps u) (u_RemoveDeps u) s else (Inr (), s)"
  have "same_status i s (snd ?deps)" by (simp add: same_status_applyDependencyEdits)
  then have "same_status i s (snd (bind_res ?deps (\<lambda>_ s. bind_res (update_title i u s)
      (\<lambda>_ s. bind_res (update_priority i u s) (\<lambda>_ s. update_rest clk i actor u s)))))"
    by (rule bind_res_keeps [where P = "same_status i s"])
       (rule bind_res_keeps [where P = "same_status i s"], erule same_status_trans [OF _ title],
        rule bind_res_keeps [where P = "same_status i s"], erule same_status_trans [OF _ prio],
        erule same_status_trans [OF _ rest])
  then show ?thesis unfolding updateTask_def using Inr by (simp add: check_keeps [where P = "same_status i s"])
qed

text \<open>A batch, even one that fails half way, only completes tasks.\<close>

lemma done_changes:
  assumes "map_of (Tasks s) j = Some x" "map_of (Tasks (snd (done_mutate clk is actor resolver now s))) j = Some x'"
  shows "x' = x \<or> Status x \<noteq> StatusCompleted \<and> may_mutate actor x \<and> x' = completed_task (millis now) x"
  using assms
proof (induction "is" arbitrary: s x)
  case (Cons i js)
  obtain r s1 where c: "completeTask clk i actor resolver now s = (r, s1)" by fastforce
  show ?case
  proof (cases r)
    case (Inl err)
    with c Cons.prems perform_failure [of clk i "Complete actor resolver now" s err s1] show ?thesis by simp
  next
    case (Inr q)
    from completeTask_effect [OF c [unfolded Inr]] obtain t where t: "map_of (Tasks s) i = Some t" "Status t \<noteq> StatusCompleted"
      "requireOwner t actor = None" "updates i (completed_task (millis now) t) s s1" by blast
    have m1: "map_of (Tasks s1) = (map_of (Tasks s))(i \<mapsto> completed_task (millis now) t)" using t(4) by (simp add: updates_def)
    have "snd (done_mutate clk (i # js) actor resolver now s) = snd (done_mutate clk js actor resolver now s1)"
      using c Inr by (simp split: prod.splits sum.splits)
    with Cons.prems(2) have out: "map_of (Tasks (snd (done_mutate clk js actor resolver now s1))) j = Some x'" by simp
    show ?thesis
    proof (cases "j = i")
      case True
      with m1 have "map_of (Tasks s1) j = Some (completed_task (millis now) t)" by simp
      from Cons.IH [OF this out] True Cons.prems(1) t show ?thesis by simp
    next
      case False
      with m1 Cons.prems(1) have "map_of (Tasks s1) j = Some x" by simp
      from Cons.IH [OF this out] show ?thesis .
    qed
  qed
qed simp

lemma decompose_changes:
  assumes run: "decomposeTask clk p actor subs s = (r, s')" and inv: "store_inv s"
    and room: "unat (NextID s) + length subs < 2 ^ 64"
    and at: "map_of (Tasks s) j = Some x" "map_of (Tasks s') j = Some x'"
  shows "x' = x \<or> Status x \<noteq> StatusCompleted \<and> may_mutate actor x \<and> Status x' = StatusPending \<and> j = p"
proof (cases r)
  case (Inl err)
  with run decomposeTask_failure [of clk p actor subs s err s'] at show ?thesis by simp
next
  case (Inr qa)
  then obtain q added where "decomposeTask clk p actor subs s = (Inr (q, added), s')" using run by (cases qa) auto
  from decomposeTask_effect [OF this inv room] obtain par where e: "added = child_ids (NextID s) (length subs)"
    "map_of (Tasks s) p = Some par" "Status par \<noteq> StatusCompleted" "requireOwner par actor = None"
    "map_of (Tasks s') = (map_of (Tasks s))(p \<mapsto> returned_parent added par)
       ++ map_of (zip added (map2 (child_task clk p) subs added))" by blast
  have "j \<notin> set added" using store_invD(3) [OF inv at(1)] by (auto simp: e(1) child_ids_range [OF room])
  then have "map_of (zip added (map2 (child_task clk p) subs added)) j = None" using e(1) by (simp add: map2_None)
  then have "map_of (Tasks s') j = ((map_of (Tasks s))(p \<mapsto> returned_parent added par)) j"
    unfolding e(5) by (simp add: map_add_def)
  then show ?thesis using at e(2-4) by (auto simp: returned_parent_def split: if_splits)
qed

lemma allowed_exec:
  assumes inv: "store_inv s" and ok: "call_ok c s" and at: "map_of (Tasks s) j = Some x"
    "map_of (Tasks (snd (exec clk c s))) j = Some x'"
  shows "allowed x x'"
proof (cases c)
  case (OnTask i tc)
  with allowed_perform [OF inv at(1)] at(2) show ?thesis by simp
next
  case (Decompose p actor subs)
  obtain r s' where r: "decomposeTask clk p actor subs s = (r, s')" by fastforce
  with decompose_changes [OF r inv _ at(1)] at(2) ok Decompose show ?thesis by (auto simp: allowed_def)
next
  case (Update_task i actor u)
  with same_status_updateTask [of i s clk actor u] at show ?thesis
    by (cases "j = i") (auto simp: same_status_def allowed_def)
next
  case (Add p)
  have "map_of (Tasks (snd (handleAdd_mutate clk p s))) j = Some x"
    using at(1) fresh_NextID [OF inv, of j] insert_new_effect(2) [OF surjective_pairing [of "insert_new clk p _ s"]]
    by (auto simp: handleAdd_mutate_def split: sum.splits option.splits)
  with Add at(2) show ?thesis by simp
next
  case (Done js actor resolver now)
  with done_changes [OF at(1), of clk js actor resolver now x'] at(2) show ?thesis
    by (auto simp: allowed_def)
next
  case (Remove js)
  obtain r s' where r: "rm_mutate clk js s = (r, s')" by fastforce
  have "x' = x"
  proof (cases r)
    case (Inl err)
    with r rm_failure [of clk js s err s'] at Remove show ?thesis by simp
  next
    case (Inr removed)
    with r rm_effect(1) [of clk js s removed s'] remove_each_spec [of clk js s] at Remove show ?thesis
      by (auto split: if_splits)
  qed
  then show ?thesis by simp
next
  case Prune
  obtain removed s' where r: "pruneCompletedTasks clk s = (removed, s')" by fastforce
  with prune_effect(1) [OF r store_inv_wf [OF inv]] at Prune show ?thesis
    by (auto simp: allowed_def split: if_splits)
qed

section \<open>Identifiers are never reused\<close>

lemma done_keys:
  "map fst (Tasks (snd (done_mutate clk is actor resolver now s))) = map fst (Tasks s)
   \<and> NextID (snd (done_mutate clk is actor resolver now s)) = NextID s"
proof (induction "is" arbitrary: s)
  case (Cons i js)
  obtain r s1 where c: "completeTask clk i actor resolver now s = (r, s1)" by fastforce
  have "map fst (Tasks s1) = map fst (Tasks s) \<and> NextID s1 = NextID s"
  proof (cases r)
    case (Inl err)
    with c perform_failure [of clk i "Complete actor resolver now" s err s1] show ?thesis by simp
  next
    case (Inr q)
    with completeTask_effect [of clk i actor resolver now s q s1] c show ?thesis
      by (auto simp: updates_def same_frame_def)
  qed
  with Cons.IH [of s1] c show ?case by (auto split: prod.splits sum.splits)
qed simp

lemma perform_keys:
  "map fst (Tasks (snd (perform clk i c s))) = map fst (Tasks s) \<and> NextID (snd (perform clk i c s)) = NextID s"
proof (cases "perform clk i c s")
  case (Pair r s')
  show ?thesis
  proof (cases r)
    case (Inl err)
    with Pair perform_failure [of clk i c s err s'] show ?thesis by simp
  next
    case (Inr q)
    with perform_success [of clk i c s q s'] Pair show ?thesis by (auto simp: updates_def same_frame_def)
  qed
qed

lemma keys_dom: "map fst xs = map fst ys \<Longrightarrow> map_of xs j = None \<longleftrightarrow> map_of ys j = None"
  by (metis image_set map_of_eq_None_iff)

lemma exec_no_reuse:
  assumes inv: "store_inv s" and ok: "call_ok c s"
  shows "NextID s \<le> NextID (snd (exec clk c s))
    \<and> (j < NextID s \<longrightarrow> map_of (Tasks s) j = None \<longrightarrow> map_of (Tasks (snd (exec clk c s))) j = None)"
proof (cases c)
    case (OnTask i tc)
    with perform_keys [of clk i tc s] keys_dom [of "Tasks (snd (perform clk i tc s))" "Tasks s" j] show ?thesis by simp
  next
    case (Decompose p actor subs)
    obtain r s' where r: "decomposeTask clk p actor subs s = (r, s')" by fastforce
    show ?thesis
    proof (cases r)
      case (Inl err)
      with r decomposeTask_failure [of clk p actor subs s err s'] Decompose show ?thesis by simp
    next
      case (Inr qa)
      then obtain q added where "decomposeTask clk p actor subs s = (Inr (q, added), s')" using r by (cases qa) auto
      from decomposeTask_effect [OF this inv] ok Decompose obtain par where e: "added = child_ids (NextID s) (length subs)"
        "NextID s' = NextID s + of_nat (length subs)" "map_of (Tasks s) p = Some par"
        "map_of (Tasks s') = (map_of (Tasks s))(p \<mapsto> returned_parent added par)
           ++ map_of (zip added (map2 (child_task clk p) subs added))" by auto
      have room: "unat (NextID s) + length subs < 2 ^ 64" using ok Decompose by simp
      have "map_of (Tasks s') j = None" if "j < NextID s" "map_of (Tasks s) j = None"
      proof -
        have "j \<notin> set added" using that by (auto simp: e(1) child_ids_range [OF room])
        then have "map_of (zip added (map2 (child_task clk p) subs added)) j = None" using e(1) by (simp add: map2_None)
        then have "map_of (Tasks s') j = ((map_of (Tasks s))(p \<mapsto> returned_parent added par)) j"
          unfolding e(4) by (simp add: map_add_def)
        moreover have "j \<noteq> p" using e(3) that(2) by auto
        ultimately show ?thesis using that by simp
      qed
      moreover have "NextID s \<le> NextID s'" using room by (simp add: e(2) word_le_nat_alt unat_plus_of_nat)
      ultimately show ?thesis using Decompose r by simp
    qed
  next
    case (Update_task i actor u)
    with same_status_updateTask [of i s clk actor u] show ?thesis
      by (cases "j = i") (auto simp: same_status_def)
  next
    case (Add p)
    have lt: "NextID s < NextID s + 1" using ok Add by (intro word_less_succ) simp
    have "NextID s \<le> NextID (snd (insert_new clk p fs s))
        \<and> (j < NextID s \<longrightarrow> map_of (Tasks s) j = None \<longrightarrow> map_of (Tasks (snd (insert_new clk p fs s))) j = None)" for fs
      using insert_new_effect(2,3) [OF surjective_pairing [of "insert_new clk p fs s"]] lt by auto
    then show ?thesis using Add by (auto simp: handleAdd_mutate_def split: sum.splits option.splits)
  next
    case (Done js actor resolver now)
    with done_keys [of clk js actor resolver now s]
      keys_dom [of "Tasks (snd (done_mutate clk js actor resolver now s))" "Tasks s" j] show ?thesis by simp
  next
    case (Remove js)
    obtain r s' where r: "rm_mutate clk js s = (r, s')" by fastforce
    show ?thesis
    proof (cases r)
      case (Inl err)
      with r rm_failure [of clk js s err s'] Remove show ?thesis by simp
    next
      case (Inr removed)
      with r rm_effect(1) [of clk js s removed s'] remove_each_spec [of clk js s] Remove show ?thesis by auto
    qed
  next
    case Prune
    obtain removed s' where r: "pruneCompletedTasks clk s = (removed, s')" by fastforce
    with prune_effect(1,2) [OF r store_inv_wf [OF inv]] Prune show ?thesis by auto
  qed

section \<open>Runs\<close>

text \<open>
  One step of the life of a store: an operation, the lease sweep that opens a transaction, or the
  stamp that a write puts on it. A store is reachable when a run from the empty store leads to it.
\<close>

inductive step :: "TaskStore \<Rightarrow> TaskStore \<Rightarrow> bool" where
  call: "call_ok c s \<Longrightarrow> exec clk c s = (r, s') \<Longrightarrow> step s s'"
| sweep: "CleanExpiredLeases clk s = Some (n, s') \<Longrightarrow> step s s'"
| stamp: "step s (stamped clk s)"

inductive_cases stepE [elim?]: "step s s'"

definition reachable :: "TaskStore \<Rightarrow> bool" where
  "reachable s \<longleftrightarrow> step\<^sup>*\<^sup>* NewTaskStore s"

lemma store_inv_step: "step s s' \<Longrightarrow> store_inv s \<Longrightarrow> store_inv s'"
proof (induction rule: step.induct)
  case (call c s clk r s')
  then show ?case using store_inv_exec [of s c clk] by simp
qed (auto intro: store_inv_sweep store_inv_stamped)

lemma store_inv_steps: "step\<^sup>*\<^sup>* s s' \<Longrightarrow> store_inv s \<Longrightarrow> store_inv s'"
  by (induction rule: rtranclp_induct) (auto intro: store_inv_step)

definition settled :: "u64 \<Rightarrow> u64 \<Rightarrow> TaskStore \<Rightarrow> bool" where
  "settled i at s \<longleftrightarrow> i < NextID s \<and> (\<forall>t. map_of (Tasks s) i = Some t \<longrightarrow> Status t = StatusCompleted \<and> Completed t = at)"

lemma settled_step: "step s s' \<Longrightarrow> store_inv s \<Longrightarrow> settled i at s \<Longrightarrow> settled i at s'"
proof (induction rule: step.induct)
  case (call c s clk r s')
  have s': "s' = snd (exec clk c s)" using call(2) by simp
  show ?case
  proof (cases "map_of (Tasks s) i")
    case None
    then show ?thesis
      using exec_no_reuse [OF call(3,1), of clk i] None call(4) by (auto simp: settled_def s' intro: less_le_trans)
  next
    case (Some t)
    have "NextID s \<le> NextID s'" using exec_no_reuse [OF call(3,1), of clk i] by (simp add: s')
    then show ?thesis
      using allowed_exec [OF call(3,1) Some, of clk] call(4) Some by (auto simp: settled_def s' allowed_def intro: less_le_trans)
  qed
next
  case (sweep clk s n s')
  from CleanExpiredLeases_spec [OF store_inv_wf [OF sweep(2)], of clk] sweep(1)
  have "map_of (Tasks s') = (\<lambda>j. map_option (swept (millis clk)) (map_of (Tasks s) j))" "same_frame s s'" by auto
  then show ?case using sweep(3) by (auto simp: settled_def same_frame_def swept_def task_expired_def)
next
  case (stamp s clk)
  then show ?case by (simp add: settled_def)
qed

section \<open>The transactions are instances of the interfaces\<close>

lemma sweep_frame: "store_inv s \<Longrightarrow> CleanExpiredLeases clk s = Some (n, s') \<Longrightarrow> same_frame s s'"
  using CleanExpiredLeases_spec [OF store_inv_wf, of s clk] by auto

lemma call_ok_sweep:
  assumes "store_inv s" "call_ok c s" "CleanExpiredLeases clk s = Some (n, s')"
  shows "call_ok c s'"
  using assms(2) sweep_frame [OF assms(1,3)] by (cases c) (simp_all add: same_frame_def)

interpretation exec_tx: mutator store_inv "exec clk c" "call_ok c" for clk c
  by unfold_locales (auto intro: call_ok_sweep store_inv_exec)

interpretation task_tx: atomic_mutator store_inv "perform clk i c" "\<lambda>s. task_call_ok c" for clk i c
  by unfold_locales (auto intro: store_inv_perform perform_failure)

interpretation decompose_tx: atomic_mutator store_inv "decomposeTask clk i actor subs"
    "\<lambda>s. unat (NextID s) + length subs < 2 ^ 64" for clk i actor subs
  by unfold_locales
     (auto intro: store_inv_decomposeTask decomposeTask_failure dest: sweep_frame simp: same_frame_def)

interpretation add_tx: atomic_mutator store_inv "handleAdd_mutate clk p"
    "\<lambda>s. unat (NextID s) + 1 < 2 ^ 64 \<and> validPriority (n_Priority p)" for clk p
  by unfold_locales (auto intro: store_inv_handleAdd handleAdd_failure dest: sweep_frame simp: same_frame_def)

interpretation rm_tx: atomic_mutator store_inv "rm_mutate clk is" "\<lambda>s. True" for clk "is"
  by unfold_locales (auto intro: store_inv_rm rm_failure)

section \<open>Properties\<close>

text \<open>
  C2: every lifecycle operation on a task implements its specification. The call is accepted
  exactly when the specification has a result for the task, and then the task becomes that result
  and no other task changes; a refused call, or one for a task that does not exist, returns an
  error and changes nothing at all.
\<close>

theorem perform_refines:
  "case map_of (Tasks s) i of
     None \<Rightarrow> \<exists>err. perform clk i c s = (Inl err, s)
   | Some t \<Rightarrow>
       (case task_effect clk c (Tasks s) t of
          None \<Rightarrow> \<exists>err. perform clk i c s = (Inl err, s)
        | Some t' \<Rightarrow> \<exists>s'. perform clk i c s = (Inr i, s') \<and> updates i t' s s')"
proof (cases "perform clk i c s")
  case (Pair r s')
  show ?thesis
  proof (cases r)
    case (Inl err)
    then have "s' = s" using Pair perform_failure by blast
    moreover have "task_effect clk c (Tasks s) t = None" if "map_of (Tasks s) i = Some t" for t
      using perform_accepts [OF that, of clk c] Pair Inl by (cases "task_effect clk c (Tasks s) t") auto
    ultimately show ?thesis using Pair Inl by (auto split: option.splits)
  next
    case (Inr q)
    with perform_success [of clk i c s q s'] Pair show ?thesis by (auto split: option.splits)
  qed
qed

text \<open>
  C3: no sequence of operations corrupts the store. Every store reachable from the empty one, by
  any sequence of lifecycle and graph operations, failed or not, lease sweeps and writes, passes
  all checks of \<^verbatim>\<open>todo doctor\<close>.
\<close>

theorem reachable_clean:
  assumes "reachable s"
  shows "storeInvariantProblems s = []"
proof -
  have "store_inv s" using assms store_inv_steps [OF _ store_inv_new] by (simp add: reachable_def)
  then show ?thesis using problems_Nil_iff store_inv_wf tasks_wf_distinct by blast
qed

lemma reachable_clean_witness: "storeInvariantProblems one_store = []"
proof -
  have "fst (DetectCycle [] 1 (BuildFromTasks []), ()) = None"
    by (simp add: graph_of_DetectCycle) (simp add: graph_of_def acyclic_def)
  then have "snd (exec 0 (Add (plain_task ''schema'')) NewTaskStore) = one_store"
    by (simp add: handleAdd_mutate_def one_store_def plain_task_def)
  moreover have "call_ok (Add (plain_task ''schema'')) NewTaskStore" by simp
  ultimately have "step NewTaskStore one_store"
    using step.call [of "Add (plain_task ''schema'')" NewTaskStore 0] by (metis prod.collapse)
  then have "reachable one_store" by (simp add: reachable_def)
  then show ?thesis by (rule reachable_clean)
qed

text \<open>
  C5: completion is final. Along any run from a sound store, a task that is completed stays
  completed, with the same completion time, for as long as it is in the store; and if it is
  removed, its ID is never given to another task.
\<close>

theorem completed_forever:
  assumes "store_inv s" "map_of (Tasks s) i = Some t" "Status t = StatusCompleted" "step\<^sup>*\<^sup>* s s'"
  shows "i < NextID s'
    \<and> (\<forall>t'. map_of (Tasks s') i = Some t' \<longrightarrow> Status t' = StatusCompleted \<and> Completed t' = Completed t)"
proof -
  have "store_inv s' \<and> settled i (Completed t) s'"
    using assms(4)
  proof (induction rule: rtranclp_induct)
    case base
    then show ?case using assms(1-3) store_invD(3) [OF assms(1,2)] by (simp add: settled_def)
  next
    case (step y z)
    then show ?case using store_inv_step settled_step by blast
  qed
  then show ?thesis by (simp add: settled_def)
qed

lemma completed_forever_witness:
  "store_inv first_done
   \<and> (\<exists>t'. map_of (Tasks (stamped 5 first_done)) 1 = Some t' \<and> Status t' = StatusCompleted \<and> Completed t' = 9)"
proof -
  have inv: "store_inv first_done"
    using store_inv_done [OF two_store_inv, of 9000000 0 "[1]" "[]" None] first_done_run
    by (simp add: millis_def UnixMilli_def)
  have "map_of (Tasks first_done) 1 = Some (completed_task 9 first_task)" by (simp add: first_done)
  moreover have "map_of (Tasks (stamped 5 first_done)) 1 = Some (completed_task 9 first_task)" by (simp add: first_done)
  moreover have "step\<^sup>*\<^sup>* first_done (stamped 5 first_done)" using step.stamp by (rule r_into_rtranclp)
  ultimately show ?thesis using completed_forever [OF inv, of 1 "completed_task 9 first_task"] inv
    by (auto simp: completed_task_def)
qed

fun task_call_actor :: "task_call \<Rightarrow> string" where
  "task_call_actor (Claim actor ttl resolver now) = actor"
| "task_call_actor (Complete actor resolver now) = actor"
| "task_call_actor (Release actor failure) = actor"
| "task_call_actor (Block actor reason) = actor"
| "task_call_actor (Unblock actor) = actor"
| "task_call_actor (LogMsg actor message) = actor"
| "task_call_actor (Renew actor ttl now) = actor"
| "task_call_actor (Handoff actor extra now) = actor"

fun claim_time :: "task_call \<Rightarrow> gotime option" where
  "claim_time (Claim actor ttl resolver now) = Some now"
| "claim_time _ = None"

text \<open>
  C4: a live lease protects its task. While a task is leased to one worker, no call of any other
  worker changes it in any field: not a claim made before the lease runs out, and not any other
  lifecycle operation even after.
\<close>

theorem live_lease_protected:
  assumes "store_inv s" "map_of (Tasks s) j = Some x" "Owner x \<noteq> []" "task_call_actor c \<noteq> Owner x"
    "\<And>now. claim_time c = Some now \<Longrightarrow> millis now < LeaseExpires x"
  shows "map_of (Tasks (snd (perform clk i c s))) j = Some x"
proof (cases "perform clk i c s")
  case (Pair r s')
  show ?thesis
  proof (cases r)
    case (Inl err)
    with Pair perform_failure [of clk i c s err s'] assms(2) show ?thesis by simp
  next
    case (Inr q)
    from perform_success [OF Pair [unfolded Inr]] obtain t t' where t: "map_of (Tasks s) i = Some t"
      "task_effect clk c (Tasks s) t = Some t'" "updates i t' s s'" by blast
    have "Status x = StatusInProgress"
      using store_invD(2) [OF assms(1,2)] assms(3) by (auto simp: task_sound_def split: if_splits)
    then have "task_effect clk c (Tasks s) x = None"
      using assms(3-5) by (cases c) (auto simp: may_mutate_def not_le)
    then have "j \<noteq> i" using t(1,2) assms(2) by auto
    then show ?thesis using updates_other [OF t(3)] assms(2) Pair by simp
  qed
qed

definition claimed_store :: TaskStore where
  "claimed_store = snd (perform 0 1 (Claim ''ann'' 60000000000 None 0) two_store)"

lemma claimed_store:
  "store_inv claimed_store" "map_of (Tasks claimed_store) 1 = Some (claimed 0 ''ann'' 60000 first_task)"
proof -
  have ttl: "millis 0 + ttl_millis 60000000000 = 60000"
    by (simp add: millis_def ttl_millis_def UnixMilli_def Milliseconds_def)
  show "store_inv claimed_store"
    unfolding claimed_store_def by (rule store_inv_perform [OF two_store_inv]) (simp add: ttl)
  have "task_effect 0 (Claim ''ann'' 60000000000 None 0) (Tasks two_store) first_task
      = Some (claimed 0 ''ann'' 60000 first_task)"
    by (simp add: DependenciesCompleteWithResolver_def may_mutate_def ttl)
  moreover have "map_of (Tasks two_store) 1 = Some first_task" by (simp add: two_store)
  ultimately obtain s' where "perform 0 1 (Claim ''ann'' 60000000000 None 0) two_store = (Inr 1, s')"
    using perform_accepts by (metis prod.collapse)
  from perform_success [OF this] show "map_of (Tasks claimed_store) 1 = Some (claimed 0 ''ann'' 60000 first_task)"
    using \<open>perform 0 1 (Claim ''ann'' 60000000000 None 0) two_store = (Inr 1, s')\<close>
    by (auto simp: claimed_store_def updates_def two_store DependenciesCompleteWithResolver_def may_mutate_def ttl
        simp del: perform.simps)
qed

lemma live_lease_protected_witness:
  "map_of (Tasks (snd (perform 5 1 (Claim ''bob'' 1 None 59000000000) claimed_store))) 1
     = Some (claimed 0 ''ann'' 60000 first_task)"
  by (rule live_lease_protected [OF claimed_store])
     (auto simp: claimed_def millis_def UnixMilli_def)





text \<open>
  A batch is not atomic. \<^verbatim>\<open>todo done 1 9\<close> on a store where task 1's lease has just run out
  and task 9 does not exist reports an error, and yet the file then holds task 1 completed:
  because the sweep reclaimed a lease, \<^verbatim>\<open>Update\<close> writes the store that the failed callback left.
\<close>

theorem failed_batch_is_published:
  "\<exists>err ds s'. Update plain_codec (no_io_errors 6000000 6000000) (done_mutate 6000000 [1, 9] [] None 6000000)
       \<lparr>target = FileBytes lapsed_store, temporary = TempAbsent\<rparr> = Some (Inl err, ds)
     \<and> holds plain_codec (last ds) s' \<and> map_option Status (map_of (Tasks s') 1) = Some StatusCompleted"
proof -
  let ?e = "no_io_errors 6000000 6000000" and ?d = "\<lparr>target = FileBytes lapsed_store, temporary = TempAbsent\<rparr>"
  have m: "millis 6000000 = 6" by (simp add: millis_def UnixMilli_def)
  have ts: "Tasks lapsed_store = [(1, the (map_of (Tasks lapsed_store) 1))]" "SchemaVersion lapsed_store = 4"
    "ID (the (map_of (Tasks lapsed_store) 1)) = 1" "Depends (the (map_of (Tasks lapsed_store) 1)) = []"
    "task_expired 6 (the (map_of (Tasks lapsed_store) 1))"
    by (simp_all add: lapsed_store_def put_task_def AddTask_def Let_def task_expired_def leaseIsExpired_def)
  obtain t where t: "Tasks lapsed_store = [(1, t)]" "ID t = 1" "Depends t = []" "task_expired 6 t" using ts by metis
  have wf: "tasks_wf (Tasks lapsed_store)" by (simp add: t tasks_wf_def)
  have ids: "expired_ids 6 lapsed_store = [1]" by (simp add: expired_ids_def GetAllTasks_def t go_sort_def)
  from CleanExpiredLeases_spec [OF wf, of 6000000] obtain s1 where
    s1: "CleanExpiredLeases 6000000 lapsed_store = Some (1, s1)"
    "map_of (Tasks s1) = (\<lambda>j. map_option (swept 6) (map_of (Tasks lapsed_store) j))" by (auto simp: m ids)
  then have at: "map_of (Tasks s1) 1 = Some (reclaimed t)" "map_of (Tasks s1) 9 = None" by (simp_all add: t swept_def)
  let ?c = "Complete [] None 6000000"
  have te: "task_effect 6000000 ?c (Tasks s1) (reclaimed t) = Some (completed_task 6 (reclaimed t))"
    by (simp add: m t DependenciesCompleteWithResolver_def may_mutate_def)
  then obtain s2 where s2: "perform 6000000 1 ?c s1 = (Inr 1, s2)" using perform_accepts [OF at(1)] by (metis prod.collapse)
  with perform_success [OF s2] te at have u: "map_of (Tasks s2) = (map_of (Tasks s1))(1 \<mapsto> completed_task 6 (reclaimed t))"
    by (auto simp: updates_def simp del: perform.simps)
  obtain err where f: "done_mutate 6000000 [1, 9] [] None 6000000 s1 = (Inl err, s2)"
    using s2 u at(2) by (simp add: completeTask_def [of _ 9] requireTask_def [of _ 9] GetTask_def)
  have "Marshal plain_codec (stamped 6000000 s2) = Inr (stamped 6000000 s2)" by (simp add: plain_codec_def)
  from writeStore_success [OF this, of ?d] obtain ds where
    w: "writeStore plain_codec no_write_errors 6000000 s2 ?d = (None, stamped 6000000 s2, ds)" by blast
  have "holds plain_codec (last ds) (stamped 6000000 s2)" using writeStore_holds(2) [OF plain_codec_ok w] by simp
  moreover have "Update plain_codec ?e (done_mutate 6000000 [1, 9] [] None 6000000) ?d = Some (Inl err, ds)"
    using s1(1) f w ts(2)
    by (simp add: Update_def no_io_errors_def locked_def loadUnlocked_def plain_codec_def del: done_mutate.simps)
  ultimately show ?thesis using u by fastforce
qed

end
