(* ===== verification/Allocation.thy ===== *)
theory Allocation
  imports Lifecycle
begin

text \<open>
  Allocation (\<^verbatim>\<open>allocation.go\<close>, \<^verbatim>\<open>matchesCapabilities\<close> of \<^verbatim>\<open>cmd_next.go\<close>, \<^verbatim>\<open>computeAgentLoad\<close> of
  \<^verbatim>\<open>agents.go\<close>): the ranking of ready tasks, the diagnosis of an empty queue, and the atomic,
  idempotent acquisition. Go sets of strings are lists without duplicates in the unspecified order
  of their iteration.
\<close>

section \<open>Request identity\<close>

definition validateAcquireRequestID :: "string \<Rightarrow> goerr option" where
  "validateAcquireRequestID requestID =
     (if TrimSpace requestID = [] then Some (Errorf ''request ID is required'' [] [])
      else if length requestID > 128 then Some (Errorf ''request ID must be at most 128 bytes'' [] [])
      else None)"

record acquireFingerprintInput =
  fp_Operation :: string
  fp_Actor :: string
  fp_TTLMode :: string
  fp_CapabilitiesMode :: string
  fp_Capabilities :: "string list"

text \<open>The hex form of the SHA-256 sum of the JSON encoding is the parameter \<open>digest\<close>.\<close>

definition acquireFingerprint ::
  "(acquireFingerprintInput \<Rightarrow> string) \<Rightarrow> string \<Rightarrow> string \<Rightarrow> string \<Rightarrow> string list \<Rightarrow> string" where
  "acquireFingerprint digest actor ttlMode capabilitiesMode capabilities =
     digest \<lparr>fp_Operation = ''acquire.v1'', fp_Actor = actor, fp_TTLMode = ttlMode,
             fp_CapabilitiesMode = capabilitiesMode, fp_Capabilities = sort_Strings capabilities\<rparr>"

section \<open>Ranking\<close>

definition matchesCapabilities :: "string list \<Rightarrow> string list \<Rightarrow> bool" where
  "matchesCapabilities taskCaps agentCaps \<longleftrightarrow>
     (if taskCaps = [] then True else list_all (\<lambda>c. c \<in> set agentCaps) taskCaps)"

definition ranks_before :: "Task \<Rightarrow> Task \<Rightarrow> bool" where
  "ranks_before a b \<longleftrightarrow>
     (if f_eq (Priority a) (Priority b) then ID a < ID b else f_less (Priority b) (Priority a))"

definition rankedReadyTasks :: "TaskStore \<Rightarrow> DependencyResolver \<Rightarrow> string list \<Rightarrow> bool \<Rightarrow> Task list" where
  "rankedReadyTasks s resolver capabilities filterCapabilities =
     (let ready = GetReadyTasksWithResolver (Tasks s) resolver;
          ready = (if filterCapabilities
                   then filter (\<lambda>task. matchesCapabilities (Capabilities task) capabilities) ready else ready)
      in go_sort ranks_before ready)"

section \<open>Diagnosis\<close>

abbreviation "maxAllocationDiagnosticItems \<equiv> (20 :: nat)"
abbreviation "maxAllocationDiagnosticValueBytes \<equiv> (96 :: nat)"

definition compactAllocationDiagnosticValue :: "string \<Rightarrow> string" where
  "compactAllocationDiagnosticValue val =
     (let val = ToValidUTF8 val replacement_char
      in if length val \<le> maxAllocationDiagnosticValueBytes then val
         else take (rune_boundary val (maxAllocationDiagnosticValueBytes - 3)) val @ ''...'')"

definition boundedAllocationDiagnosticValues :: "string list \<Rightarrow> string list \<times> nat \<times> bool" where
  "boundedAllocationDiagnosticValues values =
     (let sorted = sort_Strings values;
          total = length sorted;
          truncated = total > maxAllocationDiagnosticItems;
          sorted = take maxAllocationDiagnosticItems sorted;
          compact = map compactAllocationDiagnosticValue sorted
      in (compact, total, truncated \<or> compact \<noteq> sorted))"

definition dependencyComplete :: "tasks \<Rightarrow> DependencyResolver \<Rightarrow> string \<Rightarrow> bool" where
  "dependencyComplete ts resolver dependency =
     (case ParseLocalID dependency of
        Some i \<Rightarrow> (case map_of ts i of Some t \<Rightarrow> Status t = StatusCompleted | None \<Rightarrow> False)
      | None \<Rightarrow> (case resolver of Some r \<Rightarrow> r dependency | None \<Rightarrow> False))"

definition with_status :: "TaskStatus \<Rightarrow> TaskStore \<Rightarrow> Task list" where
  "with_status st s = filter (\<lambda>t. Status t = st) (GetAllTasks s)"

definition owned_by :: "string \<Rightarrow> Task \<Rightarrow> bool" where
  "owned_by actor t \<longleftrightarrow> actor \<noteq> [] \<and> Owner t = actor"

text \<open>The counters of the loop over the tasks, as sizes of the sets of tasks they count.\<close>

definition diagnoseAllocation ::
  "TaskStore \<Rightarrow> DependencyResolver \<Rightarrow> string \<Rightarrow> string list \<Rightarrow> bool \<Rightarrow> int \<Rightarrow> allocationDiagnostics" where
  "diagnoseAllocation s resolver actor capabilities filterCapabilities maxLoad =
     (let (requested, requestedTotal, requestedTruncated) =
            boundedAllocationDiagnosticValues (remdups capabilities);
          ready = rankedReadyTasks s resolver capabilities False;
          compatibleReady =
            (if filterCapabilities then rankedReadyTasks s resolver capabilities True else ready);
          mismatched = filter (\<lambda>task. \<not> matchesCapabilities (Capabilities task) capabilities) ready;
          missing =
            (if filterCapabilities
             then remdups (filter (\<lambda>required. required \<notin> set capabilities) (concat (map Capabilities mismatched)))
             else []);
          pending = with_status StatusPending s;
          inProgress = with_status StatusInProgress s;
          waiting = filter (\<lambda>task. \<not> DependenciesCompleteWithResolver task (Tasks s) resolver) pending;
          blockers = remdups (filter (\<lambda>d. \<not> dependencyComplete (Tasks s) resolver d) (concat (map Depends waiting)));
          ownedByActor = length (filter (owned_by actor) inProgress);
          ownedByOthers = length (filter (\<lambda>t. \<not> owned_by actor t) inProgress);
          (depBlockers, depBlockersTotal, depBlockersTruncated) = boundedAllocationDiagnosticValues blockers;
          (missingCaps, missingTotal, missingTruncated) = boundedAllocationDiagnosticValues missing;
          reason =
            (if actor \<noteq> [] \<and> maxLoad > 0 \<and> int ownedByActor \<ge> maxLoad then allocationWorkerAtCapacity
             else if length compatibleReady > 0 then allocationReady
             else if length pending > 0 \<and> length ready = 0 then allocationDependenciesIncomplete
             else if length pending > 0 then allocationCapabilitiesUnavailable
             else if actor \<noteq> [] \<and> ownedByOthers > 0 then allocationWorkOwnedByOthers
             else if actor = [] \<and> length inProgress > 0 then allocationWorkInProgress
             else allocationNoPendingWork)
      in \<lparr>d_Reason = reason, d_RequestedCapabilities = requested, d_RequestedCapabilitiesTotal = requestedTotal,
          d_RequestedCapabilitiesTruncated = requestedTruncated,
          d_Queue = \<lparr>q_Pending = length pending, q_Ready = length ready, q_CompatibleReady = length compatibleReady,
                     q_DependencyBlocked = length waiting, q_DependencyBlockers = depBlockers,
                     q_DependencyBlockersTotal = depBlockersTotal, q_DependencyBlockersTruncated = depBlockersTruncated,
                     q_CapabilityMismatch = length ready - length compatibleReady, q_MissingCapabilities = missingCaps,
                     q_MissingCapabilitiesTotal = missingTotal, q_MissingCapabilitiesTruncated = missingTruncated,
                     q_InProgress = length inProgress, q_Blocked = length (with_status StatusBlocked s),
                     q_Completed = length (with_status StatusCompleted s),
                     q_RetriedPending = length (filter (\<lambda>t. RetryCount t > 0) pending)\<rparr>,
          d_Worker = (if actor \<noteq> []
                      then Some \<lparr>w_CurrentLoad = ownedByActor, w_MaxLoad = maxLoad, w_Owned = ownedByActor,
                                 w_OwnedByOthers = ownedByOthers\<rparr>
                      else None)\<rparr>)"

fun allocationReasonMessage :: "allocationReason \<Rightarrow> string" where
  "allocationReasonMessage allocationNoPendingWork = ''no pending work''"
| "allocationReasonMessage allocationDependenciesIncomplete = ''pending work is waiting on dependencies''"
| "allocationReasonMessage allocationCapabilitiesUnavailable =
     ''ready work requires capabilities this worker does not provide''"
| "allocationReasonMessage allocationWorkOwnedByOthers = ''work is currently owned by other workers''"
| "allocationReasonMessage allocationWorkInProgress = ''work is currently in progress''"
| "allocationReasonMessage allocationWorkerAtCapacity = ''worker is at capacity''"
| "allocationReasonMessage allocationReady = ''work is ready''"

definition computeAgentLoad :: "TaskStore \<Rightarrow> string \<Rightarrow> nat" where
  "computeAgentLoad s agentName =
     length (filter (\<lambda>task. Owner task = agentName \<and> Status task = StatusInProgress) (GetAllTasks s))"

section \<open>Acquisition\<close>

text \<open>A clone shares nothing with its original; as a value it is the original.\<close>

definition cloneTask :: "Task \<Rightarrow> Task" where
  "cloneTask task = task"

text \<open>The result is the task and whether it is a replay. \<open>now\<close> is \<^verbatim>\<open>projectNow()\<close>.\<close>

definition acquireFromStore ::
  "gotime \<Rightarrow> gotime \<Rightarrow> string \<Rightarrow> string \<Rightarrow> string \<Rightarrow> duration \<Rightarrow> string list \<Rightarrow> int \<Rightarrow> DependencyResolver
   \<Rightarrow> TaskStore \<Rightarrow> (Task \<times> bool) res" where
  "acquireFromStore clk now actor requestID fingerprint ttl capabilities maxLoad resolver s =
     (case map_of (Acquisitions s) requestID of
        Some receipt \<Rightarrow>
          if receipt_Operation receipt \<noteq> ''acquire.v1'' \<or> receipt_Fingerprint receipt \<noteq> fingerprint
          then (Inl (Errorf ''%w: %q'' [ArgStr requestID] [Sentinel errAcquireRequestConflict]), s)
          else (Inr (cloneTask (receipt_Task receipt), True), s)
      | None \<Rightarrow>
          (let diagnostics = diagnoseAllocation s resolver actor capabilities True maxLoad
           in if d_Reason diagnostics = allocationWorkerAtCapacity
              then (Inl (AllocationError (Sentinel errAgentAtCapacity) ''%s (%d/%d active)''
                           [ArgStr (allocationReasonMessage (d_Reason diagnostics)),
                            ArgInt (case d_Worker diagnostics of Some w \<Rightarrow> int (w_CurrentLoad w) | None \<Rightarrow> 0),
                            ArgInt maxLoad] diagnostics), s)
              else
                (case rankedReadyTasks s resolver capabilities True of
                   [] \<Rightarrow> (Inl (AllocationError (Sentinel errNoReadyTasks)
                                (allocationReasonMessage (d_Reason diagnostics)) [] diagnostics), s)
                 | task # _ \<Rightarrow>
                     (let i = ID task;
                          now' = millis now;
                          s = modify_task i (\<lambda>t. t\<lparr>Owner := actor, Status := StatusInProgress,
                                                 LeaseExpires := now' + ttl_millis ttl\<rparr>) s;
                          s = snd (AddLog clk i actor ''acquired'' s);
                          s = AddEvent clk EventTaskClaimed i actor
                                [(''ttl'', duration_string ttl), (''mode'', ''acquire''), (''request_id'', requestID)] s;
                          acquired = (case map_of (Tasks s) i of Some t \<Rightarrow> t | None \<Rightarrow> task);
                          s = s\<lparr>Acquisitions := AList.update requestID
                                 \<lparr>receipt_RequestID = requestID, receipt_Operation = ''acquire.v1'',
                                  receipt_Fingerprint = fingerprint, receipt_Actor = actor, receipt_Created = now',
                                  receipt_Task = cloneTask acquired\<rparr> (Acquisitions s)\<rparr>
                      in (Inr (acquired, False), s)))))"

section \<open>The ranking is a strict order on the tasks of a store\<close>

definition rankable :: "tasks \<Rightarrow> Task set" where
  "rankable ts = {t. map_of ts (ID t) = Some t \<and> validPriority (Priority t)}"

lemma ranks_before_Fin:
  assumes "Priority a = Fin p" "Priority b = Fin q"
  shows "ranks_before a b \<longleftrightarrow> (if p = q then ID a < ID b else q < p)"
  using assms by (simp add: ranks_before_def)

lemma rankable_Fin: "t \<in> rankable ts \<Longrightarrow> \<exists>k. Priority t = Fin k"
  by (auto simp: rankable_def validPriority_Fin)

lemma rank_order: "slice_order ranks_before (rankable ts)"
proof
  fix a b c assume abc: "a \<in> rankable ts" "b \<in> rankable ts" "c \<in> rankable ts"
  then obtain p q r where p: "Priority a = Fin p" "Priority b = Fin q" "Priority c = Fin r"
    using rankable_Fin by meson
  show "\<not> ranks_before a a" by (simp add: ranks_before_Fin [OF p(1) p(1)])
  show "ranks_before a b \<Longrightarrow> ranks_before b c \<Longrightarrow> ranks_before a c"
    by (auto simp: ranks_before_Fin [OF p(1,2)] ranks_before_Fin [OF p(2,3)] ranks_before_Fin [OF p(1,3)] split: if_splits)
  assume "a \<noteq> b"
  then have "ID a \<noteq> ID b" using abc by (auto simp: rankable_def)
  then show "ranks_before a b \<or> ranks_before b a"
    by (auto simp: ranks_before_Fin [OF p(1,2)] ranks_before_Fin [OF p(2,1)])
qed

interpretation ranking: slice_order ranks_before "rankable ts" for ts
  by (rule rank_order)

lemma deps_complete_cong: "map_of ts = map_of ts' \<Longrightarrow> deps_complete deps ts resolver = deps_complete deps ts' resolver"
  by (induction deps) (auto split: option.splits)

lemma map_of_perm:
  assumes "distinct (map fst xs)" "mset xs = mset ys"
  shows "map_of xs = map_of ys"
proof
  fix k
  have "distinct (map fst ys)" using assms by (metis mset_eq_imp_distinct_iff mset_map)
  moreover have "set xs = set ys" using assms(2) by (rule mset_eq_setD)
  ultimately show "map_of xs k = map_of ys k"
    using assms(1) by (metis map_of_iff_set not_Some_eq)
qed

definition selected :: "tasks \<Rightarrow> DependencyResolver \<Rightarrow> string list \<Rightarrow> bool \<Rightarrow> Task list" where
  "selected ts resolver capabilities filterCapabilities =
     filter (\<lambda>t. filterCapabilities \<longrightarrow> matchesCapabilities (Capabilities t) capabilities)
       (GetReadyTasksWithResolver ts resolver)"

lemma rankedReadyTasks_selected:
  "rankedReadyTasks s resolver caps f = go_sort ranks_before (selected (Tasks s) resolver caps f)"
  by (cases f) (simp_all add: rankedReadyTasks_def selected_def)

definition all_valid :: "tasks \<Rightarrow> bool" where
  "all_valid ts \<longleftrightarrow> (\<forall>(k, t) \<in> set ts. validPriority (Priority t))"

lemma selected_rankable:
  assumes "tasks_wf ts" "all_valid ts"
  shows "set (selected ts resolver caps f) \<subseteq> rankable ts" "distinct (selected ts resolver caps f)"
proof -
  have sub: "t \<in> rankable ts" if "(k, t) \<in> set ts" for k t
    using that assms by (auto simp: rankable_def all_valid_def tasks_wf_iff_set [symmetric] tasks_wf_def)
  then show "set (selected ts resolver caps f) \<subseteq> rankable ts"
    by (auto simp: selected_def GetReadyTasksWithResolver_def)
  have "map ID (map snd ts) = map fst ts" using assms(1) by (auto simp: tasks_wf_def)
  then have "distinct (map ID (map snd ts))" using assms(1) by (simp only: tasks_wf_def)
  then have "distinct (map snd ts)" by (simp only: distinct_map)
  then show "distinct (selected ts resolver caps f)"
    by (simp add: selected_def GetReadyTasksWithResolver_def)
qed

lemma set_selected:
  assumes "tasks_wf ts"
  shows "t \<in> set (selected ts resolver caps f) \<longleftrightarrow>
    map_of ts (ID t) = Some t \<and> Status t = StatusPending \<and> DependenciesCompleteWithResolver t ts resolver
    \<and> (f \<longrightarrow> matchesCapabilities (Capabilities t) caps)"
proof -
  have "t \<in> snd ` set ts \<longleftrightarrow> map_of ts (ID t) = Some t"
    using assms by (force simp: tasks_wf_def map_of_iff_set)
  then show ?thesis by (auto simp: selected_def GetReadyTasksWithResolver_def)
qed

lemma store_inv_all_valid: "store_inv s \<Longrightarrow> all_valid (Tasks s)"
  using store_invD(2) [of s] tasks_wf_iff_set [OF store_inv_wf, of s]
  by (fastforce simp: all_valid_def task_sound_def)

section \<open>What an acquisition did\<close>

definition acquired_task :: "gotime \<Rightarrow> string \<Rightarrow> u64 \<Rightarrow> Task \<Rightarrow> Task" where
  "acquired_task clk actor lease t =
     t\<lparr>Owner := actor, Status := StatusInProgress, LeaseExpires := lease,
       Log := Log t @ [log_entry clk actor ''acquired'']\<rparr>"

lemma acquire_cases:
  assumes "acquireFromStore clk now actor rid fp ttl caps maxLoad resolver s = (r, s')" "tasks_wf (Tasks s)"
    "all_valid (Tasks s)"
  obtains (error) err where "r = Inl err" "s' = s"
  | (replay) rcpt where "map_of (Acquisitions s) rid = Some rcpt" "receipt_Operation rcpt = ''acquire.v1''"
      "receipt_Fingerprint rcpt = fp" "r = Inr (receipt_Task rcpt, True)" "s' = s"
  | (fresh) t s1 where "map_of (Acquisitions s) rid = None"
      "d_Reason (diagnoseAllocation s resolver actor caps True maxLoad) \<noteq> allocationWorkerAtCapacity"
      "rankedReadyTasks s resolver caps True \<noteq> []" "t = hd (rankedReadyTasks s resolver caps True)"
      "map_of (Tasks s) (ID t) = Some t" "r = Inr (acquired_task clk actor (millis now + ttl_millis ttl) t, False)"
      "updates (ID t) (acquired_task clk actor (millis now + ttl_millis ttl) t) s s1"
      "Tasks s' = Tasks s1" "NextID s' = NextID s1"
      "map_of (Acquisitions s') = (map_of (Acquisitions s))(rid \<mapsto> \<lparr>receipt_RequestID = rid,
         receipt_Operation = ''acquire.v1'', receipt_Fingerprint = fp, receipt_Actor = actor, receipt_Created = millis now,
         receipt_Task = acquired_task clk actor (millis now + ttl_millis ttl) t\<rparr>)"
proof (cases "map_of (Acquisitions s) rid")
  case (Some rcpt)
  show ?thesis
  proof (cases "receipt_Operation rcpt \<noteq> ''acquire.v1'' \<or> receipt_Fingerprint rcpt \<noteq> fp")
    case True
    with Some assms(1) show ?thesis by (intro error) (auto simp: acquireFromStore_def)
  next
    case False
    with Some assms(1) show ?thesis by (intro replay [of rcpt]) (auto simp: acquireFromStore_def cloneTask_def)
  qed
next
  case None
  let ?d = "diagnoseAllocation s resolver actor caps True maxLoad"
  show ?thesis
  proof (cases "d_Reason ?d = allocationWorkerAtCapacity \<or> rankedReadyTasks s resolver caps True = []")
    case True
    with None assms(1) have "(\<exists>err. r = Inl err) \<and> s' = s"
      by (cases "d_Reason ?d = allocationWorkerAtCapacity") (auto simp: acquireFromStore_def Let_def [of ?d])
    then show ?thesis using error by blast
  next
    case False
    then obtain t ts where ts: "rankedReadyTasks s resolver caps True = t # ts"
      by (cases "rankedReadyTasks s resolver caps True") auto
    then have "t \<in> set (selected (Tasks s) resolver caps True)"
      by (metis list.set_intros(1) rankedReadyTasks_selected set_go_sort)
    then have at: "map_of (Tasks s) (ID t) = Some t" using set_selected [OF assms(2)] by blast
    define s1 where "s1 = AddEvent clk EventTaskClaimed (ID t) actor
        [(''ttl'', duration_string ttl), (''mode'', ''acquire''), (''request_id'', rid)]
        (snd (AddLog clk (ID t) actor ''acquired'' (modify_task (ID t) (\<lambda>t. t\<lparr>Owner := actor, Status := StatusInProgress,
           LeaseExpires := millis now + ttl_millis ttl\<rparr>) s)))"
    have up: "updates (ID t) (acquired_task clk actor (millis now + ttl_millis ttl) t) s s1"
      unfolding s1_def using at by (auto simp: acquired_task_def intro!: updates_intros)
    have acq: "Acquisitions s1 = Acquisitions s" using up by (simp add: updates_def same_frame_def)
    have run: "r = Inr (acquired_task clk actor (millis now + ttl_millis ttl) t, False)"
      "s' = s1\<lparr>Acquisitions := AList.update rid \<lparr>receipt_RequestID = rid, receipt_Operation = ''acquire.v1'',
         receipt_Fingerprint = fp, receipt_Actor = actor, receipt_Created = millis now,
         receipt_Task = acquired_task clk actor (millis now + ttl_millis ttl) t\<rparr> (Acquisitions s1)\<rparr>"
      using assms(1) None False ts updates_at [OF up]
      by (simp_all add: acquireFromStore_def Let_def s1_def [symmetric] cloneTask_def)
    show ?thesis
      by (rule fresh [of t s1]) (use None False ts at up run acq in \<open>auto simp: update_conv'\<close>)
  qed
qed

lemma acquire_failure:
  assumes "acquireFromStore clk now actor rid fp ttl caps maxLoad resolver s = (Inl err, s')"
  shows "s' = s"
  using assms by (auto simp: acquireFromStore_def Let_def split: option.splits if_splits list.splits)

lemma store_inv_acquire:
  assumes inv: "store_inv s" and ok: "actor \<noteq> []" "millis now + ttl_millis ttl \<noteq> 0"
  shows "store_inv (snd (acquireFromStore clk now actor rid fp ttl caps maxLoad resolver s))"
proof -
  obtain r s' where run: "acquireFromStore clk now actor rid fp ttl caps maxLoad resolver s = (r, s')" by fastforce
  from run store_inv_wf [OF inv] store_inv_all_valid [OF inv] have "store_inv s'"
  proof (cases rule: acquire_cases)
    case (fresh t s1)
    have "t \<in> set (selected (Tasks s) resolver caps True)"
      using fresh(3,4) by (metis list.set_sel(1) rankedReadyTasks_selected set_go_sort)
    then have pending: "Status t = StatusPending" using set_selected [OF store_inv_wf [OF inv]] by blast
    have "store_inv s1"
      by (rule store_inv_updates [OF inv fresh(7,5)])
         (use store_invD(2) [OF inv fresh(5)] ok pending in \<open>auto simp: acquired_task_def task_sound_def\<close>)
    with fresh(8,9) show ?thesis by (simp add: store_inv_def)
  qed (use inv in auto)
  then show ?thesis by (simp add: run)
qed

interpretation acquire_tx: atomic_mutator store_inv "acquireFromStore clk now actor rid fp ttl caps maxLoad resolver"
    "\<lambda>s. actor \<noteq> [] \<and> millis now + ttl_millis ttl \<noteq> 0" for clk now actor rid fp ttl caps maxLoad resolver
  by unfold_locales (auto intro: store_inv_acquire acquire_failure)

section \<open>Diagnostics are bounded\<close>

lemma compact_length: "length (compactAllocationDiagnosticValue v) \<le> 96"
  using rune_boundary_le [of "ToValidUTF8 v replacement_char" 93]
  by (auto simp: compactAllocationDiagnosticValue_def Let_def)

lemma compact_valid: "ValidString (compactAllocationDiagnosticValue v)"
proof -
  let ?v = "ToValidUTF8 v replacement_char"
  have v: "ValidString ?v" by (simp add: ToValidUTF8_valid)
  show ?thesis
  proof (cases "length ?v \<le> 96")
    case True
    with v show ?thesis by (simp add: compactAllocationDiagnosticValue_def Let_def)
  next
    case False
    let ?n = "rune_boundary ?v 93"
    have "?n \<le> 93" by (rule rune_boundary_le)
    with False have "ValidString (take ?n ?v)"
      using rune_boundary_start [of ?v 93] by (intro ValidString_take_boundary v) auto
    then have "ValidString (take ?n ?v @ ''...'')" by (intro ValidString_append) simp_all
    with False show ?thesis by (simp add: compactAllocationDiagnosticValue_def Let_def)
  qed
qed

lemma with_status_count: "length (with_status st s) = length (filter (\<lambda>t. Status t = st) (GetAllTasks s))"
  by (simp add: with_status_def)

lemma ready_pending: "GetReadyTasksWithResolver (Tasks s) r =
    filter (\<lambda>t. DependenciesCompleteWithResolver t (Tasks s) r) (with_status StatusPending s)"
  by (simp add: GetReadyTasksWithResolver_def with_status_def GetAllTasks_def conj_commute)

lemma length_ranked:
  "length (rankedReadyTasks s r caps False) = length (GetReadyTasksWithResolver (Tasks s) r)"
  "length (rankedReadyTasks s r caps True)
     = length (filter (\<lambda>t. matchesCapabilities (Capabilities t) caps) (GetReadyTasksWithResolver (Tasks s) r))"
  by (simp_all add: rankedReadyTasks_def)

lemma four_statuses:
  "(\<forall>t \<in> set ts. Status t \<le> StatusBlocked) \<Longrightarrow>
    length (filter (\<lambda>t. Status t = StatusPending) ts) + length (filter (\<lambda>t. Status t = StatusInProgress) ts)
    + length (filter (\<lambda>t. Status t = StatusBlocked) ts) + length (filter (\<lambda>t. Status t = StatusCompleted) ts) = length ts"
proof (induction ts)
  case (Cons t ts)
  have "Status t = 0 \<or> Status t = 1 \<or> Status t = 2 \<or> Status t = 3"
  proof -
    have "unat (Status t) \<le> 3" using Cons.prems by (simp add: word_le_nat_alt)
    then have "unat (Status t) \<in> {0, 1, 2, 3}" by auto
    then show ?thesis by (auto simp: word_unat_eq_iff)
  qed
  with Cons show ?case by auto
qed simp

lemma filter_not_length: "length (filter P xs) + length (filter (\<lambda>x. \<not> P x) xs) = length xs"
  by (induction xs) auto

text \<open>The counts of a diagnosis, one by one, and where its lists of values come from.\<close>

lemma diagnosis_counts:
  fixes s r actor caps f m
  defines "q \<equiv> d_Queue (diagnoseAllocation s r actor caps f m)"
  shows "q_Pending q = length (with_status StatusPending s)"
    and "q_Ready q = length (rankedReadyTasks s r caps False)"
    and "q_CompatibleReady q = length (rankedReadyTasks s r caps f)"
    and "q_DependencyBlocked q
           = length (filter (\<lambda>t. \<not> DependenciesCompleteWithResolver t (Tasks s) r) (with_status StatusPending s))"
    and "q_CapabilityMismatch q = q_Ready q - q_CompatibleReady q"
    and "q_InProgress q = length (with_status StatusInProgress s)"
    and "q_Blocked q = length (with_status StatusBlocked s)"
    and "q_Completed q = length (with_status StatusCompleted s)"
  by (simp_all add: q_def diagnoseAllocation_def Let_def case_prod_unfold)

lemma diagnosis_values:
  fixes s r actor caps f m
  defines "d \<equiv> diagnoseAllocation s r actor caps f m"
  shows "v \<in> {d_RequestedCapabilities d, q_DependencyBlockers (d_Queue d), q_MissingCapabilities (d_Queue d)}
    \<Longrightarrow> \<exists>xs. v = fst (boundedAllocationDiagnosticValues xs)"
  unfolding d_def by (simp add: diagnoseAllocation_def Let_def case_prod_unfold) blast

lemma bounded_values:
  "length (fst (boundedAllocationDiagnosticValues xs)) \<le> 20"
  "v \<in> set (fst (boundedAllocationDiagnosticValues xs)) \<Longrightarrow> length v \<le> 96 \<and> ValidString v"
  using compact_length compact_valid by (auto simp only: boundedAllocationDiagnosticValues_def Let_def
      fst_conv length_map length_take set_map min.cobounded2)

section \<open>Properties\<close>

text \<open>
  The order of allocation is deterministic. The list of ready tasks is sorted by priority,
  highest first, and then by ID, and it does not depend on the order in which Go happens to
  iterate over the map of tasks.
\<close>

theorem rankedReadyTasks_deterministic:
  assumes "tasks_wf (Tasks s)" "all_valid (Tasks s)" "mset (Tasks s') = mset (Tasks s)"
  shows "rankedReadyTasks s' resolver caps f = rankedReadyTasks s resolver caps f
    \<and> sorted_wrt ranks_before (rankedReadyTasks s resolver caps f)"
proof
  have m: "map_of (Tasks s) = map_of (Tasks s')"
    using assms(1,3) by (intro map_of_perm) (auto simp: tasks_wf_def)
  have "mset (GetReadyTasksWithResolver (Tasks s) resolver) = mset (GetReadyTasksWithResolver (Tasks s') resolver)"
    using assms(3) deps_complete_cong [OF m]
    by (simp add: GetReadyTasksWithResolver_def DependenciesCompleteWithResolver_def mset_filter)
  then have "mset (selected (Tasks s) resolver caps f) = mset (selected (Tasks s') resolver caps f)"
    by (simp add: selected_def mset_filter)
  then show "rankedReadyTasks s' resolver caps f = rankedReadyTasks s resolver caps f"
    unfolding rankedReadyTasks_selected
    using ranking.go_sort_order_irrelevant [OF selected_rankable [OF assms(1,2)]] by metis
  show "sorted_wrt ranks_before (rankedReadyTasks s resolver caps f)"
    unfolding rankedReadyTasks_selected by (rule ranking.go_sort_sorted [OF selected_rankable [OF assms(1,2)]])
qed

lemma rankedReadyTasks_deterministic_witness:
  "rankedReadyTasks (two_store\<lparr>Tasks := rev (Tasks two_store)\<rparr>) None [] True = rankedReadyTasks two_store None [] True"
  using rankedReadyTasks_deterministic [OF store_inv_wf [OF two_store_inv] store_inv_all_valid [OF two_store_inv],
      of "two_store\<lparr>Tasks := rev (Tasks two_store)\<rparr>"] by simp

text \<open>
  C14: an acquisition hands out the best task and only to a worker with room. When a new
  acquisition succeeds, the task was ready and compatible with the worker's capabilities, every
  other such task ranks after it, the worker was below its load limit, and in the new store it
  alone has changed: it is leased to the worker, and the receipt of the request records it.
\<close>

theorem acquire_best:
  assumes "store_inv s" "acquireFromStore clk now actor rid fp ttl caps maxLoad resolver s = (Inr (t', False), s')"
  shows "\<exists>t. t \<in> set (GetReadyTasksWithResolver (Tasks s) resolver) \<and> matchesCapabilities (Capabilities t) caps
    \<and> (\<forall>x \<in> set (GetReadyTasksWithResolver (Tasks s) resolver).
         matchesCapabilities (Capabilities x) caps \<and> x \<noteq> t \<longrightarrow> ranks_before t x)
    \<and> (actor \<noteq> [] \<and> maxLoad > 0 \<longrightarrow> int (computeAgentLoad s actor) < maxLoad)
    \<and> t' = acquired_task clk actor (millis now + ttl_millis ttl) t
    \<and> map_of (Tasks s') = (map_of (Tasks s))(ID t \<mapsto> t')
    \<and> map_option receipt_Task (map_of (Acquisitions s') rid) = Some t'"
  using assms(2) store_inv_wf [OF assms(1)] store_inv_all_valid [OF assms(1)]
proof (cases rule: acquire_cases)
  case (fresh t s1)
  let ?sel = "selected (Tasks s) resolver caps True"
  have wf: "tasks_wf (Tasks s)" using assms(1) by (rule store_inv_wf)
  note order = selected_rankable [OF wf store_inv_all_valid [OF assms(1)], of resolver caps True]
  have sel: "set ?sel = {x \<in> set (GetReadyTasksWithResolver (Tasks s) resolver). matchesCapabilities (Capabilities x) caps}"
    by (auto simp: selected_def)
  obtain ts where ts: "go_sort ranks_before ?sel = t # ts"
    using fresh(3,4) unfolding rankedReadyTasks_selected by (cases "go_sort ranks_before ?sel") auto
  then have t: "t \<in> set ?sel" by (metis list.set_intros(1) set_go_sort)
  have best: "ranks_before t x" if "x \<in> set ?sel" "x \<noteq> t" for x
    using ranking.go_sort_head_least [OF order ts] that by blast
  have "int (computeAgentLoad s actor) < maxLoad" if "actor \<noteq> [] \<and> maxLoad > 0"
  proof -
    have "filter (owned_by actor) (with_status StatusInProgress s)
        = filter (\<lambda>task. Owner task = actor \<and> Status task = StatusInProgress) (GetAllTasks s)"
      using that by (auto simp: with_status_def owned_by_def intro!: filter_cong)
    then show ?thesis
      using fresh(2) that by (auto simp: diagnoseAllocation_def Let_def computeAgentLoad_def split: prod.splits if_splits)
  qed
  then show ?thesis
    using t best sel fresh(6-8,10) by (intro exI [of _ t]) (auto simp: updates_def)
qed (use assms in auto)

text \<open>
  Acquisition is idempotent. Once a request has been granted, repeating it in any later store
  that still has its receipt returns the same task and changes nothing; the same request ID with
  other parameters is refused and changes nothing either.
\<close>

theorem acquire_idempotent:
  assumes "acquireFromStore clk now actor rid fp ttl caps maxLoad resolver s = (Inr (t, False), s')"
    "store_inv s" "map_of (Acquisitions s2) rid = map_of (Acquisitions s') rid"
  shows "acquireFromStore clk2 now2 actor2 rid fp ttl2 caps2 maxLoad2 resolver2 s2 = (Inr (t, True), s2)
    \<and> (fp2 \<noteq> fp \<longrightarrow> (\<exists>err. acquireFromStore clk2 now2 actor2 rid fp2 ttl2 caps2 maxLoad2 resolver2 s2 = (Inl err, s2)
         \<and> errors_Is err errAcquireRequestConflict))"
  using assms(1) store_inv_wf [OF assms(2)] store_inv_all_valid [OF assms(2)]
proof (cases rule: acquire_cases)
  case (fresh x s1)
  then have "map_of (Acquisitions s2) rid = Some \<lparr>receipt_RequestID = rid, receipt_Operation = ''acquire.v1'',
      receipt_Fingerprint = fp, receipt_Actor = actor, receipt_Created = millis now, receipt_Task = t\<rparr>"
    using assms(3) by simp
  then show ?thesis by (simp add: acquireFromStore_def cloneTask_def)
qed auto

definition grant :: "(Task \<times> bool) res" where
  "grant = acquireFromStore 0 0 ''ann'' ''r1'' ''fp'' 60000000000 [] 2 None two_store"

lemma two_store_ready: "GetReadyTasksWithResolver (Tasks two_store) None = [first_task]"
proof -
  have "Tasks two_store = [(1, first_task), (2, second_task)]"
    by (simp add: two_store_def one_store_def insert_new_def AddTask_def AddEvent_def modify_task_def put_task_def
        added_task_def Let_def)
  then show ?thesis by (simp add: GetReadyTasksWithResolver_def DependenciesCompleteWithResolver_def)
qed

lemma two_store_grants:
  "\<exists>t' s'. acquireFromStore clk now actor rid fp ttl [] maxLoad None two_store = (Inr (t', False), s')"
proof -
  have ready: "rankedReadyTasks two_store None [] True = [first_task]"
    by (simp add: rankedReadyTasks_def two_store_ready plain_task_def matchesCapabilities_def go_sort_def)
  have "with_status StatusInProgress two_store = []"
    using GetAllTasks_set [OF store_inv_wf [OF two_store_inv]]
    by (auto simp: with_status_def filter_empty_conv two_store split: if_splits)
  then have "d_Reason (diagnoseAllocation two_store None actor [] True maxLoad) \<noteq> allocationWorkerAtCapacity"
    by (auto simp: diagnoseAllocation_def Let_def case_prod_unfold)
  moreover have "Acquisitions two_store = []"
    using insert_new_effect(5) [OF surjective_pairing] by (simp add: two_store_def one_store_def)
  ultimately show ?thesis using ready by (auto simp: acquireFromStore_def Let_def)
qed

lemma grant_fresh: "\<exists>t' s'. grant = (Inr (t', False), s')"
  unfolding grant_def by (rule two_store_grants)

lemma acquire_best_witness:
  "\<exists>t' s'. grant = (Inr (t', False), s') \<and> t' = acquired_task 0 ''ann'' 60000 first_task"
proof -
  obtain t' s' where g: "grant = (Inr (t', False), s')" using grant_fresh by blast
  have ttl: "millis 0 + ttl_millis 60000000000 = 60000"
    by (simp add: millis_def ttl_millis_def UnixMilli_def Milliseconds_def)
  show ?thesis
    using acquire_best [OF two_store_inv g [unfolded grant_def]] g by (auto simp: two_store_ready ttl)
qed

lemma acquire_idempotent_witness:
  "\<exists>t s'. grant = (Inr (t, False), s')
    \<and> acquireFromStore 9 9 ''ann'' ''r1'' ''fp'' 60000000000 [] 2 None s' = (Inr (t, True), s')"
proof -
  obtain t' s' where g: "grant = (Inr (t', False), s')" using grant_fresh by blast
  from acquire_idempotent [OF g [unfolded grant_def] two_store_inv, of s'] g show ?thesis by blast
qed

text \<open>
  The explanation of an allocation adds up and stays small. The counts of a diagnosis
  partition the tasks of a sound store, ready and waiting tasks partition the pending ones, and
  every list of values in it has at most 20 entries of at most 96 bytes of valid UTF-8, whatever
  bytes the store holds.
\<close>

theorem diagnosis_adds_up:
  assumes "store_inv s"
  shows "let d = diagnoseAllocation s resolver actor caps f maxLoad; q = d_Queue d in
      q_Pending q + q_InProgress q + q_Blocked q + q_Completed q = length (Tasks s)
    \<and> q_Ready q + q_DependencyBlocked q = q_Pending q
    \<and> q_CompatibleReady q + q_CapabilityMismatch q = q_Ready q
    \<and> (\<forall>vs \<in> {d_RequestedCapabilities d, q_DependencyBlockers q, q_MissingCapabilities q}.
         length vs \<le> 20 \<and> (\<forall>v \<in> set vs. length v \<le> 96 \<and> ValidString v))"
proof -
  have st: "\<forall>t \<in> set (GetAllTasks s). Status t \<le> StatusBlocked"
  proof
    fix t assume "t \<in> set (GetAllTasks s)"
    then have "map_of (Tasks s) (ID t) = Some t" using GetAllTasks_set [OF store_inv_wf [OF assms]] by blast
    then show "Status t \<le> StatusBlocked" using store_invD(2) [OF assms] by (auto simp: task_sound_def)
  qed
  have all: "length (GetAllTasks s) = length (Tasks s)" by (simp add: GetAllTasks_def)
  note sum = four_statuses [OF st, unfolded all]
  have part: "length (filter (\<lambda>t. DependenciesCompleteWithResolver t (Tasks s) resolver) xs)
      + length (filter (\<lambda>t. \<not> DependenciesCompleteWithResolver t (Tasks s) resolver) xs) = length xs" for xs
    by (rule filter_not_length)
  have le: "length (rankedReadyTasks s resolver caps True) \<le> length (rankedReadyTasks s resolver caps False)"
    by (simp add: length_ranked)
  let ?d = "diagnoseAllocation s resolver actor caps f maxLoad"
  let ?vss = "{d_RequestedCapabilities ?d, q_DependencyBlockers (d_Queue ?d), q_MissingCapabilities (d_Queue ?d)}"
  have small: "\<forall>vs \<in> ?vss. length vs \<le> 20 \<and> (\<forall>v \<in> set vs. length v \<le> 96 \<and> ValidString v)"
  proof
    fix vs assume "vs \<in> ?vss"
    then obtain xs where "vs = fst (boundedAllocationDiagnosticValues xs)" using diagnosis_values by blast
    then show "length vs \<le> 20 \<and> (\<forall>v \<in> set vs. length v \<le> 96 \<and> ValidString v)"
      using bounded_values by blast
  qed
  have "length (rankedReadyTasks s resolver caps f) \<le> length (rankedReadyTasks s resolver caps False)"
    using le by (cases f) simp_all
  then show ?thesis
    unfolding Let_def using sum part [of "with_status StatusPending s"]
    by (intro conjI small) (simp_all add: diagnosis_counts with_status_count length_ranked(1) ready_pending)
qed

lemma diagnosis_adds_up_witness:
  "q_Pending (d_Queue (diagnoseAllocation two_store None ''ann'' [''go''] True 0)) \<le> length (Tasks two_store)"
  using diagnosis_adds_up [OF two_store_inv, of None "''ann''" "[''go'']" True 0] by (simp add: Let_def)

end
