(* ===== verification/Protocol.thy ===== *)
theory Protocol
  imports Allocation
begin

text \<open>
  The values the program publishes (\<^verbatim>\<open>protocol.go\<close> and \<^verbatim>\<open>mutation_receipt.go\<close>): the rendering of a
  task, an event and a log entry, the summary of blocked work, and the bounded receipt of a
  mutation. A \<^verbatim>\<open>nil\<close> slice is replaced by an empty one in the code; the model has one value for
  both. An optional (pointer) field is an \<open>option\<close>.
\<close>

abbreviation "protocolVersion \<equiv> ''1''"

section \<open>Tasks, events, log entries\<close>

record protocolLogEntry =
  pl_Timestamp :: string
  pl_Agent :: string
  pl_Message :: string

record protocolEvent =
  pe_ID :: u64
  pe_Timestamp :: string
  pe_Type :: EventType
  pe_TaskID :: u64
  pe_Actor :: string
  pe_Data :: "(string, string) gomap"

record protocolMetadata =
  meta_Capabilities :: "string list"
  meta_Owner :: string
  meta_LeaseExpires :: "string option"
  meta_Priority :: float32
  meta_Lineage :: string
  meta_Tags :: "string list"
  meta_RetryCount :: u32
  meta_LastError :: string
  meta_BlockReason :: string
  meta_Log :: "protocolLogEntry list"
  meta_Extra :: "(string, string) gomap"

record protocolTask =
  p_ID :: u64
  p_Title :: string
  p_Status :: string
  p_Depends :: "string list"
  p_Created :: string
  p_Completed :: "string option"
  p_Metadata :: protocolMetadata

record taskEnvelope =
  te_SchemaVersion :: string
  te_Task :: protocolTask

record acquireEnvelope =
  ae_SchemaVersion :: string
  ae_RequestID :: string
  ae_Replayed :: bool
  ae_Task :: protocolTask

record tasksEnvelope =
  tse_SchemaVersion :: string
  tse_Tasks :: "protocolTask list"

definition statusName :: "TaskStatus \<Rightarrow> string" where
  "statusName status =
     (if status = StatusPending then ''pending''
      else if status = StatusInProgress then ''in_progress''
      else if status = StatusCompleted then ''completed''
      else if status = StatusBlocked then ''blocked''
      else ''unknown'')"

definition newProtocolLogEntry :: "LogEntry \<Rightarrow> protocolLogEntry" where
  "newProtocolLogEntry e =
     \<lparr>pl_Timestamp = formatTimestamp (log_Timestamp e), pl_Agent = log_Agent e, pl_Message = log_Message e\<rparr>"

definition newProtocolEvent :: "Event \<Rightarrow> protocolEvent" where
  "newProtocolEvent e =
     \<lparr>pe_ID = event_ID e, pe_Timestamp = formatTimestamp (event_Timestamp e), pe_Type = event_Type e,
      pe_TaskID = event_TaskID e, pe_Actor = event_Actor e, pe_Data = event_Data e\<rparr>"

text \<open>A time stamp that is 0 is absent.\<close>

definition optional_timestamp :: "u64 \<Rightarrow> string option" where
  "optional_timestamp ms = (if ms > 0 then Some (formatTimestamp ms) else None)"

definition newProtocolTask :: "Task \<Rightarrow> protocolTask" where
  "newProtocolTask task =
     \<lparr>p_ID = ID task, p_Title = Title task, p_Status = statusName (Status task), p_Depends = Depends task,
      p_Created = formatTimestamp (Created task), p_Completed = optional_timestamp (Completed task),
      p_Metadata =
        \<lparr>meta_Capabilities = Capabilities task, meta_Owner = Owner task,
         meta_LeaseExpires = optional_timestamp (LeaseExpires task), meta_Priority = Priority task,
         meta_Lineage = Lineage task, meta_Tags = Tags task, meta_RetryCount = RetryCount task,
         meta_LastError = LastError task, meta_BlockReason = BlockReason task,
         meta_Log = map newProtocolLogEntry (Log task), meta_Extra = Extra task\<rparr>\<rparr>"

section \<open>The next envelope\<close>

record availableTask =
  av_ID :: u64
  av_Title :: string
  av_Priority :: float32
  av_Capabilities :: "string list"
  av_Reason :: string

record blockedSummary =
  bs_Count :: nat
  bs_PrimaryBlockers :: "string list"

record nextEnvelope =
  ne_SchemaVersion :: string
  ne_AvailableTasks :: "availableTask list"
  ne_BlockedSummary :: blockedSummary
  ne_Allocation :: allocationDiagnostics

definition newBlockedSummaryWithResolver :: "tasks \<Rightarrow> DependencyResolver \<Rightarrow> blockedSummary" where
  "newBlockedSummaryWithResolver ts resolver =
     (let blocked = GetBlockedTasksWithResolver ts resolver;
          counted = remdups (map fst blocked @ map fst (filter (\<lambda>(_, task). Status task = StatusBlocked) ts));
          unique = remdups (concat (map snd blocked))
      in \<lparr>bs_Count = length counted, bs_PrimaryBlockers = sort_Strings unique\<rparr>)"

definition newBlockedSummary :: "tasks \<Rightarrow> blockedSummary" where
  "newBlockedSummary ts = newBlockedSummaryWithResolver ts None"

section \<open>Mutation receipts\<close>

abbreviation "maxMutationReceiptIDs \<equiv> (20 :: nat)"

record mutationTaskReference =
  tr_ID :: u64
  tr_Status :: string
  tr_LeaseExpires :: "string option"
  tr_RetryCount :: u32

record mutationAffected =
  af_Total :: nat
  af_IDs :: "u64 list"
  af_Truncated :: bool

record mutationDetailFollowUp =
  fu_Available :: bool
  fu_CLI :: string
  fu_NativeMethod :: string
  fu_MCPTool :: string
  fu_Guidance :: string

record mutationReceipt =
  mr_SchemaVersion :: string
  mr_Operation :: string
  mr_Task :: "mutationTaskReference option"
  mr_Affected :: mutationAffected
  mr_Replayed :: "bool option"
  mr_DetailFollowUp :: mutationDetailFollowUp

definition newMutationAffected :: "u64 list \<Rightarrow> mutationAffected" where
  "newMutationAffected ids =
     (let sorted = go_sort (<) (remdups ids);
          total = length sorted;
          bounded = (if total > maxMutationReceiptIDs then take maxMutationReceiptIDs sorted else sorted)
      in \<lparr>af_Total = total, af_IDs = bounded, af_Truncated = total > length bounded\<rparr>)"

definition taskDetailFollowUp :: "u64 \<Rightarrow> mutationDetailFollowUp" where
  "taskDetailFollowUp i =
     \<lparr>fu_Available = True, fu_CLI = ''todo cat '' @ fmt_id i @ '' --json'', fu_NativeMethod = ''todo.cat'',
      fu_MCPTool = ''terminal_todo_cat'', fu_Guidance = []\<rparr>"

definition lineageDetailFollowUp :: "u64 \<Rightarrow> mutationDetailFollowUp" where
  "lineageDetailFollowUp i =
     \<lparr>fu_Available = True, fu_CLI = ''todo lineage '' @ fmt_id i @ '' --json'', fu_NativeMethod = ''todo.lineage'',
      fu_MCPTool = [],
      fu_Guidance = ''MCP callers can read the parent with terminal_todo_cat, then inspect its dependency task IDs''\<rparr>"

definition graphDetailFollowUp :: mutationDetailFollowUp where
  "graphDetailFollowUp =
     \<lparr>fu_Available = True, fu_CLI = ''todo status --json'', fu_NativeMethod = ''todo.status'',
      fu_MCPTool = ''terminal_todo_status'', fu_Guidance = []\<rparr>"

definition newMutationReceipt :: "string \<Rightarrow> u64 list \<Rightarrow> mutationReceipt" where
  "newMutationReceipt operation ids =
     \<lparr>mr_SchemaVersion = protocolVersion, mr_Operation = operation, mr_Task = None,
      mr_Affected = newMutationAffected ids, mr_Replayed = None,
      mr_DetailFollowUp =
        \<lparr>fu_Available = False, fu_CLI = [], fu_NativeMethod = [], fu_MCPTool = [],
         fu_Guidance = ''full detail is unavailable after this mutation; inspect or export state before running it''\<rparr>\<rparr>"

definition newMutationTaskReference :: "Task \<Rightarrow> mutationTaskReference" where
  "newMutationTaskReference task =
     \<lparr>tr_ID = ID task, tr_Status = statusName (Status task), tr_LeaseExpires = optional_timestamp (LeaseExpires task),
      tr_RetryCount = RetryCount task\<rparr>"

definition newTaskMutationReceipt :: "string \<Rightarrow> Task \<Rightarrow> mutationReceipt" where
  "newTaskMutationReceipt operation task =
     (newMutationReceipt operation [ID task])
       \<lparr>mr_Task := Some (newMutationTaskReference task), mr_DetailFollowUp := taskDetailFollowUp (ID task)\<rparr>"

definition newProtocolTaskMutationReceipt :: "string \<Rightarrow> protocolTask \<Rightarrow> mutationReceipt" where
  "newProtocolTaskMutationReceipt operation task =
     (newMutationReceipt operation [p_ID task])
       \<lparr>mr_Task := Some \<lparr>tr_ID = p_ID task, tr_Status = p_Status task,
                         tr_LeaseExpires = meta_LeaseExpires (p_Metadata task),
                         tr_RetryCount = meta_RetryCount (p_Metadata task)\<rparr>,
        mr_DetailFollowUp := taskDetailFollowUp (p_ID task)\<rparr>"

text \<open>The loop keeps the first occurrence of every ID.\<close>

fun unique_ids :: "u64 list \<Rightarrow> u64 set \<Rightarrow> u64 list" where
  "unique_ids [] seen = []"
| "unique_ids (i # rest) seen = (if i \<in> seen then unique_ids rest seen else i # unique_ids rest (insert i seen))"

definition uniqueTaskIDs :: "u64 list \<Rightarrow> u64 list" where
  "uniqueTaskIDs ids = unique_ids ids {}"

section \<open>Facts\<close>

lemma statusName_inject:
  "a \<le> StatusBlocked \<Longrightarrow> b \<le> StatusBlocked \<Longrightarrow> statusName a = statusName b \<longleftrightarrow> a = b"
proof -
  have cases: "w = 0 \<or> w = 1 \<or> w = 2 \<or> w = 3" if "w \<le> 3" for w :: u8
  proof -
    have "unat w \<le> 3" using that by (simp add: word_le_nat_alt)
    then have "unat w \<in> {0, 1, 2, 3}" by auto
    then show ?thesis by (auto simp: word_unat_eq_iff)
  qed
  assume "a \<le> StatusBlocked" "b \<le> StatusBlocked"
  then show ?thesis using cases [of a] cases [of b] by (auto simp: statusName_def)
qed

text \<open>The two ways to a receipt agree: from the task, and from its published form.\<close>

lemma receipt_of_protocol_task:
  "newProtocolTaskMutationReceipt op (newProtocolTask t) = newTaskMutationReceipt op t"
  by (simp add: newProtocolTaskMutationReceipt_def newTaskMutationReceipt_def newProtocolTask_def
      newMutationTaskReference_def)

lemma unique_ids_set: "set (unique_ids ids seen) = set ids - seen"
  by (induction ids seen rule: unique_ids.induct) auto

lemma unique_ids_distinct: "distinct (unique_ids ids seen)"
  by (induction ids seen rule: unique_ids.induct) (auto simp: unique_ids_set)

lemma uniqueTaskIDs_props [simp]: "set (uniqueTaskIDs ids) = set ids" "distinct (uniqueTaskIDs ids)"
  by (simp_all add: uniqueTaskIDs_def unique_ids_set unique_ids_distinct)

section \<open>Properties\<close>

text \<open>
  A receipt is bounded and deterministic: it names at most 20 tasks, in increasing order,
  without repetition and among those affected; it counts all of them; when it leaves some out it
  says so, and leaves out the larger IDs; and it does not depend on the order or the repetitions of
  the IDs it is made from.
\<close>

theorem receipt_bounded:
  assumes "set ids' = set ids"
  shows "let a = newMutationAffected ids in
      length (af_IDs a) = min maxMutationReceiptIDs (af_Total a)
    \<and> af_Total a = card (set ids)
    \<and> sorted_wrt (<) (af_IDs a) \<and> set (af_IDs a) \<subseteq> set ids
    \<and> af_Truncated a = (af_Total a > maxMutationReceiptIDs)
    \<and> list_all (\<lambda>i. list_all (\<lambda>j. i < j) (filter (\<lambda>j. j \<notin> set (af_IDs a)) ids)) (af_IDs a)
    \<and> newMutationAffected ids' = a"
proof -
  let ?s = "go_sort (<) (remdups ids)"
  have sorted: "sorted_wrt (<) ?s" by (rule u64_order.go_sort_sorted) auto
  have set: "set ?s = set ids" by simp
  have "mset (remdups ids') = mset (remdups ids)" using assms set_eq_iff_mset_remdups_eq by metis
  then have same: "go_sort (<) (remdups ids') = ?s"
    by (intro u64_order.go_sort_order_irrelevant) auto
  have larger: "i < j" if "i \<in> set (take 20 ?s)" "j \<in> set ids" "j \<notin> set (take 20 ?s)" for i j
  proof -
    have "j \<in> set (drop 20 ?s)" using that(2,3) set by (metis append_take_drop_id set_append Un_iff)
    moreover have "sorted_wrt (<) (take 20 ?s @ drop 20 ?s)" using sorted by simp
    ultimately show ?thesis using that(1) unfolding sorted_wrt_append by blast
  qed
  have take: "(if length ?s > 20 then take 20 ?s else ?s) = take 20 ?s" by simp
  have unfold: "newMutationAffected xs = \<lparr>af_Total = length ?s, af_IDs = take 20 ?s, af_Truncated = length ?s > 20\<rparr>"
    if "go_sort (<) (remdups xs) = ?s" for xs
    using that take by (auto simp: newMutationAffected_def Let_def min_def)
  show ?thesis
    using sorted set_take_subset [of 20 ?s] larger unfold [OF refl] unfold [OF same]
    by (auto simp: Let_def list_all_iff sorted_wrt_take length_remdups_card_conv)
qed

lemma receipt_bounded_witness:
  "af_IDs (newMutationAffected [5, 3, 5]) = [3, 5] \<and> newMutationAffected [3, 5] = newMutationAffected [5, 3, 5]"
proof -
  have "set [3, 5] = set [5, 3, 5 :: u64]" by auto
  from receipt_bounded [OF this] show ?thesis by (simp add: Let_def newMutationAffected_def go_sort_def)
qed

end
