(* ===== verification/EventLog.thy ===== *)
theory EventLog
  imports Protocol
begin

text \<open>
  Reading and trimming the event log: the bounded pages of \<^verbatim>\<open>event_protocol.go\<close> with their cursor
  and retention gap, and the compaction of \<^verbatim>\<open>cmd_compact.go\<close>. The main results are about the two
  together: a reader that follows the cursor gets every retained event once, and what compaction
  took away is exactly what the page reports as a gap.
\<close>

section \<open>Pages\<close>

abbreviation "defaultEventPageLimit \<equiv> (100 :: int)"
abbreviation "maxEventPageLimit \<equiv> (1000 :: int)"

record eventsParams =
  ep_Since :: u64
  ep_Limit :: "int option"
  ep_Page :: bool

record eventRetentionGap =
  gap_From :: u64
  gap_Through :: u64

record eventCursor =
  RequestedSince :: u64
  NextSince :: u64
  OldestAvailable :: u64
  LatestEventID :: u64
  HasMore :: bool
  HistoryGap :: bool
  RetentionGap :: "eventRetentionGap option"

record eventsEnvelope =
  ee_SchemaVersion :: string
  ee_Events :: "protocolEvent list"
  ee_Limit :: int
  ee_Returned :: nat
  ee_Cursor :: eventCursor

definition eventPageLimit :: "int option \<Rightarrow> goerr + int" where
  "eventPageLimit val =
     (case val of
        None \<Rightarrow> Inr defaultEventPageLimit
      | Some v \<Rightarrow>
          if v < 1 \<or> v > maxEventPageLimit
          then Inl (Errorf ''limit must be between 1 and %d'' [ArgInt maxEventPageLimit] [])
          else Inr v)"

text \<open>\<^verbatim>\<open>sort.Search\<close>: the binary search between \<open>i\<close> and \<open>j\<close>.\<close>

function search_between :: "(nat \<Rightarrow> bool) \<Rightarrow> nat \<Rightarrow> nat \<Rightarrow> nat" where
  "search_between f i j =
     (if i < j then (let h = (i + j) div 2 in if \<not> f h then search_between f (h + 1) j else search_between f i h)
      else i)"
  by pat_completeness auto
termination by (relation "measure (\<lambda>(f, i, j). j - i)") auto

declare search_between.simps [simp del]

definition sort_Search :: "nat \<Rightarrow> (nat \<Rightarrow> bool) \<Rightarrow> nat" where
  "sort_Search n f = search_between f 0 n"

definition retention_gap :: "Event list \<Rightarrow> nat \<Rightarrow> u64 \<Rightarrow> u64 \<Rightarrow> eventRetentionGap option" where
  "retention_gap es start after latest =
     (if after < 18446744073709551615 then
        (let missingFrom = after + 1
         in if start < length es \<and> event_ID (es ! start) > missingFrom
            then Some \<lparr>gap_From = missingFrom, gap_Through = event_ID (es ! start) - 1\<rparr>
            else if start = length es \<and> latest \<ge> missingFrom
            then Some \<lparr>gap_From = missingFrom, gap_Through = latest\<rparr>
            else None)
      else None)"

definition buildEventPage :: "TaskStore \<Rightarrow> u64 \<Rightarrow> nat \<Rightarrow> eventsEnvelope" where
  "buildEventPage s after limit =
     (let es = go_sort (\<lambda>a b. event_ID a < event_ID b) (Events s);
          oldest = (if length es > 0 then event_ID (es ! 0) else 0);
          latest = (if NextEventID s > 0 then NextEventID s - 1 else 0);
          start = sort_Search (length es) (\<lambda>i. event_ID (es ! i) > after);
          end = (if start + limit > length es then length es else start + limit);
          selected = take (end - start) (drop start es);
          gap = retention_gap es start after latest
      in \<lparr>ee_SchemaVersion = protocolVersion, ee_Events = map newProtocolEvent selected, ee_Limit = int limit,
          ee_Returned = length selected,
          ee_Cursor =
            \<lparr>RequestedSince = after, NextSince = (if length selected > 0 then event_ID (last selected) else after),
             OldestAvailable = oldest, LatestEventID = latest, HasMore = end < length es,
             HistoryGap = (gap \<noteq> None), RetentionGap = gap\<rparr>\<rparr>)"

section \<open>Compaction\<close>

record compactOptions =
  KeepEvents :: "int option"
  ReceiptsBefore :: duration
  DryRun :: bool

record compactResult =
  EventsRemoved :: int
  ReceiptsRemoved :: nat
  cr_DryRun :: bool

definition receipt_stale :: "TaskStore \<Rightarrow> u64 \<Rightarrow> AcquisitionReceipt \<Rightarrow> bool" where
  "receipt_stale s cutoff receipt \<longleftrightarrow>
     \<not> receipt_Created receipt \<ge> cutoff
     \<and> (case map_of (Tasks s) (ID (receipt_Task receipt)) of
          Some task \<Rightarrow> \<not> Status task \<noteq> StatusCompleted
        | None \<Rightarrow> True)"

text \<open>The two halves of \<^verbatim>\<open>compactTaskStore\<close>: the events, then the receipts.\<close>

definition compact_events :: "compactOptions \<Rightarrow> bool \<Rightarrow> TaskStore \<Rightarrow> int \<times> TaskStore" where
  "compact_events options apply' s =
     (case KeepEvents options of
        Some keep \<Rightarrow>
          if int (length (Events s)) > keep
          then (let removed = int (length (Events s)) - keep
                in (removed, if apply' then s\<lparr>Events := drop (nat removed) (Events s)\<rparr> else s))
          else (0, s)
      | None \<Rightarrow> (0, s))"

definition compact_receipts :: "compactOptions \<Rightarrow> bool \<Rightarrow> gotime \<Rightarrow> TaskStore \<Rightarrow> nat \<times> TaskStore" where
  "compact_receipts options apply' now s =
     (if ReceiptsBefore options > 0
      then (let cutoff = millis (now - ReceiptsBefore options);
                stale = (\<lambda>(_, receipt). receipt_stale s cutoff receipt)
            in (length (filter stale (Acquisitions s)),
                if apply' then s\<lparr>Acquisitions := filter (\<lambda>e. \<not> stale e) (Acquisitions s)\<rparr> else s))
      else (0, s))"

definition compactTaskStore :: "TaskStore \<Rightarrow> compactOptions \<Rightarrow> bool \<Rightarrow> gotime \<Rightarrow> compactResult \<times> TaskStore" where
  "compactTaskStore s options apply' now =
     (let (eventsRemoved, s) = compact_events options apply' s;
          (receiptsRemoved, s) = compact_receipts options apply' now s
      in (\<lparr>EventsRemoved = eventsRemoved, ReceiptsRemoved = receiptsRemoved, cr_DryRun = DryRun options\<rparr>, s))"

section \<open>Binary search\<close>

lemma search_between_spec:
  assumes "i \<le> j" "\<forall>a b. a \<le> b \<longrightarrow> b < j \<longrightarrow> f a \<longrightarrow> f b" "\<forall>k < i. \<not> f k"
  shows "search_between f i j \<le> j \<and> (\<forall>k < search_between f i j. \<not> f k)
    \<and> (search_between f i j < j \<longrightarrow> f (search_between f i j))"
  using assms
proof (induction f i j rule: search_between.induct)
  case (1 f i j)
  show ?case
  proof (cases "i < j")
    case False
    with 1(3-) show ?thesis by (subst (1 2 3 4) search_between.simps) auto
  next
    case True
    define h where "h = (i + j) div 2"
    have h: "i \<le> h" "h < j" using True by (auto simp: h_def)
    show ?thesis
    proof (cases "f h")
      case hit: True
      have eq: "search_between f i j = search_between f i h"
        using True hit by (subst search_between.simps) (simp add: h_def Let_def)
      have "search_between f i h \<le> h \<and> (\<forall>k < search_between f i h. \<not> f k)
          \<and> (search_between f i h < h \<longrightarrow> f (search_between f i h))"
      proof (rule 1(2) [OF True h_def])
        show "\<not> \<not> f h" using hit by simp
        show "i \<le> h" by (rule h(1))
        show "\<forall>a b. a \<le> b \<longrightarrow> b < h \<longrightarrow> f a \<longrightarrow> f b" using 1(4) h(2) by (meson less_trans)
        show "\<forall>k < i. \<not> f k" by (rule 1(5))
      qed
      then show ?thesis unfolding eq using h hit by (cases "search_between f i h = h") auto
    next
      case miss: False
      have eq: "search_between f i j = search_between f (h + 1) j"
        using True miss by (subst search_between.simps) (simp add: h_def Let_def)
      have "\<forall>k < h + 1. \<not> f k"
      proof (intro allI impI)
        fix k assume "k < h + 1"
        then have "k \<le> h" by simp
        then show "\<not> f k" using miss 1(4) h(2) by blast
      qed
      moreover have "h + 1 \<le> j" using h(2) by simp
      ultimately show ?thesis unfolding eq by (intro 1(1) [OF True h_def miss] 1(4))
    qed
  qed
qed

lemma search_sorted:
  fixes after :: u64 and es :: "Event list"
  assumes "sorted_wrt (<) (map event_ID es)"
  defines "n \<equiv> sort_Search (length es) (\<lambda>i. event_ID (es ! i) > after)"
  shows "take n es = filter (\<lambda>e. event_ID e \<le> after) es" "drop n es = filter (\<lambda>e. event_ID e > after) es"
    "n \<le> length es"
proof -
  have mono: "event_ID (es ! a) \<le> event_ID (es ! b)" if "a \<le> b" "b < length es" for a b
    using assms(1) that by (cases "a = b") (auto simp: sorted_wrt_map sorted_wrt_iff_nth_less less_imp_le)
  have "\<forall>a b. a \<le> b \<longrightarrow> b < length es \<longrightarrow> event_ID (es ! a) > after \<longrightarrow> event_ID (es ! b) > after"
  proof (intro allI impI)
    fix a b assume "a \<le> b" "b < length es" "event_ID (es ! a) > after"
    then show "event_ID (es ! b) > after" using mono [of a b] by (metis less_le_trans)
  qed
  from search_between_spec [OF le0 this]
  have "n \<le> length es \<and> (\<forall>k < n. \<not> event_ID (es ! k) > after) \<and> (n < length es \<longrightarrow> event_ID (es ! n) > after)"
    unfolding n_def sort_Search_def by simp
  then have n: "n \<le> length es" "\<forall>k < n. \<not> event_ID (es ! k) > after" "n < length es \<Longrightarrow> event_ID (es ! n) > after"
    by blast+
  show "n \<le> length es" by (rule n(1))
  have low: "\<forall>e \<in> set (take n es). event_ID e \<le> after"
    using n(1,2) by (auto simp: in_set_conv_nth not_less)
  have high: "\<forall>e \<in> set (drop n es). event_ID e > after"
  proof
    fix e assume "e \<in> set (drop n es)"
    then obtain k where k: "k < length es - n" "e = es ! (n + k)" by (auto simp: in_set_conv_nth)
    then have "after < event_ID (es ! n)" by (intro n(3)) simp
    also have "\<dots> \<le> event_ID (es ! (n + k))" using k(1) by (intro mono) simp_all
    finally show "event_ID e > after" by (simp add: k(2))
  qed
  have split: "filter P es = filter P (take n es) @ filter P (drop n es)" for P
    by (metis append_take_drop_id filter_append)
  show "take n es = filter (\<lambda>e. event_ID e \<le> after) es"
    unfolding split using low high by (simp add: filter_True filter_False not_le [symmetric])
  show "drop n es = filter (\<lambda>e. event_ID e > after) es"
    unfolding split using low high by (simp add: filter_True filter_False not_less)
qed

section \<open>Pages of a sorted log\<close>

lemma shift_all_sorted_id:
  "sorted_wrt (\<lambda>a b. \<not> lt b a) (rev acc @ xs) \<Longrightarrow> shift_all lt xs acc = rev xs @ acc"
proof (induction xs arbitrary: acc)
  case (Cons x xs)
  then have "shift_left lt x acc = x # acc" by (cases acc) (auto simp: sorted_wrt_append)
  then show ?case using Cons.IH [of "x # acc"] Cons.prems by simp
qed simp

lemma go_sort_sorted_id: "sorted_wrt (\<lambda>a b. \<not> lt b a) xs \<Longrightarrow> go_sort lt xs = xs"
  by (simp add: go_sort_def shift_all_sorted_id)

lemma events_sorted_id:
  "sorted_wrt (<) (map event_ID es) \<Longrightarrow> go_sort (\<lambda>a b. event_ID a < event_ID b) es = (es :: Event list)"
  by (rule go_sort_sorted_id) (auto simp: sorted_wrt_map intro: sorted_wrt_mono_rel [rotated])

definition unread :: "TaskStore \<Rightarrow> u64 \<Rightarrow> Event list" where
  "unread s after = filter (\<lambda>e. event_ID e > after) (Events s)"

lemma page_sorted:
  fixes s after limit
  assumes "events_wf s"
  defines "page \<equiv> buildEventPage s after limit"
  shows "ee_Events page = map newProtocolEvent (take limit (unread s after))"
    and "HasMore (ee_Cursor page) \<longleftrightarrow> limit < length (unread s after)"
    and "NextSince (ee_Cursor page)
           = (if take limit (unread s after) = [] then after else event_ID (last (take limit (unread s after))))"
proof -
  let ?es = "Events s" and ?n = "sort_Search (length (Events s)) (\<lambda>i. event_ID (Events s ! i) > after)"
  have sorted: "sorted_wrt (<) (map event_ID ?es)" using assms(1) by (simp add: events_wf_def)
  note search = search_sorted [OF sorted, where after = after]
  have selected: "take ((if ?n + limit > length ?es then length ?es else ?n + limit) - ?n) (drop ?n ?es)
      = take limit (unread s after)"
    using search(3) by (auto simp: unread_def search(2) [symmetric])
  have len: "length (unread s after) = length ?es - ?n"
    unfolding unread_def search(2) [symmetric] by simp
  show "ee_Events page = map newProtocolEvent (take limit (unread s after))"
    "NextSince (ee_Cursor page)
       = (if take limit (unread s after) = [] then after else event_ID (last (take limit (unread s after))))"
    by (simp_all only: page_def buildEventPage_def Let_def events_sorted_id [OF sorted] selected eventsEnvelope.simps
        eventCursor.simps length_greater_0_conv if_not_P if_P split: if_split) auto
  show "HasMore (ee_Cursor page) \<longleftrightarrow> limit < length (unread s after)"
    unfolding len by (auto simp: page_def buildEventPage_def Let_def events_sorted_id [OF sorted])
qed

text \<open>A reader that follows the cursor, for at most \<open>fuel\<close> pages.\<close>

fun read_pages :: "nat \<Rightarrow> nat \<Rightarrow> TaskStore \<Rightarrow> u64 \<Rightarrow> protocolEvent list option" where
  "read_pages 0 limit s after = None"
| "read_pages (Suc fuel) limit s after =
     (let page = buildEventPage s after limit
      in if HasMore (ee_Cursor page)
         then map_option (\<lambda>rest. ee_Events page @ rest) (read_pages fuel limit s (NextSince (ee_Cursor page)))
         else Some (ee_Events page))"

lemma unread_after_page:
  assumes "events_wf s" "0 < limit" "limit < length (unread s after)"
  shows "unread s (event_ID (last (take limit (unread s after)))) = drop limit (unread s after)"
proof -
  let ?u = "unread s after"
  have sorted: "sorted_wrt (\<lambda>a b. event_ID a < event_ID b) ?u"
    using assms(1) by (simp add: unread_def events_wf_def sorted_wrt_map sorted_wrt_filter)
  define x where "x = last (take limit ?u)"
  have ne: "take limit ?u \<noteq> []" using assms(2,3) by auto
  then obtain ys where ys: "take limit ?u = ys @ [x]" unfolding x_def by (metis append_butlast_last_id)
  have parts: "?u = ys @ x # drop limit ?u" using ys by (metis append.assoc append_Cons append_Nil append_take_drop_id)
  have x: "x \<in> set ?u" by (subst parts) simp
  then have "after < event_ID x" by (simp add: unread_def)
  then have "unread s (event_ID x) = filter (\<lambda>e. event_ID e > event_ID x) ?u"
    by (auto simp: unread_def intro: filter_cong)
  also have "\<dots> = filter (\<lambda>e. event_ID e > event_ID x) ys @ filter (\<lambda>e. event_ID e > event_ID x) (drop limit ?u)"
    by (subst parts) simp
  also have "filter (\<lambda>e. event_ID e > event_ID x) ys = []"
    using sorted by (subst (asm) parts) (auto simp: sorted_wrt_append filter_empty_conv)
  also have "filter (\<lambda>e. event_ID e > event_ID x) (drop limit ?u) = drop limit ?u"
    using sorted by (subst (asm) parts) (auto simp: sorted_wrt_append filter_id_conv)
  finally show ?thesis by (simp add: x_def)
qed

lemma read_pages_complete:
  "events_wf s \<Longrightarrow> 0 < limit \<Longrightarrow> length (unread s after) < fuel \<Longrightarrow>
    read_pages fuel limit s after = Some (map newProtocolEvent (unread s after))"
proof (induction fuel arbitrary: after)
  case (Suc fuel)
  note page = page_sorted [OF Suc.prems(1), of after limit]
  show ?case
  proof (cases "limit < length (unread s after)")
    case False
    then show ?thesis by (simp add: Let_def page)
  next
    case True
    let ?x = "event_ID (last (take limit (unread s after)))"
    have rest: "unread s ?x = drop limit (unread s after)"
      by (rule unread_after_page [OF Suc.prems(1,2) True])
    then have "read_pages fuel limit s ?x = Some (map newProtocolEvent (drop limit (unread s after)))"
      using Suc.IH [of ?x] Suc.prems True by simp
    then show ?thesis
      using True Suc.prems(2) by (auto simp: Let_def page map_append [symmetric] simp del: map_append)
  qed
qed simp

section \<open>Contiguous logs\<close>

text \<open>
  Events get consecutive IDs, and the log is only ever trimmed at its old end: it holds the IDs
  from some point up to the last one given out.
\<close>

definition log_inv :: "TaskStore \<Rightarrow> bool" where
  "log_inv s \<longleftrightarrow>
     length (Events s) < unat (NextEventID s)
     \<and> map (\<lambda>e. unat (event_ID e)) (Events s) = [unat (NextEventID s) - length (Events s) ..< unat (NextEventID s)]"

lemma log_inv_ids:
  assumes "log_inv s"
  shows "unat ` event_ID ` set (Events s) = {unat (NextEventID s) - length (Events s) ..< unat (NextEventID s)}"
proof -
  have "set (map (\<lambda>e. unat (event_ID e)) (Events s)) = {unat (NextEventID s) - length (Events s) ..< unat (NextEventID s)}"
    using assms by (simp add: log_inv_def)
  then show ?thesis by (simp add: image_image)
qed

lemma log_inv_member:
  "log_inv s \<Longrightarrow> i \<in> event_ID ` set (Events s) \<longleftrightarrow>
    unat (NextEventID s) - length (Events s) \<le> unat i \<and> i < NextEventID s"
  using log_inv_ids [of s] by (auto simp: word_less_nat_alt image_iff set_eq_iff word_unat_eq_iff)

lemma log_inv_events_wf:
  assumes "log_inv s"
  shows "events_wf s"
proof -
  have "sorted_wrt (<) (map (\<lambda>e. unat (event_ID e)) (Events s))"
    using assms by (simp only: log_inv_def sorted_wrt_upt)
  then have "sorted_wrt (<) (map event_ID (Events s))" by (simp add: sorted_wrt_map word_less_nat_alt)
  moreover have "event_ID e < NextEventID s" if "e \<in> set (Events s)" for e
    using log_inv_member [OF assms] that by blast
  ultimately show ?thesis by (simp add: events_wf_def)
qed

lemma log_inv_new: "log_inv NewTaskStore"
  by (simp add: log_inv_def NewTaskStore_def)

lemma log_inv_AddEvent:
  assumes "log_inv s" "unat (NextEventID s) + 1 < 2 ^ 64"
  shows "log_inv (AddEvent clk ty i actor data s)"
proof -
  have n: "unat (NextEventID s + 1) = unat (NextEventID s) + 1" using assms(2) by (intro unat_succ) simp
  show ?thesis
    using assms(1) by (auto simp: log_inv_def AddEvent_def n Suc_diff_le upt_Suc_append [symmetric] simp del: upt_Suc)
qed

lemma log_inv_drop:
  assumes "log_inv s" "k \<le> length (Events s)"
  shows "log_inv (s\<lparr>Events := drop k (Events s)\<rparr>)"
  using assms by (auto simp: log_inv_def drop_map drop_upt simp flip: drop_map)

fun gap_ids :: "eventRetentionGap option \<Rightarrow> u64 set" where
  "gap_ids None = {}"
| "gap_ids (Some g) = {gap_From g .. gap_Through g}"

lemma unat_minus_1: "x \<noteq> 0 \<Longrightarrow> unat (x - 1 :: u64) = unat x - 1"
  by (simp add: unat_minus_one)

lemma unat_pos: "x \<noteq> 0 \<longleftrightarrow> 0 < unat (x :: u64)"
  by (simp add: unat_gt_0)

lemma u64_bound: "unat (x :: u64) \<le> 18446744073709551615"
proof -
  have "unat x < 2 ^ LENGTH(64)" by (rule unsigned_less)
  then show ?thesis by simp
qed

lemma retention_gap_exact:
  assumes "log_inv s"
  shows "gap_ids (RetentionGap (ee_Cursor (buildEventPage s after limit)))
    = {i. after < i \<and> i < NextEventID s \<and> i \<notin> event_ID ` set (Events s)}"
proof -
  let ?es = "Events s" and ?len = "length (Events s)" and ?next = "NextEventID s"
  define lo where "lo = unat ?next - ?len"
  define n where "n = sort_Search ?len (\<lambda>i. event_ID (?es ! i) > after)"
  define latest where "latest = (if ?next > 0 then ?next - 1 else 0)"
  have len: "?len < unat ?next" using assms by (simp add: log_inv_def)
  have wf: "events_wf s" by (rule log_inv_events_wf [OF assms])
  have sorted: "sorted_wrt (<) (map event_ID ?es)" using wf by (simp add: events_wf_def)
  have nth: "unat (event_ID (?es ! k)) = lo + k" if "k < ?len" for k
  proof -
    have "map (\<lambda>e. unat (event_ID e)) ?es ! k = [lo ..< unat ?next] ! k"
      using assms by (simp add: log_inv_def lo_def)
    then show ?thesis using that len by (simp add: lo_def)
  qed
  have n: "n \<le> ?len" unfolding n_def by (rule search_sorted(3) [OF sorted])
  have below: "lo + k \<le> unat after" if "k < n" for k
  proof -
    have "?es ! k \<in> set (take n ?es)" using that n by (auto simp: in_set_conv_nth)
    then have "event_ID (?es ! k) \<le> after" using search_sorted(1) [OF sorted, of after] unfolding n_def by simp
    then show ?thesis using nth [of k] that n by (simp add: word_le_nat_alt)
  qed
  have above: "unat after < lo + n" if "n < ?len"
  proof -
    have "?es ! n \<in> set (drop n ?es)" using that by (metis Cons_nth_drop_Suc list.set_intros(1))
    then have "after < event_ID (?es ! n)" using search_sorted(2) [OF sorted, of after] unfolding n_def by simp
    then show ?thesis using nth that by (simp add: word_less_nat_alt)
  qed
  have missing: "after < i \<and> i < ?next \<and> i \<notin> event_ID ` set ?es \<longleftrightarrow> unat after < unat i \<and> unat i < lo" for i
    using log_inv_member [OF assms, of i] len by (auto simp: word_less_nat_alt lo_def)
  then have missing_set: "{i. after < i \<and> i < ?next \<and> i \<notin> event_ID ` set ?es}
      = {i. unat after < unat i \<and> unat i < lo}" by blast
  have page: "RetentionGap (ee_Cursor (buildEventPage s after limit)) = retention_gap ?es n after latest"
    by (simp add: buildEventPage_def Let_def events_sorted_id [OF sorted] n_def latest_def)
  have next_pos: "?next \<noteq> 0" using len by (auto simp: unat_pos)
  have unat_latest: "unat latest = unat ?next - 1"
    using next_pos by (simp add: latest_def unat_minus_1 word_gt_0)
  have max: "unat after < 18446744073709551615 \<or> unat after = 18446744073709551615"
    using u64_bound [of after] by auto
  show ?thesis
  proof (cases "after < 18446744073709551615")
    case False
    then have "unat after = 18446744073709551615" using max by (simp add: word_less_nat_alt)
    then have "{i. after < i \<and> i < ?next \<and> i \<notin> event_ID ` set ?es} = {}"
      unfolding missing_set using u64_bound by (auto simp: not_less)
    moreover have "retention_gap ?es n after latest = None" using False by (simp add: retention_gap_def)
    ultimately show ?thesis by (simp only: page gap_ids.simps)
  next
    case True
    have suc: "unat (after + 1) = unat after + 1"
      using True by (intro unat_succ) (simp add: word_less_nat_alt)
    consider (seen) "0 < n" | (early) "n = 0" "0 < ?len" | (empty) "?len = 0" using n by linarith
    then show ?thesis
    proof cases
      case seen
      have "lo + (n - 1) \<le> unat after" using below [of "n - 1"] seen by simp
      then have none: "retention_gap ?es n after latest = None"
        using nth seen n unat_latest len
        by (auto simp: retention_gap_def Let_def word_less_nat_alt word_le_nat_alt suc lo_def)
      have "lo \<le> unat after" using below [of 0] seen by simp
      then show ?thesis by (unfold missing_set page none, auto)
    next
      case early
      have first: "unat (event_ID (?es ! 0)) = lo" "unat after < lo" using nth [of 0] above early by simp_all
      then have "unat (event_ID (?es ! 0) - 1) = lo - 1" by (subst unat_minus_1) (auto simp: unat_pos)
      then show ?thesis
        using early first True
        unfolding missing_set page
        by (auto simp: retention_gap_def Let_def word_less_nat_alt word_le_nat_alt suc)
    next
      case empty
      then have "lo = unat ?next" "n = 0" using n by (auto simp: lo_def)
      then show ?thesis
        using empty True unat_latest
        unfolding missing_set page
        by (auto simp: retention_gap_def Let_def word_less_nat_alt word_le_nat_alt suc)
    qed
  qed
qed

lemma retention_gap_nonempty: "retention_gap es start after latest = Some g \<Longrightarrow> gap_From g \<le> gap_Through g"
proof -
  have "b \<le> e - 1" if "b < e" for b e :: u64
    using that by (simp add: word_le_nat_alt word_less_nat_alt unat_minus_1 unat_pos)
  then show "retention_gap es start after latest = Some g \<Longrightarrow> gap_From g \<le> gap_Through g"
    by (auto simp: retention_gap_def Let_def split: if_splits)
qed

section \<open>What compaction keeps\<close>

lemma compact_tasks:
  "(r, s') = compactTaskStore s options apply' now \<Longrightarrow>
    Tasks s' = Tasks s \<and> NextID s' = NextID s \<and> NextEventID s' = NextEventID s"
  by (auto simp: compactTaskStore_def compact_events_def compact_receipts_def Let_def
      split: option.splits if_splits)

lemma receipt_stale_Events [simp]: "receipt_stale (s\<lparr>Events := es\<rparr>) = receipt_stale s"
  by (intro ext) (simp add: receipt_stale_def)

lemma compact_acquisitions:
  "Acquisitions (snd (compact_receipts options True now s))
     = filter (\<lambda>(_, r). \<not> (ReceiptsBefore options > 0 \<and> receipt_stale s (millis (now - ReceiptsBefore options)) r))
         (Acquisitions s)"
  "Events (snd (compact_receipts options True now s)) = Events s"
  by (auto simp: compact_receipts_def Let_def intro: filter_cong)

lemma compact_events_fields:
  "Acquisitions (snd (compact_events options a s)) = Acquisitions s"
  "Tasks (snd (compact_events options a s)) = Tasks s"
  "Events (snd (compact_events options True s)) = drop (nat (fst (compact_events options True s))) (Events s)"
  "fst (compact_events options a s) = (case KeepEvents options of None \<Rightarrow> 0
     | Some keep \<Rightarrow> max 0 (int (length (Events s)) - keep))"
  by (auto simp: compact_events_def Let_def split: option.splits)

section \<open>Properties\<close>

text \<open>
  C15: a reader that follows the cursor gets everything. With any page size, starting anywhere,
  reading page after page from \<open>NextSince\<close> while \<open>HasMore\<close> holds comes to an end, after at most one
  page more than there are events, and delivers exactly the retained events after the start, in
  order, each once.
\<close>

theorem reader_gets_everything:
  assumes "events_wf s" "0 < limit" "length (Events s) < fuel"
  shows "read_pages fuel limit s after
    = Some (map newProtocolEvent (filter (\<lambda>e. event_ID e > after) (Events s)))"
proof -
  have "length (unread s after) \<le> length (Events s)" by (simp add: unread_def)
  with assms(3) have "length (unread s after) < fuel" by simp
  from read_pages_complete [OF assms(1,2) this] show ?thesis by (simp only: unread_def)
qed

text \<open>
  C16: the retention gap of a page is exact. It names precisely the IDs of the events after the
  requested position that were given out and are no longer in the log; there is no gap when none
  is missing.
\<close>

theorem page_gap_exact:
  assumes "log_inv s"
  defines "missing \<equiv> \<lambda>after. {i. after < i \<and> i < NextEventID s \<and> i \<notin> event_ID ` set (Events s)}"
  shows "missing after = (case RetentionGap (ee_Cursor (buildEventPage s after limit)) of
         None \<Rightarrow> {} | Some g \<Rightarrow> {gap_From g .. gap_Through g})
    \<and> HistoryGap (ee_Cursor (buildEventPage s after limit)) = (missing after \<noteq> {})"
proof
  let ?c = "ee_Cursor (buildEventPage s after limit)"
  have exact: "missing after = gap_ids (RetentionGap ?c)"
    using retention_gap_exact [OF assms(1), of after limit] by (simp only: missing_def)
  show "missing after = (case RetentionGap ?c of None \<Rightarrow> {} | Some g \<Rightarrow> {gap_From g .. gap_Through g})"
    unfolding exact by (simp split: option.split)
  have "gap_From g \<le> gap_Through g" if "RetentionGap ?c = Some g" for g
    using that by (auto simp: buildEventPage_def Let_def intro: retention_gap_nonempty)
  then have "gap_ids (RetentionGap ?c) = {} \<longleftrightarrow> RetentionGap ?c = None"
    by (cases "RetentionGap ?c") auto
  then show "HistoryGap ?c = (missing after \<noteq> {})"
    unfolding exact by (simp add: buildEventPage_def Let_def)
qed


section \<open>Witnesses\<close>

text \<open>Two tasks were created in the sample store; its two events are still there.\<close>

lemma insert_new_log:
  assumes "log_inv s" "unat (NextEventID s) + 1 < 2 ^ 64"
  shows "log_inv (snd (insert_new clk p deps s))" "NextEventID (snd (insert_new clk p deps s)) = NextEventID s + 1"
proof -
  obtain t s1 where add: "AddTask clk (n_Title p) deps s = (t, s1)" by (metis surj_pair)
  then have s1: "Events s1 = Events s" "NextEventID s1 = NextEventID s" by (auto simp: AddTask_def Let_def)
  let ?s2 = "modify_task (ID t) (\<lambda>t. t\<lparr>Priority := n_Priority p, Capabilities := n_Capabilities p, Tags := n_Tags p\<rparr>) s1"
  have s2: "Events ?s2 = Events s" "NextEventID ?s2 = NextEventID s" by (simp_all add: modify_task_def s1 put_task_fields split: option.split)
  have eq: "snd (insert_new clk p deps s) = AddEvent clk EventTaskCreated (ID t) [] [(''title'', n_Title p)] ?s2"
    by (simp add: insert_new_def add Let_def)
  have "log_inv ?s2" using assms(1) s2 by (simp add: log_inv_def)
  then show "log_inv (snd (insert_new clk p deps s))" unfolding eq using assms(2) s2 by (intro log_inv_AddEvent) simp_all
  show "NextEventID (snd (insert_new clk p deps s)) = NextEventID s + 1"
    unfolding eq using s2 by (simp add: AddEvent_fields)
qed

lemma two_store_log: "log_inv two_store" "NextEventID two_store = 3" "length (Events two_store) = 2"
proof -
  have one: "log_inv one_store" "NextEventID one_store = 2"
    unfolding one_store_def using insert_new_log [OF log_inv_new] by simp_all
  show "log_inv two_store" "NextEventID two_store = 3"
    unfolding two_store_def using insert_new_log [OF one(1)] one(2) by simp_all
  show "length (Events two_store) = 2"
    by (simp add: two_store_def one_store_def insert_new_def AddTask_def AddEvent_def Let_def modify_task_def put_task_def
        NewTaskStore_def split: option.split)
qed

lemma reader_gets_everything_witness:
  "read_pages 3 1 two_store 0 = Some (map newProtocolEvent (filter (\<lambda>e. event_ID e > 0) (Events two_store)))"
  by (rule reader_gets_everything) (simp_all add: log_inv_events_wf two_store_log)

text \<open>Keep one event of two: the older one is dropped, and a reader from the start is told.\<close>

definition keep_one :: compactOptions where
  "keep_one = \<lparr>KeepEvents = Some 1, ReceiptsBefore = 0, DryRun = False\<rparr>"

definition trimmed :: "compactResult \<times> TaskStore" where
  "trimmed = compactTaskStore two_store keep_one True 0"


lemma page_gap_exact_witness: "HistoryGap (ee_Cursor (buildEventPage two_store 0 1)) = False"
proof -
  have "{i. 0 < i \<and> i < NextEventID two_store \<and> i \<notin> event_ID ` set (Events two_store)} = {}"
    using log_inv_member [OF two_store_log(1)] two_store_log(2,3) by (auto simp: word_less_nat_alt)
  then show ?thesis using page_gap_exact [OF two_store_log(1), of 0 1] by simp
qed

end
