(* ===== verification/Project.thy ===== *)
theory Project
  imports EventLog
begin

text \<open>
  The small documents beside the store: the agent registry (\<^verbatim>\<open>agents.go\<close>), the repository
  registry with the resolver of foreign dependencies (\<^verbatim>\<open>repository.go\<close>), the project configuration
  (\<^verbatim>\<open>config.go\<close>), and what acquisition reads from them (\<^verbatim>\<open>newAcquirePlan\<close> and \<^verbatim>\<open>parseLeaseTTL\<close> of
  \<^verbatim>\<open>coordination_ops.go\<close>, \<^verbatim>\<open>agentAllocationProfile\<close> of \<^verbatim>\<open>allocation.go\<close>). A document is represented by
  what \<^verbatim>\<open>json.Unmarshal\<close> makes of its file; the failures of the calls that read and write it are in
  the environment.
\<close>

section \<open>\<^verbatim>\<open>time.ParseDuration\<close>\<close>

fun leadingInt :: "nat \<Rightarrow> string \<Rightarrow> (nat \<times> string) option" where
  "leadingInt x [] = Some (x, [])"
| "leadingInt x (c # cs) =
     (if is_digit c
      then (if x > 2 ^ 63 div 10 then None
            else (let y = x * 10 + (of_char c - 48) in if y > 2 ^ 63 then None else leadingInt y cs))
      else Some (x, c # cs))"

fun leadingFraction :: "nat \<Rightarrow> nat \<Rightarrow> bool \<Rightarrow> string \<Rightarrow> nat \<times> nat \<times> string" where
  "leadingFraction x scale overflow [] = (x, scale, [])"
| "leadingFraction x scale overflow (c # cs) =
     (if is_digit c
      then (let y = x * 10 + (of_char c - 48)
            in if overflow \<or> x > (2 ^ 63 - 1) div 10 \<or> y > 2 ^ 63 then leadingFraction x scale True cs
               else leadingFraction y (scale * 10) False cs)
      else (x, scale, c # cs))"

definition duration_unit :: "string \<Rightarrow> nat option" where
  "duration_unit u = map_of
     [(''ns'', 1), (''us'', 1000), (micro_sign @ ''s'', 1000), ([char_of (0xCE :: nat), char_of (0xBC :: nat)] @ ''s'', 1000),
      (''ms'', 1000000), (''s'', 1000000000), (''m'', 60000000000), (''h'', 3600000000000)] u"

text \<open>
  The fraction of a unit is taken exactly, where Go multiplies in \<^verbatim>\<open>float64\<close>. The sum is kept in 64 bits.
\<close>

definition two63 :: nat where
  "two63 = 2 ^ 63"

definition duration_step :: "nat \<Rightarrow> string \<Rightarrow> (nat \<times> string) option" where
  "duration_step d s =
     (if \<not> (hd s = CHR ''.'' \<or> is_digit (hd s)) then None
      else (case leadingInt 0 s of
              None \<Rightarrow> None
            | Some (v, s1) \<Rightarrow>
                (let pre = length s1 \<noteq> length s;
                     dot = s1 \<noteq> [] \<and> hd s1 = CHR ''.'';
                     (f, scale, s2) = (if dot then leadingFraction 0 1 False (tl s1) else (0, 1, s1));
                     post = dot \<and> length s2 \<noteq> length (tl s1);
                     u = takeWhile (\<lambda>c. c \<noteq> CHR ''.'' \<and> \<not> is_digit c) s2
                 in if \<not> pre \<and> \<not> post then None
                    else if u = [] then None
                    else (case duration_unit u of
                            None \<Rightarrow> None
                          | Some unit \<Rightarrow>
                              if v > two63 div unit then None
                              else (let v = v * unit + f * unit div scale
                                    in if v > two63 then None
                                       else (let d = (d + v) mod (2 * two63)
                                             in if d > two63 then None else Some (d, drop (length u) s2)))))))"

lemma leadingInt_length: "leadingInt x s = Some (v, r) \<Longrightarrow> length r \<le> length s"
  by (induction x s rule: leadingInt.induct) (auto simp: Let_def split: if_splits)

lemma leadingFraction_length: "leadingFraction x sc ov s = (f, sc', r) \<Longrightarrow> length r \<le> length s"
  by (induction x sc ov s rule: leadingFraction.induct) (auto simp: Let_def split: if_splits)

lemma duration_step_props:
  assumes "duration_step d s = Some (d', s')"
  shows "d' \<le> two63" "length s' < length s"
proof -
  from assms obtain v s1 where l: "leadingInt 0 s = Some (v, s1)"
    by (auto simp: duration_step_def split: if_splits option.splits)
  let ?dot = "s1 \<noteq> [] \<and> hd s1 = CHR ''.''"
  obtain f sc s2 where f: "(if ?dot then leadingFraction 0 1 False (tl s1) else (0, 1, s1)) = (f, sc, s2)"
    by (metis prod_cases3)
  have "length s2 \<le> length s"
    using leadingInt_length [OF l] leadingFraction_length [of 0 1 False "tl s1"] f by (auto split: if_splits)
  let ?u = "takeWhile (\<lambda>c. c \<noteq> CHR ''.'' \<and> \<not> is_digit c) s2"
  have r: "?u \<noteq> []" "s' = drop (length ?u) s2" "d' \<le> two63"
    using assms unfolding duration_step_def l f option.case prod.case Let_def
    by (auto split: if_splits option.splits)
  show "d' \<le> two63" by (rule r(3))
  have "0 < length ?u" "length ?u \<le> length s2" using r(1) by (auto simp: length_takeWhile_le)
  with \<open>length s2 \<le> length s\<close> show "length s' < length s" by (simp only: r(2) length_drop)
qed

function duration_parts :: "nat \<Rightarrow> string \<Rightarrow> nat option" where
  "duration_parts d s =
     (if s = [] then Some d
      else (case duration_step d s of None \<Rightarrow> None | Some (d, rest) \<Rightarrow> duration_parts d rest))"
  by pat_completeness auto
termination by (relation "measure (\<lambda>(d, s). length s)") (auto simp: duration_step_props)

declare duration_parts.simps [simp del]

lemma duration_parts_bound: "duration_parts d s = Some r \<Longrightarrow> d \<le> two63 \<Longrightarrow> r \<le> two63"
proof (induction d s rule: duration_parts.induct)
  case (1 d s)
  show ?case
  proof (cases "s = []")
    case True
    with 1(2,3) show ?thesis by (simp add: duration_parts.simps)
  next
    case False
    with 1(2) obtain d' rest where step: "duration_step d s = Some (d', rest)" "duration_parts d' rest = Some r"
      by (subst (asm) duration_parts.simps) (auto split: option.split_asm)
    show ?thesis by (rule 1(1) [OF False step(1) refl step(2) duration_step_props(1) [OF step(1)]])
  qed
qed

definition ParseDuration :: "string \<Rightarrow> duration option" where
  "ParseDuration s =
     (let signed = s \<noteq> [] \<and> (hd s = CHR ''-'' \<or> hd s = CHR ''+'');
          neg = signed \<and> hd s = CHR ''-'';
          s = (if signed then tl s else s)
      in if s = ''0'' then Some 0
         else if s = [] then None
         else (case duration_parts 0 s of
                 None \<Rightarrow> None
               | Some d \<Rightarrow> if neg then Some (- int d) else if d > two63 - 1 then None else Some (int d)))"

text \<open>A parsed duration fits into Go's 64-bit \<^verbatim>\<open>Duration\<close>.\<close>

lemma ParseDuration_range:
  assumes "ParseDuration s = Some d"
  shows "- (2 ^ 63) \<le> d \<and> d < 2 ^ 63"
proof -
  define t where "t = (if s \<noteq> [] \<and> (hd s = CHR ''-'' \<or> hd s = CHR ''+'') then tl s else s)"
  have "d = 0 \<or> (\<exists>r. duration_parts 0 t = Some r \<and> (d = - int r \<or> \<not> r > two63 - 1 \<and> d = int r))"
    using assms unfolding ParseDuration_def Let_def t_def [symmetric]
    by (auto split: if_split_asm option.split_asm)
  moreover have "r \<le> two63" if "duration_parts 0 t = Some r" for r
    using duration_parts_bound [OF that] by simp
  ultimately have "d = 0 \<or> (\<exists>r \<le> two63. d = - int r) \<or> (\<exists>r \<le> two63 - 1. d = int r)"
    by (auto simp: not_less)
  then show ?thesis by (auto simp: two63_def)
qed

lemma ParseDuration_samples:
  "ParseDuration ''15m'' = Some 900000000000" "ParseDuration ''1.5h'' = Some 5400000000000"
  "ParseDuration ''-2ms'' = Some (- 2000000)" "ParseDuration ''10'' = None" "ParseDuration [] = None"
  by (simp_all add: ParseDuration_def duration_parts.simps duration_step_def duration_unit_def is_digit_def two63_def
      Let_def micro_sign_def)

section \<open>Documents\<close>

datatype 'a json_file = JSONAbsent | JSONUnreadable goerr | JSONInvalid goerr | JSONHolds 'a

record json_env =
  j_Open_err :: "goerr option"
  j_Acquire_err :: "goerr option"
  j_Marshal_err :: "goerr option"
  j_CreateTemp_err :: "goerr option"
  j_Write_err :: "goerr option"
  j_Sync_err :: "goerr option"
  j_Close_err :: "goerr option"
  j_Rename_err :: "goerr option"
  j_SyncDir_err :: "goerr option"

definition no_json_errors :: json_env where
  "no_json_errors = \<lparr>j_Open_err = None, j_Acquire_err = None, j_Marshal_err = None, j_CreateTemp_err = None,
     j_Write_err = None, j_Sync_err = None, j_Close_err = None, j_Rename_err = None, j_SyncDir_err = None\<rparr>"

text \<open>
  The three documents are read, saved and updated by the same code. Saving writes a temporary file
  and renames it, so the document changes with the rename or not at all; \<open>msg\<close> is the message for a
  file that does not decode.
\<close>

definition load_json :: "'a \<Rightarrow> string \<Rightarrow> 'a json_file \<Rightarrow> goerr + 'a" where
  "load_json dflt msg f =
     (case f of
        JSONAbsent \<Rightarrow> Inr dflt
      | JSONUnreadable err \<Rightarrow> Inl err
      | JSONInvalid err \<Rightarrow> Inl (Errorf msg [] [err])
      | JSONHolds x \<Rightarrow> Inr x)"

definition save_json :: "json_env \<Rightarrow> 'a \<Rightarrow> 'a json_file \<Rightarrow> goerr option \<times> 'a json_file" where
  "save_json e x f =
     (case first_some [j_Marshal_err e, j_CreateTemp_err e, j_Write_err e, j_Sync_err e, j_Close_err e, j_Rename_err e] of
        Some err \<Rightarrow> (Some err, f)
      | None \<Rightarrow> (j_SyncDir_err e, JSONHolds x))"

definition update_json ::
  "('a json_file \<Rightarrow> goerr + 'a) \<Rightarrow> ('a \<Rightarrow> 'a json_file \<Rightarrow> goerr option \<times> 'a json_file) \<Rightarrow> json_env
    \<Rightarrow> ('a \<Rightarrow> goerr + 'a) \<Rightarrow> 'a json_file \<Rightarrow> goerr option \<times> 'a json_file" where
  "update_json load save e mutate f =
     (case first_some [j_Open_err e, j_Acquire_err e] of
        Some err \<Rightarrow> (Some err, f)
      | None \<Rightarrow>
          (case load f of
             Inl err \<Rightarrow> (Some err, f)
           | Inr x \<Rightarrow> (case mutate x of Inl err \<Rightarrow> (Some err, f) | Inr y \<Rightarrow> save y f)))"

text \<open>
  What the program relies on in each document: a saved value that is valid loads as it was saved,
  up to the defaults that saving fills in; what loads is valid; a failed save leaves the old
  document or the complete new one.
\<close>

locale json_document =
  fixes load :: "'a json_file \<Rightarrow> goerr + 'a"
    and save :: "json_env \<Rightarrow> 'a \<Rightarrow> 'a json_file \<Rightarrow> goerr option \<times> 'a json_file"
    and valid :: "'a \<Rightarrow> bool" and filled :: "'a \<Rightarrow> 'a"
  assumes load_valid: "load f = Inr x \<Longrightarrow> valid x"
    and save_load: "valid x \<Longrightarrow> save e x f = (None, f') \<Longrightarrow> load f' = Inr (filled x)"
    and save_fails: "valid x \<Longrightarrow> save e x f = (Some err, f') \<Longrightarrow> f' = f \<or> load f' = Inr (filled x)"
begin

lemma update_ok:
  assumes "update_json load (save e) e mutate f = (None, f')"
    and "\<And>x y. valid x \<Longrightarrow> mutate x = Inr y \<Longrightarrow> valid y"
  shows "\<exists>x y. load f = Inr x \<and> mutate x = Inr y \<and> load f' = Inr (filled y)"
  using assms by (auto simp: update_json_def dest: load_valid save_load split: option.splits sum.splits)

lemma update_failed:
  assumes "update_json load (save e) e mutate f = (Some err, f')"
    and "\<And>x y. valid x \<Longrightarrow> mutate x = Inr y \<Longrightarrow> valid y"
  shows "f' = f \<or> (\<exists>x y. load f = Inr x \<and> mutate x = Inr y \<and> load f' = Inr (filled y))"
  using assms by (auto simp: update_json_def dest: load_valid save_fails split: option.splits sum.splits)

lemma update_loads:
  assumes "load f = Inr x" "\<And>x y. valid x \<Longrightarrow> mutate x = Inr y \<Longrightarrow> valid y"
  shows "\<exists>y. load (snd (update_json load (save e) e mutate f)) = Inr y"
proof (cases "update_json load (save e) e mutate f")
  case (Pair r f')
  then show ?thesis
    using update_ok [of e mutate f f'] update_failed [of e mutate f _ f'] assms by (cases r) auto
qed

end

subsection \<open>Agents\<close>

record AgentCard =
  card_Name :: string
  card_Capabilities :: "string list"
  card_Description :: string
  card_MaxLoad :: int
  card_CreatedAt :: string
  card_LastSeen :: string

record AgentRegistry =
  reg_SchemaVersion :: string
  Agents :: "(string, AgentCard) gomap"

definition loadAgentRegistry :: "AgentRegistry json_file \<Rightarrow> goerr + AgentRegistry" where
  "loadAgentRegistry = load_json \<lparr>reg_SchemaVersion = ''1'', Agents = []\<rparr> ''invalid agent registry: %w''"

definition default_schema :: "AgentRegistry \<Rightarrow> AgentRegistry" where
  "default_schema registry =
     (if reg_SchemaVersion registry = [] then registry\<lparr>reg_SchemaVersion := ''1''\<rparr> else registry)"

definition saveAgentRegistry ::
  "json_env \<Rightarrow> AgentRegistry \<Rightarrow> AgentRegistry json_file \<Rightarrow> goerr option \<times> AgentRegistry json_file" where
  "saveAgentRegistry e registry f = save_json e (default_schema registry) f"

definition updateAgentRegistry ::
  "json_env \<Rightarrow> (AgentRegistry \<Rightarrow> goerr + AgentRegistry) \<Rightarrow> AgentRegistry json_file
    \<Rightarrow> goerr option \<times> AgentRegistry json_file" where
  "updateAgentRegistry e mutate f = update_json loadAgentRegistry (saveAgentRegistry e) e mutate f"

text \<open>The card of an agent, or what Go's map lookup gives for a missing key: the zero value.\<close>

definition new_card :: "string \<Rightarrow> string \<Rightarrow> AgentCard" where
  "new_card name now = \<lparr>card_Name = name, card_Capabilities = [], card_Description = [], card_MaxLoad = 0,
                        card_CreatedAt = now, card_LastSeen = []\<rparr>"

definition agent_card :: "AgentRegistry \<Rightarrow> string \<Rightarrow> AgentCard" where
  "agent_card registry actor =
     (case map_of (Agents registry) actor of Some c \<Rightarrow> c | None \<Rightarrow> new_card [] [])"

definition nowTimestamp :: "gotime \<Rightarrow> string" where
  "nowTimestamp clk =
     (let secs = clk div 1000000000;
          tod = nat (secs mod 86400)
      in case civil_of_days (secs div 86400) of (y, m, d) \<Rightarrow>
           year_string y @ ''-'' @ pad 2 m @ ''-'' @ pad 2 d @ ''T''
           @ pad 2 (tod div 3600) @ '':'' @ pad 2 (tod div 60 mod 60) @ '':'' @ pad 2 (tod mod 60)
           @ fraction 9 (nat (clk mod 1000000000)) @ ''Z'')"

definition touch_card :: "string \<Rightarrow> string \<Rightarrow> AgentRegistry \<Rightarrow> AgentRegistry" where
  "touch_card agentName now r =
     (let c = (case map_of (Agents r) agentName of Some c \<Rightarrow> c | None \<Rightarrow> new_card agentName now)
      in r\<lparr>Agents := AList.update agentName (c\<lparr>card_LastSeen := now\<rparr>) (Agents r)\<rparr>)"

definition touchAgent :: "json_env \<Rightarrow> gotime \<Rightarrow> string \<Rightarrow> AgentRegistry json_file \<Rightarrow> goerr option \<times> AgentRegistry json_file" where
  "touchAgent e clk agentName f = updateAgentRegistry e (\<lambda>r. Inr (touch_card agentName (nowTimestamp clk) r)) f"

definition agentAllocationProfile ::
  "AgentRegistry json_file \<Rightarrow> string \<Rightarrow> string list option \<Rightarrow> goerr + (string list \<times> int)" where
  "agentAllocationProfile f actor explicitCapabilities =
     (case loadAgentRegistry f of
        Inl err \<Rightarrow> Inl err
      | Inr registry \<Rightarrow>
          (let c = agent_card registry actor;
               capabilities = (case explicitCapabilities of None \<Rightarrow> card_Capabilities c | Some caps \<Rightarrow> caps)
           in Inr (capabilities, card_MaxLoad c)))"

interpretation agents: json_document loadAgentRegistry saveAgentRegistry "\<lambda>_. True" default_schema
  by unfold_locales
     (auto simp: loadAgentRegistry_def saveAgentRegistry_def load_json_def save_json_def split: option.splits)

subsection \<open>Linked repositories\<close>

record repositoryRegistry =
  Repositories :: "(string, string) gomap"

definition loadRepositoryRegistry :: "repositoryRegistry json_file \<Rightarrow> goerr + repositoryRegistry" where
  "loadRepositoryRegistry = load_json \<lparr>Repositories = []\<rparr> ''invalid repository registry: %w''"

definition saveRepositoryRegistry ::
  "json_env \<Rightarrow> repositoryRegistry \<Rightarrow> repositoryRegistry json_file \<Rightarrow> goerr option \<times> repositoryRegistry json_file" where
  "saveRepositoryRegistry e registry f = save_json e registry f"

definition updateRepositoryRegistry ::
  "json_env \<Rightarrow> (repositoryRegistry \<Rightarrow> goerr + repositoryRegistry) \<Rightarrow> repositoryRegistry json_file
    \<Rightarrow> goerr option \<times> repositoryRegistry json_file" where
  "updateRepositoryRegistry e mutate f = update_json loadRepositoryRegistry (saveRepositoryRegistry e) e mutate f"

interpretation repositories: json_document loadRepositoryRegistry saveRepositoryRegistry "\<lambda>_. True" "\<lambda>r. r"
  by unfold_locales
     (auto simp: loadRepositoryRegistry_def saveRepositoryRegistry_def load_json_def save_json_def split: option.splits)

text \<open>
  The live resolver. \<open>linked uri path\<close> is what \<^verbatim>\<open>store.LoadCurrent\<close> gives for the project at the
  registered path (relative ones are joined to the project root) when the reference is first asked
  for; the cache makes later answers to the same reference equal.
\<close>

type_synonym linked = "string \<Rightarrow> string \<Rightarrow> goerr + TaskStore"

definition resolve_foreign :: "linked \<Rightarrow> repositoryRegistry \<Rightarrow> string \<Rightarrow> bool" where
  "resolve_foreign linked registry uri =
     (case ParseTaskURI uri of
        Inl _ \<Rightarrow> False
      | Inr (repository, i) \<Rightarrow>
          if repository = ''local'' then False
          else (case map_of (Repositories registry) repository of
                  None \<Rightarrow> False
                | Some linkedPath \<Rightarrow>
                    (case linked uri linkedPath of
                       Inl _ \<Rightarrow> False
                     | Inr s \<Rightarrow> (case GetTask s i of Some task \<Rightarrow> Status task = StatusCompleted | None \<Rightarrow> False))))"

definition dependencyResolver :: "linked \<Rightarrow> repositoryRegistry json_file \<Rightarrow> string \<Rightarrow> bool" where
  "dependencyResolver linked f =
     (case loadRepositoryRegistry f of
        Inl _ \<Rightarrow> (\<lambda>_. False)
      | Inr registry \<Rightarrow> resolve_foreign linked registry)"

text \<open>The answers to the foreign references of the tasks, taken once.\<close>

definition resolved_answers :: "(string \<Rightarrow> bool) \<Rightarrow> Task list \<Rightarrow> (string, bool) gomap" where
  "resolved_answers live tasks =
     fold (\<lambda>dependency m. if ParseLocalID dependency = None then AList.update dependency (live dependency) m else m)
       (concat (map Depends tasks)) []"

definition snapshotDependencyResolver :: "(string \<Rightarrow> bool) \<Rightarrow> Task list \<Rightarrow> DependencyResolver" where
  "snapshotDependencyResolver live tasks =
     Some (\<lambda>uri. case map_of (resolved_answers live tasks) uri of Some b \<Rightarrow> b | None \<Rightarrow> False)"

lemma resolved_answers_fold:
  "map_of (fold (\<lambda>dependency m. if ParseLocalID dependency = None then AList.update dependency (live dependency) m else m)
      deps m0) uri
    = (if uri \<in> set deps \<and> ParseLocalID uri = None then Some (live uri) else map_of m0 uri)"
  by (induction deps arbitrary: m0) (auto simp: update_conv')

lemma snapshot_answers:
  "resolves (snapshotDependencyResolver live tasks) uri
    \<longleftrightarrow> (\<exists>t \<in> set tasks. uri \<in> set (Depends t)) \<and> ParseLocalID uri = None \<and> live uri"
  by (auto simp: snapshotDependencyResolver_def resolves_def resolved_answers_def resolved_answers_fold)

subsection \<open>Configuration\<close>

record ProjectConfig =
  DefaultTTL :: string
  DefaultPriority :: float32
  DefaultCapCaps :: string

definition defaultConfig :: ProjectConfig where
  "defaultConfig = \<lparr>DefaultTTL = ''15m'', DefaultPriority = f_half, DefaultCapCaps = []\<rparr>"

definition positive_duration :: "string \<Rightarrow> duration option" where
  "positive_duration s = (case ParseDuration s of Some d \<Rightarrow> if d \<le> 0 then None else Some d | None \<Rightarrow> None)"

definition config_ok :: "ProjectConfig \<Rightarrow> bool" where
  "config_ok cfg \<longleftrightarrow> positive_duration (DefaultTTL cfg) \<noteq> None \<and> validPriority (DefaultPriority cfg)"

definition loadConfig :: "ProjectConfig json_file \<Rightarrow> goerr + ProjectConfig" where
  "loadConfig f =
     (case f of
        JSONAbsent \<Rightarrow> Inr defaultConfig
      | JSONUnreadable err \<Rightarrow> Inl err
      | JSONInvalid err \<Rightarrow> Inl (Errorf ''invalid config: %w'' [] [err])
      | JSONHolds cfg \<Rightarrow>
          if positive_duration (DefaultTTL cfg) = None
          then Inl (Errorf ''invalid config: default_ttl must be a positive duration'' [] [])
          else if \<not> validPriority (DefaultPriority cfg)
          then Inl (Errorf ''invalid config: default_priority must be between 0 and 1'' [] [])
          else Inr cfg)"

definition saveConfig ::
  "json_env \<Rightarrow> ProjectConfig \<Rightarrow> ProjectConfig json_file \<Rightarrow> goerr option \<times> ProjectConfig json_file" where
  "saveConfig e cfg f = save_json e cfg f"

definition updateConfig ::
  "json_env \<Rightarrow> (ProjectConfig \<Rightarrow> goerr + ProjectConfig) \<Rightarrow> ProjectConfig json_file
    \<Rightarrow> goerr option \<times> ProjectConfig json_file" where
  "updateConfig e mutate f = update_json loadConfig (saveConfig e) e mutate f"

definition parseDefaultTTL :: "ProjectConfig \<Rightarrow> duration" where
  "parseDefaultTTL cfg = (case positive_duration (DefaultTTL cfg) of None \<Rightarrow> 15 * 60000000000 | Some d \<Rightarrow> d)"

lemma positive_duration_range: "positive_duration s = Some d \<Longrightarrow> 0 < d \<and> d < 2 ^ 63"
  using ParseDuration_range [of s d] by (auto simp: positive_duration_def split: option.splits if_splits)

lemma config_ok_default: "config_ok defaultConfig"
  by (simp add: config_ok_def defaultConfig_def positive_duration_def ParseDuration_samples validPriority_code f_half_def)

interpretation config: json_document loadConfig saveConfig config_ok "\<lambda>cfg. cfg"
  by unfold_locales
     (auto simp: loadConfig_def saveConfig_def save_json_def config_ok_default [unfolded config_ok_def, simplified] config_ok_def
      split: option.splits json_file.splits if_splits)

section \<open>What a lease and an acquisition need\<close>

definition normalizeCapabilities :: "string \<Rightarrow> string list" where
  "normalizeCapabilities val = normalize_values (Split CHR '','' val) {}"

definition parseLeaseTTL :: "ProjectConfig json_file \<Rightarrow> string \<Rightarrow> goerr + duration" where
  "parseLeaseTTL f explicit =
     (case loadConfig f of
        Inl err \<Rightarrow> Inl (Errorf ''loading config: %w'' [] [err])
      | Inr cfg \<Rightarrow>
          if explicit = [] then Inr (parseDefaultTTL cfg)
          else (case positive_duration explicit of None \<Rightarrow> Inl (Sentinel errInvalidTTL) | Some ttl \<Rightarrow> Inr ttl))"

record acquirePlan =
  plan_Actor :: string
  plan_TTL :: duration
  plan_Capabilities :: "string list"
  plan_MaxLoad :: int
  plan_Fingerprint :: string

definition plan_ttl :: "ProjectConfig \<Rightarrow> string \<Rightarrow> (duration \<times> string) option" where
  "plan_ttl cfg explicitTTL =
     (if explicitTTL = [] then Some (parseDefaultTTL cfg, ''default'')
      else (case positive_duration explicitTTL of
              None \<Rightarrow> None
            | Some ttl \<Rightarrow> Some (ttl, ''explicit:'' @ duration_string ttl)))"

definition newAcquirePlan ::
  "(acquireFingerprintInput \<Rightarrow> string) \<Rightarrow> ProjectConfig json_file \<Rightarrow> AgentRegistry json_file
    \<Rightarrow> string \<Rightarrow> string \<Rightarrow> string list option \<Rightarrow> goerr + acquirePlan" where
  "newAcquirePlan digest cf af actor explicitTTL explicitCapabilities =
     (case loadConfig cf of
        Inl err \<Rightarrow> Inl (Errorf ''loading config: %w'' [] [err])
      | Inr cfg \<Rightarrow>
          (case plan_ttl cfg explicitTTL of
             None \<Rightarrow> Inl (Sentinel errInvalidTTL)
           | Some (ttl, ttlMode) \<Rightarrow>
               (let capabilitiesMode = (if explicitCapabilities = None then ''registered'' else ''explicit'');
                    given = (case explicitCapabilities of None \<Rightarrow> [] | Some caps \<Rightarrow> caps)
                in case validateCapabilities given of
                     Some err \<Rightarrow> Inl err
                   | None \<Rightarrow>
                       (case agentAllocationProfile af actor explicitCapabilities of
                          Inl err \<Rightarrow> Inl (Errorf ''loading agent profile: %w'' [] [err])
                        | Inr (capabilities, maxLoad) \<Rightarrow>
                            Inr \<lparr>plan_Actor = actor, plan_TTL = ttl, plan_Capabilities = capabilities,
                                 plan_MaxLoad = maxLoad,
                                 plan_Fingerprint = acquireFingerprint digest actor ttlMode capabilitiesMode given\<rparr>))))"

lemma parseDefaultTTL_positive: "0 < parseDefaultTTL cfg \<and> parseDefaultTTL cfg < 2 ^ 63"
  using positive_duration_range by (auto simp: parseDefaultTTL_def split: option.splits)

lemma parseLeaseTTL_positive: "parseLeaseTTL f explicit = Inr ttl \<Longrightarrow> 0 < ttl \<and> ttl < 2 ^ 63"
  using positive_duration_range parseDefaultTTL_positive
  by (auto simp: parseLeaseTTL_def split: sum.splits if_splits option.splits)

lemma plan_ttl_positive: "plan_ttl cfg explicit = Some (ttl, m) \<Longrightarrow> 0 < ttl \<and> ttl < 2 ^ 63"
  using positive_duration_range parseDefaultTTL_positive
  by (auto simp: plan_ttl_def split: if_splits option.splits)

lemma plan_ttl_mode: "plan_ttl cfg explicit = Some (ttl, m) \<Longrightarrow> plan_ttl cfg' explicit = Some (ttl', m') \<Longrightarrow> m' = m"
  by (auto simp: plan_ttl_def split: if_splits option.splits)

lemma newAcquirePlan_Inr:
  assumes "newAcquirePlan digest cf af actor explicit caps = Inr p"
  obtains cfg ttl m where "loadConfig cf = Inr cfg" "plan_ttl cfg explicit = Some (ttl, m)" "plan_TTL p = ttl"
    "plan_Actor p = actor"
    "plan_Fingerprint p = acquireFingerprint digest actor m (if caps = None then ''registered'' else ''explicit'')
       (case caps of None \<Rightarrow> [] | Some cs \<Rightarrow> cs)"
  using assms by (auto simp: newAcquirePlan_def Let_def split: sum.splits option.splits prod.splits)

section \<open>Properties\<close>


text \<open>
  C19: taking the answers about other repositories before a transaction gives the same work as
  asking during it. On the tasks it was taken from, the snapshot and the live resolver agree on
  which tasks are ready and on what blocks the others, and the snapshot answers nothing else.
\<close>

theorem snapshot_equals_live:
  assumes "tasks_wf (Tasks s)"
  shows "GetReadyTasksWithResolver (Tasks s) (snapshotDependencyResolver live (GetAllTasks s))
      = GetReadyTasksWithResolver (Tasks s) (Some live)
    \<and> map_of (GetBlockedTasksWithResolver (Tasks s) (snapshotDependencyResolver live (GetAllTasks s)))
      = map_of (GetBlockedTasksWithResolver (Tasks s) (Some live))"
proof -
  let ?snap = "snapshotDependencyResolver live (GetAllTasks s)"
  have same: "dep_blocks (Tasks s) ?snap d = dep_blocks (Tasks s) (Some live) d"
    if "t \<in> set (GetAllTasks s)" "d \<in> set (Depends t)" for t d
    using that snapshot_answers [of live "GetAllTasks s" d]
    by (auto simp: dep_blocks_def resolves_def split: option.splits)
  have "DependenciesCompleteWithResolver t (Tasks s) ?snap = DependenciesCompleteWithResolver t (Tasks s) (Some live)"
    if "t \<in> set (GetAllTasks s)" for t
    using same [OF that] by (auto simp: DependenciesCompleteWithResolver_def deps_complete_iff)
  then have ready: "GetReadyTasksWithResolver (Tasks s) ?snap = GetReadyTasksWithResolver (Tasks s) (Some live)"
    by (auto simp: GetReadyTasksWithResolver_def GetAllTasks_def intro!: filter_cong)
  have "blocked_on (Tasks s) ?snap t = blocked_on (Tasks s) (Some live) t" if "t \<in> set (GetAllTasks s)" for t
  proof -
    have "filter (dep_blocks (Tasks s) ?snap) (Depends t) = filter (dep_blocks (Tasks s) (Some live)) (Depends t)"
      using same [OF that] by (rule filter_cong [OF refl])
    then show ?thesis by (simp add: blocked_on_def)
  qed
  then have "map_of (GetBlockedTasksWithResolver (Tasks s) ?snap) i
      = map_of (GetBlockedTasksWithResolver (Tasks s) (Some live)) i" for i
    using GetAllTasks_set [OF assms] tasks_wfD [OF assms]
    by (cases "map_of (Tasks s) i") (auto simp: map_of_GetBlockedTasks [OF assms])
  then show ?thesis using ready by blast
qed

lemma snapshot_equals_live_witness:
  "GetReadyTasksWithResolver (Tasks two_store) (snapshotDependencyResolver (\<lambda>_. True) (GetAllTasks two_store))
    = GetReadyTasksWithResolver (Tasks two_store) (Some (\<lambda>_. True))"
  using snapshot_equals_live [OF store_inv_wf [OF two_store_inv]] by blast

text \<open>The default configuration and an empty registry, then a profile and another default TTL.\<close>

abbreviation "request_plan cf af \<equiv> newAcquirePlan (\<lambda>_. ''fp'') cf af ''ann'' [] (Some [])"

definition hour_config :: ProjectConfig where
  "hour_config = defaultConfig\<lparr>DefaultTTL := ''1h''\<rparr>"


end
