(* ===== verification/Bootstrap.thy ===== *)
theory Bootstrap
  imports Project
begin

text \<open>
  The session bootstrap (\<^verbatim>\<open>bootstrap.go\<close>): one bounded picture of the project for a worker that
  starts. The definitions follow the file; the results are that every list and string in the
  picture is bounded, that the walk over the objective's dependencies ends and finds exactly the
  tasks the objective rests on, and that the progress adds up.
\<close>

abbreviation "defaultBootstrapLimit \<equiv> (5 :: int)"
abbreviation "defaultBootstrapEventLimit \<equiv> (5 :: int)"
abbreviation "maxBootstrapLimit \<equiv> (20 :: nat)"
abbreviation "maxBootstrapActorBytes \<equiv> (128 :: nat)"
abbreviation "maxBootstrapTitleBytes \<equiv> (160 :: nat)"
abbreviation "maxBootstrapDetailBytes \<equiv> (240 :: nat)"
abbreviation "maxBootstrapValueBytes \<equiv> (96 :: nat)"

section \<open>Data\<close>

record bootstrapParams =
  bp_Actor :: string
  bp_Capabilities :: "string list"
  bp_ObjectiveID :: u64
  bp_Limit :: int
  bp_EventLimit :: int

record bootstrapWorker =
  bw_Actor :: string
  bw_Capabilities :: "string list"
  bw_CapabilitySource :: string
  bw_MaxLoad :: int
  bw_CurrentLoad :: nat
  bw_AtCapacity :: bool
  bw_Registered :: bool

record bootstrapTask =
  bt_ID :: u64
  bt_Title :: string
  bt_Status :: string
  bt_Priority :: float32
  bt_Capabilities :: "string list"
  bt_Owner :: string
  bt_LeaseExpires :: "string option"
  bt_BlockReason :: string

record bootstrapTaskList =
  bl_Total :: nat
  bl_Items :: "bootstrapTask list"

record bootstrapProgress =
  bp_Scope :: string
  bp_Total :: nat
  bp_Pending :: nat
  bp_InProgress :: nat
  bp_Blocked :: nat
  bp_Completed :: nat
  bp_Percent :: nat

record bootstrapBlockers =
  bb_ExplicitTotal :: nat
  bb_Explicit :: "bootstrapTask list"
  bb_DependencyBlockedTotal :: nat
  bb_PrimaryDependenciesTotal :: nat
  bb_PrimaryDependencies :: "string list"

record bootstrapCapabilityDemand =
  bd_Capability :: string
  bd_TaskCount :: nat
  bd_Matched :: bool

record bootstrapCapabilitySummary =
  bc_UnclaimedTasks :: nat
  bc_WithoutCaps :: nat
  bc_Total :: nat
  bc_Items :: "bootstrapCapabilityDemand list"

record bootstrapEvent =
  be_ID :: u64
  be_Timestamp :: string
  be_Type :: EventType
  be_TaskID :: u64
  be_TaskTitle :: string
  be_Actor :: string
  be_Detail :: string

record bootstrapEventList =
  bev_Total :: nat
  bev_Items :: "bootstrapEvent list"

record bootstrapResult =
  br_SchemaVersion :: string
  br_Worker :: bootstrapWorker
  br_Objective :: "bootstrapTask option"
  br_ObjectiveSource :: string
  br_Progress :: bootstrapProgress
  br_OwnedWork :: bootstrapTaskList
  br_ReadyWork :: bootstrapTaskList
  br_Blockers :: bootstrapBlockers
  br_CapabilityDemand :: bootstrapCapabilitySummary
  br_RecentEvents :: bootstrapEventList

section \<open>Compact values\<close>

definition compactBootstrapString :: "string \<Rightarrow> nat \<Rightarrow> string" where
  "compactBootstrapString val maxBytes =
     (let val = Join '' '' (Fields val)
      in if length val \<le> maxBytes then val
         else take (rune_boundary val (maxBytes - 3)) val @ ''...'')"

definition boundedStrings :: "string list \<Rightarrow> nat \<Rightarrow> nat \<Rightarrow> string list" where
  "boundedStrings values limit maxBytes = map (\<lambda>v. compactBootstrapString v maxBytes) (take limit values)"

definition newBootstrapTask :: "Task \<Rightarrow> bootstrapTask" where
  "newBootstrapTask task =
     \<lparr>bt_ID = ID task, bt_Title = compactBootstrapString (Title task) maxBootstrapTitleBytes,
      bt_Status = statusName (Status task), bt_Priority = Priority task,
      bt_Capabilities = boundedStrings (Capabilities task) maxBootstrapLimit maxBootstrapValueBytes,
      bt_Owner = compactBootstrapString (Owner task) maxBootstrapActorBytes,
      bt_LeaseExpires = optional_timestamp (LeaseExpires task),
      bt_BlockReason = compactBootstrapString (BlockReason task) maxBootstrapDetailBytes\<rparr>"

definition bootstrapTaskPointer :: "Task option \<Rightarrow> bootstrapTask option" where
  "bootstrapTaskPointer task = map_option newBootstrapTask task"

definition boundedBootstrapTasks :: "Task list \<Rightarrow> nat \<Rightarrow> bootstrapTask list" where
  "boundedBootstrapTasks tasks limit = map newBootstrapTask (take limit tasks)"

text \<open>The comparison is that of the ranking.\<close>

definition sortBootstrapTasks :: "Task list \<Rightarrow> Task list" where
  "sortBootstrapTasks tasks =
     go_sort (\<lambda>a b. if \<not> f_eq (Priority a) (Priority b) then f_less (Priority b) (Priority a) else ID a < ID b) tasks"

section \<open>Parameters\<close>

fun normalize_bootstrap_caps :: "string list \<Rightarrow> string set \<Rightarrow> goerr + string list" where
  "normalize_bootstrap_caps [] seen = Inr []"
| "normalize_bootstrap_caps (capability # rest) seen =
     (let capability = TrimSpace capability
      in if capability = [] then Inl (Errorf ''capabilities cannot contain an empty value'' [] [])
         else if length capability > maxBootstrapValueBytes
         then Inl (Errorf ''capability must be at most %d bytes'' [ArgInt (int maxBootstrapValueBytes)] [])
         else if capability \<in> seen then normalize_bootstrap_caps rest seen
         else (case normalize_bootstrap_caps rest (insert capability seen) of
                 Inl err \<Rightarrow> Inl err
               | Inr caps \<Rightarrow> Inr (capability # caps)))"

definition normalizeBootstrapParams :: "bootstrapParams \<Rightarrow> goerr + bootstrapParams" where
  "normalizeBootstrapParams p =
     (let p = p\<lparr>bp_Actor := TrimSpace (bp_Actor p)\<rparr>
      in if bp_Actor p = [] then Inl (Errorf ''actor is required'' [] [])
         else if length (bp_Actor p) > maxBootstrapActorBytes
         then Inl (Errorf ''actor must be at most %d bytes'' [ArgInt (int maxBootstrapActorBytes)] [])
         else
         (let p = (if bp_Limit p = 0 then p\<lparr>bp_Limit := defaultBootstrapLimit\<rparr> else p);
              p = (if bp_EventLimit p = 0 then p\<lparr>bp_EventLimit := defaultBootstrapEventLimit\<rparr> else p)
          in if bp_Limit p < 1 \<or> bp_Limit p > int maxBootstrapLimit
             then Inl (Errorf ''limit must be between 1 and %d'' [ArgInt (int maxBootstrapLimit)] [])
             else if bp_EventLimit p < 1 \<or> bp_EventLimit p > int maxBootstrapLimit
             then Inl (Errorf ''eventLimit must be between 1 and %d'' [ArgInt (int maxBootstrapLimit)] [])
             else if length (bp_Capabilities p) > maxBootstrapLimit
             then Inl (Errorf ''capabilities must contain at most %d values'' [ArgInt (int maxBootstrapLimit)] [])
             else (case normalize_bootstrap_caps (bp_Capabilities p) {} of
                     Inl err \<Rightarrow> Inl err
                   | Inr caps \<Rightarrow> Inr (p\<lparr>bp_Capabilities := caps\<rparr>))))"

section \<open>The objective and its progress\<close>

definition top_level_before :: "Task \<Rightarrow> Task \<Rightarrow> bool" where
  "top_level_before a b \<longleftrightarrow>
     (if length (Depends a) \<noteq> length (Depends b) then length (Depends a) > length (Depends b)
      else if \<not> f_eq (Priority a) (Priority b) then f_less (Priority b) (Priority a)
      else ID a < ID b)"

definition completed_before :: "Task \<Rightarrow> Task \<Rightarrow> bool" where
  "completed_before a b \<longleftrightarrow>
     (if Completed a \<noteq> Completed b then Completed a > Completed b else ID a > ID b)"

definition selectBootstrapObjective :: "TaskStore \<Rightarrow> u64 \<Rightarrow> goerr + (Task option \<times> string)" where
  "selectBootstrapObjective s explicitID =
     (if explicitID > 0
      then (case GetTask s explicitID of
              None \<Rightarrow> Inl (Errorf ''objective task %d not found: %w'' [ArgId explicitID] [Sentinel errTaskNotFound])
            | Some task \<Rightarrow> Inr (Some task, ''explicit''))
      else
      (case go_sort top_level_before
              (filter (\<lambda>task. Status task \<noteq> StatusCompleted \<and> Lineage task = []) (GetAllTasks s)) of
         task # _ \<Rightarrow> Inr (Some task, ''inferred_top_level'')
       | [] \<Rightarrow>
           (case go_sort completed_before (filter (\<lambda>task. Status task = StatusCompleted) (GetAllTasks s)) of
              task # _ \<Rightarrow> Inr (Some task, ''latest_completed'')
            | [] \<Rightarrow> Inr (None, ''none''))))"

text \<open>
  The recursive closure \<^verbatim>\<open>visit\<close>, with the calls still to be made on a stack: the recursion visits
  the dependencies of a task before it returns to its caller's remaining ones.
\<close>

definition local_dep_ids :: "Task \<Rightarrow> u64 list" where
  "local_dep_ids t = List.map_filter ParseLocalID (Depends t)"

function visit :: "tasks \<Rightarrow> u64 list \<Rightarrow> u64 list \<Rightarrow> u64 list" where
  "visit ts [] scope = scope"
| "visit ts (i # stack) scope =
     (if i \<in> set scope then visit ts stack scope
      else (case map_of ts i of
              None \<Rightarrow> visit ts stack scope
            | Some task \<Rightarrow> visit ts (local_dep_ids task @ stack) (scope @ [i])))"
  by pat_completeness auto
termination
proof (relation "inv_image ({(m, n). m < n} <*lex*> {(m, n). m < n})
    (\<lambda>(ts, stack, scope). (card (fst ` set ts - set scope), length stack))", goal_cases)
  case 1
  show ?case by (intro wf_inv_image wf_lex_prod wf)
next
  case (4 ts i stack scope task)
  then have "i \<in> fst ` set ts" by (auto dest: map_of_SomeD simp: rev_image_eqI)
  then have "card (fst ` set ts - set (scope @ [i])) < card (fst ` set ts - set scope)"
    using 4(1) by (intro psubset_card_mono) auto
  then show ?case by simp
qed auto

definition count_status :: "TaskStatus \<Rightarrow> Task list \<Rightarrow> nat" where
  "count_status st ts = length (filter (\<lambda>t. Status t = st) ts)"

definition bootstrapObjectiveProgress :: "TaskStore \<Rightarrow> Task option \<Rightarrow> bootstrapProgress" where
  "bootstrapObjectiveProgress s objective =
     (let (label, scope) =
            (case objective of
               Some task \<Rightarrow> (''objective:'' @ fmt_id (ID task), visit (Tasks s) [ID task] [])
             | None \<Rightarrow> (''project'', map fst (Tasks s)));
          members = List.map_filter (map_of (Tasks s)) scope;
          total = length members;
          completed = count_status StatusCompleted members
      in \<lparr>bp_Scope = label, bp_Total = total, bp_Pending = count_status StatusPending members,
          bp_InProgress = count_status StatusInProgress members, bp_Blocked = count_status StatusBlocked members,
          bp_Completed = completed, bp_Percent = (if total > 0 then completed * 100 div total else 0)\<rparr>)"

section \<open>Capability demand and recent events\<close>

definition unclaimed_tasks :: "TaskStore \<Rightarrow> Task list" where
  "unclaimed_tasks s = filter (\<lambda>task. \<not> (Status task = StatusCompleted \<or> Owner task \<noteq> [])) (GetAllTasks s)"

text \<open>
  Each capability is counted once per task. The order of equal counts and names is that of Go's
  iteration over the map of counts, here the order of first occurrence.
\<close>

definition capability_counts :: "Task list \<Rightarrow> (string, nat) gomap" where
  "capability_counts tasks =
     map (\<lambda>c. (c, length (filter (\<lambda>t. c \<in> set (Capabilities t)) tasks))) (remdups (concat (map Capabilities tasks)))"

definition demand_before :: "bootstrapCapabilityDemand \<Rightarrow> bootstrapCapabilityDemand \<Rightarrow> bool" where
  "demand_before a b \<longleftrightarrow>
     (if bd_TaskCount a \<noteq> bd_TaskCount b then bd_TaskCount a > bd_TaskCount b
      else str_less (bd_Capability a) (bd_Capability b))"

definition buildBootstrapCapabilityDemand :: "TaskStore \<Rightarrow> AgentRegistry \<Rightarrow> nat \<Rightarrow> bootstrapCapabilitySummary" where
  "buildBootstrapCapabilityDemand s registry limit =
     (let unclaimed = unclaimed_tasks s;
          counts = capability_counts (filter (\<lambda>t. Capabilities t \<noteq> []) unclaimed);
          matched = concat (map (card_Capabilities \<circ> snd) (Agents registry));
          items = map (\<lambda>(capability, n).
                    \<lparr>bd_Capability = compactBootstrapString capability maxBootstrapValueBytes, bd_TaskCount = n,
                     bd_Matched = (capability \<in> set matched)\<rparr>) counts;
          items = go_sort demand_before items
      in \<lparr>bc_UnclaimedTasks = length unclaimed,
          bc_WithoutCaps = length (filter (\<lambda>t. Capabilities t = []) unclaimed),
          bc_Total = length items, bc_Items = (if length items > limit then take limit items else items)\<rparr>)"

definition event_parts :: "Event \<Rightarrow> string list" where
  "event_parts event =
     List.map_filter
       (\<lambda>key. let val = TrimSpace (case map_of (event_Data event) key of Some v \<Rightarrow> v | None \<Rightarrow> [])
              in if val = [] then None
                 else Some (key @ ''='' @ compactBootstrapString val maxBootstrapValueBytes))
       [''reason'', ''error'', ''dep'', ''title'', ''owner'', ''ttl'']"

definition bootstrapEventDetail :: "Event \<Rightarrow> string" where
  "bootstrapEventDetail event =
     compactBootstrapString (Join '', '' (take 2 (event_parts event))) maxBootstrapDetailBytes"

definition buildBootstrapEvents :: "TaskStore \<Rightarrow> nat \<Rightarrow> bootstrapEventList" where
  "buildBootstrapEvents s limit =
     (let total = length (Events s);
          start = total - limit
      in \<lparr>bev_Total = total,
          bev_Items = map (\<lambda>event.
            \<lparr>be_ID = event_ID event, be_Timestamp = formatTimestamp (event_Timestamp event), be_Type = event_Type event,
             be_TaskID = event_TaskID event,
             be_TaskTitle = (case map_of (Tasks s) (event_TaskID event) of
                               Some task \<Rightarrow> compactBootstrapString (Title task) maxBootstrapTitleBytes
                             | None \<Rightarrow> []),
             be_Actor = compactBootstrapString (event_Actor event) maxBootstrapActorBytes,
             be_Detail = bootstrapEventDetail event\<rparr>) (rev (drop start (Events s)))\<rparr>)"

section \<open>The picture\<close>

definition bootstrap_worker :: "TaskStore \<Rightarrow> AgentRegistry \<Rightarrow> bootstrapParams \<Rightarrow> bool \<Rightarrow> string list \<times> bootstrapWorker" where
  "bootstrap_worker s registry p capabilitiesExplicit =
     (let c = agent_card registry (bp_Actor p);
          registered = (map_of (Agents registry) (bp_Actor p) \<noteq> None);
          caps = (if capabilitiesExplicit then bp_Capabilities p else card_Capabilities c);
          source = (if capabilitiesExplicit then ''explicit'' else if registered then ''agent_card'' else ''none'');
          currentLoad = computeAgentLoad s (bp_Actor p)
      in (caps,
          \<lparr>bw_Actor = compactBootstrapString (bp_Actor p) maxBootstrapActorBytes,
           bw_Capabilities = boundedStrings caps maxBootstrapLimit maxBootstrapValueBytes,
           bw_CapabilitySource = source, bw_MaxLoad = card_MaxLoad c, bw_CurrentLoad = currentLoad,
           bw_AtCapacity = (card_MaxLoad c > 0 \<and> int currentLoad \<ge> card_MaxLoad c), bw_Registered = registered\<rparr>))"

definition buildBootstrap ::
  "TaskStore \<Rightarrow> AgentRegistry \<Rightarrow> bootstrapParams \<Rightarrow> bool \<Rightarrow> DependencyResolver \<Rightarrow> goerr + bootstrapResult" where
  "buildBootstrap s registry p capabilitiesExplicit resolver =
     (case normalizeBootstrapParams p of
        Inl err \<Rightarrow> Inl err
      | Inr p \<Rightarrow>
          (let (effectiveCapabilities, worker) = bootstrap_worker s registry p capabilitiesExplicit
           in case selectBootstrapObjective s (bp_ObjectiveID p) of
                Inl err \<Rightarrow> Inl err
              | Inr (objective, objectiveSource) \<Rightarrow>
                  (let limit = nat (bp_Limit p);
                       owned = sortBootstrapTasks (filter (\<lambda>t. Owner t = bp_Actor p) (GetAllTasks s));
                       explicitBlocked = sortBootstrapTasks (filter (\<lambda>t. Status t = StatusBlocked) (GetAllTasks s));
                       ready = rankedReadyTasks s resolver effectiveCapabilities True;
                       dependencyBlocked = GetBlockedTasksWithResolver (Tasks s) resolver;
                       summary = newBlockedSummaryWithResolver (Tasks s) resolver
                   in Inr \<lparr>br_SchemaVersion = protocolVersion, br_Worker = worker,
                           br_Objective = bootstrapTaskPointer objective, br_ObjectiveSource = objectiveSource,
                           br_Progress = bootstrapObjectiveProgress s objective,
                           br_OwnedWork = \<lparr>bl_Total = length owned, bl_Items = boundedBootstrapTasks owned limit\<rparr>,
                           br_ReadyWork = \<lparr>bl_Total = length ready, bl_Items = boundedBootstrapTasks ready limit\<rparr>,
                           br_Blockers = \<lparr>bb_ExplicitTotal = length explicitBlocked,
                                          bb_Explicit = boundedBootstrapTasks explicitBlocked limit,
                                          bb_DependencyBlockedTotal = length dependencyBlocked,
                                          bb_PrimaryDependenciesTotal = length (bs_PrimaryBlockers summary),
                                          bb_PrimaryDependencies =
                                            boundedStrings (bs_PrimaryBlockers summary) limit maxBootstrapValueBytes\<rparr>,
                           br_CapabilityDemand = buildBootstrapCapabilityDemand s registry limit,
                           br_RecentEvents = buildBootstrapEvents s (nat (bp_EventLimit p))\<rparr>)))"

section \<open>Bounds\<close>

lemma compactBootstrapString_length: "3 \<le> n \<Longrightarrow> length (compactBootstrapString v n) \<le> n"
  using rune_boundary_le [of "Join '' '' (Fields v)" "n - 3"]
  by (auto simp: compactBootstrapString_def Let_def)

lemma boundedStrings_bounds:
  "length (boundedStrings vs k n) \<le> k" "3 \<le> n \<Longrightarrow> v \<in> set (boundedStrings vs k n) \<Longrightarrow> length v \<le> n"
  by (auto simp: boundedStrings_def compactBootstrapString_length)

definition bounded_task :: "bootstrapTask \<Rightarrow> bool" where
  "bounded_task t \<longleftrightarrow>
     length (bt_Title t) \<le> 160 \<and> length (bt_Owner t) \<le> 128 \<and> length (bt_BlockReason t) \<le> 240
     \<and> length (bt_Capabilities t) \<le> 20 \<and> list_all (\<lambda>c. length c \<le> 96) (bt_Capabilities t)"

lemma bounded_newBootstrapTask: "bounded_task (newBootstrapTask t)"
  using boundedStrings_bounds [where k = 20 and n = 96 and vs = "Capabilities t"]
  by (simp add: bounded_task_def newBootstrapTask_def compactBootstrapString_length list_all_iff)

definition bounded_tasks :: "nat \<Rightarrow> bootstrapTask list \<Rightarrow> bool" where
  "bounded_tasks limit ts \<longleftrightarrow> length ts \<le> limit \<and> list_all bounded_task ts"

lemma bounded_boundedBootstrapTasks: "bounded_tasks limit (boundedBootstrapTasks ts limit)"
  by (auto simp: bounded_tasks_def boundedBootstrapTasks_def list_all_iff bounded_newBootstrapTask)

definition bounded_strings :: "nat \<Rightarrow> nat \<Rightarrow> string list \<Rightarrow> bool" where
  "bounded_strings k n vs \<longleftrightarrow> length vs \<le> k \<and> list_all (\<lambda>v. length v \<le> n) vs"

lemma bounded_boundedStrings: "3 \<le> n \<Longrightarrow> bounded_strings k n (boundedStrings vs k n)"
  using boundedStrings_bounds [where vs = vs and k = k and n = n] by (simp add: bounded_strings_def list_all_iff)

definition bounded_event :: "bootstrapEvent \<Rightarrow> bool" where
  "bounded_event e \<longleftrightarrow> length (be_TaskTitle e) \<le> 160 \<and> length (be_Actor e) \<le> 128 \<and> length (be_Detail e) \<le> 240"

lemma bounded_buildBootstrapEvents:
  "length (bev_Items (buildBootstrapEvents s k)) \<le> k \<and> list_all bounded_event (bev_Items (buildBootstrapEvents s k))"
  by (auto simp: buildBootstrapEvents_def Let_def list_all_iff bounded_event_def bootstrapEventDetail_def
      compactBootstrapString_length split: option.splits)

lemma bounded_demand:
  "length (bc_Items (buildBootstrapCapabilityDemand s r k)) \<le> k
    \<and> list_all (\<lambda>i. length (bd_Capability i) \<le> 96) (bc_Items (buildBootstrapCapabilityDemand s r k))"
proof -
  have "length (bd_Capability i) \<le> 96"
    if "i \<in> set (bc_Items (buildBootstrapCapabilityDemand s r k))" for i
    using that by (auto simp: buildBootstrapCapabilityDemand_def Let_def compactBootstrapString_length
        dest!: in_set_takeD split: if_splits)
  moreover have "length (bc_Items (buildBootstrapCapabilityDemand s r k)) \<le> k"
    by (simp add: buildBootstrapCapabilityDemand_def Let_def)
  ultimately show ?thesis by (simp add: list_all_iff)
qed

lemma normalizeBootstrapParams_limits:
  assumes "normalizeBootstrapParams p = Inr q"
  shows "1 \<le> bp_Limit q" "bp_Limit q \<le> 20" "1 \<le> bp_EventLimit q" "bp_EventLimit q \<le> 20"
    "bp_Actor q \<noteq> []" "length (bp_Actor q) \<le> 128"
  using assms by (auto simp: normalizeBootstrapParams_def Let_def split: if_splits sum.splits)

section \<open>The walk finds what the objective rests on\<close>

lemma set_local_dep_ids: "set (local_dep_ids t) = local_deps (Depends t)"
  by (force simp: local_dep_ids_def local_deps_def List.map_filter_def)

lemma visit_upper:
  "set (visit ts stack scope) \<subseteq> set scope \<union> {j. map_of ts j \<noteq> None \<and> (\<exists>i \<in> set stack. (j, i) \<in> (graph_of (map_of ts))\<^sup>*)}"
proof (induction ts stack scope rule: visit.induct)
  case (2 ts i stack scope)
  show ?case
  proof (cases "i \<in> set scope")
    case True
    with 2(1) show ?thesis by auto
  next
    case False
    show ?thesis
    proof (cases "map_of ts i")
      case None
      with False 2(2) show ?thesis by auto
    next
      case (Some t)
      have "(j, i) \<in> (graph_of (map_of ts))\<^sup>*" if "k \<in> set (local_dep_ids t)" "(j, k) \<in> (graph_of (map_of ts))\<^sup>*" for j k
        using that Some by (auto simp: set_local_dep_ids graph_of_def intro: rtrancl_into_rtrancl)
      with 2(3) [OF False Some] False Some show ?thesis by auto
    qed
  qed
qed auto

lemma visit_lower:
  "set scope \<union> {i \<in> set stack. map_of ts i \<noteq> None} \<subseteq> set (visit ts stack scope)"
proof (induction ts stack scope rule: visit.induct)
  case (2 ts i stack scope)
  then show ?case by (cases "i \<in> set scope"; cases "map_of ts i") auto
qed auto

lemma visit_closed:
  assumes "\<And>i j t. i \<in> set scope \<Longrightarrow> map_of ts i = Some t \<Longrightarrow> j \<in> set (local_dep_ids t) \<Longrightarrow> map_of ts j \<noteq> None
      \<Longrightarrow> j \<in> set scope \<union> set stack"
    and "i \<in> set (visit ts stack scope)" "map_of ts i = Some t" "j \<in> set (local_dep_ids t)" "map_of ts j \<noteq> None"
  shows "j \<in> set (visit ts stack scope)"
  using assms
proof (induction ts stack scope arbitrary: i j t rule: visit.induct)
  case (1 ts scope)
  then show ?case by auto
next
  case (2 ts k stack scope)
  show ?case
  proof (cases "k \<in> set scope")
    case True
    have "j \<in> set (visit ts stack scope)"
      by (rule 2(1) [OF True, of i t j]) (use 2(4-8) True in auto)
    with True show ?thesis by simp
  next
    case False
    show ?thesis
    proof (cases "map_of ts k")
      case None
      have "j \<in> set (visit ts stack scope)"
      proof (rule 2(2) [OF False None, of i t j])
        fix i j t
        assume "i \<in> set scope" "map_of ts i = Some t" "j \<in> set (local_dep_ids t)" "map_of ts j \<noteq> None"
        then show "j \<in> set scope \<union> set stack" using 2(4) [of i t j] None by auto
      qed (use 2(5-8) False None in auto)
      with False None show ?thesis by simp
    next
      case (Some u)
      have "j \<in> set (visit ts (local_dep_ids u @ stack) (scope @ [k]))"
      proof (rule 2(3) [OF False Some, of i t j])
        fix i j t
        assume "i \<in> set (scope @ [k])" "map_of ts i = Some t" "j \<in> set (local_dep_ids t)" "map_of ts j \<noteq> None"
        then show "j \<in> set (scope @ [k]) \<union> set (local_dep_ids u @ stack)" using 2(4) [of i t j] Some by auto
      qed (use 2(5-8) False Some in auto)
      with False Some show ?thesis by simp
    qed
  qed
qed

lemma visit_distinct: "distinct scope \<Longrightarrow> distinct (visit ts stack scope)"
proof (induction ts stack scope rule: visit.induct)
  case (2 ts i stack scope)
  then show ?case by (cases "i \<in> set scope"; cases "map_of ts i") auto
qed auto

lemma visit_reachable:
  assumes "map_of ts i \<noteq> None"
  shows "set (visit ts [i] []) = {j. map_of ts j \<noteq> None \<and> (j, i) \<in> (graph_of (map_of ts))\<^sup>*}"
proof
  show "set (visit ts [i] []) \<subseteq> {j. map_of ts j \<noteq> None \<and> (j, i) \<in> (graph_of (map_of ts))\<^sup>*}"
    using visit_upper [of ts "[i]" "[]"] by auto
  have "j \<in> set (visit ts [i] [])" if "(j, i) \<in> (graph_of (map_of ts))\<^sup>*" "map_of ts j \<noteq> None" for j
    using that
  proof (induction rule: converse_rtrancl_induct)
    case base
    then show ?case using visit_lower [of "[]" "[i]" ts] by auto
  next
    case (step a b)
    from step(1) obtain t where t: "map_of ts b = Some t" "a \<in> set (local_dep_ids t)"
      by (auto simp: graph_of_def set_local_dep_ids)
    then have "b \<in> set (visit ts [i] [])" using step(3) by simp
    from visit_closed [OF _ this t step(4)] show ?case by simp
  qed
  then show "{j. map_of ts j \<noteq> None \<and> (j, i) \<in> (graph_of (map_of ts))\<^sup>*} \<subseteq> set (visit ts [i] [])" by auto
qed

text \<open>The scope of a progress report: what the objective rests on, or the whole project.\<close>

definition progress_scope :: "TaskStore \<Rightarrow> Task option \<Rightarrow> u64 set" where
  "progress_scope s objective =
     (case objective of
        Some t \<Rightarrow> {j. map_of (Tasks s) j \<noteq> None \<and> (j, ID t) \<in> (graph_of (map_of (Tasks s)))\<^sup>*}
      | None \<Rightarrow> dom (map_of (Tasks s)))"

definition completed_in :: "TaskStore \<Rightarrow> u64 set \<Rightarrow> u64 set" where
  "completed_in s ids = {i \<in> ids. map_option Status (map_of (Tasks s) i) = Some StatusCompleted}"

lemma map_filter_lookup:
  assumes "distinct is" "\<forall>i \<in> set is. map_of (Tasks s) i \<noteq> None"
  shows "length (List.map_filter (map_of (Tasks s)) is) = length is"
    and "length (filter (\<lambda>t. Status t = st) (List.map_filter (map_of (Tasks s)) is))
          = card {i \<in> set is. map_option Status (map_of (Tasks s) i) = Some st}"
proof -
  show "length (List.map_filter (map_of (Tasks s)) is) = length is"
    using assms(2) by (induction "is") (auto simp: List.map_filter_simps split: option.splits)
  have "length (filter (\<lambda>t. Status t = st) (List.map_filter (map_of (Tasks s)) is))
      = length (filter (\<lambda>i. map_option Status (map_of (Tasks s) i) = Some st) is)"
    by (induction "is") (auto simp: List.map_filter_simps split: option.splits)
  also have "\<dots> = card {i \<in> set is. map_option Status (map_of (Tasks s) i) = Some st}"
    by (simp only: distinct_card [OF distinct_filter [OF assms(1)], symmetric] set_filter)
  finally show "length (filter (\<lambda>t. Status t = st) (List.map_filter (map_of (Tasks s)) is))
          = card {i \<in> set is. map_option Status (map_of (Tasks s) i) = Some st}" .
qed

lemma buildBootstrap_Inr:
  "normalizeBootstrapParams p = Inr q \<Longrightarrow> selectBootstrapObjective s (bp_ObjectiveID q) = Inr (obj, src) \<Longrightarrow>
    \<exists>r. buildBootstrap s registry p explicit resolver = Inr r"
  by (simp add: buildBootstrap_def Let_def split: prod.split)

section \<open>Properties\<close>

text \<open>
  C20: the progress of an objective is exact. In a sound store its scope is the objective and
  every task it depends on, directly or not (the whole project without an objective); the report
  counts the scope and its completed tasks, its four counts add up to the total, and it says 100
  percent precisely when every task of a scope that is not empty is completed.
\<close>

theorem objective_progress_exact:
  assumes "store_inv s" "case objective of Some t \<Rightarrow> map_of (Tasks s) (ID t) = Some t | None \<Rightarrow> True"
  shows "let p = bootstrapObjectiveProgress s objective; scope = progress_scope s objective in
      bp_Total p = card scope \<and> bp_Completed p = card (completed_in s scope)
    \<and> bp_Pending p + bp_InProgress p + bp_Blocked p + bp_Completed p = bp_Total p
    \<and> bp_Percent p \<le> 100 \<and> (bp_Percent p = 100) = (scope \<noteq> {} \<and> completed_in s scope = scope)"
proof -
  define ids where "ids = (case objective of Some t \<Rightarrow> visit (Tasks s) [ID t] [] | None \<Rightarrow> map fst (Tasks s))"
  define ms where "ms = List.map_filter (map_of (Tasks s)) ids"
  let ?scope = "progress_scope s objective"
  have wf: "distinct (map fst (Tasks s))" using store_inv_wf [OF assms(1)] by (simp add: tasks_wf_def)
  have ids: "distinct ids" "set ids = ?scope"
    using assms(2) wf visit_reachable [of "Tasks s"] visit_distinct [of "[]"]
    by (auto simp: ids_def progress_scope_def dom_map_of_conv_image_fst split: option.splits simp del: visit.simps)
  have dom: "\<forall>i \<in> set ids. map_of (Tasks s) i \<noteq> None"
    unfolding ids(2) by (auto simp: progress_scope_def split: option.splits)
  note count = map_filter_lookup [OF ids(1) dom, folded ms_def]
  have p: "bootstrapObjectiveProgress s objective
      = \<lparr>bp_Scope = bp_Scope (bootstrapObjectiveProgress s objective), bp_Total = length ms,
         bp_Pending = count_status StatusPending ms, bp_InProgress = count_status StatusInProgress ms,
         bp_Blocked = count_status StatusBlocked ms, bp_Completed = count_status StatusCompleted ms,
         bp_Percent = (if length ms > 0 then count_status StatusCompleted ms * 100 div length ms else 0)\<rparr>"
    by (simp add: bootstrapObjectiveProgress_def Let_def ms_def ids_def split: option.split)
  have total: "length ms = card ?scope" using count(1) ids distinct_card by metis
  have fin: "finite ?scope" unfolding ids(2) [symmetric] by simp
  have completed: "count_status StatusCompleted ms = card (completed_in s ?scope)"
    using count(2) by (simp add: count_status_def completed_in_def ids(2))
  have sub: "completed_in s ?scope \<subseteq> ?scope" by (auto simp: completed_in_def)
  have le: "card (completed_in s ?scope) \<le> card ?scope" by (rule card_mono [OF fin sub])
  have "\<forall>t \<in> set ms. Status t \<le> StatusBlocked"
    using store_invD(2) [OF assms(1)] by (auto simp: ms_def List.map_filter_def task_sound_def)
  from four_statuses [OF this]
  have sum: "count_status StatusPending ms + count_status StatusInProgress ms + count_status StatusBlocked ms
      + count_status StatusCompleted ms = length ms" by (simp add: count_status_def)
  have percent: "c * 100 div n \<le> 100 \<and> (c * 100 div n = 100 \<longleftrightarrow> c = n)" if "c \<le> n" "0 < n" for c n :: nat
  proof -
    have "c * 100 div n \<le> n * 100 div n" using that by (intro div_le_mono) simp
    moreover have "c * 100 div n < 100" if "c < n" using that by (simp add: div_less_iff_less_mult)
    ultimately show ?thesis using that by (cases "c = n") auto
  qed
  have all: "card (completed_in s ?scope) = card ?scope \<longleftrightarrow> completed_in s ?scope = ?scope"
    using card_subset_eq [OF fin sub] by auto
  have empty: "card ?scope = 0 \<longleftrightarrow> ?scope = {}" using fin by simp
  show ?thesis
    unfolding Let_def by (subst (1 2 3 4 5 6 7 8 9) p)
      (use percent [OF le] sum total completed all empty in \<open>auto simp: card_gt_0_iff fin\<close>)
qed


lemma objective_progress_exact_witness:
  "bp_Completed (bootstrapObjectiveProgress two_store (Some second_task)) = 0
    \<and> bp_Total (bootstrapObjectiveProgress two_store (Some second_task)) = card (progress_scope two_store (Some second_task))"
proof -
  have at: "case Some second_task of Some t \<Rightarrow> map_of (Tasks two_store) (ID t) = Some t | None \<Rightarrow> True"
    by (simp add: two_store added_task_def)
  have "completed_in two_store (progress_scope two_store (Some second_task)) = {}"
    by (auto simp: completed_in_def two_store split: if_splits)
  with objective_progress_exact [OF two_store_inv at] show ?thesis by (simp add: Let_def)
qed

definition start_params :: bootstrapParams where
  "start_params = \<lparr>bp_Actor = ''ann'', bp_Capabilities = [''go''], bp_ObjectiveID = 2, bp_Limit = 0, bp_EventLimit = 3\<rparr>"


end
