(* ===== verification/Reads.thy ===== *)
theory Reads
  imports Complex_Main Bootstrap
begin

text \<open>
  The read operations of the command line and the server: status, my, search, depends, dependents,
  lineage (\<^verbatim>\<open>cmd_lineage.go\<close>), what-if (\<^verbatim>\<open>cmd_whatif.go\<close>), graph, capability demand
  (\<^verbatim>\<open>cmd_caps.go\<close>) and next. Each is a function of a loaded store; where Go ranges over the map of
  tasks without sorting, the order of the answer is the unspecified one of the map.
\<close>

section \<open>Listing tasks\<close>

definition sortedTasks :: "tasks \<Rightarrow> Task list" where
  "sortedTasks ts = go_sort (\<lambda>a b. ID a < ID b) (map snd ts)"

definition hasTag :: "string list \<Rightarrow> string \<Rightarrow> bool" where
  "hasTag tags tag = list_ex (\<lambda>t. t = tag) tags"

definition tasks_envelope :: "Task list \<Rightarrow> tasksEnvelope" where
  "tasks_envelope ts = \<lparr>tse_SchemaVersion = protocolVersion, tse_Tasks = map newProtocolTask ts\<rparr>"

definition status_tasks :: "string \<Rightarrow> string \<Rightarrow> TaskStore \<Rightarrow> Task list" where
  "status_tasks tag actor s =
     filter (\<lambda>task. \<not> (tag \<noteq> [] \<and> \<not> hasTag (Tags task) tag) \<and> \<not> (actor \<noteq> [] \<and> Owner task \<noteq> actor))
       (sortedTasks (Tasks s))"

definition mine_before :: "Task \<Rightarrow> Task \<Rightarrow> bool" where
  "mine_before a b \<longleftrightarrow> (if Status a \<noteq> Status b then Status a < Status b else ID a < ID b)"

definition my_tasks :: "string \<Rightarrow> TaskStore \<Rightarrow> Task list" where
  "my_tasks actor s = go_sort mine_before (filter (\<lambda>t. Owner t = actor) (GetAllTasks s))"

text \<open>\<^verbatim>\<open>strings.Contains\<close>; \<^verbatim>\<open>strings.ToLower\<close> maps by Unicode tables and is the parameter \<open>lower\<close>.\<close>

fun Contains :: "string \<Rightarrow> string \<Rightarrow> bool" where
  "Contains [] sub = (sub = [])"
| "Contains (c # cs) sub = (HasPrefix (c # cs) sub \<or> Contains cs sub)"

definition search_tasks :: "(string \<Rightarrow> string) \<Rightarrow> string \<Rightarrow> TaskStore \<Rightarrow> Task list" where
  "search_tasks lower query s =
     (let queryLower = lower query
      in filter (\<lambda>task. Contains (lower (Title task)) queryLower
                   \<or> list_ex (\<lambda>tag. Contains (lower tag) queryLower) (Tags task)) (GetAllTasks s))"

record projectStatus =
  ps_Alias :: string
  ps_Path :: string
  ps_Available :: bool
  ps_Error :: "goerr option"
  ps_Tasks :: "protocolTask list"

record projectsEnvelope =
  pse_SchemaVersion :: string
  pse_Projects :: "projectStatus list"

definition projectStatusFromStore :: "string \<Rightarrow> string \<Rightarrow> TaskStore \<Rightarrow> projectStatus" where
  "projectStatusFromStore alias' path s =
     \<lparr>ps_Alias = alias', ps_Path = path, ps_Available = True, ps_Error = None,
      ps_Tasks = map newProtocolTask (sortedTasks (Tasks s))\<rparr>"

text \<open>The loop over the linked projects; \<open>linked_store path\<close> is what \<^verbatim>\<open>store.LoadCurrent\<close> gives there.\<close>

definition linked_status :: "(string \<Rightarrow> goerr + TaskStore) \<Rightarrow> repositoryRegistry \<Rightarrow> projectStatus list" where
  "linked_status linked_store registry =
     map (\<lambda>alias'. let path = (case map_of (Repositories registry) alias' of Some p \<Rightarrow> p | None \<Rightarrow> [])
            in case linked_store path of
                 Inl err \<Rightarrow> \<lparr>ps_Alias = alias', ps_Path = path, ps_Available = False, ps_Error = Some err, ps_Tasks = []\<rparr>
               | Inr s \<Rightarrow> projectStatusFromStore alias' path s)
       (sort_Strings (map fst (Repositories registry)))"

section \<open>Dependencies and dependents\<close>

record dependsEntry =
  de_ID :: u64
  de_Title :: string
  de_URI :: string

definition depends_entry :: "TaskStore \<Rightarrow> string \<Rightarrow> dependsEntry" where
  "depends_entry s dep =
     (case ParseLocalID dep of
        Some depID \<Rightarrow>
          (case GetTask s depID of
             Some dt \<Rightarrow> \<lparr>de_ID = depID, de_Title = Title dt, de_URI = dep\<rparr>
           | None \<Rightarrow> \<lparr>de_ID = depID, de_Title = ''[not found locally]'', de_URI = dep\<rparr>)
      | None \<Rightarrow> \<lparr>de_ID = 0, de_Title = [], de_URI = dep\<rparr>)"

definition refers_to :: "u64 \<Rightarrow> string \<Rightarrow> bool" where
  "refers_to i dep \<longleftrightarrow> (case ParseLocalID dep of Some depID \<Rightarrow> depID = i | None \<Rightarrow> False)"

definition dependents_of :: "TaskStore \<Rightarrow> u64 \<Rightarrow> Task list" where
  "dependents_of s i = filter (\<lambda>t. list_ex (refers_to i) (Depends t)) (GetAllTasks s)"

text \<open>The command line counts references, the server counts tasks.\<close>

definition countDependents :: "tasks \<Rightarrow> u64 \<Rightarrow> nat" where
  "countDependents ts i = sum_list (map (\<lambda>(_, t). length (filter (refers_to i) (Depends t))) ts)"

section \<open>Lineage\<close>

record lineageProgress =
  lp_Total :: nat
  lp_Pending :: nat
  lp_InProgress :: nat
  lp_Completed :: nat
  lp_Blocked :: nat
  lp_Percent :: rat

record lineageEnvelope =
  le_SchemaVersion :: string
  le_Root :: protocolTask
  le_Descendants :: "protocolTask list"
  le_Progress :: lineageProgress

definition lineage_children :: "tasks \<Rightarrow> u64 \<Rightarrow> Task list" where
  "lineage_children ts parentID =
     go_sort (\<lambda>a b. ID a < ID b) (filter (\<lambda>t. Lineage t = ''todo://local/'' @ fmt_id parentID) (map snd ts))"

text \<open>
  The recursive closure \<^verbatim>\<open>walk\<close>, with the children still to be looked at on a stack.
\<close>

function lineage_walk :: "tasks \<Rightarrow> Task list \<Rightarrow> u64 set \<Rightarrow> Task list \<Rightarrow> Task list" where
  "lineage_walk ts [] visited result = result"
| "lineage_walk ts (child # stack) visited result =
     (if ID child \<in> visited then lineage_walk ts stack visited result
      else lineage_walk ts (lineage_children ts (ID child) @ stack) (insert (ID child) visited) (result @ [child]))"
  by pat_completeness auto
termination
proof (relation "inv_image ({(m, n). m < n} <*lex*> {(m, n). m < n})
    (\<lambda>(ts, stack, visited, result). (card (ID ` (snd ` set ts \<union> set stack) - visited), length stack))", goal_cases)
  case 1
  show ?case by (intro wf_inv_image wf_lex_prod wf)
next
  case (2 ts child stack visited result)
  have "ID ` (snd ` set ts \<union> set (child # stack)) - visited = ID ` (snd ` set ts \<union> set stack) - visited"
    using 2 by auto
  then show ?case by simp
next
  case (3 ts child stack visited result)
  have "set (lineage_children ts (ID child)) \<subseteq> snd ` set ts" by (auto simp: lineage_children_def)
  then have "ID ` (snd ` set ts \<union> set (lineage_children ts (ID child) @ stack)) - insert (ID child) visited
      \<subset> ID ` (snd ` set ts \<union> set (child # stack)) - visited"
    using 3 by auto
  then have "card (ID ` (snd ` set ts \<union> set (lineage_children ts (ID child) @ stack)) - insert (ID child) visited)
      < card (ID ` (snd ` set ts \<union> set (child # stack)) - visited)"
    by (intro psubset_card_mono) auto
  then show ?case by simp
qed

definition lineageDescendants :: "u64 \<Rightarrow> tasks \<Rightarrow> Task list" where
  "lineageDescendants rootID ts = lineage_walk ts (lineage_children ts rootID) {rootID} []"

text \<open>The percentage is the exact quotient; Go computes it in \<^verbatim>\<open>float64\<close>.\<close>

definition calculateLineageProgress :: "Task list \<Rightarrow> lineageProgress" where
  "calculateLineageProgress tasks =
     (let total = length tasks; completed = count_status StatusCompleted tasks
      in \<lparr>lp_Total = total, lp_Pending = count_status StatusPending tasks,
          lp_InProgress = count_status StatusInProgress tasks, lp_Completed = completed,
          lp_Blocked = count_status StatusBlocked tasks,
          lp_Percent = (if total > 0 then of_nat completed / of_nat total * 100 else 0)\<rparr>)"

definition lineage_envelope :: "TaskStore \<Rightarrow> Task \<Rightarrow> lineageEnvelope" where
  "lineage_envelope s task =
     (let descendants = lineageDescendants (ID task) (Tasks s)
      in \<lparr>le_SchemaVersion = protocolVersion, le_Root = newProtocolTask task,
          le_Descendants = map newProtocolTask descendants,
          le_Progress = calculateLineageProgress (task # descendants)\<rparr>)"

section \<open>What if\<close>

record whatifItem =
  wi_ID :: u64
  wi_Title :: string

record whatifDone =
  wd_WouldUnblock :: "whatifItem list"
  wd_StillBlocked :: nat

definition simulate_done :: "u64 \<Rightarrow> tasks \<Rightarrow> tasks" where
  "simulate_done i ts = map (\<lambda>(k, v). (k, if k = i then v\<lparr>Status := StatusCompleted\<rparr> else v)) ts"

definition whatif_done :: "TaskStore \<Rightarrow> u64 \<Rightarrow> DependencyResolver \<Rightarrow> whatifDone" where
  "whatif_done s i resolver =
     (let simTasks = simulate_done i (Tasks s);
          ready = GetReadyTasksWithResolver simTasks resolver;
          beforeBlocked = GetBlockedTasksWithResolver (Tasks s) resolver;
          newlyReady = filter (\<lambda>t. map_of beforeBlocked (ID t) \<noteq> None) ready
      in \<lparr>wd_WouldUnblock = map (\<lambda>t. \<lparr>wi_ID = ID t, wi_Title = Title t\<rparr>) newlyReady,
          wd_StillBlocked = length (GetBlockedTasksWithResolver simTasks resolver)\<rparr>)"

section \<open>The graph\<close>

record graphNode =
  gn_ID :: u64
  gn_Title :: string
  gn_Status :: string

record graphEdge =
  ge_From :: u64
  ge_To :: u64

record graphResult =
  g_Nodes :: "graphNode list"
  g_Edges :: "graphEdge list"

definition graph_result :: "TaskStore \<Rightarrow> graphResult" where
  "graph_result s =
     (let nodes = map (\<lambda>t. \<lparr>gn_ID = ID t, gn_Title = Title t, gn_Status = statusName (Status t)\<rparr>) (GetAllTasks s);
          edges = concat (map (\<lambda>t. map (\<lambda>depID. \<lparr>ge_From = depID, ge_To = ID t\<rparr>) (local_dep_ids t)) (GetAllTasks s))
      in \<lparr>g_Nodes = go_sort (\<lambda>a b. gn_ID a < gn_ID b) nodes, g_Edges = edges\<rparr>)"

section \<open>Capabilities\<close>

record capsResult =
  c_Capabilities :: "string list"
  c_TaskCount :: nat

definition caps_result :: "string \<Rightarrow> bool \<Rightarrow> TaskStore \<Rightarrow> capsResult" where
  "caps_result actor all' s =
     (let counted = filter (\<lambda>t. \<not> (actor \<noteq> [] \<and> Owner t \<noteq> actor) \<and> \<not> (\<not> all' \<and> Status t = StatusCompleted))
                      (GetAllTasks s)
      in \<lparr>c_Capabilities = sort_Strings (remdups (concat (map Capabilities counted))), c_TaskCount = length counted\<rparr>)"

record capabilityDemand =
  cd_Capability :: string
  cd_TaskCount :: nat

record capsEnvelope =
  ce_SchemaVersion :: string
  ce_RequiredCapabilities :: "capabilityDemand list"
  ce_TotalUnclaimedTasks :: nat
  ce_TasksWithoutCaps :: nat
  ce_RegisteredAgents :: nat
  ce_UnmatchedCapabilities :: "string list"

text \<open>
  \<^verbatim>\<open>cmdCaps\<close> up to its output, from all the tasks it gathered. The error of \<^verbatim>\<open>loadAgentRegistry\<close> is
  ignored there, and the \<^verbatim>\<open>nil\<close> registry it comes with is dereferenced: \<open>None\<close> is the panic.
  Here a capability a task repeats counts each time.
\<close>

definition caps_count :: "Task list \<Rightarrow> (string, nat) gomap" where
  "caps_count tasks =
     (let all = concat (map Capabilities tasks) in map (\<lambda>c. (c, count_list all c)) (remdups all))"

definition cmdCaps_report ::
  "string \<Rightarrow> (goerr + AgentRegistry) \<Rightarrow> Task list \<Rightarrow> capsEnvelope option" where
  "cmdCaps_report agentName loaded allTasks =
     (let unclaimed = filter (\<lambda>t. Status t \<noteq> StatusCompleted
                        \<and> (if agentName \<noteq> [] then Owner t \<noteq> agentName else Owner t = [])) allTasks;
          capsCount = caps_count unclaimed
      in case loaded of
           Inl _ \<Rightarrow> None
         | Inr agentRegistry \<Rightarrow>
             (let agentCaps = concat (map (card_Capabilities \<circ> snd) (Agents agentRegistry));
                  unmatched = sort_Strings (filter (\<lambda>c. c \<notin> set agentCaps) (map fst capsCount));
                  capsList = go_sort (\<lambda>a b. if cd_TaskCount a \<noteq> cd_TaskCount b then cd_TaskCount a > cd_TaskCount b
                                            else str_less (cd_Capability a) (cd_Capability b))
                               (map (\<lambda>(c, n). \<lparr>cd_Capability = c, cd_TaskCount = n\<rparr>) capsCount)
              in Some \<lparr>ce_SchemaVersion = ''1'', ce_RequiredCapabilities = capsList,
                       ce_TotalUnclaimedTasks = length unclaimed,
                       ce_TasksWithoutCaps = length (filter (\<lambda>t. Capabilities t = []) unclaimed),
                       ce_RegisteredAgents = length (Agents agentRegistry),
                       ce_UnmatchedCapabilities = unmatched\<rparr>))"

section \<open>Next\<close>

definition next_envelope :: "TaskStore \<Rightarrow> DependencyResolver \<Rightarrow> string list \<Rightarrow> bool \<Rightarrow> nextEnvelope" where
  "next_envelope s resolver capabilities filterCapabilities =
     \<lparr>ne_SchemaVersion = protocolVersion,
      ne_AvailableTasks =
        map (\<lambda>task. \<lparr>av_ID = ID task, av_Title = Title task, av_Priority = Priority task,
                     av_Capabilities = Capabilities task, av_Reason = ''ready: all dependencies completed''\<rparr>)
          (rankedReadyTasks s resolver capabilities filterCapabilities),
      ne_BlockedSummary = newBlockedSummaryWithResolver (Tasks s) resolver,
      ne_Allocation = diagnoseAllocation s resolver [] capabilities filterCapabilities 0\<rparr>"

section \<open>The prediction of what-if\<close>

lemma map_of_simulate_done:
  "map_of (simulate_done i ts) j =
     (if j = i then map_option (\<lambda>v. v\<lparr>Status := StatusCompleted\<rparr>) (map_of ts j) else map_of ts j)"
  by (induction ts) (auto simp: simulate_done_def)

lemma tasks_wf_simulate_done: "tasks_wf ts \<Longrightarrow> tasks_wf (simulate_done i ts)"
  by (auto simp: tasks_wf_def simulate_done_def comp_def case_prod_unfold)

lemma dep_blocks_status:
  assumes "\<And>j. map_option Status (map_of ts j) = map_option Status (map_of ts' j)"
  shows "dep_blocks ts resolver d = dep_blocks ts' resolver d"
proof (cases "ParseLocalID d")
  case (Some j)
  then show ?thesis using assms [of j] by (cases "map_of ts j"; cases "map_of ts' j") (auto simp: dep_blocks_def)
qed (simp add: dep_blocks_def)

lemma set_ready:
  assumes "tasks_wf ts"
  shows "set (GetReadyTasksWithResolver ts r) =
    {t. map_of ts (ID t) = Some t \<and> Status t = StatusPending \<and> (\<forall>d \<in> set (Depends t). \<not> dep_blocks ts r d)}"
  using GetAllTasks_set [of "NewTaskStore\<lparr>Tasks := ts\<rparr>"] assms
  by (auto simp: GetReadyTasksWithResolver_def DependenciesCompleteWithResolver_def deps_complete_iff GetAllTasks_def)

lemma status_update_same: "t = t\<lparr>Status := st\<rparr> \<longleftrightarrow> Status t = st"
  by (cases t) auto

lemma blocked_keys_distinct: "distinct (map fst (GetBlockedTasksWithResolver ts r))"
proof -
  have app: "distinct (map fst m) \<Longrightarrow> distinct (map fst (fold (append_blocked i) us m))" for i us m
    by (induction us arbitrary: m) (auto simp: append_blocked_def distinct_update)
  have "distinct (map fst m) \<Longrightarrow> distinct (map fst (fold (\<lambda>(_, task). block_task ts0 r task) ts m))" for ts0 m
    by (induction ts arbitrary: m) (auto simp: block_task_def app)
  then show ?thesis by (simp add: GetBlockedTasksWithResolver_def)
qed

lemma length_blocked: "length (GetBlockedTasksWithResolver ts r) = card (dom (map_of (GetBlockedTasksWithResolver ts r)))"
  using blocked_keys_distinct by (metis distinct_card dom_map_of_conv_image_fst length_map list.set_map)

section \<open>The walk over the lineage\<close>

definition parent_of :: "tasks \<Rightarrow> (u64 \<times> u64) set" where
  "parent_of ts = {(p, c). \<exists>t. map_of ts c = Some t \<and> Lineage t = ''todo://local/'' @ fmt_id p}"

lemma set_lineage_children:
  "tasks_wf ts \<Longrightarrow> set (lineage_children ts p) = {t. map_of ts (ID t) = Some t \<and> (p, ID t) \<in> parent_of ts}"
  using GetAllTasks_set [of "NewTaskStore\<lparr>Tasks := ts\<rparr>"]
  by (auto simp: lineage_children_def parent_of_def GetAllTasks_def)

lemma lineage_walk_upper:
  assumes "tasks_wf ts"
  shows "t \<in> set (lineage_walk ts stack visited result) \<Longrightarrow> t \<in> set result
    \<or> (t \<in> set stack \<or> map_of ts (ID t) = Some t) \<and> ID t \<notin> visited \<and> (\<exists>c \<in> set stack. (ID c, ID t) \<in> (parent_of ts)\<^sup>*)"
  using assms
proof (induction ts stack visited result rule: lineage_walk.induct)
  case (2 ts child stack visited result)
  show ?case
  proof (cases "ID child \<in> visited")
    case True
    with 2(1) [OF True] 2(3,4) show ?thesis by auto
  next
    case False
    with 2(3) have "t \<in> set (lineage_walk ts (lineage_children ts (ID child) @ stack) (insert (ID child) visited) (result @ [child]))"
      by simp
    from 2(2) [OF False this 2(4)] False show ?thesis
      using set_lineage_children [OF 2(4), of "ID child"] by (auto intro: converse_rtrancl_into_rtrancl)
  qed
qed simp

lemma lineage_walk_lower:
  "set result \<subseteq> set (lineage_walk ts stack visited result)
    \<and> ID ` set stack \<subseteq> visited \<union> ID ` set (lineage_walk ts stack visited result)"
proof (induction ts stack visited result rule: lineage_walk.induct)
  case (2 ts child stack visited result)
  show ?case
  proof (cases "ID child \<in> visited")
    case True
    with 2(1) [OF True] show ?thesis by auto
  next
    case False
    with 2(2) [OF False] show ?thesis by fastforce
  qed
qed simp

lemma lineage_walk_closed:
  assumes "\<And>p c. p \<in> visited \<Longrightarrow> c \<in> set (lineage_children ts p) \<Longrightarrow> ID c \<in> visited \<union> ID ` set stack"
    and "ID ` set result \<subseteq> visited"
    and "p \<in> visited \<union> ID ` set (lineage_walk ts stack visited result)" "c \<in> set (lineage_children ts p)"
  shows "ID c \<in> visited \<union> ID ` set (lineage_walk ts stack visited result)"
  using assms
proof (induction ts stack visited result arbitrary: p c rule: lineage_walk.induct)
  case (1 ts visited result)
  then show ?case by auto
next
  case (2 ts child stack visited result)
  show ?case
  proof (cases "ID child \<in> visited")
    case True
    have "ID c \<in> visited \<union> ID ` set (lineage_walk ts stack visited result)"
    proof (rule 2(1) [OF True])
      show "ID c \<in> visited \<union> ID ` set stack" if "p \<in> visited" "c \<in> set (lineage_children ts p)" for p c
        using 2(3) [OF that] True by auto
    qed (use 2(4-6) True in auto)
    with True show ?thesis by simp
  next
    case False
    let ?w = "lineage_walk ts (lineage_children ts (ID child) @ stack) (insert (ID child) visited) (result @ [child])"
    have in_w: "ID child \<in> ID ` set ?w"
      using lineage_walk_lower [of "result @ [child]" ts "lineage_children ts (ID child) @ stack" "insert (ID child) visited"]
      by auto
    have "ID c \<in> insert (ID child) visited \<union> ID ` set ?w"
    proof (rule 2(2) [OF False])
      show "ID c \<in> insert (ID child) visited \<union> ID ` set (lineage_children ts (ID child) @ stack)"
        if "p \<in> insert (ID child) visited" "c \<in> set (lineage_children ts p)" for p c
        using 2(3) [of p c] that by auto
    qed (use 2(4-6) False in auto)
    with in_w False show ?thesis by auto
  qed
qed

lemma lineage_walk_distinct:
  "distinct (map ID result) \<Longrightarrow> ID ` set result \<subseteq> visited \<Longrightarrow>
    distinct (map ID (lineage_walk ts stack visited result))"
proof (induction ts stack visited result rule: lineage_walk.induct)
  case (2 ts child stack visited result)
  then show ?case by (cases "ID child \<in> visited") auto
qed simp

section \<open>Properties\<close>

text \<open>
  C22: what-if is right. When a completion succeeds, the tasks that what-if named before it are
  exactly those that the completion then reports as newly ready, and the number of tasks it said
  would stay blocked is the number that is.
\<close>

theorem whatif_predicts:
  assumes "store_inv s" "completeTask clk i actor resolver now s = (Inr j, s')"
  shows "wi_ID ` set (wd_WouldUnblock (whatif_done s i resolver)) = ID ` set (newlyReadyAfter s' [i] resolver)
    \<and> wd_StillBlocked (whatif_done s i resolver) = length (GetBlockedTasksWithResolver (Tasks s') resolver)"
proof -
  have "done_mutate clk [i] actor resolver now s = (Inr [j], s')" using assms(2) by simp
  then have run: "done_mutate clk [i] actor resolver now s = (Inr [i], s')" using done_mutate_effect by metis
  note e = done_mutate_effect [OF run] and wf = store_inv_wf [OF assms(1)] and wf' = done_mutate_wf [OF run store_inv_wf [OF assms(1)]]
  let ?sim = "simulate_done i (Tasks s)"
  have m': "map_of (Tasks s') k = (if k = i then map_option (completed_task (millis now)) (map_of (Tasks s) k) else map_of (Tasks s) k)" for k
    using e by simp
  have blocks: "dep_blocks ?sim resolver d = dep_blocks (Tasks s') resolver d" for d
    by (rule dep_blocks_status) (simp add: m' map_of_simulate_done option.map_comp comp_def)
  have wf_sim: "tasks_wf ?sim" by (rule tasks_wf_simulate_done [OF wf])
  define released where "released = {t. map_of (Tasks s) (ID t) = Some t \<and> ID t \<noteq> i \<and> Status t = StatusPending
      \<and> (\<forall>d \<in> set (Depends t). \<not> dep_blocks (Tasks s') resolver d) \<and> (\<exists>d \<in> set (Depends t). dep_blocks (Tasks s) resolver d)}"
  have "set (filter (\<lambda>t. map_of (GetBlockedTasksWithResolver (Tasks s) resolver) (ID t) \<noteq> None)
      (GetReadyTasksWithResolver ?sim resolver)) = released"
    by (auto simp: set_ready [OF wf_sim] map_of_GetBlockedTasks [OF wf] map_of_simulate_done blocks released_def
        blocked_on_def Let_def filter_empty_conv status_update_same split: if_splits option.splits)
  moreover have "set (newlyReadyAfter s' [i] resolver) = released"
    unfolding newlyReadyAfter_set [OF run]
    by (auto simp: set_ready [OF wf'] m' released_def DependenciesCompleteWithResolver_def deps_complete_iff
        split: if_splits)
  ultimately have unblocked: "wi_ID ` set (wd_WouldUnblock (whatif_done s i resolver)) = ID ` set (newlyReadyAfter s' [i] resolver)"
    by (simp add: whatif_done_def Let_def image_image)
  have "blocked_on ?sim resolver t = blocked_on (Tasks s') resolver t" for t
    by (simp add: blocked_on_def ext [of "dep_blocks ?sim resolver", OF blocks])
  then have "map_of (GetBlockedTasksWithResolver ?sim resolver) k = map_of (GetBlockedTasksWithResolver (Tasks s') resolver) k" for k
    by (cases "map_of (Tasks s) k")
       (auto simp: map_of_GetBlockedTasks [OF wf_sim] map_of_GetBlockedTasks [OF wf'] map_of_simulate_done m' blocked_on_def)
  then have "length (GetBlockedTasksWithResolver ?sim resolver) = length (GetBlockedTasksWithResolver (Tasks s') resolver)"
    by (simp add: length_blocked dom_def)
  with unblocked show ?thesis by (simp add: whatif_done_def Let_def)
qed

text \<open>
  C23: the lineage of an objective is complete and ends. The walk returns, each once, exactly the
  tasks whose chain of parents leads to the root, other than the root itself, also where the
  recorded parents form a cycle.
\<close>

theorem lineage_exact:
  assumes "tasks_wf ts"
  shows "set (lineageDescendants r ts) = {t. map_of ts (ID t) = Some t \<and> ID t \<noteq> r \<and> (r, ID t) \<in> (parent_of ts)\<^sup>+}
    \<and> distinct (map ID (lineageDescendants r ts))"
proof
  let ?ds = "lineageDescendants r ts" and ?E = "parent_of ts"
  note def = lineageDescendants_def [of r ts]
  show "distinct (map ID ?ds)" unfolding def by (rule lineage_walk_distinct) simp_all
  have closed: "ID c \<in> {r} \<union> ID ` set ?ds" if "p \<in> {r} \<union> ID ` set ?ds" "c \<in> set (lineage_children ts p)" for p c
    unfolding def by (rule lineage_walk_closed) (use that in \<open>auto simp: def\<close>)
  have member: "map_of ts (ID t) = Some t \<and> ID t \<noteq> r \<and> (r, ID t) \<in> ?E\<^sup>+" if "t \<in> set ?ds" for t
    using lineage_walk_upper [OF assms that [unfolded def]] set_lineage_children [OF assms, of r]
    by (auto intro: rtrancl_into_trancl2)
  have reach: "i \<in> {r} \<union> ID ` set ?ds" if "(r, i) \<in> ?E\<^sup>*" for i
    using that
  proof (induction rule: rtrancl_induct)
    case (step p i)
    then obtain t where t: "map_of ts i = Some t" "(p, i) \<in> ?E" by (auto simp: parent_of_def)
    then have "ID t = i" using tasks_wfD [OF assms] by blast
    with t have "t \<in> set (lineage_children ts p)" by (simp add: set_lineage_children [OF assms])
    with closed [OF step(3)] \<open>ID t = i\<close> show ?case by blast
  qed simp
  have "t \<in> set ?ds" if t: "map_of ts (ID t) = Some t" "ID t \<noteq> r" "(r, ID t) \<in> ?E\<^sup>+" for t
  proof -
    have "ID t \<in> {r} \<union> ID ` set ?ds" by (rule reach, rule trancl_into_rtrancl, rule t(3))
    with t(2) have "ID t \<in> ID ` set ?ds" by simp
    then obtain u where u: "u \<in> set ?ds" "ID t = ID u" by (rule imageE)
    have "u = t" using conjunct1 [OF member [OF u(1)]] t(1) u(2) by simp
    with u(1) show ?thesis by simp
  qed
  with member show "set ?ds = {t. map_of ts (ID t) = Some t \<and> ID t \<noteq> r \<and> (r, ID t) \<in> ?E\<^sup>+}" by blast
qed

section \<open>Witnesses and divergences\<close>

lemma whatif_predicts_witness:
  "wi_ID ` set (wd_WouldUnblock (whatif_done two_store 1 None)) = ID ` set (newlyReadyAfter first_done [1] None)"
proof -
  obtain j s' where "completeTask 0 1 [] None 9000000 two_store = (Inr j, s')" and "s' = first_done"
    using first_done_run by (auto split: prod.splits sum.splits)
  with whatif_predicts [OF two_store_inv] show ?thesis by blast
qed

lemma lineage_exact_witness: "distinct (map ID (lineageDescendants 1 (Tasks two_store)))"
  using lineage_exact [OF store_inv_wf [OF two_store_inv]] by blast

text \<open>
  The two surfaces answer differently when a task names another twice, which \<^verbatim>\<open>todo add --after 1
  --after 1\<close> stores: the command line reports two dependents, the server one.
\<close>

definition twice_store :: TaskStore where
  "twice_store = snd (insert_new 0 (plain_task ''api'') [local_uri 1, local_uri 1] one_store)"

lemma dependents_counted_twice:
  "countDependents (Tasks twice_store) 1 = 2" "length (dependents_of twice_store 1) = 1"
proof -
  have "Tasks twice_store = [(1, first_task), (2, added_task 0 (plain_task ''api'') [local_uri 1, local_uri 1] 2)]"
    by (simp add: twice_store_def one_store_def insert_new_def AddTask_def AddEvent_def modify_task_def put_task_def
        added_task_def Let_def)
  then show "countDependents (Tasks twice_store) 1 = 2" "length (dependents_of twice_store 1) = 1"
    by (simp_all add: countDependents_def dependents_of_def GetAllTasks_def refers_to_def)
qed

text \<open>A registry that does not decode makes \<^verbatim>\<open>todo caps\<close> panic.\<close>

lemma caps_panics: "cmdCaps_report actor (loadAgentRegistry (JSONInvalid err)) tasks = None"
  by (simp add: cmdCaps_report_def loadAgentRegistry_def load_json_def Let_def)

end
