(* ===== verification/Rpc.thy ===== *)
theory Rpc
  imports Reads
begin

text \<open>
  The frame of the JSON-RPC server (\<^verbatim>\<open>serve.go\<close>): requests and their parameters, results, and the
  world a handler runs in. A JSON text is represented by the value it parses to; decoding a value
  into a Go struct follows \<^verbatim>\<open>encoding/json\<close> with \<^verbatim>\<open>DisallowUnknownFields\<close>, driven by the fields and
  tags of the struct.
\<close>

section \<open>JSON values and their decoding\<close>

datatype json =
    JNull | JBool bool | JNumber string | JString string | JArray "json list" | JObject "(string \<times> json) list"

text \<open>
  A field name matches its tag exactly or up to case folding. Only U+017F and U+212A fold to ASCII
  letters.
\<close>

fun fold_name :: "string \<Rightarrow> string" where
  "fold_name [] = []"
| "fold_name (c # cs) =
     (if map byte (take 2 (c # cs)) = [0xC5, 0xBF :: nat] then CHR ''S'' # fold_name (tl cs)
      else if map byte (take 3 (c # cs)) = [0xE2, 0x84, 0xAA :: nat] then CHR ''K'' # fold_name (tl (tl cs))
      else if 97 \<le> byte c \<and> byte c \<le> (122 :: nat) then char_of (byte c - 32 :: nat) # fold_name cs
      else c # fold_name cs)"

text \<open>A setter stores a value into a field, or fails on a value of the wrong type. \<^verbatim>\<open>null\<close> leaves plain fields alone.\<close>

type_synonym 'r setter = "json \<Rightarrow> 'r \<Rightarrow> 'r option"
type_synonym 'r fields = "(string \<times> 'r setter) list"

definition find_field :: "'r fields \<Rightarrow> string \<Rightarrow> 'r setter option" where
  "find_field fs name =
     (case map_of fs name of
        Some set' \<Rightarrow> Some set'
      | None \<Rightarrow> map_option snd (find (\<lambda>(tag, _). fold_name tag = fold_name name) fs))"

fun decode_object :: "'r fields \<Rightarrow> (string \<times> json) list \<Rightarrow> 'r \<Rightarrow> 'r option" where
  "decode_object fs [] r = Some r"
| "decode_object fs ((name, v) # rest) r =
     (case find_field fs name of
        None \<Rightarrow> None
      | Some set' \<Rightarrow> (case set' v r of None \<Rightarrow> None | Some r \<Rightarrow> decode_object fs rest r))"

fun decode_struct :: "'r fields \<Rightarrow> 'r setter" where
  "decode_struct fs JNull r = Some r"
| "decode_struct fs (JObject kvs) r = decode_object fs kvs r"
| "decode_struct fs _ r = None"

fun set_string :: "(string \<Rightarrow> 'r \<Rightarrow> 'r) \<Rightarrow> 'r setter" where
  "set_string upd (JString s) r = Some (upd s r)"
| "set_string upd JNull r = Some r"
| "set_string upd _ r = None"

fun set_bool :: "(bool \<Rightarrow> 'r \<Rightarrow> 'r) \<Rightarrow> 'r setter" where
  "set_bool upd (JBool b) r = Some (upd b r)"
| "set_bool upd JNull r = Some r"
| "set_bool upd _ r = None"

fun set_uint64 :: "(u64 \<Rightarrow> 'r \<Rightarrow> 'r) \<Rightarrow> 'r setter" where
  "set_uint64 upd (JNumber n) r = map_option (\<lambda>w. upd w r) (ParseUint n)"
| "set_uint64 upd JNull r = Some r"
| "set_uint64 upd _ r = None"

definition ParseInt :: "string \<Rightarrow> int option" where
  "ParseInt s =
     (case s of
        CHR ''-'' # ds \<Rightarrow>
          (case ParseUint ds of Some w \<Rightarrow> if uint w \<le> 2 ^ 63 then Some (- uint w) else None | None \<Rightarrow> None)
      | _ \<Rightarrow> (case ParseUint s of Some w \<Rightarrow> if uint w < 2 ^ 63 then Some (uint w) else None | None \<Rightarrow> None))"

fun set_int :: "(int \<Rightarrow> 'r \<Rightarrow> 'r) \<Rightarrow> 'r setter" where
  "set_int upd (JNumber n) r = map_option (\<lambda>w. upd w r) (ParseInt n)"
| "set_int upd JNull r = Some r"
| "set_int upd _ r = None"

text \<open>\<open>parse\<close> reads a decimal number into a \<^verbatim>\<open>float32\<close>.\<close>

fun set_float32 :: "(string \<Rightarrow> float32 option) \<Rightarrow> (float32 \<Rightarrow> 'r \<Rightarrow> 'r) \<Rightarrow> 'r setter" where
  "set_float32 parse upd (JNumber n) r = map_option (\<lambda>w. upd w r) (parse n)"
| "set_float32 parse upd JNull r = Some r"
| "set_float32 parse upd _ r = None"

text \<open>A pointer field: \<^verbatim>\<open>null\<close> makes it \<^verbatim>\<open>nil\<close>, any other value is decoded into a new variable.\<close>

definition set_pointer :: "(('a \<Rightarrow> 'a \<Rightarrow> 'a) \<Rightarrow> 'a setter) \<Rightarrow> 'a \<Rightarrow> ('a option \<Rightarrow> 'r \<Rightarrow> 'r) \<Rightarrow> 'r setter" where
  "set_pointer set' zero upd j r =
     (if j = JNull then Some (upd None r) else map_option (\<lambda>v. upd (Some v) r) (set' (\<lambda>v _. v) j zero))"

fun json_strings :: "json list \<Rightarrow> string list option" where
  "json_strings [] = Some []"
| "json_strings (JString s # js) = map_option ((#) s) (json_strings js)"
| "json_strings (JNull # js) = map_option ((#) []) (json_strings js)"
| "json_strings (_ # js) = None"

text \<open>A slice of strings; \<open>None\<close> is the \<^verbatim>\<open>nil\<close> slice.\<close>

fun set_strings :: "(string list option \<Rightarrow> 'r \<Rightarrow> 'r) \<Rightarrow> 'r setter" where
  "set_strings upd (JArray js) r = map_option (\<lambda>ss. upd (Some ss) r) (json_strings js)"
| "set_strings upd JNull r = Some (upd None r)"
| "set_strings upd _ r = None"

definition or_empty :: "'a list option \<Rightarrow> 'a list" where
  "or_empty xs = (case xs of None \<Rightarrow> [] | Some xs \<Rightarrow> xs)"

fun json_map :: "(string \<times> json) list \<Rightarrow> (string, string) gomap \<Rightarrow> (string, string) gomap option" where
  "json_map [] m = Some m"
| "json_map ((k, JString v) # kvs) m = json_map kvs (AList.update k v m)"
| "json_map ((k, JNull) # kvs) m = json_map kvs (AList.update k [] m)"
| "json_map (_ # kvs) m = None"

fun set_string_map :: "((string, string) gomap \<Rightarrow> 'r \<Rightarrow> 'r) \<Rightarrow> 'r setter" where
  "set_string_map upd (JObject kvs) r = map_option (\<lambda>m. upd m r) (json_map kvs [])"
| "set_string_map upd JNull r = Some (upd [] r)"
| "set_string_map upd _ r = None"

section \<open>Requests\<close>

text \<open>A \<^verbatim>\<open>json.RawMessage\<close> that was not in the request is \<open>None\<close>.\<close>

record rpcRequest =
  JSONRPC :: string
  req_ID :: "json option"
  Method :: string
  Params :: "json option"

definition request_fields :: "rpcRequest fields" where
  "request_fields =
     [(''jsonrpc'', set_string (\<lambda>v r. r\<lparr>JSONRPC := v\<rparr>)),
      (''id'', \<lambda>v r. Some (r\<lparr>req_ID := Some v\<rparr>)),
      (''method'', set_string (\<lambda>v r. r\<lparr>Method := v\<rparr>)),
      (''params'', \<lambda>v r. Some (r\<lparr>Params := Some v\<rparr>))]"

definition decode_request :: "json \<Rightarrow> rpcRequest option" where
  "decode_request j = decode_struct request_fields j \<lparr>JSONRPC = [], req_ID = None, Method = [], Params = None\<rparr>"

definition rpcErrorf :: "int \<Rightarrow> goerr \<Rightarrow> rpcError" where
  "rpcErrorf code err = \<lparr>rpc_Code = code, rpc_Message = err, rpc_Data = None\<rparr>"

definition rpcErrorWithData :: "int \<Rightarrow> goerr \<Rightarrow> allocationDiagnostics \<Rightarrow> rpcError" where
  "rpcErrorWithData code message d = \<lparr>rpc_Code = code, rpc_Message = message, rpc_Data = Some d\<rparr>"

abbreviation msg :: "string \<Rightarrow> goerr" where "msg s \<equiv> Errorf s [] []"

definition unmarshalParams :: "'r fields \<Rightarrow> 'r \<Rightarrow> json option \<Rightarrow> rpcError + 'r" where
  "unmarshalParams fs zero params =
     (case params of
        None \<Rightarrow> Inr zero
      | Some j \<Rightarrow>
          (case decode_struct fs j zero of
             None \<Rightarrow> Inl (rpcErrorf rpcInvalidParams (msg ''Invalid params: %v''))
           | Some p \<Rightarrow> Inr p))"

section \<open>Parameters\<close>

fun json_uint64s :: "json list \<Rightarrow> u64 list option" where
  "json_uint64s [] = Some []"
| "json_uint64s (JNumber n # js) =
     (case ParseUint n of None \<Rightarrow> None | Some w \<Rightarrow> map_option ((#) w) (json_uint64s js))"
| "json_uint64s (JNull # js) = map_option ((#) 0) (json_uint64s js)"
| "json_uint64s (_ # js) = None"

fun set_uint64s :: "(u64 list \<Rightarrow> 'r \<Rightarrow> 'r) \<Rightarrow> 'r setter" where
  "set_uint64s upd (JArray js) r = map_option (\<lambda>ws. upd ws r) (json_uint64s js)"
| "set_uint64s upd JNull r = Some (upd [] r)"
| "set_uint64s upd _ r = None"

text \<open>The capabilities of a subtask end up in its task, where \<^verbatim>\<open>nil\<close> and the empty slice are one.\<close>

definition subtask_fields :: "decomposeSubtask fields" where
  "subtask_fields =
     [(''title'', set_string (\<lambda>v p. p\<lparr>sub_Title := v\<rparr>)),
      (''capabilities'', set_strings (\<lambda>v p. p\<lparr>sub_Capabilities := or_empty v\<rparr>))]"

fun json_subtasks :: "json list \<Rightarrow> decomposeSubtask list option" where
  "json_subtasks [] = Some []"
| "json_subtasks (j # js) =
     (case decode_struct subtask_fields j \<lparr>sub_Title = [], sub_Capabilities = []\<rparr> of
        None \<Rightarrow> None
      | Some sub \<Rightarrow> map_option ((#) sub) (json_subtasks js))"

fun set_subtasks :: "(decomposeSubtask list \<Rightarrow> 'r \<Rightarrow> 'r) \<Rightarrow> 'r setter" where
  "set_subtasks upd (JArray js) r = map_option (\<lambda>ss. upd ss r) (json_subtasks js)"
| "set_subtasks upd JNull r = Some (upd [] r)"
| "set_subtasks upd _ r = None"

definition decode_empty :: "json option \<Rightarrow> rpcError + unit" where
  "decode_empty = unmarshalParams [] ()"

record addParams =
  add_Title :: string
  add_After :: "string list option"
  add_Priority :: "float32 option"
  add_Capabilities :: "string list option"
  add_Tags :: "string list option"
  add_Receipt :: bool

definition decode_addParams :: "(string \<Rightarrow> float32 option) \<Rightarrow> json option \<Rightarrow> rpcError + addParams" where
  "decode_addParams parse = unmarshalParams
       [(''title'', set_string (\<lambda>v p. p\<lparr>add_Title := v\<rparr>)),
        (''after'', set_strings (\<lambda>v p. p\<lparr>add_After := v\<rparr>)),
        (''priority'', set_pointer (set_float32 parse) f_zero (\<lambda>v p. p\<lparr>add_Priority := v\<rparr>)),
        (''capabilities'', set_strings (\<lambda>v p. p\<lparr>add_Capabilities := v\<rparr>)),
        (''tags'', set_strings (\<lambda>v p. p\<lparr>add_Tags := v\<rparr>)),
        (''receipt'', set_bool (\<lambda>v p. p\<lparr>add_Receipt := v\<rparr>))]
       \<lparr>add_Title = [], add_After = None, add_Priority = None, add_Capabilities = None, add_Tags = None, add_Receipt = False\<rparr>"

record doneParams =
  done_IDs :: "u64 list"
  done_Actor :: string
  done_Receipt :: bool

definition decode_doneParams :: "json option \<Rightarrow> rpcError + doneParams" where
  "decode_doneParams = unmarshalParams
       [(''ids'', set_uint64s (\<lambda>v p. p\<lparr>done_IDs := v\<rparr>)),
        (''actor'', set_string (\<lambda>v p. p\<lparr>done_Actor := v\<rparr>)),
        (''receipt'', set_bool (\<lambda>v p. p\<lparr>done_Receipt := v\<rparr>))]
       \<lparr>done_IDs = [], done_Actor = [], done_Receipt = False\<rparr>"

record statusParams =
  status_Tag :: string
  status_Actor :: string
  status_All :: bool

definition decode_statusParams :: "json option \<Rightarrow> rpcError + statusParams" where
  "decode_statusParams = unmarshalParams
       [(''tag'', set_string (\<lambda>v p. p\<lparr>status_Tag := v\<rparr>)),
        (''actor'', set_string (\<lambda>v p. p\<lparr>status_Actor := v\<rparr>)),
        (''all'', set_bool (\<lambda>v p. p\<lparr>status_All := v\<rparr>))]
       \<lparr>status_Tag = [], status_Actor = [], status_All = False\<rparr>"

record catParams =
  cat_ID :: u64

definition decode_catParams :: "json option \<Rightarrow> rpcError + catParams" where
  "decode_catParams = unmarshalParams
       [(''id'', set_uint64 (\<lambda>v p. p\<lparr>cat_ID := v\<rparr>))]
       \<lparr>cat_ID = 0\<rparr>"

record updateParams =
  update_ID :: u64
  update_Title :: "string option"
  update_Priority :: "float32 option"
  update_Capabilities :: "string list option"
  update_Actor :: string
  update_Extra :: "(string, string) gomap"
  update_AddDeps :: "string list option"
  update_RemoveDeps :: "string list option"
  update_Receipt :: bool

definition decode_updateParams :: "(string \<Rightarrow> float32 option) \<Rightarrow> json option \<Rightarrow> rpcError + updateParams" where
  "decode_updateParams parse = unmarshalParams
       [(''id'', set_uint64 (\<lambda>v p. p\<lparr>update_ID := v\<rparr>)),
        (''title'', set_pointer set_string [] (\<lambda>v p. p\<lparr>update_Title := v\<rparr>)),
        (''priority'', set_pointer (set_float32 parse) f_zero (\<lambda>v p. p\<lparr>update_Priority := v\<rparr>)),
        (''capabilities'', set_strings (\<lambda>v p. p\<lparr>update_Capabilities := v\<rparr>)),
        (''actor'', set_string (\<lambda>v p. p\<lparr>update_Actor := v\<rparr>)),
        (''extra'', set_string_map (\<lambda>v p. p\<lparr>update_Extra := v\<rparr>)),
        (''addDeps'', set_strings (\<lambda>v p. p\<lparr>update_AddDeps := v\<rparr>)),
        (''removeDeps'', set_strings (\<lambda>v p. p\<lparr>update_RemoveDeps := v\<rparr>)),
        (''receipt'', set_bool (\<lambda>v p. p\<lparr>update_Receipt := v\<rparr>))]
       \<lparr>update_ID = 0, update_Title = None, update_Priority = None, update_Capabilities = None, update_Actor = [], update_Extra = [], update_AddDeps = None, update_RemoveDeps = None, update_Receipt = False\<rparr>"

record claimParams =
  claim_ID :: u64
  claim_Actor :: string
  claim_TTL :: string
  claim_Receipt :: bool

definition decode_claimParams :: "json option \<Rightarrow> rpcError + claimParams" where
  "decode_claimParams = unmarshalParams
       [(''id'', set_uint64 (\<lambda>v p. p\<lparr>claim_ID := v\<rparr>)),
        (''actor'', set_string (\<lambda>v p. p\<lparr>claim_Actor := v\<rparr>)),
        (''ttl'', set_string (\<lambda>v p. p\<lparr>claim_TTL := v\<rparr>)),
        (''receipt'', set_bool (\<lambda>v p. p\<lparr>claim_Receipt := v\<rparr>))]
       \<lparr>claim_ID = 0, claim_Actor = [], claim_TTL = [], claim_Receipt = False\<rparr>"

record acquireParams =
  acquire_Actor :: string
  acquire_RequestID :: string
  acquire_TTL :: string
  acquire_Capabilities :: "string list option"
  acquire_Receipt :: bool

definition decode_acquireParams :: "json option \<Rightarrow> rpcError + acquireParams" where
  "decode_acquireParams = unmarshalParams
       [(''actor'', set_string (\<lambda>v p. p\<lparr>acquire_Actor := v\<rparr>)),
        (''requestId'', set_string (\<lambda>v p. p\<lparr>acquire_RequestID := v\<rparr>)),
        (''ttl'', set_string (\<lambda>v p. p\<lparr>acquire_TTL := v\<rparr>)),
        (''capabilities'', set_strings (\<lambda>v p. p\<lparr>acquire_Capabilities := v\<rparr>)),
        (''receipt'', set_bool (\<lambda>v p. p\<lparr>acquire_Receipt := v\<rparr>))]
       \<lparr>acquire_Actor = [], acquire_RequestID = [], acquire_TTL = [], acquire_Capabilities = None, acquire_Receipt = False\<rparr>"

record heartbeatParams =
  heartbeat_ID :: u64
  heartbeat_Actor :: string
  heartbeat_TTL :: string
  heartbeat_Receipt :: bool

definition decode_heartbeatParams :: "json option \<Rightarrow> rpcError + heartbeatParams" where
  "decode_heartbeatParams = unmarshalParams
       [(''id'', set_uint64 (\<lambda>v p. p\<lparr>heartbeat_ID := v\<rparr>)),
        (''actor'', set_string (\<lambda>v p. p\<lparr>heartbeat_Actor := v\<rparr>)),
        (''ttl'', set_string (\<lambda>v p. p\<lparr>heartbeat_TTL := v\<rparr>)),
        (''receipt'', set_bool (\<lambda>v p. p\<lparr>heartbeat_Receipt := v\<rparr>))]
       \<lparr>heartbeat_ID = 0, heartbeat_Actor = [], heartbeat_TTL = [], heartbeat_Receipt = False\<rparr>"

record releaseParams =
  release_ID :: u64
  release_Actor :: string
  release_Error :: string
  release_Receipt :: bool

definition decode_releaseParams :: "json option \<Rightarrow> rpcError + releaseParams" where
  "decode_releaseParams = unmarshalParams
       [(''id'', set_uint64 (\<lambda>v p. p\<lparr>release_ID := v\<rparr>)),
        (''actor'', set_string (\<lambda>v p. p\<lparr>release_Actor := v\<rparr>)),
        (''error'', set_string (\<lambda>v p. p\<lparr>release_Error := v\<rparr>)),
        (''receipt'', set_bool (\<lambda>v p. p\<lparr>release_Receipt := v\<rparr>))]
       \<lparr>release_ID = 0, release_Actor = [], release_Error = [], release_Receipt = False\<rparr>"

record handoffParams =
  handoff_ID :: u64
  handoff_Actor :: string
  handoff_Extra :: "(string, string) gomap"
  handoff_Receipt :: bool

definition decode_handoffParams :: "json option \<Rightarrow> rpcError + handoffParams" where
  "decode_handoffParams = unmarshalParams
       [(''id'', set_uint64 (\<lambda>v p. p\<lparr>handoff_ID := v\<rparr>)),
        (''actor'', set_string (\<lambda>v p. p\<lparr>handoff_Actor := v\<rparr>)),
        (''extra'', set_string_map (\<lambda>v p. p\<lparr>handoff_Extra := v\<rparr>)),
        (''receipt'', set_bool (\<lambda>v p. p\<lparr>handoff_Receipt := v\<rparr>))]
       \<lparr>handoff_ID = 0, handoff_Actor = [], handoff_Extra = [], handoff_Receipt = False\<rparr>"

record blockParams =
  block_ID :: u64
  block_Reason :: string
  block_Actor :: string
  block_Receipt :: bool

definition decode_blockParams :: "json option \<Rightarrow> rpcError + blockParams" where
  "decode_blockParams = unmarshalParams
       [(''id'', set_uint64 (\<lambda>v p. p\<lparr>block_ID := v\<rparr>)),
        (''reason'', set_string (\<lambda>v p. p\<lparr>block_Reason := v\<rparr>)),
        (''actor'', set_string (\<lambda>v p. p\<lparr>block_Actor := v\<rparr>)),
        (''receipt'', set_bool (\<lambda>v p. p\<lparr>block_Receipt := v\<rparr>))]
       \<lparr>block_ID = 0, block_Reason = [], block_Actor = [], block_Receipt = False\<rparr>"

record unblockParams =
  unblock_ID :: u64
  unblock_Actor :: string
  unblock_Receipt :: bool

definition decode_unblockParams :: "json option \<Rightarrow> rpcError + unblockParams" where
  "decode_unblockParams = unmarshalParams
       [(''id'', set_uint64 (\<lambda>v p. p\<lparr>unblock_ID := v\<rparr>)),
        (''actor'', set_string (\<lambda>v p. p\<lparr>unblock_Actor := v\<rparr>)),
        (''receipt'', set_bool (\<lambda>v p. p\<lparr>unblock_Receipt := v\<rparr>))]
       \<lparr>unblock_ID = 0, unblock_Actor = [], unblock_Receipt = False\<rparr>"

record nextParams =
  next_Capabilities :: "string list option"

definition decode_nextParams :: "json option \<Rightarrow> rpcError + nextParams" where
  "decode_nextParams = unmarshalParams
       [(''capabilities'', set_strings (\<lambda>v p. p\<lparr>next_Capabilities := v\<rparr>))]
       \<lparr>next_Capabilities = None\<rparr>"

record logParams =
  log_ID :: u64
  log_Message :: string
  log_Actor :: string
  log_Receipt :: bool

definition decode_logParams :: "json option \<Rightarrow> rpcError + logParams" where
  "decode_logParams = unmarshalParams
       [(''id'', set_uint64 (\<lambda>v p. p\<lparr>log_ID := v\<rparr>)),
        (''message'', set_string (\<lambda>v p. p\<lparr>log_Message := v\<rparr>)),
        (''actor'', set_string (\<lambda>v p. p\<lparr>log_Actor := v\<rparr>)),
        (''receipt'', set_bool (\<lambda>v p. p\<lparr>log_Receipt := v\<rparr>))]
       \<lparr>log_ID = 0, log_Message = [], log_Actor = [], log_Receipt = False\<rparr>"

record myParams =
  my_Actor :: string

definition decode_myParams :: "json option \<Rightarrow> rpcError + myParams" where
  "decode_myParams = unmarshalParams
       [(''actor'', set_string (\<lambda>v p. p\<lparr>my_Actor := v\<rparr>))]
       \<lparr>my_Actor = []\<rparr>"

record searchParams =
  search_Query :: string

definition decode_searchParams :: "json option \<Rightarrow> rpcError + searchParams" where
  "decode_searchParams = unmarshalParams
       [(''query'', set_string (\<lambda>v p. p\<lparr>search_Query := v\<rparr>))]
       \<lparr>search_Query = []\<rparr>"

record dependsParams =
  depends_ID :: u64

definition decode_dependsParams :: "json option \<Rightarrow> rpcError + dependsParams" where
  "decode_dependsParams = unmarshalParams
       [(''id'', set_uint64 (\<lambda>v p. p\<lparr>depends_ID := v\<rparr>))]
       \<lparr>depends_ID = 0\<rparr>"

record dependentsParams =
  dependents_ID :: u64

definition decode_dependentsParams :: "json option \<Rightarrow> rpcError + dependentsParams" where
  "decode_dependentsParams = unmarshalParams
       [(''id'', set_uint64 (\<lambda>v p. p\<lparr>dependents_ID := v\<rparr>))]
       \<lparr>dependents_ID = 0\<rparr>"

record decomposeParams =
  decompose_ID :: u64
  decompose_Subtasks :: "decomposeSubtask list"
  decompose_Actor :: string
  decompose_Receipt :: bool

definition decode_decomposeParams :: "json option \<Rightarrow> rpcError + decomposeParams" where
  "decode_decomposeParams = unmarshalParams
       [(''id'', set_uint64 (\<lambda>v p. p\<lparr>decompose_ID := v\<rparr>)),
        (''subtasks'', set_subtasks (\<lambda>v p. p\<lparr>decompose_Subtasks := v\<rparr>)),
        (''actor'', set_string (\<lambda>v p. p\<lparr>decompose_Actor := v\<rparr>)),
        (''receipt'', set_bool (\<lambda>v p. p\<lparr>decompose_Receipt := v\<rparr>))]
       \<lparr>decompose_ID = 0, decompose_Subtasks = [], decompose_Actor = [], decompose_Receipt = False\<rparr>"

record lineageParams =
  lineage_ID :: u64

definition decode_lineageParams :: "json option \<Rightarrow> rpcError + lineageParams" where
  "decode_lineageParams = unmarshalParams
       [(''id'', set_uint64 (\<lambda>v p. p\<lparr>lineage_ID := v\<rparr>))]
       \<lparr>lineage_ID = 0\<rparr>"

record whatIfParams =
  whatIf_ID :: u64
  whatIf_Scenario :: string

definition decode_whatIfParams :: "json option \<Rightarrow> rpcError + whatIfParams" where
  "decode_whatIfParams = unmarshalParams
       [(''id'', set_uint64 (\<lambda>v p. p\<lparr>whatIf_ID := v\<rparr>)),
        (''scenario'', set_string (\<lambda>v p. p\<lparr>whatIf_Scenario := v\<rparr>))]
       \<lparr>whatIf_ID = 0, whatIf_Scenario = []\<rparr>"

record graphParams =
  graph_Format :: string

definition decode_graphParams :: "json option \<Rightarrow> rpcError + graphParams" where
  "decode_graphParams = unmarshalParams
       [(''format'', set_string (\<lambda>v p. p\<lparr>graph_Format := v\<rparr>))]
       \<lparr>graph_Format = []\<rparr>"

record configGetParams =
  configGet_Key :: string

definition decode_configGetParams :: "json option \<Rightarrow> rpcError + configGetParams" where
  "decode_configGetParams = unmarshalParams
       [(''key'', set_string (\<lambda>v p. p\<lparr>configGet_Key := v\<rparr>))]
       \<lparr>configGet_Key = []\<rparr>"

record configSetParams =
  configSet_Key :: string
  configSet_Value :: string

definition decode_configSetParams :: "json option \<Rightarrow> rpcError + configSetParams" where
  "decode_configSetParams = unmarshalParams
       [(''key'', set_string (\<lambda>v p. p\<lparr>configSet_Key := v\<rparr>)),
        (''value'', set_string (\<lambda>v p. p\<lparr>configSet_Value := v\<rparr>))]
       \<lparr>configSet_Key = [], configSet_Value = []\<rparr>"

record exportParams =
  export_Format :: string

definition decode_exportParams :: "json option \<Rightarrow> rpcError + exportParams" where
  "decode_exportParams = unmarshalParams
       [(''format'', set_string (\<lambda>v p. p\<lparr>export_Format := v\<rparr>))]
       \<lparr>export_Format = []\<rparr>"

record linkParams =
  link_Alias :: string
  link_Path :: string

definition decode_linkParams :: "json option \<Rightarrow> rpcError + linkParams" where
  "decode_linkParams = unmarshalParams
       [(''alias'', set_string (\<lambda>v p. p\<lparr>link_Alias := v\<rparr>)),
        (''path'', set_string (\<lambda>v p. p\<lparr>link_Path := v\<rparr>))]
       \<lparr>link_Alias = [], link_Path = []\<rparr>"

record unlinkParams =
  unlink_Alias :: string

definition decode_unlinkParams :: "json option \<Rightarrow> rpcError + unlinkParams" where
  "decode_unlinkParams = unmarshalParams
       [(''alias'', set_string (\<lambda>v p. p\<lparr>unlink_Alias := v\<rparr>))]
       \<lparr>unlink_Alias = []\<rparr>"

record backupParams =
  backup_Output :: string

definition decode_backupParams :: "json option \<Rightarrow> rpcError + backupParams" where
  "decode_backupParams = unmarshalParams
       [(''output'', set_string (\<lambda>v p. p\<lparr>backup_Output := v\<rparr>))]
       \<lparr>backup_Output = []\<rparr>"

record restoreParams =
  restore_Path :: string

definition decode_restoreParams :: "json option \<Rightarrow> rpcError + restoreParams" where
  "decode_restoreParams = unmarshalParams
       [(''path'', set_string (\<lambda>v p. p\<lparr>restore_Path := v\<rparr>))]
       \<lparr>restore_Path = []\<rparr>"

record compactParams =
  compact_KeepEvents :: "int option"
  compact_ReceiptsBefore :: string
  compact_DryRun :: bool

definition decode_compactParams :: "json option \<Rightarrow> rpcError + compactParams" where
  "decode_compactParams = unmarshalParams
       [(''keepEvents'', set_pointer set_int 0 (\<lambda>v p. p\<lparr>compact_KeepEvents := v\<rparr>)),
        (''receiptsBefore'', set_string (\<lambda>v p. p\<lparr>compact_ReceiptsBefore := v\<rparr>)),
        (''dryRun'', set_bool (\<lambda>v p. p\<lparr>compact_DryRun := v\<rparr>))]
       \<lparr>compact_KeepEvents = None, compact_ReceiptsBefore = [], compact_DryRun = False\<rparr>"

record pruneParams =
  prune_Receipt :: bool

definition decode_pruneParams :: "json option \<Rightarrow> rpcError + pruneParams" where
  "decode_pruneParams = unmarshalParams
       [(''receipt'', set_bool (\<lambda>v p. p\<lparr>prune_Receipt := v\<rparr>))]
       \<lparr>prune_Receipt = False\<rparr>"

record doctorParams =
  doctor_Fix :: bool

definition decode_doctorParams :: "json option \<Rightarrow> rpcError + doctorParams" where
  "decode_doctorParams = unmarshalParams
       [(''fix'', set_bool (\<lambda>v p. p\<lparr>doctor_Fix := v\<rparr>))]
       \<lparr>doctor_Fix = False\<rparr>"

record agentCardParams =
  agentCard_Actor :: string
  agentCard_Caps :: "string list option"
  agentCard_Desc :: "string option"
  agentCard_MaxLoad :: "int option"

definition decode_agentCardParams :: "json option \<Rightarrow> rpcError + agentCardParams" where
  "decode_agentCardParams = unmarshalParams
       [(''actor'', set_string (\<lambda>v p. p\<lparr>agentCard_Actor := v\<rparr>)),
        (''caps'', set_strings (\<lambda>v p. p\<lparr>agentCard_Caps := v\<rparr>)),
        (''desc'', set_pointer set_string [] (\<lambda>v p. p\<lparr>agentCard_Desc := v\<rparr>)),
        (''maxLoad'', set_pointer set_int 0 (\<lambda>v p. p\<lparr>agentCard_MaxLoad := v\<rparr>))]
       \<lparr>agentCard_Actor = [], agentCard_Caps = None, agentCard_Desc = None, agentCard_MaxLoad = None\<rparr>"

record capsParams =
  caps_Actor :: string
  caps_All :: bool

definition decode_capsParams :: "json option \<Rightarrow> rpcError + capsParams" where
  "decode_capsParams = unmarshalParams
       [(''actor'', set_string (\<lambda>v p. p\<lparr>caps_Actor := v\<rparr>)),
        (''all'', set_bool (\<lambda>v p. p\<lparr>caps_All := v\<rparr>))]
       \<lparr>caps_Actor = [], caps_All = False\<rparr>"

definition decode_eventsParams :: "json option \<Rightarrow> rpcError + eventsParams" where
  "decode_eventsParams = unmarshalParams
       [(''since'', set_uint64 (\<lambda>v p. p\<lparr>ep_Since := v\<rparr>)),
        (''limit'', set_pointer set_int 0 (\<lambda>v p. p\<lparr>ep_Limit := v\<rparr>)),
        (''page'', set_bool (\<lambda>v p. p\<lparr>ep_Page := v\<rparr>))]
       \<lparr>ep_Since = 0, ep_Limit = None, ep_Page = False\<rparr>"

text \<open>The parameters of the bootstrap, with whether \<^verbatim>\<open>capabilities\<close> was a list rather than \<^verbatim>\<open>nil\<close>.\<close>

definition decode_bootstrapParams :: "json option \<Rightarrow> rpcError + (bootstrapParams \<times> bool)" where
  "decode_bootstrapParams = unmarshalParams
       [(''actor'', set_string (\<lambda>v (p, e). (p\<lparr>bp_Actor := v\<rparr>, e))),
        (''capabilities'', set_strings (\<lambda>v (p, e). (p\<lparr>bp_Capabilities := or_empty v\<rparr>, v \<noteq> None))),
        (''objectiveId'', set_uint64 (\<lambda>v (p, e). (p\<lparr>bp_ObjectiveID := v\<rparr>, e))),
        (''limit'', set_int (\<lambda>v (p, e). (p\<lparr>bp_Limit := v\<rparr>, e))),
        (''eventLimit'', set_int (\<lambda>v (p, e). (p\<lparr>bp_EventLimit := v\<rparr>, e)))]
       (\<lparr>bp_Actor = [], bp_Capabilities = [], bp_ObjectiveID = 0, bp_Limit = 0, bp_EventLimit = 0\<rparr>, False)"

end
