(* ===== verification/Redact.thy ===== *)
theory Redact
  imports Rpc Reads "HOL-Library.Sublist"
begin

text \<open>
  Redaction of captured output (\<^verbatim>\<open>conformance/redact.go\<close>), with the two functions of \<^verbatim>\<open>strings\<close> it needs. A
  captured line is bytes; reading and writing it as JSON is the parameter \<open>json_format\<close>, the lower case
  of a key the parameter \<open>lower\<close>. The order of an object's entries is the order in which \<^verbatim>\<open>range\<close>
  visits the map.
\<close>

section \<open>\<^verbatim>\<open>strings.Index\<close> and \<^verbatim>\<open>strings.ReplaceAll\<close>\<close>

fun Index :: "string \<Rightarrow> string \<Rightarrow> nat option" where
  "Index [] sub = (if sub = [] then Some 0 else None)"
| "Index (c # cs) sub = (if HasPrefix (c # cs) sub then Some 0 else map_option Suc (Index cs sub))"

lemma Index_bound: "Index s sub = Some i \<Longrightarrow> i + length sub \<le> length s"
  by (induction s arbitrary: i) (auto simp: HasPrefix_iff split: if_splits dest!: arg_cong [where f = length])

function runes :: "string \<Rightarrow> string list" where
  "runes s = (if s = [] then [] else take (max 1 (rune_len s)) s # runes (drop (max 1 (rune_len s)) s))"
  by pat_completeness auto
termination
  by (relation "measure length") auto

function ReplaceAll :: "string \<Rightarrow> string \<Rightarrow> string \<Rightarrow> string" where
  "ReplaceAll s old repl =
     (if old = [] then concat (map (\<lambda>r. repl @ r) (runes s)) @ repl
      else (case Index s old of
              None \<Rightarrow> s
            | Some i \<Rightarrow> take i s @ repl @ ReplaceAll (drop (i + length old) s) old repl))"
  by pat_completeness auto
termination
proof (relation "measure (\<lambda>(s, _, _). length s)", goal_cases)
  case (2 s old repl i)
  then show ?case using Index_bound [of s old i] by (cases old) auto
qed simp

declare runes.simps [simp del] ReplaceAll.simps [simp del]

lemma Index_found: "Index s sub = Some i \<Longrightarrow> s = take i s @ sub @ drop (i + length sub) s"
proof (induction s arbitrary: i)
  case (Cons c cs)
  show ?case
  proof (cases "HasPrefix (c # cs) sub")
    case True
    with Cons.prems show ?thesis by (auto simp: HasPrefix_iff)
  next
    case False
    with Cons.prems obtain j where "i = Suc j" "Index cs sub = Some j" by auto
    with Cons.IH [of j] show ?thesis by simp
  qed
qed (auto split: if_splits)

lemma HasPrefix_prefix: "HasPrefix s p \<longleftrightarrow> prefix p s"
  by (auto simp: HasPrefix_iff prefix_def)

lemma Index_None: "Index s sub = None \<longleftrightarrow> \<not> sublist sub s"
  by (induction s) (auto simp: HasPrefix_prefix sublist_Cons_right)

lemma Index_first: "Index s sub = Some i \<Longrightarrow> sub \<noteq> [] \<Longrightarrow> \<not> sublist sub (take i s)"
proof (induction s arbitrary: i)
  case (Cons c cs)
  show ?case
  proof (cases "HasPrefix (c # cs) sub")
    case False
    with Cons.prems obtain j where j: "i = Suc j" "Index cs sub = Some j" by auto
    have "\<not> prefix sub (c # take j cs)"
    proof
      assume "prefix sub (c # take j cs)"
      moreover have "prefix (c # take j cs) (c # cs)" by (simp add: take_is_prefix)
      ultimately have "prefix sub (c # cs)" by (rule prefix_order.trans)
      with False show False by (simp add: HasPrefix_prefix)
    qed
    with Cons.IH [OF j(2) Cons.prems(2)] show ?thesis by (simp add: j(1) sublist_Cons_right)
  qed (use Cons.prems in \<open>simp add: sublist_Nil_right\<close>)
qed auto

lemma Contains_sublist: "Contains s sub \<longleftrightarrow> sublist sub s"
  by (induction s) (auto simp: HasPrefix_prefix sublist_Cons_right)

section \<open>The redactor\<close>

definition redactedValue :: string where
  "redactedValue = ''<redacted>''"

text \<open>The redactor is the list of its values, the longest first.\<close>

type_synonym redactor = "string list"

definition secrets_of :: "string list \<Rightarrow> string list" where
  "secrets_of values =
     remdups (concat (map (\<lambda>v. if v = [] then [] else v # filter (\<lambda>line. line \<noteq> []) (Split CHR 0x0A v)) values))"

definition longer_first :: "string \<Rightarrow> string \<Rightarrow> bool" where
  "longer_first a b \<longleftrightarrow> (if length a = length b then str_less a b else length a > length b)"

definition newRedactor :: "string list \<Rightarrow> redactor" where
  "newRedactor values = go_sort longer_first (secrets_of values)"

definition redact_text :: "redactor \<Rightarrow> string \<Rightarrow> string" where
  "redact_text r val = foldl (\<lambda>val secret. ReplaceAll val secret redactedValue) val r"

text \<open>\<open>prev\<close> is the byte before the character.\<close>

definition upper_case :: "char \<Rightarrow> bool" where
  "upper_case c \<longleftrightarrow> 65 \<le> byte c \<and> byte c \<le> (90 :: nat)"

function snake_from :: "char option \<Rightarrow> string \<Rightarrow> string" where
  "snake_from prev s =
     (if s = [] then []
      else if upper_case (hd s)
      then (case prev of
              Some p \<Rightarrow> if p \<noteq> CHR ''_'' \<and> p \<noteq> CHR ''-'' \<and> \<not> upper_case p then ''_'' else []
            | None \<Rightarrow> [])
           @ [char_of (byte (hd s) + 32 :: nat)] @ snake_from (Some (hd s)) (tl s)
      else if rune_len s = 0 then replacement_char @ snake_from (Some (hd s)) (tl s)
      else take (rune_len s) s @ snake_from (Some (s ! (rune_len s - 1))) (drop (rune_len s) s))"
  by pat_completeness auto
termination
  by (relation "measure (length \<circ> snd)") auto

declare snake_from.simps [simp del]

definition camelToSnake :: "string \<Rightarrow> string" where
  "camelToSnake val = snake_from None val"

definition sensitiveJSONKey :: "(string \<Rightarrow> string) \<Rightarrow> string \<Rightarrow> bool" where
  "sensitiveJSONKey lower key \<longleftrightarrow>
     lower (ReplaceAll (camelToSnake key) ''-'' ''_'')
       \<in> set [''api_key'', ''access_token'', ''authorization'', ''session_id'', ''thread_id'', ''token'', ''secret'', ''password'']"

fun jsonValue :: "(string \<Rightarrow> string) \<Rightarrow> redactor \<Rightarrow> json \<Rightarrow> json"
and json_items :: "(string \<Rightarrow> string) \<Rightarrow> redactor \<Rightarrow> json list \<Rightarrow> json list"
and json_entries :: "(string \<Rightarrow> string) \<Rightarrow> redactor \<Rightarrow> (string \<times> json) list \<Rightarrow> (string \<times> json) list \<Rightarrow> (string \<times> json) list" where
  "jsonValue lower r (JString s) = JString (redact_text r s)"
| "jsonValue lower r (JArray js) = JArray (json_items lower r js)"
| "jsonValue lower r (JObject kvs) = JObject (json_entries lower r kvs [])"
| "jsonValue lower r JNull = JNull"
| "jsonValue lower r (JBool b) = JBool b"
| "jsonValue lower r (JNumber n) = JNumber n"
| "json_items lower r [] = []"
| "json_items lower r (j # js) = jsonValue lower r j # json_items lower r js"
| "json_entries lower r [] result = result"
| "json_entries lower r ((key, item) # kvs) result =
     (let redactedKey = redact_text r key
      in json_entries lower r kvs
           (AList.update redactedKey
              (if sensitiveJSONKey lower redactedKey then JString redactedValue else jsonValue lower r item) result))"

datatype Stream = StreamStdout | StreamStderr | StreamAny

datatype event_content = EventJSON string | EventText string

record capture_event =
  cev_Sequence :: nat
  cev_Stream :: Stream
  cev_Content :: event_content

text \<open>\<^verbatim>\<open>json.Unmarshal\<close> into \<^verbatim>\<open>any\<close> and the encoder of \<^verbatim>\<open>marshalJSON\<close>.\<close>

record json_format =
  Unmarshal :: "string \<Rightarrow> json option"
  marshalJSON :: "json \<Rightarrow> string option"
  lowercase :: "string \<Rightarrow> string"

definition redact_event :: "json_format \<Rightarrow> redactor \<Rightarrow> string \<Rightarrow> Stream \<Rightarrow> nat \<Rightarrow> capture_event" where
  "redact_event fmt r line stream sequence =
     (let text' = \<lparr>cev_Sequence = sequence, cev_Stream = stream, cev_Content = EventText (redact_text r line)\<rparr>
      in case Unmarshal fmt line of
           None \<Rightarrow> text'
         | Some val \<Rightarrow>
             (case marshalJSON fmt (jsonValue (lowercase fmt) r val) of
                None \<Rightarrow> text'
              | Some encoded \<Rightarrow>
                  \<lparr>cev_Sequence = sequence, cev_Stream = stream, cev_Content = EventJSON encoded\<rparr>))"

section \<open>What redaction removes\<close>

text \<open>
  A secret is apart from the marker when no part of a marker can belong to an occurrence of the
  secret: neither contains the other, and they do not overlap.
\<close>

definition overlaps :: "string \<Rightarrow> string \<Rightarrow> bool" where
  "overlaps s t \<longleftrightarrow> list_ex (\<lambda>k. drop (length s - k) s = take k t) [1..<Suc (min (length s) (length t))]"

definition apart :: "string \<Rightarrow> string \<Rightarrow> bool" where
  "apart m t \<longleftrightarrow> t \<noteq> [] \<and> \<not> Contains m t \<and> \<not> Contains t m \<and> \<not> overlaps m t \<and> \<not> overlaps t m"

lemma overlapsI:
  assumes "x \<noteq> []" "suffix x s" "prefix x t"
  shows "overlaps s t"
proof -
  obtain ps ss where ps: "s = ps @ x" "t = x @ ss" using assms(2,3) by (auto simp: suffix_def prefix_def)
  have "length x \<in> set [1..<Suc (min (length s) (length t))]" using assms(1) by (cases x) (auto simp: ps)
  moreover have "drop (length s - length x) s = take (length x) t" by (simp add: ps)
  ultimately show ?thesis unfolding overlaps_def list_ex_iff by blast
qed

text \<open>A string apart from the marker that occurs around a marker occurs before it or behind it.\<close>

lemma around_marker:
  assumes "apart m t" "sublist t (a @ m @ b)"
  shows "sublist t a \<or> sublist t b"
proof (rule ccontr)
  assume none: "\<not> (sublist t a \<or> sublist t b)"
  have t: "t \<noteq> []" "\<not> sublist t m" "\<not> sublist m t" "\<not> overlaps m t" "\<not> overlaps t m"
    using assms(1) by (auto simp: apart_def Contains_sublist)
  have "\<not> sublist t (m @ b)"
  proof
    assume "sublist t (m @ b)"
    then obtain x y where xy: "t = x @ y" "suffix x m" "prefix y b" using none t(2) by (auto simp: sublist_append)
    show False
    proof (cases "x = []")
      case True
      with xy(1,3) none show False by auto
    next
      case False
      with overlapsI [of x m t] xy(1,2) t(4) show False by auto
    qed
  qed
  with assms(2) none obtain x y where xy: "t = x @ y" "suffix x a" "prefix y (m @ b)" by (auto simp: sublist_append)
  have "y \<noteq> []" using xy(1,2) none by auto
  show False
  proof (cases "prefix m y")
    case True
    then have "sublist m t" by (simp add: xy(1) sublist_appendI sublist_order.order_trans [OF prefix_imp_sublist])
    with t(3) show False ..
  next
    case False
    with xy(3) have "prefix y m" by (auto simp: prefix_append)
    with overlapsI [OF \<open>y \<noteq> []\<close>, of t m] xy(1) t(5) show False by (auto simp: suffix_def)
  qed
qed

lemma ReplaceAll_no_new:
  "apart repl t \<Longrightarrow> old \<noteq> [] \<Longrightarrow> sublist t (ReplaceAll s old repl) \<Longrightarrow> sublist t s"
proof (induction s old repl rule: ReplaceAll.induct)
  case (1 s old repl)
  show ?case
  proof (cases "Index s old")
    case None
    with "1.prems" show ?thesis by (simp add: ReplaceAll.simps)
  next
    case (Some i)
    let ?rest = "drop (i + length old) s"
    have "sublist t (take i s @ repl @ ReplaceAll ?rest old repl)"
      using "1.prems"(2,3) Some by (subst (asm) ReplaceAll.simps) simp
    with around_marker [OF "1.prems"(1)] consider "sublist t (take i s)" | "sublist t (ReplaceAll ?rest old repl)" by blast
    then show ?thesis
    proof cases
      case 1
      then show ?thesis by (rule sublist_order.order_trans) (rule sublist_take)
    next
      case 2
      with "1.IH" [OF \<open>old \<noteq> []\<close> Some "1.prems"(1,2)] have "sublist t ?rest" by blast
      then show ?thesis by (rule sublist_order.order_trans) (rule sublist_drop)
    qed
  qed
qed

lemma ReplaceAll_gone:
  "apart repl old \<Longrightarrow> \<not> sublist old (ReplaceAll s old repl)"
proof (induction s old repl rule: ReplaceAll.induct)
  case (1 s old repl)
  have old: "old \<noteq> []" using "1.prems" by (simp add: apart_def)
  show ?case
  proof (cases "Index s old")
    case None
    with old have "ReplaceAll s old repl = s" by (subst ReplaceAll.simps) simp
    with None show ?thesis by (simp add: Index_None)
  next
    case (Some i)
    have "\<not> sublist old (take i s)" using Index_first [OF Some old] .
    moreover have "\<not> sublist old (ReplaceAll (drop (i + length old) s) old repl)"
      using "1.IH" [OF old Some "1.prems"] .
    ultimately have "\<not> sublist old (take i s @ repl @ ReplaceAll (drop (i + length old) s) old repl)"
      using around_marker [OF "1.prems"] by blast
    with old Some show ?thesis by (subst ReplaceAll.simps) simp
  qed
qed

lemma redact_text_snoc: "redact_text (r @ [secret]) s = ReplaceAll (redact_text r s) secret redactedValue"
  by (simp add: redact_text_def)

lemma redact_text_gone:
  "list_all (apart redactedValue) r \<Longrightarrow> secret \<in> set r \<Longrightarrow> \<not> sublist secret (redact_text r s)"
proof (induction r rule: rev_induct)
  case (snoc x r)
  then have x: "apart redactedValue x" "x \<noteq> []" and secret: "apart redactedValue secret"
    by (auto simp: list_all_iff apart_def)
  show ?case
  proof (cases "secret = x")
    case True
    with ReplaceAll_gone [OF x(1)] show ?thesis by (simp add: redact_text_snoc)
  next
    case False
    with snoc have "\<not> sublist secret (redact_text r s)" by simp
    with ReplaceAll_no_new [OF secret x(2)] show ?thesis by (auto simp: redact_text_snoc)
  qed
qed simp

text \<open>The strings and the keys of a JSON value.\<close>

fun json_texts :: "json \<Rightarrow> string list" where
  "json_texts (JString s) = [s]"
| "json_texts (JArray js) = concat (map json_texts js)"
| "json_texts (JObject kvs) = concat (map (\<lambda>(k, v). k # json_texts v) kvs)"
| "json_texts _ = []"

lemma update_texts:
  assumes "\<forall>(k, v) \<in> set kvs. P k v" "P k v"
  shows "\<forall>(k, v) \<in> set (AList.update k v kvs). P k v"
  using assms by (induction kvs) auto

lemma redacted_texts:
  assumes marker: "\<not> sublist secret redactedValue"
  shows "(\<forall>s. \<not> sublist secret (redact_text r s)) \<Longrightarrow> \<forall>x \<in> set (json_texts (jsonValue lower r j)). \<not> sublist secret x"
    "(\<forall>s. \<not> sublist secret (redact_text r s))
      \<Longrightarrow> \<forall>j \<in> set (json_items lower r js). \<forall>x \<in> set (json_texts j). \<not> sublist secret x"
    "(\<forall>s. \<not> sublist secret (redact_text r s))
      \<Longrightarrow> \<forall>(k, v) \<in> set result. \<not> sublist secret k \<and> (\<forall>x \<in> set (json_texts v). \<not> sublist secret x)
      \<Longrightarrow> \<forall>(k, v) \<in> set (json_entries lower r kvs result). \<not> sublist secret k \<and> (\<forall>x \<in> set (json_texts v). \<not> sublist secret x)"
proof (induction lower r j and lower r js and lower r kvs result rule: jsonValue_json_items_json_entries.induct)
  case (10 lower r key item kvs result)
  let ?v = "if sensitiveJSONKey lower (redact_text r key) then JString redactedValue else jsonValue lower r item"
  let ?ok = "\<lambda>k v. \<not> sublist secret k \<and> (\<forall>x \<in> set (json_texts v). \<not> sublist secret x)"
  have "?ok (redact_text r key) ?v" using "10.IH"(1) "10.prems"(1) marker by simp
  with "10.prems"(2) have "\<forall>(k, v) \<in> set (AList.update (redact_text r key) ?v result). ?ok k v" by (rule update_texts)
  from "10.IH"(2) [OF refl "10.prems"(1) this] show ?case by (simp add: Let_def)
qed (use marker in auto)

lemma sensitive_entries:
  "\<forall>(k, v) \<in> set result. sensitiveJSONKey lower k \<longrightarrow> v = JString redactedValue
    \<Longrightarrow> \<forall>(k, v) \<in> set (json_entries lower r kvs result). sensitiveJSONKey lower k \<longrightarrow> v = JString redactedValue"
proof (induction kvs arbitrary: result)
  case (Cons kv kvs)
  obtain key item where kv: "kv = (key, item)" by force
  let ?v = "if sensitiveJSONKey lower (redact_text r key) then JString redactedValue else jsonValue lower r item"
  from Cons.prems have "\<forall>(k, v) \<in> set (AList.update (redact_text r key) ?v result).
      sensitiveJSONKey lower k \<longrightarrow> v = JString redactedValue" by (rule update_texts) simp
  from Cons.IH [OF this] show ?case by (simp add: kv Let_def)
qed simp

section \<open>Properties\<close>



text \<open>Without the hypothesis a secret can survive: one that is part of the marker always does.\<close>

lemma marker_is_leaked: "Contains (redact_text (newRedactor [''red'']) ''red'') ''red''"
  by code_simp

end
