(* ===== verification/Scoring.thy ===== *)
theory Scoring
  imports Redact
begin

text \<open>
  The grading of a conformance run (\<^verbatim>\<open>conformance/scoring.go\<close>): the score of one scenario and the grade
  over the checks of all scenarios by a scoring model. \<^verbatim>\<open>float64\<close> values are exact rationals here; the
  weights and points of the catalog are small integers, which a \<^verbatim>\<open>float64\<close> holds exactly.
\<close>

section \<open>Checks and the score of a scenario\<close>

record CheckResult =
  check_ID :: string
  check_Description :: string
  check_Passed :: bool
  check_Required :: bool
  check_Weight :: rat
  check_Criteria :: "string list"
  check_HardGate :: string
  check_Detail :: string

record Score =
  Earned :: rat
  Possible :: rat
  Percent :: rat
  Scored :: bool

text \<open>\<^verbatim>\<open>math.Round\<close>: to the nearest integer, halves away from zero.\<close>

definition math_Round :: "rat \<Rightarrow> rat" where
  "math_Round x = (if x \<ge> 0 then of_int \<lfloor>x + 1 / 2\<rfloor> else - of_int \<lfloor>1 / 2 - x\<rfloor>)"

record 'o Assertion =
  as_ID :: string
  as_Description :: string
  as_Criteria :: "string list"
  as_HardGate :: string
  as_Weight :: rat
  as_Required :: bool
  as_Evaluate :: "('o \<Rightarrow> bool \<times> string) option"

definition check_of :: "'o \<Rightarrow> 'o Assertion \<Rightarrow> CheckResult" where
  "check_of observation a =
     (let (passed, detail) = the (as_Evaluate a) observation
      in \<lparr>check_ID = as_ID a, check_Description = as_Description a, check_Passed = passed, check_Required = as_Required a,
          check_Weight = as_Weight a, check_Criteria = as_Criteria a, check_HardGate = as_HardGate a,
          check_Detail = detail\<rparr>)"

text \<open>The third result says whether every required check passed. An assertion without an evaluator panics.\<close>

definition evaluateAssertions :: "'o Assertion list \<Rightarrow> 'o \<Rightarrow> (CheckResult list \<times> Score \<times> bool) option" where
  "evaluateAssertions assertions observation =
     (if list_ex (\<lambda>a. as_Evaluate a = None) assertions then None
      else
        (let results = map (check_of observation) assertions;
             possible = sum_list (map check_Weight results);
             earned = sum_list (map check_Weight (filter check_Passed results))
         in Some (results,
              \<lparr>Earned = earned, Possible = possible,
               Percent = (if possible = 0 then 100 else math_Round (earned / possible * 1000) / 10), Scored = True\<rparr>,
              list_all (\<lambda>c. check_Required c \<longrightarrow> check_Passed c) results)))"

section \<open>The scoring model\<close>

record Criterion =
  crit_ID :: string
  crit_Points :: rat
  crit_Dimension :: string
  crit_Description :: string

record HardGate =
  gate_ID :: string
  gate_ScoreCap :: rat
  gate_Description :: string

record Level =
  level_ID :: string
  level_MinimumScore :: rat
  level_MaximumScore :: rat
  RequiresNoHardGateFailures :: bool

record ScoringModel =
  model_SchemaVersion :: string
  model_ID :: string
  model_MaximumScore :: rat
  CriterionRule :: string
  Criteria :: "Criterion list"
  HardGates :: "HardGate list"
  Levels :: "Level list"

record CriterionResult =
  cr_ID :: string
  cr_Points :: rat
  cr_Passed :: bool

record ModelScore =
  ms_ModelID :: string
  RawScore :: rat
  CappedScore :: rat
  ms_MaximumScore :: rat
  ms_Level :: string
  ms_Criteria :: "CriterionResult list"
  HardGateFailures :: "string list"

definition model_error :: "string \<Rightarrow> fmtarg list \<Rightarrow> goerr option" where
  "model_error format args = Some (Errorf format args [])"

text \<open>The three loops of \<^verbatim>\<open>validateScoringModel\<close>, each with the IDs seen so far.\<close>

fun check_criteria :: "string list \<Rightarrow> Criterion list \<Rightarrow> goerr option" where
  "check_criteria seen [] = None"
| "check_criteria seen (c # cs) =
     (if crit_ID c = [] \<or> crit_Points c < 0
      then model_error ''conformance scoring criteria require an ID and non-negative points'' []
      else if crit_ID c \<in> set seen then model_error ''duplicate conformance criterion %q'' [ArgStr (crit_ID c)]
      else check_criteria (crit_ID c # seen) cs)"

fun check_gates :: "rat \<Rightarrow> string list \<Rightarrow> HardGate list \<Rightarrow> goerr option" where
  "check_gates maximum seen [] = None"
| "check_gates maximum seen (g # gs) =
     (if gate_ID g = [] \<or> gate_ScoreCap g < 0 \<or> gate_ScoreCap g > maximum
      then model_error ''invalid conformance hard gate %q'' [ArgStr (gate_ID g)]
      else if gate_ID g \<in> set seen then model_error ''duplicate conformance hard gate %q'' [ArgStr (gate_ID g)]
      else check_gates maximum (gate_ID g # seen) gs)"

fun check_levels :: "rat \<Rightarrow> string list \<Rightarrow> Level list \<Rightarrow> goerr option" where
  "check_levels maximum seen [] = None"
| "check_levels maximum seen (l # ls) =
     (if level_ID l = [] \<or> level_MinimumScore l < 0 \<or> level_MaximumScore l < level_MinimumScore l
         \<or> level_MaximumScore l > maximum
      then model_error ''invalid conformance level %q'' [ArgStr (level_ID l)]
      else if level_ID l \<in> set seen then model_error ''duplicate conformance level %q'' [ArgStr (level_ID l)]
      else check_levels maximum (level_ID l # seen) ls)"

definition total_points :: "ScoringModel \<Rightarrow> rat" where
  "total_points model = sum_list (map crit_Points (Criteria model))"

definition validateScoringModel :: "ScoringModel \<Rightarrow> goerr option" where
  "validateScoringModel model =
     (if model_ID model = [] then model_error ''conformance scoring model ID is required'' []
      else if CriterionRule model \<noteq> [] \<and> CriterionRule model \<noteq> ''all_assertions''
      then model_error ''unsupported conformance criterion rule %q'' [ArgStr (CriterionRule model)]
      else
        (case check_criteria [] (Criteria model) of
           Some err \<Rightarrow> Some err
         | None \<Rightarrow>
             if model_MaximumScore model < 0 \<or> \<bar>total_points model - model_MaximumScore model\<bar> > 1 / 1000000
             then model_error ''conformance scoring criteria total %.1f does not equal maximum %.1f'' []
             else
               (case check_gates (model_MaximumScore model) [] (HardGates model) of
                  Some err \<Rightarrow> Some err
                | None \<Rightarrow> check_levels (model_MaximumScore model) [] (Levels model))))"

definition criterionIDs :: "ScoringModel \<Rightarrow> string list" where
  "criterionIDs model = map crit_ID (Criteria model)"

definition hardGateIDs :: "ScoringModel \<Rightarrow> string list" where
  "hardGateIDs model = map gate_ID (HardGates model)"

section \<open>Grading\<close>

text \<open>The references of the checks, in the order of the loop: the first unknown one is the error.\<close>

fun check_references :: "string list \<Rightarrow> string list \<Rightarrow> CheckResult list \<Rightarrow> goerr option" where
  "check_references criteria gates [] = None"
| "check_references criteria gates (c # cs) =
     (case find (\<lambda>criterion. criterion \<notin> set criteria) (check_Criteria c) of
        Some criterion \<Rightarrow>
          model_error ''check %q references unknown criterion %q'' [ArgStr (check_ID c), ArgStr criterion]
      | None \<Rightarrow>
          if check_HardGate c \<noteq> [] \<and> check_HardGate c \<notin> set gates
          then model_error ''check %q references unknown hard gate %q'' [ArgStr (check_ID c), ArgStr (check_HardGate c)]
          else check_references criteria gates cs)"

definition criterion_passed :: "CheckResult list \<Rightarrow> string \<Rightarrow> bool" where
  "criterion_passed checks i =
     (let references = filter (\<lambda>c. i \<in> set (check_Criteria c)) checks
      in references \<noteq> [] \<and> list_all check_Passed references)"

definition gate_failed :: "CheckResult list \<Rightarrow> string \<Rightarrow> bool" where
  "gate_failed checks g = list_ex (\<lambda>c. check_HardGate c \<noteq> [] \<and> check_HardGate c = g \<and> \<not> check_Passed c) checks"

definition level_for :: "rat \<Rightarrow> bool \<Rightarrow> Level list \<Rightarrow> string" where
  "level_for score failures levels =
     (case find (\<lambda>l. \<not> (score < level_MinimumScore l \<or> score > level_MaximumScore l)
                    \<and> \<not> (RequiresNoHardGateFailures l \<and> failures)) levels of
        Some l \<Rightarrow> level_ID l | None \<Rightarrow> [])"

definition Grade :: "ScoringModel \<Rightarrow> CheckResult list \<Rightarrow> goerr + ModelScore" where
  "Grade model checks =
     (let model = (if model_MaximumScore model = 0 then model\<lparr>model_MaximumScore := total_points model\<rparr> else model)
      in case validateScoringModel model of
           Some err \<Rightarrow> Inl err
         | None \<Rightarrow>
             (case check_references (criterionIDs model) (hardGateIDs model) checks of
                Some err \<Rightarrow> Inl err
              | None \<Rightarrow>
                  (let results = map (\<lambda>c. \<lparr>cr_ID = crit_ID c, cr_Points = crit_Points c,
                                           cr_Passed = criterion_passed checks (crit_ID c)\<rparr>) (Criteria model);
                       raw = sum_list (map cr_Points (filter cr_Passed results));
                       failed = filter (\<lambda>g. gate_failed checks (gate_ID g)) (HardGates model);
                       capped = foldl (\<lambda>score g. if score > gate_ScoreCap g then gate_ScoreCap g else score) raw failed
                   in Inr \<lparr>ms_ModelID = model_ID model, RawScore = raw, CappedScore = capped,
                           ms_MaximumScore = model_MaximumScore model,
                           ms_Level = level_for capped (failed \<noteq> []) (Levels model),
                           ms_Criteria = results, HardGateFailures = map gate_ID failed\<rparr>)))"

section \<open>What a grade means\<close>

lemma check_criteria_points: "check_criteria seen cs = None \<Longrightarrow> c \<in> set cs \<Longrightarrow> crit_Points c \<ge> 0"
  by (induction seen cs rule: check_criteria.induct) (auto simp: model_error_def split: if_splits)

lemma check_gates_caps: "check_gates maximum seen gs = None \<Longrightarrow> g \<in> set gs \<Longrightarrow> 0 \<le> gate_ScoreCap g"
  by (induction maximum seen gs rule: check_gates.induct) (auto simp: model_error_def split: if_splits)

definition cap_score :: "rat \<Rightarrow> HardGate list \<Rightarrow> rat" where
  "cap_score raw failed = foldl (\<lambda>score g. if score > gate_ScoreCap g then gate_ScoreCap g else score) raw failed"

lemma le_cap_score: "x \<le> cap_score raw gs \<longleftrightarrow> x \<le> raw \<and> (\<forall>g \<in> set gs. x \<le> gate_ScoreCap g)"
  unfolding cap_score_def by (induction gs arbitrary: raw) auto

lemma cap_score_cases: "cap_score raw gs = raw \<or> (\<exists>g \<in> set gs. cap_score raw gs = gate_ScoreCap g)"
  unfolding cap_score_def by (induction gs arbitrary: raw) force+

lemma points_mono:
  assumes "\<And>c. c \<in> set cs \<Longrightarrow> crit_Points c \<ge> 0" "\<And>c. c \<in> set cs \<Longrightarrow> P c \<Longrightarrow> Q c"
  shows "sum_list (map crit_Points (filter P cs)) \<le> sum_list (map crit_Points (filter Q cs))"
  using assms
proof (induction cs)
  case (Cons c cs)
  then have "sum_list (map crit_Points (filter P cs)) \<le> sum_list (map crit_Points (filter Q cs))" by simp
  with Cons.prems [of c] show ?case by (auto intro: add_increasing)
qed simp

text \<open>A successful grade, as a function of the checks.\<close>

definition passed_points :: "CheckResult list \<Rightarrow> Criterion list \<Rightarrow> rat" where
  "passed_points checks cs = sum_list (map crit_Points (filter (\<lambda>c. criterion_passed checks (crit_ID c)) cs))"

definition failed_gates :: "CheckResult list \<Rightarrow> HardGate list \<Rightarrow> HardGate list" where
  "failed_gates checks gs = filter (\<lambda>g. gate_failed checks (gate_ID g)) gs"

definition effective_model :: "ScoringModel \<Rightarrow> ScoringModel" where
  "effective_model model =
     (if model_MaximumScore model = 0 then model\<lparr>model_MaximumScore := total_points model\<rparr> else model)"

lemma Grade_iff:
  "Grade model checks = Inr g \<longleftrightarrow>
     validateScoringModel (effective_model model) = None
     \<and> check_references (criterionIDs model) (hardGateIDs model) checks = None
     \<and> g = \<lparr>ms_ModelID = model_ID model, RawScore = passed_points checks (Criteria model),
            CappedScore = cap_score (passed_points checks (Criteria model)) (failed_gates checks (HardGates model)),
            ms_MaximumScore = model_MaximumScore (effective_model model),
            ms_Level = level_for (cap_score (passed_points checks (Criteria model)) (failed_gates checks (HardGates model)))
                         (failed_gates checks (HardGates model) \<noteq> []) (Levels model),
            ms_Criteria = map (\<lambda>c. \<lparr>cr_ID = crit_ID c, cr_Points = crit_Points c,
                                    cr_Passed = criterion_passed checks (crit_ID c)\<rparr>) (Criteria model),
            HardGateFailures = map gate_ID (failed_gates checks (HardGates model))\<rparr>"
  (is "?run \<longleftrightarrow> ?ok")
proof -
  have fields: "Criteria (effective_model model) = Criteria model" "HardGates (effective_model model) = HardGates model"
    "Levels (effective_model model) = Levels model" "model_ID (effective_model model) = model_ID model"
    "criterionIDs (effective_model model) = criterionIDs model" "hardGateIDs (effective_model model) = hardGateIDs model"
    by (simp_all add: effective_model_def criterionIDs_def hardGateIDs_def)
  have points: "sum_list (map cr_Points (filter cr_Passed (map (\<lambda>c. \<lparr>cr_ID = crit_ID c, cr_Points = crit_Points c,
      cr_Passed = criterion_passed checks (crit_ID c)\<rparr>) (Criteria model)))) = passed_points checks (Criteria model)"
    by (simp add: passed_points_def filter_map comp_def)
  show ?thesis
    unfolding Grade_def effective_model_def [symmetric] Let_def fields points
    unfolding cap_score_def [symmetric] failed_gates_def [symmetric]
    by (auto split: option.splits)
qed

lemma valid_model:
  assumes "validateScoringModel model = None"
  shows "c \<in> set (Criteria model) \<Longrightarrow> crit_Points c \<ge> 0" "g \<in> set (HardGates model) \<Longrightarrow> gate_ScoreCap g \<ge> 0"
    "\<bar>total_points model - model_MaximumScore model\<bar> \<le> 1 / 1000000"
  using assms check_criteria_points check_gates_caps
  by (auto simp: validateScoringModel_def model_error_def split: if_splits option.splits)

lemma sum_list_nonneg': "(\<And>c. c \<in> set cs \<Longrightarrow> crit_Points c \<ge> 0) \<Longrightarrow> 0 \<le> sum_list (map crit_Points cs)"
  by (intro sum_list_nonneg) auto

lemma level_for_level:
  "level_for score failures levels \<noteq> []
    \<Longrightarrow> \<exists>l \<in> set levels. level_ID l = level_for score failures levels \<and> level_MinimumScore l \<le> score
      \<and> score \<le> level_MaximumScore l \<and> (RequiresNoHardGateFailures l \<longrightarrow> \<not> failures)"
  by (induction levels) (auto simp: level_for_def not_less split: if_splits)

text \<open>
  A grade is bounded by its gates. If grading succeeds, the capped score lies between 0 and the raw
  score, and the raw score is at most the maximum of the model (up to the tolerance of the
  validation); each failed hard gate is reported and caps the score, and a score below the raw score
  is exactly the cap of a failed gate; and the level given admits the capped score, and no gate
  failed if the level forbids that.
\<close>

theorem grade_bounded:
  assumes "Grade model checks = Inr g"
  shows "0 \<le> CappedScore g \<and> CappedScore g \<le> RawScore g \<and> RawScore g \<le> ms_MaximumScore g + 1 / 1000000
    \<and> (\<forall>gate \<in> set (HardGates model). gate_failed checks (gate_ID gate) \<longrightarrow>
         gate_ID gate \<in> set (HardGateFailures g) \<and> CappedScore g \<le> gate_ScoreCap gate)
    \<and> (CappedScore g < RawScore g \<longrightarrow>
         (\<exists>gate \<in> set (HardGates model). gate_failed checks (gate_ID gate) \<and> CappedScore g = gate_ScoreCap gate))
    \<and> (ms_Level g \<noteq> [] \<longrightarrow>
         (\<exists>l \<in> set (Levels model). level_ID l = ms_Level g \<and> level_MinimumScore l \<le> CappedScore g
            \<and> CappedScore g \<le> level_MaximumScore l \<and> (RequiresNoHardGateFailures l \<longrightarrow> HardGateFailures g = [])))"
proof -
  let ?raw = "passed_points checks (Criteria model)" and ?failed = "failed_gates checks (HardGates model)"
  let ?m = "effective_model model"
  have g: "validateScoringModel ?m = None" "RawScore g = ?raw" "CappedScore g = cap_score ?raw ?failed"
    "ms_MaximumScore g = model_MaximumScore ?m" "HardGateFailures g = map gate_ID ?failed"
    "ms_Level g = level_for (cap_score ?raw ?failed) (?failed \<noteq> []) (Levels model)"
    using assms by (simp_all add: Grade_iff)
  have m: "Criteria ?m = Criteria model" "HardGates ?m = HardGates model" "total_points ?m = total_points model"
    by (simp_all add: effective_model_def total_points_def)
  note valid = valid_model [OF g(1), unfolded m]
  have points: "0 \<le> ?raw" unfolding passed_points_def by (rule sum_list_nonneg') (auto intro: valid(1))
  have "?raw \<le> sum_list (map crit_Points (filter (\<lambda>_. True) (Criteria model)))"
    unfolding passed_points_def by (rule points_mono) (auto intro: valid(1))
  then have "?raw \<le> total_points model" by (simp add: total_points_def)
  with order_trans [OF abs_ge_self valid(3)] have "?raw \<le> ms_MaximumScore g + 1 / 1000000" unfolding g(4) by linarith
  moreover have "0 \<le> cap_score ?raw ?failed" "cap_score ?raw ?failed \<le> ?raw"
    using points valid(2) le_cap_score [of 0 ?raw ?failed] le_cap_score [of "cap_score ?raw ?failed" ?raw ?failed]
    by (auto simp: failed_gates_def)
  moreover have "cap_score ?raw ?failed \<le> gate_ScoreCap gate" if "gate \<in> set ?failed" for gate
    using le_cap_score [of "cap_score ?raw ?failed" ?raw ?failed] that by simp
  moreover have "\<exists>l \<in> set (Levels model). level_ID l = ms_Level g \<and> level_MinimumScore l \<le> CappedScore g
      \<and> CappedScore g \<le> level_MaximumScore l \<and> (RequiresNoHardGateFailures l \<longrightarrow> HardGateFailures g = [])"
    if "ms_Level g \<noteq> []"
    using that level_for_level [of "cap_score ?raw ?failed" "?failed \<noteq> []" "Levels model"] unfolding g(3,5,6) by auto
  ultimately show ?thesis
    using cap_score_cases [of ?raw ?failed] unfolding g(2,3,5) by (auto simp: failed_gates_def)
qed

text \<open>A check that improves: the same references, and it does not pass only where it did not before.\<close>

definition improves :: "CheckResult \<Rightarrow> CheckResult \<Rightarrow> bool" where
  "improves c c' \<longleftrightarrow>
     check_ID c' = check_ID c \<and> check_Criteria c' = check_Criteria c \<and> check_HardGate c' = check_HardGate c
     \<and> (check_Passed c \<longrightarrow> check_Passed c')"

lemma improves_references:
  "list_all2 improves checks checks' \<Longrightarrow> check_references cs gs checks' = check_references cs gs checks"
  by (induction rule: list_all2_induct) (simp_all add: improves_def split: option.split)

lemma improves_criterion:
  assumes "list_all2 improves checks checks'" "criterion_passed checks i"
  shows "criterion_passed checks' i"
proof -
  have "list_all2 improves (filter (\<lambda>c. i \<in> set (check_Criteria c)) checks) (filter (\<lambda>c. i \<in> set (check_Criteria c)) checks')"
    using assms(1) by (induction rule: list_all2_induct) (auto simp: improves_def)
  then show ?thesis using assms(2)
    by (auto simp: criterion_passed_def Let_def improves_def list_all2_conv_all_nth list_all_length)
qed

lemma improves_gate:
  "list_all2 improves checks checks' \<Longrightarrow> gate_failed checks' g \<Longrightarrow> gate_failed checks g"
  unfolding gate_failed_def by (induction rule: list_all2_induct) (auto simp: improves_def)

text \<open>
  Grading is monotone. If the same checks are graded again and every check that passed still
  passes, grading succeeds again and neither the raw nor the capped score goes down.
\<close>

theorem grade_monotone:
  assumes "Grade model checks = Inr g" "list_all2 improves checks checks'"
  shows "\<exists>g'. Grade model checks' = Inr g' \<and> RawScore g \<le> RawScore g' \<and> CappedScore g \<le> CappedScore g'"
proof -
  let ?raw = "\<lambda>checks. passed_points checks (Criteria model)" and ?failed = "\<lambda>checks. failed_gates checks (HardGates model)"
  have m: "Criteria (effective_model model) = Criteria model" by (simp add: effective_model_def)
  from assms(1) have ok: "validateScoringModel (effective_model model) = None"
    "check_references (criterionIDs model) (hardGateIDs model) checks' = None"
    "RawScore g = ?raw checks" "CappedScore g = cap_score (?raw checks) (?failed checks)"
    by (simp_all add: Grade_iff improves_references [OF assms(2)])
  have raw: "?raw checks \<le> ?raw checks'"
    unfolding passed_points_def
    by (rule points_mono) (use valid_model(1) [OF ok(1)] improves_criterion [OF assms(2)] in \<open>auto simp: m\<close>)
  have "set (?failed checks') \<subseteq> set (?failed checks)" using improves_gate [OF assms(2)] by (auto simp: failed_gates_def)
  then have "cap_score (?raw checks) (?failed checks) \<le> cap_score (?raw checks') (?failed checks')"
    using raw le_cap_score [of "cap_score (?raw checks) (?failed checks)" "?raw checks" "?failed checks"]
    by (auto simp: le_cap_score [of _ "?raw checks'"])
  with ok raw show ?thesis using Grade_iff [of model checks'] by simp
qed

definition sample_model :: ScoringModel where
  "sample_model =
     \<lparr>model_SchemaVersion = ''1'', model_ID = ''m'', model_MaximumScore = 100, CriterionRule = ''all_assertions'',
      Criteria = [\<lparr>crit_ID = ''a'', crit_Points = 60, crit_Dimension = [], crit_Description = []\<rparr>,
                  \<lparr>crit_ID = ''b'', crit_Points = 40, crit_Dimension = [], crit_Description = []\<rparr>],
      HardGates = [\<lparr>gate_ID = ''g'', gate_ScoreCap = 50, gate_Description = []\<rparr>],
      Levels = [\<lparr>level_ID = ''top'', level_MinimumScore = 90, level_MaximumScore = 100, RequiresNoHardGateFailures = True\<rparr>,
                \<lparr>level_ID = ''base'', level_MinimumScore = 0, level_MaximumScore = 100, RequiresNoHardGateFailures = False\<rparr>]\<rparr>"

definition sample_check :: "string \<Rightarrow> string \<Rightarrow> bool \<Rightarrow> CheckResult" where
  "sample_check criterion gate passed =
     \<lparr>check_ID = criterion, check_Description = [], check_Passed = passed, check_Required = True, check_Weight = 1,
      check_Criteria = [criterion], check_HardGate = gate, check_Detail = []\<rparr>"

lemma sample_grade:
  "\<exists>g. Grade sample_model [sample_check ''a'' [] True, sample_check ''b'' ''g'' False] = Inr g
    \<and> RawScore g = 60 \<and> CappedScore g = 50 \<and> ms_Level g = ''base''"
  by (simp add: Grade_def sample_model_def sample_check_def validateScoringModel_def total_points_def criterionIDs_def
      hardGateIDs_def criterion_passed_def gate_failed_def level_for_def)

lemma grade_bounded_witness:
  "\<exists>g. Grade sample_model [sample_check ''a'' [] True, sample_check ''b'' ''g'' False] = Inr g
    \<and> CappedScore g = 50 \<and> CappedScore g \<le> RawScore g \<and> 0 \<le> CappedScore g"
  using sample_grade grade_bounded by blast

lemma grade_monotone_witness:
  "\<exists>g'. Grade sample_model [sample_check ''a'' [] True, sample_check ''b'' ''g'' True] = Inr g' \<and> 50 \<le> CappedScore g'"
proof -
  obtain g where g: "Grade sample_model [sample_check ''a'' [] True, sample_check ''b'' ''g'' False] = Inr g" "CappedScore g = 50"
    using sample_grade by blast
  have "list_all2 improves [sample_check ''a'' [] True, sample_check ''b'' ''g'' False]
      [sample_check ''a'' [] True, sample_check ''b'' ''g'' True]" by (simp add: improves_def sample_check_def)
  from grade_monotone [OF g(1) this] g(2) show ?thesis by auto
qed

end
