(* ===== verification/Server.thy ===== *)
theory Server
  imports Rpc
begin

text \<open>
  The world a handler of the JSON-RPC server (\<^verbatim>\<open>serve.go\<close>) runs in, and the steps handlers are made
  of. The files are the stores of the projects by their path and the three documents of the
  project; a handler maps the world to a result and the new world, \<open>None\<close> being a panic. What the
  operating system does and what other processes do to the files between two accesses is in the
  environment, indexed by the number of the access.
\<close>

section \<open>Paths\<close>

text \<open>\<^verbatim>\<open>filepath.Clean\<close>, \<^verbatim>\<open>filepath.Join\<close> and \<^verbatim>\<open>filepath.IsAbs\<close> on Unix. Files are told apart by their path.\<close>

definition IsAbs :: "string \<Rightarrow> bool" where
  "IsAbs path = HasPrefix path ''/''"

fun clean_elems :: "bool \<Rightarrow> string list \<Rightarrow> string list \<Rightarrow> string list" where
  "clean_elems rooted [] out = rev out"
| "clean_elems rooted (e # es) out =
     (if e = [] \<or> e = ''.'' then clean_elems rooted es out
      else if e = ''..'' then
        (case out of
           o1 # rest \<Rightarrow> if o1 \<noteq> ''..'' then clean_elems rooted es rest else clean_elems rooted es (''..'' # out)
         | [] \<Rightarrow> if rooted then clean_elems rooted es [] else clean_elems rooted es [''..''])
      else clean_elems rooted es (e # out))"

definition Clean :: "string \<Rightarrow> string" where
  "Clean path =
     (let cleaned = Join ''/'' (clean_elems (IsAbs path) (Split CHR ''/'' path) [])
      in if IsAbs path then CHR ''/'' # cleaned else if cleaned = [] then ''.'' else cleaned)"

definition filepath_Join :: "string list \<Rightarrow> string" where
  "filepath_Join elems =
     (case dropWhile (\<lambda>e. e = []) elems of [] \<Rightarrow> [] | es \<Rightarrow> Clean (Join ''/'' es))"

section \<open>Results\<close>

record pingResult =
  ping_Version :: string
  ping_ProtocolVersion :: string
  ping_Project :: string
  ping_Initialized :: bool
  ping_Capabilities :: "string list"

record claimResult =
  claimed_ID :: u64
  claimed_Owner :: string
  claimed_Expires :: string
  claimed_RetryCount :: u32
  claimed_LastError :: string

record dependsResult =
  dr_TaskID :: u64
  dr_TaskTitle :: string
  dr_Depends :: "dependsEntry list"

record dependentsEntry =
  dn_ID :: u64
  dn_Title :: string

record dependentsResult =
  dnr_TaskID :: u64
  dnr_TaskTitle :: string
  dnr_Dependents :: "dependentsEntry list"

record decomposeResult =
  dc_Parent :: protocolTask
  dc_Subtasks :: "protocolTask list"

record whatIfResult =
  wr_TaskID :: u64
  wr_Title :: string
  wr_IfDone :: "whatifDone option"
  wr_IfBlocked :: "nat option"

text \<open>
  The map that \<^verbatim>\<open>todo.doctor\<close> returns: the sizes of the files that exist, and the error of loading the
  store or its \<^verbatim>\<open>task_count\<close> and \<^verbatim>\<open>orphaned_deps\<close>.
\<close>

record doctorResult =
  doc_TasksBin :: "nat option"
  doc_Repositories :: "nat option"
  doc_Config :: "nat option"
  doc_StaleLocks :: bool
  doc_Store :: "goerr + (nat \<times> nat)"

record agentCardResult =
  ac_Actor :: string
  ac_Caps :: "string list"
  ac_Desc :: string
  ac_MaxLoad :: int
  ac_CurrentLoad :: nat
  ac_CreatedAt :: string
  ac_LastSeen :: string
  ac_Registered :: bool

datatype rpc_result =
    RPing pingResult
  | RInit string
  | RAdd u64 string
  | RReceipt mutationReceipt
  | RDone "u64 list" "u64 list"
  | RTasks tasksEnvelope
  | RProjects projectsEnvelope
  | RBootstrap bootstrapResult
  | RTask protocolTask
  | RTaskEnvelope taskEnvelope
  | RClaim claimResult
  | RAcquire acquireEnvelope
  | RRelease u64 string
  | RBlock u64 string
  | RUnblock u64 string
  | RNext nextEnvelope
  | RLog u64
  | RDepends dependsResult
  | RDependents dependentsResult
  | RDecompose decomposeResult
  | RLineage lineageEnvelope
  | REvents "Event list"
  | REventPage eventsEnvelope
  | RWhatIf whatIfResult
  | RGraph graphResult
  | RConfig ProjectConfig
  | RConfigValue string string
  | RConfigSet string string
  | RPrune nat
  | RCompact compactResult
  | RLink string string
  | RUnlink string
  | RBackup string nat
  | RRestore nat
  | RDoctor doctorResult
  | RAgentCard agentCardResult
  | RCaps capsResult

section \<open>The world and the environment\<close>

record 'b files =
  f_store :: "string \<Rightarrow> 'b disk"
  f_agents :: "AgentRegistry json_file"
  f_repos :: "repositoryRegistry json_file"
  f_config :: "ProjectConfig json_file"

record 'b world =
  w_files :: "'b files"
  w_initialized :: bool
  w_turn :: nat

text \<open>
  \<open>others e n\<close> is what happens to the files before access \<open>n\<close>: the work of other processes, and the
  leases that reading a linked project for a dependency reclaims there. The clock is read once per
  access: \<open>store_clock\<close> by the store package, \<open>project_clock\<close> by the command line.
\<close>

record 'b server_env =
  codec :: "'b codec"
  projectRoot :: string
  version :: string
  others :: "nat \<Rightarrow> 'b files \<Rightarrow> 'b files"
  io :: "nat \<Rightarrow> io_env"
  documents :: "nat \<Rightarrow> json_env"
  store_clock :: "nat \<Rightarrow> gotime"
  project_clock :: "nat \<Rightarrow> gotime"
  file_size :: "nat \<Rightarrow> string \<Rightarrow> nat"
  same_file :: "nat \<Rightarrow> string \<Rightarrow> string \<Rightarrow> bool"
  filepath_Abs :: "string \<Rightarrow> goerr + string"
  filepath_Rel :: "string \<Rightarrow> string \<Rightarrow> string option"
  ToLower :: "string \<Rightarrow> string"
  ParseFloat32 :: "string \<Rightarrow> float32 option"
  Sprintf2f :: "float32 \<Rightarrow> string"
  fingerprint_digest :: "acquireFingerprintInput \<Rightarrow> string"

type_synonym ('b, 'x) action = "'b world \<Rightarrow> ('x \<times> 'b world) option"

type_synonym 'b act = "('b, rpcError + rpc_result) action"

definition tasksBinPath :: "'b server_env \<Rightarrow> string" where
  "tasksBinPath e = filepath_Join [projectRoot e, ''.terminal-todo'', ''tasks.bin'']"

definition linked_path :: "'b server_env \<Rightarrow> string \<Rightarrow> string" where
  "linked_path e path =
     (let resolvedPath = (if IsAbs path then path else filepath_Join [projectRoot e, path])
      in filepath_Join [Clean resolvedPath, ''.terminal-todo'', ''tasks.bin''])"

definition file_exists :: "'b files \<Rightarrow> string \<Rightarrow> bool" where
  "file_exists f path \<longleftrightarrow> target (f_store f path) \<noteq> FileAbsent"

definition set_store :: "string \<Rightarrow> 'b disk \<Rightarrow> 'b files \<Rightarrow> 'b files" where
  "set_store path d f = f\<lparr>f_store := (f_store f)(path := d)\<rparr>"

section \<open>Steps of a handler\<close>

definition respond :: "rpc_result \<Rightarrow> 'b act" where
  "respond r w = Some (Inr r, w)"

definition fail :: "rpcError \<Rightarrow> 'b act" where
  "fail err w = Some (Inl err, w)"

abbreviation refuse :: "int \<Rightarrow> goerr \<Rightarrow> 'b act" where
  "refuse code err \<equiv> fail (rpcErrorf code err)"

abbreviation invalid :: "string \<Rightarrow> 'b act" where
  "invalid text \<equiv> refuse rpcInvalidParams (msg text)"

definition with_params :: "rpcError + 'p \<Rightarrow> ('p \<Rightarrow> 'b act) \<Rightarrow> 'b act" where
  "with_params params k = (case params of Inl err \<Rightarrow> fail err | Inr p \<Rightarrow> k p)"

definition require :: "bool \<Rightarrow> ('b, 'x) action \<Rightarrow> ('b, 'x) action \<Rightarrow> ('b, 'x) action" where
  "require P otherwise k = (if P then k else otherwise)"

definition validated :: "goerr option \<Rightarrow> 'b act \<Rightarrow> 'b act" where
  "validated v k = (case v of None \<Rightarrow> k | Some err \<Rightarrow> refuse rpcInvalidParams err)"

definition ensureInitialized :: "'b act \<Rightarrow> 'b act" where
  "ensureInitialized k w =
     (if w_initialized w then k w else refuse rpcNotInitialized (msg ''Project not initialized'') w)"

text \<open>An access: the other processes first.\<close>

definition opened :: "'b server_env \<Rightarrow> 'b world \<Rightarrow> 'b world" where
  "opened e w = w\<lparr>w_files := others e (w_turn w) (w_files w), w_turn := w_turn w + 1\<rparr>"

definition read_files :: "'b server_env \<Rightarrow> ('b files \<Rightarrow> ('b, 'x) action) \<Rightarrow> ('b, 'x) action" where
  "read_files e k w = (let w = opened e w in k (w_files w) w)"

text \<open>What the system calls around access \<open>n\<close> answer.\<close>

definition at_turn :: "(nat \<Rightarrow> ('b, 'x) action) \<Rightarrow> ('b, 'x) action" where
  "at_turn k w = k (w_turn w) w"

text \<open>\<^verbatim>\<open>store.LoadCurrent\<close> at a path: two accesses, for its two locks.\<close>

definition load_current :: "'b server_env \<Rightarrow> string \<Rightarrow> (goerr + TaskStore \<Rightarrow> ('b, 'x) action) \<Rightarrow> ('b, 'x) action" where
  "load_current e path k w =
     (let w1 = opened e w; w2 = opened e w1
      in case LoadCurrent (codec e) (io e (w_turn w)) (io e (w_turn w1)) (store_clock e (w_turn w))
                (f_store (w_files w1) path) (f_store (w_files w2) path) of
           None \<Rightarrow> None
         | Some (r, ds) \<Rightarrow> k r (w2\<lparr>w_files := set_store path (last ds) (w_files w2)\<rparr>))"

definition storeError :: "string \<Rightarrow> goerr \<Rightarrow> rpcError" where
  "storeError format err = rpcErrorf rpcStoreCorrupted (Errorf format [] [err])"

definition loadStoreSafe :: "'b server_env \<Rightarrow> (TaskStore \<Rightarrow> 'b act) \<Rightarrow> 'b act" where
  "loadStoreSafe e k =
     load_current e (tasksBinPath e)
       (\<lambda>r. case r of Inl err \<Rightarrow> fail (storeError ''loading store: %v'' err) | Inr s \<Rightarrow> k s)"

text \<open>\<^verbatim>\<open>store.Load\<close> and \<^verbatim>\<open>Save\<close> at a path.\<close>

definition load_at :: "'b server_env \<Rightarrow> string \<Rightarrow> (goerr + TaskStore \<Rightarrow> ('b, 'x) action) \<Rightarrow> ('b, 'x) action" where
  "load_at e path k w =
     (let w1 = opened e w in k (Load (codec e) (io e (w_turn w)) (f_store (w_files w1) path)) w1)"

definition save_at :: "'b server_env \<Rightarrow> string \<Rightarrow> TaskStore \<Rightarrow> (goerr option \<Rightarrow> ('b, 'x) action) \<Rightarrow> ('b, 'x) action" where
  "save_at e path s k w =
     (let w1 = opened e w
      in case Save (codec e) (io e (w_turn w)) s (f_store (w_files w1) path) of
           (r, ds) \<Rightarrow> k r (w1\<lparr>w_files := set_store path (last ds) (w_files w1)\<rparr>))"

text \<open>
  A transaction on the project's store: the callback gets the two clocks, and the caller goes on with
  the error, or with the result of the callback and the committed store. The server makes the error
  of its response with \<open>wrap\<close>.
\<close>

definition update_store ::
  "'b server_env \<Rightarrow> (gotime \<Rightarrow> gotime \<Rightarrow> TaskStore \<Rightarrow> 'a res) \<Rightarrow> (goerr + ('a \<times> TaskStore) \<Rightarrow> ('b, 'x) action)
    \<Rightarrow> ('b, 'x) action" where
  "update_store e mutate k w =
     (let w1 = opened e w; n = w_turn w; path = tasksBinPath e
      in case Update (codec e) (io e n) (mutate (store_clock e n) (project_clock e n)) (f_store (w_files w1) path) of
           None \<Rightarrow> None
         | Some (r, ds) \<Rightarrow> k r (w1\<lparr>w_files := set_store path (last ds) (w_files w1)\<rparr>))"

definition updateStoreSafe ::
  "'b server_env \<Rightarrow> (goerr \<Rightarrow> rpcError) \<Rightarrow> (gotime \<Rightarrow> gotime \<Rightarrow> TaskStore \<Rightarrow> 'a res)
    \<Rightarrow> ('a \<Rightarrow> TaskStore \<Rightarrow> 'b act) \<Rightarrow> 'b act" where
  "updateStoreSafe e wrap mutate k =
     update_store e mutate (\<lambda>r. case r of Inl err \<Rightarrow> fail (wrap err) | Inr (a, s) \<Rightarrow> k a s)"

text \<open>The task that a pointer into the committed store points to; a \<^verbatim>\<open>nil\<close> pointer panics.\<close>

definition with_task :: "TaskStore \<Rightarrow> u64 \<Rightarrow> (Task \<Rightarrow> ('b, 'x) action) \<Rightarrow> ('b, 'x) action" where
  "with_task s i k = (case map_of (Tasks s) i of Some task \<Rightarrow> k task | None \<Rightarrow> (\<lambda>_. None))"

definition found_task :: "TaskStore \<Rightarrow> u64 \<Rightarrow> (Task \<Rightarrow> 'b act) \<Rightarrow> 'b act" where
  "found_task s i k =
     (case GetTask s i of
        Some task \<Rightarrow> k task
      | None \<Rightarrow> refuse rpcTaskNotFound (Errorf ''task %d not found'' [ArgId i] []))"

text \<open>
  Updates of the documents; the handler goes on with the error, and for the repositories with the
  document it found.
\<close>

definition update_agents ::
  "'b server_env \<Rightarrow> (gotime \<Rightarrow> AgentRegistry \<Rightarrow> goerr + AgentRegistry) \<Rightarrow> (goerr option \<Rightarrow> ('b, 'x) action) \<Rightarrow> ('b, 'x) action" where
  "update_agents e mutate k w =
     (let w1 = opened e w; n = w_turn w
      in case updateAgentRegistry (documents e n) (mutate (project_clock e n)) (f_agents (w_files w1)) of
           (r, f) \<Rightarrow> k r (w1\<lparr>w_files := (w_files w1)\<lparr>f_agents := f\<rparr>\<rparr>))"

definition update_repos ::
  "'b server_env \<Rightarrow> (repositoryRegistry \<Rightarrow> goerr + repositoryRegistry)
    \<Rightarrow> (json_env \<Rightarrow> repositoryRegistry json_file \<Rightarrow> goerr option \<Rightarrow> ('b, 'x) action) \<Rightarrow> ('b, 'x) action" where
  "update_repos e mutate k w =
     (let w1 = opened e w; n = w_turn w
      in case updateRepositoryRegistry (documents e n) mutate (f_repos (w_files w1)) of
           (r, f) \<Rightarrow> k (documents e n) (f_repos (w_files w1)) r (w1\<lparr>w_files := (w_files w1)\<lparr>f_repos := f\<rparr>\<rparr>))"

definition update_config ::
  "'b server_env \<Rightarrow> (ProjectConfig \<Rightarrow> goerr + ProjectConfig) \<Rightarrow> (goerr option \<Rightarrow> ('b, 'x) action) \<Rightarrow> ('b, 'x) action" where
  "update_config e mutate k w =
     (let w1 = opened e w; n = w_turn w
      in case updateConfig (documents e n) mutate (f_config (w_files w1)) of
           (r, f) \<Rightarrow> k r (w1\<lparr>w_files := (w_files w1)\<lparr>f_config := f\<rparr>\<rparr>))"

definition touch :: "'b server_env \<Rightarrow> string \<Rightarrow> 'b act \<Rightarrow> 'b act" where
  "touch e actor k =
     update_agents e (\<lambda>now r. Inr (touch_card actor (nowTimestamp now) r))
       (\<lambda>r. case r of
              Some err \<Rightarrow> fail (rpcErrorf rpcStoreCorrupted (Errorf ''registering agent %s: %v'' [ArgStr actor] [err]))
            | None \<Rightarrow> k)"

text \<open>
  The live resolver as of an access: for a reference to a linked project, what \<^verbatim>\<open>store.LoadCurrent\<close>
  gives there.
\<close>

definition linked_store :: "'b server_env \<Rightarrow> nat \<Rightarrow> 'b files \<Rightarrow> linked" where
  "linked_store e n f uri path =
     (case LoadCurrent (codec e) (io e n) (io e n) (store_clock e n)
             (f_store f (linked_path e path)) (f_store f (linked_path e path)) of
        Some (r, _) \<Rightarrow> r
      | None \<Rightarrow> Inl (msg ''panic''))"

definition with_resolver :: "'b server_env \<Rightarrow> ((string \<Rightarrow> bool) \<Rightarrow> ('b, 'x) action) \<Rightarrow> ('b, 'x) action" where
  "with_resolver e k w =
     (let w1 = opened e w
      in k (dependencyResolver (linked_store e (w_turn w) (w_files w1)) (f_repos (w_files w1))) w1)"

definition with_snapshot :: "'b server_env \<Rightarrow> Task list \<Rightarrow> (DependencyResolver \<Rightarrow> ('b, 'x) action) \<Rightarrow> ('b, 'x) action" where
  "with_snapshot e tasks k = with_resolver e (\<lambda>live. k (snapshotDependencyResolver live tasks))"

end
