(* ===== verification/Evaluation.thy ===== *)
theory Evaluation
  imports Scoring Server
begin

text \<open>
  The real-agent evaluations (\<^verbatim>\<open>conformance/types.go\<close>, \<^verbatim>\<open>evidence.go\<close>, \<^verbatim>\<open>assertions.go\<close>, \<^verbatim>\<open>runner.go\<close>,
  \<^verbatim>\<open>sequence.go\<close>): a host process, or a sequence of them, is run in a fresh workspace, its output is
  captured within limits and redacted, failures of the infrastructure are classified, and only a run
  without such a failure is graded. What the processes do is the parameter \<open>behave\<close>: for each launch,
  in order, the outcome of starting, the lines in the order in which the collectors take them, the
  exit code and the state of the context at the end.
\<close>

section \<open>Captures and evidence\<close>

record Capture =
  cap_Stdout :: "capture_event list"
  cap_Stderr :: "capture_event list"
  cap_BytesRead :: int

definition empty_capture :: Capture where
  "empty_capture = \<lparr>cap_Stdout = [], cap_Stderr = [], cap_BytesRead = 0\<rparr>"

definition Content :: "capture_event \<Rightarrow> string" where
  "Content e = (case cev_Content e of EventJSON j \<Rightarrow> j | EventText t \<Rightarrow> t)"

definition Capture_Events :: "Stream \<Rightarrow> Capture \<Rightarrow> capture_event list" where
  "Capture_Events stream c =
     (case stream of StreamStdout \<Rightarrow> cap_Stdout c | StreamStderr \<Rightarrow> cap_Stderr c | StreamAny \<Rightarrow> cap_Stdout c @ cap_Stderr c)"

definition Transcript :: "Stream \<Rightarrow> Capture \<Rightarrow> string" where
  "Transcript stream c = Join [CHR 0x0A] (map Content (Capture_Events stream c))"

record ProcessResult =
  ExitCode :: int
  TimedOut :: bool
  Cancelled :: bool

record ExecutionResult =
  ex_Process :: ProcessResult
  ex_Capture :: Capture

definition process_exit :: "int \<Rightarrow> ProcessResult" where
  "process_exit code = \<lparr>ExitCode = code, TimedOut = False, Cancelled = False\<rparr>"

record Operation =
  op_Actor :: string
  op_Operation :: string
  op_Transport :: string
  op_Timestamp :: string
  op_Arguments :: "(string \<times> json) list"
  op_Result :: "(string \<times> json) list"

record AssistantMessage =
  am_Actor :: string
  am_Text :: string

record DomainError =
  de_Code :: string
  de_Message :: string
  de_Operation :: string
  de_Data :: "(string \<times> json) list"

text \<open>The state of a task in the evidence, as the normalizers of the command line build it.\<close>

record task_evidence =
  te_ID :: string
  te_Status :: string
  te_Owner :: string
  te_LeaseExpires :: u64
  te_Extra :: "(string, string) gomap"

record Evidence =
  ev_Operations :: "Operation list"
  ev_Tasks :: "(string, task_evidence) gomap"
  ev_Events :: "Event list"
  ev_Errors :: "DomainError list"
  ev_AssistantMessages :: "string list"
  ev_AssistantTurns :: "AssistantMessage list"
  ev_HostEvents :: "capture_event list"

definition EmptyEvidence :: "Capture \<Rightarrow> Evidence" where
  "EmptyEvidence c =
     \<lparr>ev_Operations = [], ev_Tasks = [], ev_Events = [], ev_Errors = [], ev_AssistantMessages = [], ev_AssistantTurns = [],
      ev_HostEvents = Capture_Events StreamAny c\<rparr>"

record Observation =
  ob_Process :: ProcessResult
  ob_Capture :: Capture
  ob_Evidence :: Evidence

section \<open>Assertions\<close>

definition WithCriteria :: "'o Assertion \<Rightarrow> string list \<Rightarrow> 'o Assertion" where
  "WithCriteria a criteria = a\<lparr>as_Criteria := criteria\<rparr>"

definition WithHardGate :: "'o Assertion \<Rightarrow> string \<Rightarrow> 'o Assertion" where
  "WithHardGate a hardGate = a\<lparr>as_HardGate := hardGate\<rparr>"

definition stream_name :: "Stream \<Rightarrow> string" where
  "stream_name stream = (case stream of StreamStdout \<Rightarrow> ''stdout'' | StreamStderr \<Rightarrow> ''stderr'' | StreamAny \<Rightarrow> ''any'')"

text \<open>\<open>quoted\<close> is \<^verbatim>\<open>%q\<close>.\<close>

definition Contains_assertion ::
  "(string \<Rightarrow> string) \<Rightarrow> string \<Rightarrow> Stream \<Rightarrow> string \<Rightarrow> rat \<Rightarrow> bool \<Rightarrow> Observation Assertion" where
  "Contains_assertion quoted i stream val weight required =
     \<lparr>as_ID = i, as_Description = stream_name stream @ '' contains expected text'', as_Criteria = [], as_HardGate = [],
      as_Weight = weight, as_Required = required,
      as_Evaluate = Some (\<lambda>ob.
        if Contains (Transcript stream (ob_Capture ob)) val then (True, [])
        else (False, stream_name stream @ '' did not contain '' @ quoted val))\<rparr>"

definition Excludes_assertion ::
  "(string \<Rightarrow> string) \<Rightarrow> string \<Rightarrow> Stream \<Rightarrow> string \<Rightarrow> rat \<Rightarrow> bool \<Rightarrow> Observation Assertion" where
  "Excludes_assertion quoted i stream val weight required =
     \<lparr>as_ID = i, as_Description = stream_name stream @ '' excludes forbidden text'', as_Criteria = [], as_HardGate = [],
      as_Weight = weight, as_Required = required,
      as_Evaluate = Some (\<lambda>ob.
        if \<not> Contains (Transcript stream (ob_Capture ob)) val then (True, [])
        else (False, stream_name stream @ '' contained forbidden text '' @ quoted val))\<rparr>"

text \<open>The loop of \<^verbatim>\<open>Ordered\<close>: the first value that does not occur behind the ones before it.\<close>

fun first_unordered :: "string \<Rightarrow> string list \<Rightarrow> string option" where
  "first_unordered remaining [] = None"
| "first_unordered remaining (val # vals) =
     (case Index remaining val of
        None \<Rightarrow> Some val
      | Some index \<Rightarrow> first_unordered (drop (index + length val) remaining) vals)"

definition Ordered_assertion ::
  "(string \<Rightarrow> string) \<Rightarrow> string \<Rightarrow> Stream \<Rightarrow> string list \<Rightarrow> rat \<Rightarrow> bool \<Rightarrow> Observation Assertion" where
  "Ordered_assertion quoted i stream vals weight required =
     \<lparr>as_ID = i, as_Description = stream_name stream @ '' contains expected text in order'', as_Criteria = [],
      as_HardGate = [], as_Weight = weight, as_Required = required,
      as_Evaluate = Some (\<lambda>ob.
        case first_unordered (Transcript stream (ob_Capture ob)) vals of
          None \<Rightarrow> (True, [])
        | Some val \<Rightarrow> (False, stream_name stream @ '' did not contain '' @ quoted val @ '' in the expected order''))\<rparr>"

definition EvidenceCheck ::
  "string \<Rightarrow> string \<Rightarrow> rat \<Rightarrow> bool \<Rightarrow> (Evidence \<Rightarrow> bool \<times> string) \<Rightarrow> Observation Assertion" where
  "EvidenceCheck i description weight required evaluate =
     \<lparr>as_ID = i, as_Description = description, as_Criteria = [], as_HardGate = [], as_Weight = weight,
      as_Required = required, as_Evaluate = Some (\<lambda>ob. evaluate (ob_Evidence ob))\<rparr>"

section \<open>Hosts, evaluations, reports\<close>

record Command =
  Executable :: string
  Args :: "string list"
  Env :: "(string, string) gomap"
  Stdin :: string
  Prompt :: string
  CleanEnv :: bool

datatype FailureDisposition = DispositionSkip | DispositionFail | OtherDisposition string

datatype FailureKind =
    FailurePreflight | FailureStart | FailureTimeout | FailureCancelled | FailureExit | FailureAuthentication
  | FailureApproval | FailureOutputLimit | FailureNormalization | FailureSession

record FailureRule =
  rule_Kind :: FailureKind
  rule_Disposition :: FailureDisposition
  rule_Stream :: Stream
  rule_Contains :: string

record Host =
  host_Name :: string
  host_Version :: string
  host_Model :: string
  host_Transport :: string
  host_IntegrationVersion :: string
  Preflight :: "Command option"
  host_Run :: Command
  Resume :: "(string \<Rightarrow> string \<Rightarrow> goerr + Command) option"
  ExtractSessionID :: "(Stream \<Rightarrow> string \<Rightarrow> string option) option"
  FailureRules :: "FailureRule list"

record Limits =
  Timeout :: duration
  MaxOutputBytes :: int
  MaxEventBytes :: int

record FixtureFile =
  fx_Path :: string
  fx_Content :: string
  fx_Mode :: nat

record InfrastructureFailure =
  if_Kind :: FailureKind
  if_Disposition :: FailureDisposition
  if_Phase :: string
  if_Detail :: string

datatype SequenceAction = SequencePrompt | SequenceResume | SequenceHarness | SequenceConcurrent | OtherAction string

text \<open>A harness action reports the text of its error; \<open>n\<close> counts the launches before it.\<close>

record SequenceStep =
  step_ID :: string
  step_Actor :: string
  step_Actors :: "string list"
  step_Action :: SequenceAction
  step_Prompt :: string
  step_Harness :: "(nat \<Rightarrow> string option) option"

record TurnResult =
  turn_ID :: string
  turn_Actor :: string
  turn_Action :: SequenceAction
  turn_Execution :: ExecutionResult

record Evaluation =
  eval_ID :: string
  eval_Host :: Host
  eval_Fixture :: "FixtureFile list"
  eval_Limits :: Limits
  eval_Redactions :: "string list"
  eval_Normalizer :: "(string \<Rightarrow> Capture \<Rightarrow> string + Evidence) option"
  eval_Assertions :: "Observation Assertion list"
  eval_MinimumScore :: rat
  eval_KeepWorkspace :: bool

record SequenceEvaluation =
  seq_ID :: string
  seq_Host :: Host
  seq_Fixture :: "FixtureFile list"
  seq_Steps :: "SequenceStep list"
  seq_Limits :: Limits
  seq_Redactions :: "string list"
  seq_Normalizer :: "(string \<Rightarrow> TurnResult list \<Rightarrow> string + Evidence) option"
  seq_Assertions :: "Observation Assertion list"
  seq_MinimumScore :: rat
  seq_KeepWorkspace :: bool

datatype report_status = ReportPassed | ReportFailed | ReportSkipped | ReportError

record Report =
  rep_ScenarioID :: string
  rep_Host :: string
  rep_HostVersion :: string
  rep_Model :: string
  rep_IntegrationVersion :: string
  rep_Transport :: string
  rep_Status :: report_status
  rep_Workspace :: string
  rep_Preflight :: "ExecutionResult option"
  rep_Execution :: "ExecutionResult option"
  rep_Turns :: "TurnResult list"
  rep_Evidence :: Evidence
  rep_Checks :: "CheckResult list"
  rep_Score :: Score
  rep_InfrastructureFailures :: "InfrastructureFailure list"

definition unscored :: Score where
  "unscored = \<lparr>Earned = 0, Possible = 0, Percent = 0, Scored = False\<rparr>"

definition new_report :: "string \<Rightarrow> Host \<Rightarrow> Report" where
  "new_report i host =
     \<lparr>rep_ScenarioID = i, rep_Host = host_Name host, rep_HostVersion = host_Version host, rep_Model = host_Model host,
      rep_IntegrationVersion = host_IntegrationVersion host, rep_Transport = host_Transport host, rep_Status = ReportError,
      rep_Workspace = [], rep_Preflight = None, rep_Execution = None, rep_Turns = [],
      rep_Evidence = EmptyEvidence empty_capture, rep_Checks = [], rep_Score = unscored, rep_InfrastructureFailures = []\<rparr>"

definition newReport :: "Evaluation \<Rightarrow> Report" where
  "newReport ev = new_report (eval_ID ev) (eval_Host ev)"

definition newSequenceReport :: "SequenceEvaluation \<Rightarrow> Report" where
  "newSequenceReport ev = new_report (seq_ID ev) (seq_Host ev)"

section \<open>Validation\<close>

definition normalizedLimits :: "Limits \<Rightarrow> Limits" where
  "normalizedLimits l =
     \<lparr>Timeout = (if Timeout l = 0 then 120 * 1000000000 else Timeout l),
      MaxOutputBytes = (if MaxOutputBytes l = 0 then 4 * 1024 * 1024 else MaxOutputBytes l),
      MaxEventBytes = (if MaxEventBytes l = 0 then 256 * 1024 else MaxEventBytes l)\<rparr>"

fun check_assertions :: "string list \<Rightarrow> 'o Assertion list \<Rightarrow> goerr option" where
  "check_assertions seen [] = None"
| "check_assertions seen (a # as) =
     (if TrimSpace (as_ID a) = [] then Some (msg ''conformance assertion ID is required'')
      else if as_ID a \<in> set seen then Some (Errorf ''duplicate conformance assertion ID %q'' [ArgStr (as_ID a)] [])
      else if as_Weight a \<le> 0
      then Some (Errorf ''conformance assertion %q weight must be positive'' [ArgStr (as_ID a)] [])
      else if as_Evaluate a = None
      then Some (Errorf ''conformance assertion %q evaluator is required'' [ArgStr (as_ID a)] [])
      else check_assertions (as_ID a # seen) as)"

fun check_rules :: "FailureRule list \<Rightarrow> goerr option" where
  "check_rules [] = None"
| "check_rules (rule # rules) =
     (if rule_Contains rule = [] then Some (msg ''conformance failure rule pattern is required'')
      else
        (case rule_Disposition rule of
           OtherDisposition d \<Rightarrow> Some (Errorf ''invalid conformance failure disposition %q'' [ArgStr d] [])
         | _ \<Rightarrow> check_rules rules))"

definition validate_run ::
  "string \<Rightarrow> Host \<Rightarrow> Limits \<Rightarrow> 'o Assertion list \<Rightarrow> rat \<Rightarrow> goerr option" where
  "validate_run i host limits assertions minimum =
     (if TrimSpace i = [] then Some (msg ''conformance evaluation ID is required'')
      else if TrimSpace (host_Name host) = [] then Some (msg ''conformance host name is required'')
      else if TrimSpace (Executable (host_Run host)) = [] then Some (msg ''conformance host executable is required'')
      else if Timeout limits < 0 then Some (msg ''conformance timeout cannot be negative'')
      else if MaxOutputBytes limits < 0 then Some (msg ''conformance maximum output cannot be negative'')
      else if MaxEventBytes limits < 0 then Some (msg ''conformance maximum event size cannot be negative'')
      else if minimum < 0 \<or> minimum > 100 then Some (msg ''conformance minimum score must be between 0 and 100'')
      else
        (case check_assertions [] assertions of
           Some err \<Rightarrow> Some err
         | None \<Rightarrow> check_rules (FailureRules host)))"

definition validateEvaluation :: "Evaluation \<Rightarrow> goerr option" where
  "validateEvaluation ev =
     validate_run (eval_ID ev) (eval_Host ev) (eval_Limits ev) (eval_Assertions ev) (eval_MinimumScore ev)"

fun check_actors :: "string \<Rightarrow> string list \<Rightarrow> string list \<Rightarrow> goerr option" where
  "check_actors i seen [] = None"
| "check_actors i seen (actor # actors) =
     (if TrimSpace actor = [] then Some (Errorf ''concurrent step %q contains an empty actor'' [ArgStr i] [])
      else if actor \<in> set seen then Some (Errorf ''concurrent step %q repeats actor %q'' [ArgStr i, ArgStr actor] [])
      else check_actors i (actor # seen) actors)"

text \<open>One step, given the actors that have started: the error, or the actors that have started after it.\<close>

definition check_step :: "Host \<Rightarrow> string list \<Rightarrow> SequenceStep \<Rightarrow> goerr + string list" where
  "check_step host started item =
     (let i = step_ID item; actor = step_Actor item;
          missing = TrimSpace actor = [] \<or> TrimSpace (step_Prompt item) = []
      in case step_Action item of
           SequencePrompt \<Rightarrow>
             if missing then Inl (Errorf ''prompt step %q requires actor and prompt'' [ArgStr i] [])
             else Inr (actor # started)
         | SequenceResume \<Rightarrow>
             if missing then Inl (Errorf ''resume step %q requires actor and prompt'' [ArgStr i] [])
             else if actor \<notin> set started
             then Inl (Errorf ''resume step %q has no fresh session for actor %q'' [ArgStr i, ArgStr actor] [])
             else if Resume host = None \<or> ExtractSessionID host = None
             then Inl (Errorf ''resume step %q requires host session support'' [ArgStr i] [])
             else Inr started
         | SequenceHarness \<Rightarrow>
             if step_Harness item = None then Inl (Errorf ''harness step %q requires an action'' [ArgStr i] [])
             else Inr started
         | SequenceConcurrent \<Rightarrow>
             if length (step_Actors item) < 2 \<or> TrimSpace (step_Prompt item) = []
             then Inl (Errorf ''concurrent step %q requires at least two actors and a prompt'' [ArgStr i] [])
             else
               (case check_actors i [] (step_Actors item) of
                  Some err \<Rightarrow> Inl err
                | None \<Rightarrow> Inr (step_Actors item @ started))
         | OtherAction a \<Rightarrow> Inl (Errorf ''sequence step %q has invalid action %q'' [ArgStr i, ArgStr a] []))"

fun check_steps :: "Host \<Rightarrow> string list \<Rightarrow> string list \<Rightarrow> SequenceStep list \<Rightarrow> goerr option" where
  "check_steps host seen started [] = None"
| "check_steps host seen started (item # steps) =
     (if TrimSpace (step_ID item) = [] then Some (msg ''conformance sequence step ID is required'')
      else if step_ID item \<in> set seen
      then Some (Errorf ''duplicate conformance sequence step ID %q'' [ArgStr (step_ID item)] [])
      else
        (case check_step host started item of
           Inl err \<Rightarrow> Some err
         | Inr started \<Rightarrow> check_steps host (step_ID item # seen) started steps))"

definition validateSequenceEvaluation :: "SequenceEvaluation \<Rightarrow> goerr option" where
  "validateSequenceEvaluation ev =
     (case validate_run (seq_ID ev) (seq_Host ev) (seq_Limits ev) (seq_Assertions ev) (seq_MinimumScore ev) of
        Some err \<Rightarrow> Some err
      | None \<Rightarrow>
          if seq_Steps ev = [] then Some (msg ''conformance sequence requires at least one step'')
          else check_steps (seq_Host ev) [] [] (seq_Steps ev))"

section \<open>Launching a command\<close>

definition conformanceActorEnvironment :: string where
  "conformanceActorEnvironment = ''TERMINAL_TODO_CONFORMANCE_ACTOR''"

definition clockEnvironment :: string where
  "clockEnvironment = ''TERMINAL_TODO_CLOCK_FILE''"

definition fixtureClockPath :: string where
  "fixtureClockPath = ''.terminal-todo/conformance-clock''"

definition expand :: "string \<Rightarrow> string \<Rightarrow> string \<Rightarrow> string" where
  "expand val workspace prompt = ReplaceAll (ReplaceAll val ''{workspace}'' workspace) ''{prompt}'' prompt"

text \<open>\<open>environ\<close> is the environment of the runner, \<open>clock_exists\<close> the test for the clock file of the fixture.\<close>

definition commandEnvironment :: "string list \<Rightarrow> bool \<Rightarrow> Command \<Rightarrow> string \<Rightarrow> string list" where
  "commandEnvironment environ clock_exists spec workspace =
     (if CleanEnv spec then [] else environ)
     @ map (\<lambda>key. key @ ''='' @ expand (the (map_of (Env spec) key)) workspace (Prompt spec)) (sort_Strings (map fst (Env spec)))
     @ (if map_of (Env spec) clockEnvironment = None \<and> clock_exists
        then [clockEnvironment @ ''='' @ filepath_Join [workspace, fixtureClockPath]] else [])
     @ [''TERMINAL_TODO_CONFORMANCE_WORKSPACE='' @ workspace]"

record launch =
  l_Executable :: string
  l_Args :: "string list"
  l_Dir :: string
  l_Stdin :: string
  l_Env :: "string list"

definition launch_of :: "string list \<Rightarrow> bool \<Rightarrow> string \<Rightarrow> Command \<Rightarrow> launch" where
  "launch_of environ clock_exists workspace spec =
     \<lparr>l_Executable = expand (Executable spec) workspace (Prompt spec),
      l_Args = map (\<lambda>arg. expand arg workspace (Prompt spec)) (Args spec), l_Dir = workspace,
      l_Stdin = expand (Stdin spec) workspace (Prompt spec),
      l_Env = commandEnvironment environ clock_exists spec workspace\<rparr>"

datatype ctx_state = CtxLive | CtxDeadlineExceeded | CtxCanceled

datatype start_outcome = PipeFailed string | StartFailed string ctx_state | Started

text \<open>
  A process: how it starts, the error of the scanner of each stream after its last line, the stream
  whose reader ends first, the exit code and the context after it ended.
\<close>

record process_behaviour =
  pb_Start :: start_outcome
  pb_ScanError :: "Stream \<Rightarrow> string option"
  pb_First :: Stream
  pb_Exit :: int
  pb_Context :: ctx_state

text \<open>Lines of several processes in the order in which they are read: process, stream, line.\<close>

type_synonym interleaving = "(nat \<times> Stream \<times> string) list"

record eval_env =
  MkdirTemp :: "goerr + string"
  MkdirAll_error :: "string \<Rightarrow> string option"
  WriteFile_error :: "string \<Rightarrow> string option"
  environ :: "string list"
  clock_exists :: "nat \<Rightarrow> bool"
  behave :: "nat \<Rightarrow> launch list \<Rightarrow> process_behaviour list \<times> interleaving"
  json_fmt :: json_format

section \<open>Collecting output\<close>

record collector =
  col_BytesRead :: int
  col_Stdout :: "capture_event list"
  col_Stderr :: "capture_event list"
  col_LimitError :: "string option"
  col_Session :: string

definition newEventCollector :: collector where
  "newEventCollector = \<lparr>col_BytesRead = 0, col_Stdout = [], col_Stderr = [], col_LimitError = None, col_Session = []\<rparr>"

record outputBudget =
  bu_Limit :: int
  bu_Used :: int

definition fmt_int :: "int \<Rightarrow> string" where
  "fmt_int i = (if i < 0 then ''-'' @ decimal (nat (- i)) else decimal (nat i))"

definition reserve :: "outputBudget \<Rightarrow> int \<Rightarrow> string option \<times> outputBudget" where
  "reserve b size' =
     (if bu_Used b + size' > bu_Limit b
      then (Some (''scenario output exceeded '' @ fmt_int (bu_Limit b) @ '' bytes''), b)
      else (None, b\<lparr>bu_Used := bu_Used b + size'\<rparr>))"

definition reserve_in :: "outputBudget option \<Rightarrow> int \<Rightarrow> string option \<times> outputBudget option" where
  "reserve_in budget size' =
     (case budget of
        None \<Rightarrow> (None, None)
      | Some b \<Rightarrow> (case reserve b size' of (err, b) \<Rightarrow> (err, Some b)))"

definition first_error :: "string option \<Rightarrow> string \<Rightarrow> string option" where
  "first_error old err = (case old of None \<Rightarrow> Some err | Some e \<Rightarrow> Some e)"

text \<open>\<^verbatim>\<open>observe\<close> of the runner: the first session identifier that is found is kept.\<close>

definition observe_session :: "(Stream \<Rightarrow> string \<Rightarrow> string option) option \<Rightarrow> Stream \<Rightarrow> string \<Rightarrow> string \<Rightarrow> string" where
  "observe_session getID stream line session =
     (case getID of
        None \<Rightarrow> session
      | Some f \<Rightarrow> if session \<noteq> [] then session else (case f stream line of Some i \<Rightarrow> i | None \<Rightarrow> session))"

definition collector_add ::
  "json_format \<Rightarrow> redactor \<Rightarrow> int \<Rightarrow> (Stream \<Rightarrow> string \<Rightarrow> string option) option \<Rightarrow> Stream \<Rightarrow> nat \<Rightarrow> string
   \<Rightarrow> collector \<Rightarrow> outputBudget option \<Rightarrow> string option \<times> collector \<times> outputBudget option" where
  "collector_add fmt r maxBytes getID stream sequence line c budget =
     (let c = c\<lparr>col_BytesRead := col_BytesRead c + int (length line)\<rparr>
      in case reserve_in budget (int (length line)) of
           (Some err, budget) \<Rightarrow>
             (let c = c\<lparr>col_LimitError := first_error (col_LimitError c) err\<rparr> in (col_LimitError c, c, budget))
         | (None, budget) \<Rightarrow>
             if col_BytesRead c > maxBytes
             then (let c = c\<lparr>col_LimitError := first_error (col_LimitError c)
                                 (''host output exceeded '' @ fmt_int maxBytes @ '' bytes'')\<rparr>
                   in (col_LimitError c, c, budget))
             else
               (let c = c\<lparr>col_Session := observe_session getID stream line (col_Session c)\<rparr>;
                    event = redact_event fmt r line stream sequence
                in (None,
                    if stream = StreamStdout then c\<lparr>col_Stdout := col_Stdout c @ [event]\<rparr>
                    else c\<lparr>col_Stderr := col_Stderr c @ [event]\<rparr>,
                    budget)))"

text \<open>The readers of a group of processes: a reader counts its lines and stops at its first error.\<close>

record reading =
  rd_Collectors :: "nat \<Rightarrow> collector"
  rd_Sequence :: "nat \<times> Stream \<Rightarrow> nat"
  rd_Errors :: "nat \<times> Stream \<Rightarrow> string option"
  rd_Budget :: "outputBudget option"

definition read_line ::
  "json_format \<Rightarrow> redactor \<Rightarrow> int \<Rightarrow> (Stream \<Rightarrow> string \<Rightarrow> string option) option \<Rightarrow> nat \<times> Stream \<times> string \<Rightarrow> reading \<Rightarrow> reading" where
  "read_line fmt r maxBytes getID = (\<lambda>(i, stream, line) rd.
     if rd_Errors rd (i, stream) \<noteq> None then rd
     else
       (let sequence = rd_Sequence rd (i, stream) + 1
        in case collector_add fmt r maxBytes getID stream sequence line (rd_Collectors rd i) (rd_Budget rd) of
             (err, c, budget) \<Rightarrow>
               \<lparr>rd_Collectors = (rd_Collectors rd)(i := c), rd_Sequence = (rd_Sequence rd)((i, stream) := sequence),
                rd_Errors = (rd_Errors rd)((i, stream) := err), rd_Budget = budget\<rparr>))"

definition read_output ::
  "json_format \<Rightarrow> redactor \<Rightarrow> int \<Rightarrow> (Stream \<Rightarrow> string \<Rightarrow> string option) option \<Rightarrow> outputBudget option \<Rightarrow> interleaving \<Rightarrow> reading" where
  "read_output fmt r maxBytes getID budget out =
     fold (read_line fmt r maxBytes getID) out
       \<lparr>rd_Collectors = (\<lambda>_. newEventCollector), rd_Sequence = (\<lambda>_. 0), rd_Errors = (\<lambda>_. None), rd_Budget = budget\<rparr>"

definition reader_error :: "int \<Rightarrow> process_behaviour \<Rightarrow> reading \<Rightarrow> nat \<Rightarrow> Stream \<Rightarrow> string option" where
  "reader_error maxEventBytes pb rd i stream =
     (case rd_Errors rd (i, stream) of
        Some err \<Rightarrow> Some err
      | None \<Rightarrow>
          map_option (\<lambda>err. ''host '' @ stream_name stream @ '' event exceeded '' @ fmt_int maxEventBytes @ '' bytes: '' @ err)
            (pb_ScanError pb stream))"

definition firstNonNil :: "'a option list \<Rightarrow> 'a option" where
  "firstNonNil = first_some"

definition other_stream :: "Stream \<Rightarrow> Stream" where
  "other_stream stream = (if stream = StreamStdout then StreamStderr else StreamStdout)"

definition command_failure :: "FailureKind \<Rightarrow> string \<Rightarrow> InfrastructureFailure" where
  "command_failure kind detail =
     \<lparr>if_Kind = kind, if_Disposition = DispositionFail, if_Phase = [], if_Detail = detail\<rparr>"

definition no_execution :: ExecutionResult where
  "no_execution = \<lparr>ex_Process = process_exit 0, ex_Capture = empty_capture\<rparr>"

definition capture_of :: "collector \<Rightarrow> Capture" where
  "capture_of c = \<lparr>cap_Stdout = col_Stdout c, cap_Stderr = col_Stderr c, cap_BytesRead = col_BytesRead c\<rparr>"

definition runCommandBudgeted ::
  "redactor \<Rightarrow> Limits \<Rightarrow> process_behaviour \<Rightarrow> reading \<Rightarrow> nat \<Rightarrow> ExecutionResult \<times> InfrastructureFailure option" where
  "runCommandBudgeted r limits pb rd i =
     (case pb_Start pb of
        PipeFailed err \<Rightarrow> (no_execution, Some (command_failure FailureStart (redact_text r err)))
      | StartFailed err ctx \<Rightarrow>
          (case ctx of
             CtxLive \<Rightarrow> (no_execution, Some (command_failure FailureStart (redact_text r err)))
           | CtxDeadlineExceeded \<Rightarrow>
               (\<lparr>ex_Process = \<lparr>ExitCode = -1, TimedOut = True, Cancelled = False\<rparr>, ex_Capture = empty_capture\<rparr>,
                Some (command_failure FailureTimeout ''host command timed out''))
           | CtxCanceled \<Rightarrow>
               (\<lparr>ex_Process = \<lparr>ExitCode = -1, TimedOut = False, Cancelled = True\<rparr>, ex_Capture = empty_capture\<rparr>,
                Some (command_failure FailureCancelled ''host command was cancelled'')))
      | Started \<Rightarrow>
          (let capture = capture_of (rd_Collectors rd i);
               readErr = firstNonNil [reader_error (MaxEventBytes limits) pb rd i (pb_First pb),
                                      reader_error (MaxEventBytes limits) pb rd i (other_stream (pb_First pb))];
               result = \<lparr>ex_Process = process_exit (pb_Exit pb), ex_Capture = capture\<rparr>
           in case readErr of
                Some err \<Rightarrow> (result, Some (command_failure FailureOutputLimit (redact_text r err)))
              | None \<Rightarrow>
                  (case pb_Context pb of
                     CtxLive \<Rightarrow> (result, None)
                   | CtxDeadlineExceeded \<Rightarrow>
                       (result\<lparr>ex_Process := (process_exit (pb_Exit pb))\<lparr>TimedOut := True\<rparr>\<rparr>,
                        Some (command_failure FailureTimeout ''host command timed out''))
                   | CtxCanceled \<Rightarrow>
                       (result\<lparr>ex_Process := (process_exit (pb_Exit pb))\<lparr>Cancelled := True\<rparr>\<rparr>,
                        Some (command_failure FailureCancelled ''host command was cancelled'')))))"

text \<open>One command: \<open>n\<close> counts the launches before it. The last result is the session that \<^verbatim>\<open>observe\<close> found.\<close>

definition runCommandObserved ::
  "eval_env \<Rightarrow> nat \<Rightarrow> string \<Rightarrow> Command \<Rightarrow> Limits \<Rightarrow> redactor \<Rightarrow> (Stream \<Rightarrow> string \<Rightarrow> string option) option
   \<Rightarrow> ExecutionResult \<times> InfrastructureFailure option \<times> string" where
  "runCommandObserved env n workspace spec limits r getID =
     (case behave env n [launch_of (environ env) (clock_exists env n) workspace spec] of
        (pbs, out) \<Rightarrow>
          (let rd = read_output (json_fmt env) r (MaxOutputBytes limits) getID None out
           in case runCommandBudgeted r limits (hd pbs) rd 0 of
                (execution, failure) \<Rightarrow> (execution, failure, col_Session (rd_Collectors rd 0))))"

section \<open>Failures\<close>

definition kind_name :: "FailureKind \<Rightarrow> string" where
  "kind_name kind =
     (case kind of
        FailurePreflight \<Rightarrow> ''preflight'' | FailureStart \<Rightarrow> ''start'' | FailureTimeout \<Rightarrow> ''timeout''
      | FailureCancelled \<Rightarrow> ''cancelled'' | FailureExit \<Rightarrow> ''exit'' | FailureAuthentication \<Rightarrow> ''authentication''
      | FailureApproval \<Rightarrow> ''approval'' | FailureOutputLimit \<Rightarrow> ''output_limit''
      | FailureNormalization \<Rightarrow> ''normalization'' | FailureSession \<Rightarrow> ''session'')"

definition matchFailureRule ::
  "(string \<Rightarrow> string) \<Rightarrow> string \<Rightarrow> ExecutionResult \<Rightarrow> FailureRule list \<Rightarrow> InfrastructureFailure option" where
  "matchFailureRule lower phase execution rules =
     map_option (\<lambda>rule.
         \<lparr>if_Kind = rule_Kind rule, if_Disposition = rule_Disposition rule, if_Phase = phase,
          if_Detail = ''host output matched '' @ kind_name (rule_Kind rule) @ '' failure rule''\<rparr>)
       (find (\<lambda>rule. Contains (lower (Transcript (rule_Stream rule) (ex_Capture execution))) (lower (rule_Contains rule))) rules)"

definition classifyFailure ::
  "(string \<Rightarrow> string) \<Rightarrow> string \<Rightarrow> ExecutionResult \<Rightarrow> FailureRule list \<Rightarrow> InfrastructureFailure \<Rightarrow> InfrastructureFailure" where
  "classifyFailure lower phase execution rules fallback =
     (case matchFailureRule lower phase execution rules of Some failure \<Rightarrow> failure | None \<Rightarrow> fallback)"

definition statusForFailures :: "InfrastructureFailure list \<Rightarrow> report_status" where
  "statusForFailures failures =
     (if list_ex (\<lambda>f. if_Disposition f = DispositionFail) failures then ReportFailed else ReportSkipped)"

definition add_failure :: "InfrastructureFailure \<Rightarrow> Report \<Rightarrow> Report" where
  "add_failure failure report =
     (let failures = rep_InfrastructureFailures report @ [failure]
      in report\<lparr>rep_InfrastructureFailures := failures, rep_Status := statusForFailures failures\<rparr>)"

text \<open>A failure that ends the run with the status \<^verbatim>\<open>error\<close>.\<close>

definition abort :: "FailureKind \<Rightarrow> string \<Rightarrow> string \<Rightarrow> Report \<Rightarrow> Report" where
  "abort kind phase detail report =
     report\<lparr>rep_InfrastructureFailures := rep_InfrastructureFailures report
                @ [\<lparr>if_Kind = kind, if_Disposition = DispositionFail, if_Phase = phase, if_Detail = detail\<rparr>],
            rep_Status := ReportError\<rparr>"

text \<open>The failure of a command that ran, if any; \<open>exited\<close> is the text for its exit code.\<close>

definition command_failed ::
  "(string \<Rightarrow> string) \<Rightarrow> string \<Rightarrow> ExecutionResult \<Rightarrow> InfrastructureFailure option \<Rightarrow> FailureRule list \<Rightarrow> bool \<Rightarrow> string
   \<Rightarrow> InfrastructureFailure option" where
  "command_failed lower phase execution failure rules preflight exited =
     (case failure of
        Some f \<Rightarrow>
          (let f = f\<lparr>if_Phase := phase\<rparr>
           in Some (if preflight \<and> if_Kind f = FailureStart then f\<lparr>if_Disposition := DispositionSkip\<rparr> else f))
      | None \<Rightarrow>
          if ExitCode (ex_Process execution) \<noteq> 0
          then Some (classifyFailure lower phase execution rules
                 \<lparr>if_Kind = (if preflight then FailurePreflight else FailureExit),
                  if_Disposition = (if preflight then DispositionSkip else DispositionFail), if_Phase = phase,
                  if_Detail = exited @ fmt_int (ExitCode (ex_Process execution))\<rparr>)
          else matchFailureRule lower phase execution rules)"

section \<open>Grading a report\<close>

definition grade_report ::
  "Observation Assertion list \<Rightarrow> rat \<Rightarrow> ExecutionResult \<Rightarrow> Evidence \<Rightarrow> Report \<Rightarrow> Report option" where
  "grade_report assertions minimum execution evidence report =
     map_option (\<lambda>(checks, score, _).
         (let requiredPassed = list_all (\<lambda>c. check_Required c \<longrightarrow> check_Passed c) checks;
              minimum = (if minimum = 0 then 100 else minimum)
          in report\<lparr>rep_Checks := checks, rep_Score := score,
                    rep_Status := (if requiredPassed \<and> Percent score \<ge> minimum then ReportPassed else ReportFailed)\<rparr>))
       (evaluateAssertions assertions
          \<lparr>ob_Process = ex_Process execution, ob_Capture = ex_Capture execution, ob_Evidence = evidence\<rparr>)"

section \<open>Preparing the workspace\<close>

definition fixture_path_ok :: "string \<Rightarrow> bool" where
  "fixture_path_ok path \<longleftrightarrow>
     (let clean = Clean path in \<not> (clean = ''.'' \<or> IsAbs clean \<or> clean = ''..'' \<or> HasPrefix clean ''../''))"

text \<open>\<^verbatim>\<open>filepath.Dir\<close>: the path up to its last separator, cleaned.\<close>

definition filepath_Dir :: "string \<Rightarrow> string" where
  "filepath_Dir path = Clean (rev (dropWhile (\<lambda>c. c \<noteq> CHR ''/'') (rev path)))"

definition before_path :: "FixtureFile \<Rightarrow> FixtureFile \<Rightarrow> bool" where
  "before_path a b \<longleftrightarrow> str_less (fx_Path a) (fx_Path b)"

text \<open>The files written, and the error that stops the loop.\<close>

fun write_fixture :: "eval_env \<Rightarrow> string \<Rightarrow> FixtureFile list \<Rightarrow> (string \<times> string \<times> nat) list \<times> goerr option" where
  "write_fixture env dir [] = ([], None)"
| "write_fixture env dir (file # files) =
     (if \<not> fixture_path_ok (fx_Path file)
      then ([], Some (Errorf ''fixture path %q must stay within the workspace'' [ArgStr (fx_Path file)] []))
      else
        (let target = filepath_Join [dir, Clean (fx_Path file)];
             mode = (if fx_Mode file = 0 then 420 else fx_Mode file)
         in case MkdirAll_error env (filepath_Dir target) of
              Some err \<Rightarrow> ([], Some (Errorf ''create fixture directory for %q: %w'' [ArgStr (fx_Path file), ArgStr err] []))
            | None \<Rightarrow>
                (case WriteFile_error env target of
                   Some err \<Rightarrow> ([], Some (Errorf ''write fixture %q: %w'' [ArgStr (fx_Path file), ArgStr err] []))
                 | None \<Rightarrow>
                     (case write_fixture env dir files of
                        (written, err) \<Rightarrow> ((target, fx_Content file, mode) # written, err)))))"

definition materializeFixture ::
  "eval_env \<Rightarrow> string \<Rightarrow> FixtureFile list \<Rightarrow> (string \<times> string \<times> nat) list \<times> goerr option" where
  "materializeFixture env dir files = write_fixture env dir (go_sort before_path files)"

section \<open>One evaluation\<close>

text \<open>
  The result of a run: the report and the error that is returned beside it. \<open>None\<close> is a panic. The
  preflight is launch 0, the host launch 1.
\<close>

text \<open>\<^verbatim>\<open>nil\<close> slices and maps become empty ones, which are the same value here.\<close>

definition normalizeEvidence :: "Evidence \<Rightarrow> Evidence" where
  "normalizeEvidence evidence = evidence"

definition finish_run ::
  "Evaluation \<Rightarrow> string \<Rightarrow> redactor \<Rightarrow> ExecutionResult \<Rightarrow> Report \<Rightarrow> (Report \<times> goerr option) option" where
  "finish_run ev workspace r execution report =
     (case (case eval_Normalizer ev of
              None \<Rightarrow> Inr (EmptyEvidence (ex_Capture execution))
            | Some normalizer \<Rightarrow> map_sum id normalizeEvidence (normalizer workspace (ex_Capture execution))) of
        Inl err \<Rightarrow> Some (abort FailureNormalization ''normalization'' (redact_text r err) report, None)
      | Inr evidence \<Rightarrow>
          map_option (\<lambda>report. (report, None))
            (grade_report (eval_Assertions ev) (eval_MinimumScore ev) execution evidence (report\<lparr>rep_Evidence := evidence\<rparr>)))"

definition Run :: "eval_env \<Rightarrow> Evaluation \<Rightarrow> (Report \<times> goerr option) option" where
  "Run env ev =
     (let report = newReport ev;
          host = eval_Host ev;
          lower = lowercase (json_fmt env)
      in case validateEvaluation ev of
           Some err \<Rightarrow> Some (report, Some err)
         | None \<Rightarrow>
             (case MkdirTemp env of
                Inl err \<Rightarrow> Some (report, Some (Errorf ''create conformance workspace: %w'' [] [err]))
              | Inr workspace \<Rightarrow>
                  (let report = (if eval_KeepWorkspace ev then report\<lparr>rep_Workspace := workspace\<rparr> else report)
                   in case snd (materializeFixture env workspace (eval_Fixture ev)) of
                        Some err \<Rightarrow> Some (report, Some err)
                      | None \<Rightarrow>
                          (let limits = normalizedLimits (eval_Limits ev);
                               r = newRedactor (eval_Redactions ev @ [workspace, Prompt (host_Run host)]);
                               (report, stopped) =
                                 (case Preflight host of
                                    None \<Rightarrow> (report, None)
                                  | Some spec \<Rightarrow>
                                      (case runCommandObserved env 0 workspace spec limits r None of
                                         (preflight, failure, _) \<Rightarrow>
                                           (report\<lparr>rep_Preflight := Some preflight\<rparr>,
                                            command_failed lower ''preflight'' preflight failure (FailureRules host) True
                                              ''preflight exited with code '')))
                           in case stopped of
                                Some failure \<Rightarrow> Some (add_failure failure report, None)
                              | None \<Rightarrow>
                                  (case runCommandObserved env 1 workspace (host_Run host) limits r None of
                                     (execution, failure, _) \<Rightarrow>
                                       (let report = report\<lparr>rep_Execution := Some execution\<rparr>
                                        in case command_failed lower ''host'' execution failure (FailureRules host) False
                                                  ''host exited with code '' of
                                             Some failure \<Rightarrow> Some (add_failure failure report, None)
                                           | None \<Rightarrow> finish_run ev workspace r execution report))))))"

section \<open>A sequence of turns\<close>

definition mergeEnvironment ::
  "(string, string) gomap \<Rightarrow> (string, string) gomap \<Rightarrow> (string, string) gomap" where
  "mergeEnvironment base override = foldl (\<lambda>m (k, v). AList.update k v m) base override"

definition concurrentActorPrompt :: "string \<Rightarrow> string \<Rightarrow> string" where
  "concurrentActorPrompt prompt actor = ReplaceAll prompt ''{actor}'' actor"

definition failedSequenceCommand ::
  "(string \<Rightarrow> string) \<Rightarrow> string \<Rightarrow> ExecutionResult \<Rightarrow> InfrastructureFailure option \<Rightarrow> FailureRule list \<Rightarrow> bool \<Rightarrow> Report
   \<Rightarrow> Report option" where
  "failedSequenceCommand lower phase execution failure rules preflight report =
     map_option (\<lambda>f. add_failure f report)
       (command_failed lower phase execution failure rules preflight ''command exited with code '')"

fun renumber :: "nat \<Rightarrow> capture_event list \<Rightarrow> capture_event list" where
  "renumber n [] = []"
| "renumber n (e # es) = e\<lparr>cev_Sequence := Suc n\<rparr> # renumber (Suc n) es"

definition aggregateTurnExecutions :: "TurnResult list \<Rightarrow> ExecutionResult" where
  "aggregateTurnExecutions turns =
     (let captures = map (ex_Capture \<circ> turn_Execution) turns
      in \<lparr>ex_Process = process_exit 0,
          ex_Capture = \<lparr>cap_Stdout = renumber 0 (concat (map cap_Stdout captures)),
                        cap_Stderr = renumber 0 (concat (map cap_Stderr captures)),
                        cap_BytesRead = sum_list (map cap_BytesRead captures)\<rparr>\<rparr>)"

record concurrentTurnOutcome =
  oc_Turn :: TurnResult
  oc_Failure :: "InfrastructureFailure option"
  oc_SessionID :: string
  oc_Substantive :: bool

definition concurrentCommandSubstantiveFailure ::
  "(string \<Rightarrow> string) \<Rightarrow> ExecutionResult \<Rightarrow> InfrastructureFailure option \<Rightarrow> FailureRule list \<Rightarrow> bool" where
  "concurrentCommandSubstantiveFailure lower execution failure rules =
     (case failure of
        Some f \<Rightarrow> if_Kind f \<noteq> FailureCancelled
      | None \<Rightarrow> ExitCode (ex_Process execution) \<noteq> 0 \<or> matchFailureRule lower ''host'' execution rules \<noteq> None)"

definition no_session :: "string \<Rightarrow> InfrastructureFailure" where
  "no_session phase =
     \<lparr>if_Kind = FailureSession, if_Disposition = DispositionFail, if_Phase = phase,
      if_Detail = ''host stream did not include a resumable session identifier''\<rparr>"

definition concurrent_outcome ::
  "(string \<Rightarrow> string) \<Rightarrow> redactor \<Rightarrow> Limits \<Rightarrow> Host \<Rightarrow> SequenceStep \<Rightarrow> reading \<Rightarrow> nat \<times> string \<times> process_behaviour
   \<Rightarrow> concurrentTurnOutcome" where
  "concurrent_outcome lower r limits host st rd = (\<lambda>(i, actor, pb).
     (case runCommandBudgeted r limits pb rd i of
        (execution, failure) \<Rightarrow>
          (let session = col_Session (rd_Collectors rd i);
               failure = (if failure = None \<and> ExitCode (ex_Process execution) = 0 \<and> ExtractSessionID host \<noteq> None
                             \<and> session = [] then Some (no_session []) else failure)
           in \<lparr>oc_Turn = \<lparr>turn_ID = step_ID st @ '':'' @ actor, turn_Actor = actor, turn_Action = SequenceConcurrent,
                          turn_Execution = execution\<rparr>,
               oc_Failure = failure, oc_SessionID = session,
               oc_Substantive = concurrentCommandSubstantiveFailure lower execution failure (FailureRules host)\<rparr>)))"

definition runConcurrentStep ::
  "eval_env \<Rightarrow> nat \<Rightarrow> string \<Rightarrow> Host \<Rightarrow> SequenceStep \<Rightarrow> Limits \<Rightarrow> int \<Rightarrow> redactor \<Rightarrow> concurrentTurnOutcome list" where
  "runConcurrentStep env n workspace host st limits remaining r =
     (let commands = map (\<lambda>actor. (host_Run host)
                            \<lparr>Prompt := concurrentActorPrompt (step_Prompt st) actor,
                             Env := AList.update conformanceActorEnvironment actor (Env (host_Run host))\<rparr>) (step_Actors st)
      in case behave env n (map (launch_of (environ env) (clock_exists env n) workspace) commands) of
           (pbs, out) \<Rightarrow>
             (let rd = read_output (json_fmt env) r (MaxOutputBytes limits) (ExtractSessionID host)
                         (Some \<lparr>bu_Limit = remaining, bu_Used = 0\<rparr>) out
              in map (concurrent_outcome (lowercase (json_fmt env)) r limits host st rd)
                   (zip [0..<length pbs] (zip (step_Actors st) pbs))))"

definition outcome_failed :: "(string \<Rightarrow> string) \<Rightarrow> FailureRule list \<Rightarrow> concurrentTurnOutcome \<Rightarrow> bool" where
  "outcome_failed lower rules oc \<longleftrightarrow>
     oc_Failure oc \<noteq> None \<or> ExitCode (ex_Process (turn_Execution (oc_Turn oc))) \<noteq> 0
     \<or> matchFailureRule lower ''host'' (turn_Execution (oc_Turn oc)) rules \<noteq> None"

text \<open>The first outcome with a failure of its own, else the first that failed because the group was cancelled.\<close>

definition failConcurrentStep ::
  "(string \<Rightarrow> string) \<Rightarrow> string \<Rightarrow> concurrentTurnOutcome list \<Rightarrow> FailureRule list \<Rightarrow> Report \<Rightarrow> Report option" where
  "failConcurrentStep lower stepID outcomes rules report =
     (case (case find (\<lambda>oc. outcome_failed lower rules oc \<and> oc_Substantive oc) outcomes of
              Some oc \<Rightarrow> Some oc
            | None \<Rightarrow> find (\<lambda>oc. outcome_failed lower rules oc \<and> \<not> oc_Substantive oc) outcomes) of
        None \<Rightarrow> None
      | Some oc \<Rightarrow>
          Some (case failedSequenceCommand lower (''host:'' @ stepID @ '':'' @ turn_Actor (oc_Turn oc))
                       (turn_Execution (oc_Turn oc)) (oc_Failure oc) rules False report of
                  Some report \<Rightarrow> report | None \<Rightarrow> report))"

text \<open>The state of the loop, and what a step makes of it: go on, or return.\<close>

record sequence_state =
  ss_Report :: Report
  ss_Sessions :: "(string, string) gomap"
  ss_Captured :: int
  ss_Launches :: nat

definition output_exhausted :: "Limits \<Rightarrow> SequenceStep \<Rightarrow> Report \<Rightarrow> Report" where
  "output_exhausted limits st report =
     abort FailureOutputLimit (''host:'' @ step_ID st)
       (''scenario output exceeded '' @ fmt_int (MaxOutputBytes limits) @ '' bytes'') report"

definition concurrent_turns ::
  "eval_env \<Rightarrow> string \<Rightarrow> Host \<Rightarrow> Limits \<Rightarrow> redactor \<Rightarrow> SequenceStep \<Rightarrow> sequence_state
   \<Rightarrow> (Report \<times> goerr option) + sequence_state" where
  "concurrent_turns env workspace host limits r st s =
     (let remaining = MaxOutputBytes limits - ss_Captured s
      in if remaining \<le> 0 then Inl (output_exhausted limits st (ss_Report s), None)
         else
           (let outcomes = runConcurrentStep env (ss_Launches s) workspace host st limits remaining r;
                report = (ss_Report s)\<lparr>rep_Turns := rep_Turns (ss_Report s) @ map oc_Turn outcomes\<rparr>;
                captured = ss_Captured s + sum_list (map (cap_BytesRead \<circ> ex_Capture \<circ> turn_Execution \<circ> oc_Turn) outcomes);
                sessions = foldl (\<lambda>m oc. if oc_SessionID oc \<noteq> [] then AList.update (turn_Actor (oc_Turn oc)) (oc_SessionID oc) m
                                          else m) (ss_Sessions s) outcomes
            in case failConcurrentStep (lowercase (json_fmt env)) (step_ID st) outcomes (FailureRules host) report of
                 Some report \<Rightarrow> Inl (report, None)
               | None \<Rightarrow>
                   Inr \<lparr>ss_Report = report, ss_Sessions = sessions, ss_Captured = captured,
                        ss_Launches = Suc (ss_Launches s)\<rparr>))"

definition single_turn ::
  "eval_env \<Rightarrow> string \<Rightarrow> Host \<Rightarrow> Limits \<Rightarrow> redactor \<Rightarrow> SequenceStep \<Rightarrow> sequence_state
   \<Rightarrow> (Report \<times> goerr option) + sequence_state" where
  "single_turn env workspace host limits r st s =
     (case (if step_Action st = SequencePrompt then Inr ((host_Run host)\<lparr>Prompt := step_Prompt st\<rparr>)
            else the (Resume host) (case map_of (ss_Sessions s) (step_Actor st) of Some i \<Rightarrow> i | None \<Rightarrow> []) (step_Prompt st)) of
        Inl err \<Rightarrow>
          Inl (ss_Report s, Some (Errorf ''build resume command for step %q: %w'' [ArgStr (step_ID st)] [err]))
      | Inr command \<Rightarrow>
          (let command = command\<lparr>Env := AList.update conformanceActorEnvironment (step_Actor st)
                                            (mergeEnvironment (Env (host_Run host)) (Env command))\<rparr>;
               turnLimits = limits\<lparr>MaxOutputBytes := MaxOutputBytes limits - ss_Captured s\<rparr>
           in if MaxOutputBytes turnLimits \<le> 0 then Inl (output_exhausted limits st (ss_Report s), None)
              else
                (let observed = step_Action st = SequencePrompt \<and> ExtractSessionID host \<noteq> None
                 in case runCommandObserved env (ss_Launches s) workspace command turnLimits r
                           (if observed then ExtractSessionID host else None) of
                      (execution, failure, session) \<Rightarrow>
                        (let report = (ss_Report s)\<lparr>rep_Turns := rep_Turns (ss_Report s)
                               @ [\<lparr>turn_ID = step_ID st, turn_Actor = step_Actor st, turn_Action = step_Action st,
                                   turn_Execution = execution\<rparr>]\<rparr>
                         in case failedSequenceCommand (lowercase (json_fmt env)) (''host:'' @ step_ID st) execution failure
                                   (FailureRules host) False report of
                              Some report \<Rightarrow> Inl (report, None)
                            | None \<Rightarrow>
                                if observed \<and> session = []
                                then Inl (abort FailureSession (''session:'' @ step_ID st)
                                       ''host stream did not include a resumable session identifier'' report, None)
                                else
                                  Inr \<lparr>ss_Report = report,
                                       ss_Sessions = (if observed then AList.update (step_Actor st) session (ss_Sessions s)
                                                      else ss_Sessions s),
                                       ss_Captured = ss_Captured s + cap_BytesRead (ex_Capture execution),
                                       ss_Launches = Suc (ss_Launches s)\<rparr>))))"

definition sequence_step ::
  "eval_env \<Rightarrow> string \<Rightarrow> Host \<Rightarrow> Limits \<Rightarrow> redactor \<Rightarrow> SequenceStep \<Rightarrow> sequence_state
   \<Rightarrow> (Report \<times> goerr option) + sequence_state" where
  "sequence_step env workspace host limits r st s =
     (if step_Action st = SequenceHarness
      then (case the (step_Harness st) (ss_Launches s) of
              Some err \<Rightarrow>
                Inl (abort FailureNormalization (''harness:'' @ step_ID st) (redact_text r err) (ss_Report s), None)
            | None \<Rightarrow> Inr s)
      else if step_Action st = SequenceConcurrent then concurrent_turns env workspace host limits r st s
      else single_turn env workspace host limits r st s)"

fun run_turn_steps ::
  "eval_env \<Rightarrow> string \<Rightarrow> Host \<Rightarrow> Limits \<Rightarrow> redactor \<Rightarrow> SequenceStep list \<Rightarrow> sequence_state
   \<Rightarrow> (Report \<times> goerr option) + sequence_state" where
  "run_turn_steps env workspace host limits r [] s = Inr s"
| "run_turn_steps env workspace host limits r (st # steps) s =
     (case sequence_step env workspace host limits r st s of
        Inl result \<Rightarrow> Inl result
      | Inr s \<Rightarrow> run_turn_steps env workspace host limits r steps s)"

definition step_prompts :: "SequenceStep \<Rightarrow> string list" where
  "step_prompts st =
     (if step_Action st = SequenceConcurrent then map (concurrentActorPrompt (step_Prompt st)) (step_Actors st)
      else [step_Prompt st])"

definition finish_sequence ::
  "SequenceEvaluation \<Rightarrow> string \<Rightarrow> redactor \<Rightarrow> Report \<Rightarrow> (Report \<times> goerr option) option" where
  "finish_sequence ev workspace r report =
     (let aggregated = aggregateTurnExecutions (rep_Turns report);
          report = report\<lparr>rep_Execution := Some aggregated\<rparr>
      in case (case seq_Normalizer ev of
                 None \<Rightarrow> Inr (EmptyEvidence (ex_Capture aggregated))
               | Some normalizer \<Rightarrow> map_sum id normalizeEvidence (normalizer workspace (rep_Turns report))) of
           Inl err \<Rightarrow> Some (abort FailureNormalization ''normalization'' (redact_text r err) report, None)
         | Inr evidence \<Rightarrow>
             map_option (\<lambda>report. (report, None))
               (grade_report (seq_Assertions ev) (seq_MinimumScore ev) aggregated evidence (report\<lparr>rep_Evidence := evidence\<rparr>)))"

definition run_turns ::
  "eval_env \<Rightarrow> SequenceEvaluation \<Rightarrow> string \<Rightarrow> Limits \<Rightarrow> redactor \<Rightarrow> Report \<Rightarrow> (Report \<times> goerr option) option" where
  "run_turns env ev workspace limits r report =
     (case run_turn_steps env workspace (seq_Host ev) limits r (seq_Steps ev)
             \<lparr>ss_Report = report, ss_Sessions = [], ss_Captured = 0, ss_Launches = 1\<rparr> of
        Inl (report, err) \<Rightarrow> Some (report, err)
      | Inr s \<Rightarrow> finish_sequence ev workspace r (ss_Report s))"

definition RunSequence :: "eval_env \<Rightarrow> SequenceEvaluation \<Rightarrow> (Report \<times> goerr option) option" where
  "RunSequence env ev =
     (let report = newSequenceReport ev;
          host = seq_Host ev
      in case validateSequenceEvaluation ev of
           Some err \<Rightarrow> Some (report, Some err)
         | None \<Rightarrow>
             (case MkdirTemp env of
                Inl err \<Rightarrow> Some (report, Some (Errorf ''create conformance workspace: %w'' [] [err]))
              | Inr workspace \<Rightarrow>
                  (let report = (if seq_KeepWorkspace ev then report\<lparr>rep_Workspace := workspace\<rparr> else report)
                   in case snd (materializeFixture env workspace (seq_Fixture ev)) of
                        Some err \<Rightarrow> Some (report, Some err)
                      | None \<Rightarrow>
                          (let limits = normalizedLimits (seq_Limits ev);
                               r = newRedactor (seq_Redactions ev @ [workspace] @ concat (map step_prompts (seq_Steps ev)));
                               (report, stopped) =
                                 (case Preflight host of
                                    None \<Rightarrow> (report, None)
                                  | Some spec \<Rightarrow>
                                      (case runCommandObserved env 0 workspace spec limits r None of
                                         (preflight, failure, _) \<Rightarrow>
                                           (let report = report\<lparr>rep_Preflight := Some preflight\<rparr>
                                            in (report, failedSequenceCommand (lowercase (json_fmt env)) ''preflight'' preflight
                                                          failure (FailureRules host) True report))))
                           in case stopped of
                                Some report \<Rightarrow> Some (report, None)
                              | None \<Rightarrow> run_turns env ev workspace limits r report))))"

section \<open>Verdicts\<close>

text \<open>
  A verdict is sound: a run with an infrastructure failure is not scored and does not pass; a run
  without one has a check for every assertion, and passes exactly if every required check passed and
  the score reaches the minimum, 100 unless another is set.
\<close>

definition sound_verdict :: "Observation Assertion list \<Rightarrow> rat \<Rightarrow> Report \<Rightarrow> bool" where
  "sound_verdict assertions minimum report \<longleftrightarrow>
     (if rep_InfrastructureFailures report \<noteq> []
      then \<not> Scored (rep_Score report) \<and> rep_Checks report = [] \<and> rep_Status report \<noteq> ReportPassed
      else Scored (rep_Score report) \<and> map check_ID (rep_Checks report) = map as_ID assertions
        \<and> rep_Status report =
            (if (\<forall>c \<in> set (rep_Checks report). check_Required c \<longrightarrow> check_Passed c)
                \<and> Percent (rep_Score report) \<ge> (if minimum = 0 then 100 else minimum)
             then ReportPassed else ReportFailed))"

text \<open>A report on which nothing has been graded yet.\<close>

definition ungraded :: "Report \<Rightarrow> bool" where
  "ungraded report \<longleftrightarrow> \<not> Scored (rep_Score report) \<and> rep_Checks report = [] \<and> rep_InfrastructureFailures report = []"

lemma ungraded_new [simp]: "ungraded (new_report i host)"
  by (simp add: ungraded_def new_report_def unscored_def)

lemma ungraded_fields [simp]:
  "ungraded (report\<lparr>rep_Workspace := w\<rparr>) = ungraded report"
  "ungraded (report\<lparr>rep_Preflight := p\<rparr>) = ungraded report"
  "ungraded (report\<lparr>rep_Execution := x\<rparr>) = ungraded report"
  "ungraded (report\<lparr>rep_Turns := t\<rparr>) = ungraded report"
  "ungraded (report\<lparr>rep_Evidence := v\<rparr>) = ungraded report"
  by (simp_all add: ungraded_def)

lemma verdict_failure: "ungraded report \<Longrightarrow> sound_verdict assertions minimum (add_failure failure report)"
  by (simp add: ungraded_def sound_verdict_def add_failure_def statusForFailures_def)

lemma verdict_abort: "ungraded report \<Longrightarrow> sound_verdict assertions minimum (abort kind phase detail report)"
  by (simp add: ungraded_def sound_verdict_def abort_def)

lemma check_of_ID: "check_ID (check_of observation a) = as_ID a"
  by (simp add: check_of_def Let_def split: prod.split)

lemma verdict_grade:
  assumes "ungraded report" "grade_report assertions minimum execution evidence report = Some report'"
  shows "sound_verdict assertions minimum report'"
proof -
  let ?observation = "\<lparr>ob_Process = ex_Process execution, ob_Capture = ex_Capture execution, ob_Evidence = evidence\<rparr>"
  obtain checks score ok where run: "evaluateAssertions assertions ?observation = Some (checks, score, ok)"
    "report' = report\<lparr>rep_Checks := checks, rep_Score := score,
       rep_Status := (if list_all (\<lambda>c. check_Required c \<longrightarrow> check_Passed c) checks
                         \<and> Percent score \<ge> (if minimum = 0 then 100 else minimum) then ReportPassed else ReportFailed)\<rparr>"
    using assms(2) by (auto simp: grade_report_def Let_def)
  then have "checks = map (check_of ?observation) assertions" "Scored score"
    by (auto simp: evaluateAssertions_def Let_def split: if_splits)
  then show ?thesis
    using assms(1) unfolding run(2) by (simp add: sound_verdict_def ungraded_def check_of_ID comp_def list_all_iff)
qed

text \<open>Assertions that passed validation can be evaluated.\<close>

lemma check_assertions_total:
  "check_assertions seen assertions = None \<Longrightarrow> a \<in> set assertions \<Longrightarrow> as_Evaluate a \<noteq> None"
  by (induction seen assertions rule: check_assertions.induct) (auto split: if_splits)

lemma validate_run_assertions:
  "validate_run i host limits assertions minimum = None \<Longrightarrow> a \<in> set assertions \<Longrightarrow> as_Evaluate a \<noteq> None"
  by (auto simp: validate_run_def split: if_splits option.splits dest: check_assertions_total)

lemma grade_report_total:
  "(\<And>a. a \<in> set assertions \<Longrightarrow> as_Evaluate a \<noteq> None) \<Longrightarrow> grade_report assertions minimum execution evidence report \<noteq> None"
  by (auto simp: grade_report_def evaluateAssertions_def list_ex_iff Let_def)

lemma Run_verdict:
  assumes "Run env ev = Some (report, None)"
  shows "sound_verdict (eval_Assertions ev) (eval_MinimumScore ev) report"
proof -
  have finish: "sound_verdict (eval_Assertions ev) (eval_MinimumScore ev) report'"
    if "finish_run ev workspace r execution report = Some (report', None)" "ungraded report" for workspace r execution report report'
    using that by (auto simp: finish_run_def verdict_abort intro: verdict_grade [rotated] split: sum.splits)
  from assms show ?thesis
    by (auto simp: Run_def Let_def newReport_def verdict_failure finish
        split: option.splits sum.splits prod.splits if_splits)
qed

lemma finish_run_total:
  "(\<And>a. a \<in> set (eval_Assertions ev) \<Longrightarrow> as_Evaluate a \<noteq> None) \<Longrightarrow> finish_run ev workspace r execution report \<noteq> None"
  using grade_report_total [of "eval_Assertions ev"]
  by (auto simp: finish_run_def simp del: not_None_eq split: sum.splits)

lemma Run_total: "Run env ev \<noteq> None"
proof (cases "validateEvaluation ev")
  case None
  then have "a \<in> set (eval_Assertions ev) \<Longrightarrow> as_Evaluate a \<noteq> None" for a
    by (auto simp: validateEvaluation_def dest: validate_run_assertions)
  note finish_run_total [OF this]
  then show ?thesis by (auto simp: Run_def Let_def None simp del: not_None_eq split: sum.split option.split prod.split)
qed (simp add: Run_def Let_def)

text \<open>A step of a sequence keeps the report ungraded or ends it with a sound verdict.\<close>

definition keeps_ungraded :: "(Report \<times> goerr option) + sequence_state \<Rightarrow> bool" where
  "keeps_ungraded result =
     (case result of
        Inl (report, None) \<Rightarrow> \<forall>assertions minimum. sound_verdict assertions minimum report
      | Inl (report, Some _) \<Rightarrow> True
      | Inr s \<Rightarrow> ungraded (ss_Report s))"

lemma failed_verdict:
  "failedSequenceCommand lower phase execution failure rules preflight report = Some report' \<Longrightarrow> ungraded report
    \<Longrightarrow> sound_verdict assertions minimum report'"
  by (auto simp: failedSequenceCommand_def verdict_failure)

lemma outcome_failed_reported:
  assumes "outcome_failed lower rules oc"
  shows "failedSequenceCommand lower phase (turn_Execution (oc_Turn oc)) (oc_Failure oc) rules False report \<noteq> None"
  using assms
  by (auto simp: failedSequenceCommand_def command_failed_def outcome_failed_def matchFailureRule_def Let_def split: option.split)

lemma concurrent_verdict:
  assumes "failConcurrentStep lower i outcomes rules report = Some report'" "ungraded report"
  shows "sound_verdict assertions minimum report'"
proof -
  obtain oc where oc: "outcome_failed lower rules oc"
    "report' = (case failedSequenceCommand lower (''host:'' @ i @ '':'' @ turn_Actor (oc_Turn oc)) (turn_Execution (oc_Turn oc))
        (oc_Failure oc) rules False report of Some report \<Rightarrow> report | None \<Rightarrow> report)"
    using assms(1) by (auto simp: failConcurrentStep_def find_Some_iff split: option.splits)
  from outcome_failed_reported [OF oc(1)] obtain report'' where
    "failedSequenceCommand lower (''host:'' @ i @ '':'' @ turn_Actor (oc_Turn oc)) (turn_Execution (oc_Turn oc))
        (oc_Failure oc) rules False report = Some report''" by blast
  with failed_verdict [OF this assms(2)] oc(2) show ?thesis by simp
qed

lemma keeps_ungraded_simps [simp]:
  "keeps_ungraded (Inl (report, Some err))"
  "keeps_ungraded (Inr s) = ungraded (ss_Report s)"
  by (simp_all add: keeps_ungraded_def)

lemma keeps_abort: "ungraded report \<Longrightarrow> keeps_ungraded (Inl (abort kind phase detail report, None))"
  by (simp add: keeps_ungraded_def verdict_abort)

lemma keeps_exhausted: "ungraded report \<Longrightarrow> keeps_ungraded (Inl (output_exhausted limits st report, None))"
  by (simp add: output_exhausted_def keeps_abort)

lemma keeps_failed:
  "failedSequenceCommand lower phase execution failure rules preflight report = Some report' \<Longrightarrow> ungraded report
    \<Longrightarrow> keeps_ungraded (Inl (report', None))"
  by (simp add: keeps_ungraded_def failed_verdict)

lemma concurrent_keeps:
  assumes "ungraded (ss_Report s)"
  shows "keeps_ungraded (concurrent_turns env workspace host limits r st s)"
proof -
  have "keeps_ungraded (Inl (report', None))"
    if "failConcurrentStep lower i outcomes rules ((ss_Report s)\<lparr>rep_Turns := turns\<rparr>) = Some report'"
    for lower i outcomes rules turns report'
    using concurrent_verdict [OF that] assms by (simp add: keeps_ungraded_def)
  with assms show ?thesis by (simp add: concurrent_turns_def Let_def keeps_exhausted split: option.split)
qed

lemma single_keeps:
  assumes "ungraded (ss_Report s)"
  shows "keeps_ungraded (single_turn env workspace host limits r st s)"
proof -
  let ?command = "if step_Action st = SequencePrompt then Inr ((host_Run host)\<lparr>Prompt := step_Prompt st\<rparr>)
      else the (Resume host) (case map_of (ss_Sessions s) (step_Actor st) of Some i \<Rightarrow> i | None \<Rightarrow> []) (step_Prompt st)"
  show ?thesis
  proof (cases ?command)
    case (Inr command)
    let ?launched = "command\<lparr>Env := AList.update conformanceActorEnvironment (step_Actor st)
        (mergeEnvironment (Env (host_Run host)) (Env command))\<rparr>"
    let ?observed = "step_Action st = SequencePrompt \<and> ExtractSessionID host \<noteq> None"
    obtain execution failure session where run: "runCommandObserved env (ss_Launches s) workspace ?launched
        (limits\<lparr>MaxOutputBytes := MaxOutputBytes limits - ss_Captured s\<rparr>) r
        (if ?observed then ExtractSessionID host else None) = (execution, failure, session)" by (metis prod_cases3)
    let ?report = "(ss_Report s)\<lparr>rep_Turns := rep_Turns (ss_Report s) @ [\<lparr>turn_ID = step_ID st, turn_Actor = step_Actor st,
        turn_Action = step_Action st, turn_Execution = execution\<rparr>]\<rparr>"
    have "ungraded ?report" using assms by simp
    then show ?thesis
      unfolding single_turn_def Inr sum.case Let_def run prod.case
      using assms by (simp add: keeps_exhausted keeps_abort keeps_failed split: option.split)
  qed (simp add: single_turn_def)
qed

lemma step_keeps: "ungraded (ss_Report s) \<Longrightarrow> keeps_ungraded (sequence_step env workspace host limits r st s)"
  by (simp add: sequence_step_def concurrent_keeps single_keeps keeps_abort split: option.split)

lemma steps_keep: "ungraded (ss_Report s) \<Longrightarrow> keeps_ungraded (run_turn_steps env workspace host limits r steps s)"
proof (induction steps arbitrary: s)
  case (Cons st steps)
  from step_keeps [OF Cons.prems, of env workspace host limits r st] Cons.IH show ?case
    by (cases "sequence_step env workspace host limits r st s") (simp_all add: keeps_ungraded_def)
qed (simp add: keeps_ungraded_def)

lemma finish_sequence_verdict:
  "finish_sequence ev workspace r report = Some (report', None) \<Longrightarrow> ungraded report
    \<Longrightarrow> sound_verdict (seq_Assertions ev) (seq_MinimumScore ev) report'"
  by (auto simp: finish_sequence_def Let_def verdict_abort intro: verdict_grade [rotated] split: sum.splits)

lemma run_turns_verdict:
  assumes "run_turns env ev workspace limits r report = Some (report', None)" "ungraded report"
  shows "sound_verdict (seq_Assertions ev) (seq_MinimumScore ev) report'"
proof -
  let ?s = "\<lparr>ss_Report = report, ss_Sessions = [], ss_Captured = 0, ss_Launches = 1\<rparr>"
  have "keeps_ungraded (run_turn_steps env workspace (seq_Host ev) limits r (seq_Steps ev) ?s)"
    using assms(2) by (simp add: steps_keep)
  with assms(1) show ?thesis
    by (cases "run_turn_steps env workspace (seq_Host ev) limits r (seq_Steps ev) ?s")
      (auto simp: run_turns_def keeps_ungraded_def intro: finish_sequence_verdict)
qed

lemma RunSequence_verdict:
  assumes "RunSequence env ev = Some (report, None)"
  shows "sound_verdict (seq_Assertions ev) (seq_MinimumScore ev) report"
  using assms
  by (auto simp: RunSequence_def Let_def newSequenceReport_def intro: failed_verdict run_turns_verdict
      split: option.splits sum.splits prod.splits if_splits)

lemma RunSequence_total: "RunSequence env ev \<noteq> None"
proof (cases "validateSequenceEvaluation ev")
  case None
  then have "a \<in> set (seq_Assertions ev) \<Longrightarrow> as_Evaluate a \<noteq> None" for a
    by (auto simp: validateSequenceEvaluation_def dest: validate_run_assertions split: option.splits)
  then have "finish_sequence ev workspace r report \<noteq> None" for workspace r report
    using grade_report_total [of "seq_Assertions ev"]
    by (auto simp: finish_sequence_def Let_def simp del: not_None_eq split: sum.splits)
  then have "run_turns env ev workspace limits r report \<noteq> None" for workspace limits r report
    by (auto simp: run_turns_def simp del: not_None_eq split: sum.split)
  then show ?thesis
    by (auto simp: RunSequence_def Let_def None simp del: not_None_eq split: sum.split option.split prod.split)
qed (simp add: RunSequence_def Let_def)

end
