(* ===== verification/OutputLimits.thy ===== *)
theory OutputLimits
  imports Evaluation
begin

text \<open>
  The output limit of a conformance scenario (conformance/runner.go, sequence.go): the collector of each
  command, the budget a concurrent group shares, and the sum over the turns of a sequence. No definition
  of the program is added here.
\<close>

section \<open>Output limits\<close>

text \<open>
  What is assumed of the processes: one behaviour for each launch, and output on the two streams of the
  launched processes only.
\<close>

definition fair_env :: "eval_env \<Rightarrow> bool" where
  "fair_env env \<longleftrightarrow>
     (\<forall>n launches pbs out. behave env n launches = (pbs, out) \<longrightarrow>
        length pbs = length launches \<and> (\<forall>pb \<in> set pbs. pb_First pb \<in> {StreamStdout, StreamStderr})
        \<and> (\<forall>(i, stream, _) \<in> set out. i < length launches \<and> stream \<in> {StreamStdout, StreamStderr}))"

text \<open>A process whose readers saw no error has read at most the limit.\<close>

definition reader_ok :: "reading \<Rightarrow> nat \<Rightarrow> bool" where
  "reader_ok rd i \<longleftrightarrow> rd_Errors rd (i, StreamStdout) = None \<and> rd_Errors rd (i, StreamStderr) = None"

definition bytes_read :: "reading \<Rightarrow> nat \<Rightarrow> int" where
  "bytes_read rd i = col_BytesRead (rd_Collectors rd i)"

definition within_limit :: "int \<Rightarrow> reading \<Rightarrow> bool" where
  "within_limit maxBytes rd \<longleftrightarrow> (\<forall>i. reader_ok rd i \<longrightarrow> bytes_read rd i \<le> maxBytes)"

text \<open>What adding a line does to the counters.\<close>

lemma collector_add_bytes:
  assumes "collector_add fmt r maxBytes getID stream sequence line c budget = (err, c', budget')"
  shows "col_BytesRead c' = col_BytesRead c + int (length line)"
    "err = None \<Longrightarrow> col_BytesRead c' \<le> maxBytes"
    "budget = Some b \<Longrightarrow> \<exists>b'. budget' = Some b' \<and> bu_Limit b' = bu_Limit b
       \<and> (err = None \<longrightarrow> bu_Used b' = bu_Used b + int (length line)) \<and> (bu_Used b \<le> bu_Limit b \<longrightarrow> bu_Used b' \<le> bu_Limit b')"
  using assms
  by (auto simp: collector_add_def Let_def reserve_in_def reserve_def first_error_def split: option.splits prod.splits if_splits)

lemma read_line_cases:
  assumes "stream \<in> {StreamStdout, StreamStderr}"
  obtains "read_line fmt r maxBytes getID (i, stream, line) rd = rd" "\<not> reader_ok rd i"
  | err c' budget' where
    "collector_add fmt r maxBytes getID stream (rd_Sequence rd (i, stream) + 1) line (rd_Collectors rd i) (rd_Budget rd)
       = (err, c', budget')"
    "read_line fmt r maxBytes getID (i, stream, line) rd =
       \<lparr>rd_Collectors = (rd_Collectors rd)(i := c'),
        rd_Sequence = (rd_Sequence rd)((i, stream) := rd_Sequence rd (i, stream) + 1),
        rd_Errors = (rd_Errors rd)((i, stream) := err), rd_Budget = budget'\<rparr>"
    "rd_Errors rd (i, stream) = None"
proof (cases "rd_Errors rd (i, stream)")
  case None
  obtain err c' budget' where "collector_add fmt r maxBytes getID stream (rd_Sequence rd (i, stream) + 1) line
      (rd_Collectors rd i) (rd_Budget rd) = (err, c', budget')" by (metis prod_cases3)
  with None that(2) show ?thesis by (simp add: read_line_def Let_def)
next
  case (Some err)
  with assms that(1) show ?thesis by (auto simp: read_line_def reader_ok_def)
qed

lemma read_line_limit:
  assumes "within_limit maxBytes rd" "stream \<in> {StreamStdout, StreamStderr}"
  shows "within_limit maxBytes (read_line fmt r maxBytes getID (i, stream, line) rd)"
  using assms(2)
proof (cases rule: read_line_cases [of stream fmt r maxBytes getID i line rd])
  case (2 err c' budget')
  with assms collector_add_bytes(2) [OF 2(1)] show ?thesis
    by (auto simp: within_limit_def reader_ok_def bytes_read_def split: if_splits)
qed (simp add: assms(1))

lemma read_output_limit:
  assumes "0 \<le> maxBytes" "\<forall>(i, stream, _) \<in> set out. stream \<in> {StreamStdout, StreamStderr}"
  shows "within_limit maxBytes (read_output fmt r maxBytes getID budget out)"
proof -
  have "within_limit maxBytes (fold (read_line fmt r maxBytes getID) out rd)" if "within_limit maxBytes rd" for rd
    using that assms(2)
  proof (induction out arbitrary: rd)
    case (Cons x out)
    obtain i stream line where x: "x = (i, stream, line)" by (metis prod_cases3)
    with Cons read_line_limit [of maxBytes rd stream fmt r getID i line] show ?case by simp
  qed simp
  then show ?thesis using assms(1) by (simp add: read_output_def within_limit_def bytes_read_def newEventCollector_def)
qed

text \<open>The shared budget of a group: without an error it counts every byte that was read.\<close>

definition within_budget :: "nat \<Rightarrow> int \<Rightarrow> reading \<Rightarrow> bool" where
  "within_budget n remaining rd \<longleftrightarrow>
     (\<exists>b. rd_Budget rd = Some b \<and> bu_Limit b = remaining \<and> bu_Used b \<le> remaining
        \<and> ((\<forall>i < n. reader_ok rd i) \<longrightarrow> bu_Used b = (\<Sum>i < n. bytes_read rd i)))"

lemma read_line_budget:
  assumes "within_budget n remaining rd" "stream \<in> {StreamStdout, StreamStderr}" "i < n"
  shows "within_budget n remaining (read_line fmt r maxBytes getID (i, stream, line) rd)"
  using assms(2)
proof (cases rule: read_line_cases [of stream fmt r maxBytes getID i line rd])
  case (2 err c' budget')
  let ?rd = "read_line fmt r maxBytes getID (i, stream, line) rd"
  obtain b where b: "rd_Budget rd = Some b" "bu_Limit b = remaining" "bu_Used b \<le> remaining"
    "(\<forall>i < n. reader_ok rd i) \<Longrightarrow> bu_Used b = (\<Sum>i < n. bytes_read rd i)"
    using assms(1) by (auto simp: within_budget_def)
  obtain b' where b': "budget' = Some b'" "bu_Limit b' = bu_Limit b" "bu_Used b' \<le> bu_Limit b'"
    "err = None \<Longrightarrow> bu_Used b' = bu_Used b + int (length line)"
    using collector_add_bytes(3) [OF 2(1) b(1)] b(2,3) by auto
  have "bu_Used b' = (\<Sum>j < n. bytes_read ?rd j)" if ok: "\<forall>j < n. reader_ok ?rd j"
  proof -
    have "err = None" using ok assms(2,3) 2(2) by (auto simp: reader_ok_def)
    moreover have "rd_Errors rd (j, x) = None" if "rd_Errors ?rd (j, x) = None" for j x
      using that 2(3) unfolding 2(2) by (auto split: if_splits)
    then have "\<forall>j < n. reader_ok rd j" using ok by (simp add: reader_ok_def)
    moreover have "(\<Sum>j < n. bytes_read ?rd j) = (\<Sum>j < n. bytes_read rd j + (if j = i then int (length line) else 0))"
      using collector_add_bytes(1) [OF 2(1)] by (intro sum.cong) (auto simp: 2(2) bytes_read_def)
    ultimately show ?thesis using b(4) b'(4) assms(3) by (simp add: sum.distrib)
  qed
  with b b' 2(2) show ?thesis by (auto simp: within_budget_def)
qed (simp add: assms(1))

lemma read_output_budget:
  assumes "0 \<le> remaining" "\<forall>(i, stream, _) \<in> set out. i < n \<and> stream \<in> {StreamStdout, StreamStderr}"
  shows "within_budget n remaining
    (read_output fmt r maxBytes getID (Some \<lparr>bu_Limit = remaining, bu_Used = 0\<rparr>) out)"
proof -
  have "within_budget n remaining (fold (read_line fmt r maxBytes getID) out rd)" if "within_budget n remaining rd" for rd
    using that assms(2)
  proof (induction out arbitrary: rd)
    case (Cons x out)
    obtain i stream line where x: "x = (i, stream, line)" by (metis prod_cases3)
    with Cons read_line_budget [of n remaining rd stream i fmt r maxBytes getID line] show ?case by simp
  qed simp
  then show ?thesis using assms(1) by (simp add: read_output_def within_budget_def bytes_read_def newEventCollector_def)
qed

text \<open>A command without a failure: its readers saw no error.\<close>

lemma reader_error_None: "reader_error maxEventBytes pb rd i stream = None \<Longrightarrow> rd_Errors rd (i, stream) = None"
  by (auto simp: reader_error_def split: option.splits)

lemma no_failure_reader_ok:
  assumes "runCommandBudgeted r limits pb rd i = (execution, None)" "pb_First pb \<in> {StreamStdout, StreamStderr}"
  shows "reader_ok rd i" "cap_BytesRead (ex_Capture execution) = bytes_read rd i"
proof -
  let ?error = "reader_error (MaxEventBytes limits) pb rd i"
  have run: "firstNonNil [?error (pb_First pb), ?error (other_stream (pb_First pb))] = None"
    "ex_Capture execution = capture_of (rd_Collectors rd i)"
    using assms(1)
    by (auto simp: runCommandBudgeted_def Let_def simp del: first_some.simps
        split: start_outcome.splits ctx_state.splits option.splits)
  from run(1) have "?error (pb_First pb) = None" "?error (other_stream (pb_First pb)) = None"
    by (simp_all add: firstNonNil_def first_some_eq_None)
  then have "?error StreamStdout = None" "?error StreamStderr = None"
    using assms(2) by (auto simp: other_stream_def)
  then show "reader_ok rd i" by (simp add: reader_ok_def reader_error_None)
  show "cap_BytesRead (ex_Capture execution) = bytes_read rd i" by (simp add: run(2) capture_of_def bytes_read_def)
qed

definition turns_bytes :: "Report \<Rightarrow> int" where
  "turns_bytes report = sum_list (map (cap_BytesRead \<circ> ex_Capture \<circ> turn_Execution) (rep_Turns report))"

definition counted :: "Limits \<Rightarrow> sequence_state \<Rightarrow> bool" where
  "counted limits s \<longleftrightarrow> ss_Captured s = turns_bytes (ss_Report s) \<and> ss_Captured s \<le> MaxOutputBytes limits"

lemma not_failed:
  "failedSequenceCommand lower phase execution failure rules preflight report = None \<Longrightarrow> failure = None"
  by (auto simp: failedSequenceCommand_def command_failed_def Let_def split: option.splits)

lemma observed_bytes:
  assumes "fair_env env" "runCommandObserved env n workspace spec limits r getID = (execution, None, session)"
    "0 \<le> MaxOutputBytes limits"
  shows "cap_BytesRead (ex_Capture execution) \<le> MaxOutputBytes limits"
proof -
  let ?launches = "[launch_of (environ env) (clock_exists env n) workspace spec]"
  obtain pbs out where out: "behave env n ?launches = (pbs, out)" by force
  with assms(1) have fair: "length pbs = 1" "pb_First (hd pbs) \<in> {StreamStdout, StreamStderr}"
    "\<forall>(i, stream, _) \<in> set out. stream \<in> {StreamStdout, StreamStderr}"
    unfolding fair_env_def by (fastforce simp: length_Suc_conv)+
  let ?rd = "read_output (json_fmt env) r (MaxOutputBytes limits) getID None out"
  have "runCommandBudgeted r limits (hd pbs) ?rd 0 = (execution, None)"
    using assms(2) by (auto simp: runCommandObserved_def out Let_def split: prod.splits)
  from no_failure_reader_ok [OF this fair(2)] read_output_limit [OF assms(3) fair(3)] show ?thesis
    by (auto simp: within_limit_def)
qed

lemma outcome_ok:
  assumes "oc_Failure (concurrent_outcome lower r limits host st rd (i, actor, pb)) = None"
    "pb_First pb \<in> {StreamStdout, StreamStderr}"
  shows "reader_ok rd i \<and> cap_BytesRead (ex_Capture (turn_Execution (oc_Turn
    (concurrent_outcome lower r limits host st rd (i, actor, pb))))) = bytes_read rd i"
proof -
  obtain execution failure where run: "runCommandBudgeted r limits pb rd i = (execution, failure)" by fastforce
  with assms(1) have "failure = None"
    by (simp add: concurrent_outcome_def Let_def split: if_splits)
  with no_failure_reader_ok [of r limits pb rd i execution] run assms(2) show ?thesis
    by (simp add: concurrent_outcome_def Let_def)
qed

lemma concurrent_bytes:
  assumes "fair_env env" "0 \<le> remaining"
    "\<And>oc. oc \<in> set (runConcurrentStep env n workspace host st limits remaining r) \<Longrightarrow> oc_Failure oc = None"
  shows "sum_list (map (cap_BytesRead \<circ> ex_Capture \<circ> turn_Execution \<circ> oc_Turn)
      (runConcurrentStep env n workspace host st limits remaining r)) \<le> remaining"
proof -
  let ?commands = "map (\<lambda>actor. (host_Run host)\<lparr>Prompt := concurrentActorPrompt (step_Prompt st) actor,
      Env := AList.update conformanceActorEnvironment actor (Env (host_Run host))\<rparr>) (step_Actors st)"
  let ?launches = "map (launch_of (environ env) (clock_exists env n) workspace) ?commands"
  obtain pbs out where out: "behave env n ?launches = (pbs, out)" by force
  with assms(1) have fair: "length pbs = length (step_Actors st)" "\<forall>pb \<in> set pbs. pb_First pb \<in> {StreamStdout, StreamStderr}"
    "\<forall>(i, stream, _) \<in> set out. i < length pbs \<and> stream \<in> {StreamStdout, StreamStderr}"
    unfolding fair_env_def by (auto dest!: spec)
  let ?rd = "read_output (json_fmt env) r (MaxOutputBytes limits) (ExtractSessionID host)
      (Some \<lparr>bu_Limit = remaining, bu_Used = 0\<rparr>) out"
  let ?outcome = "concurrent_outcome (lowercase (json_fmt env)) r limits host st ?rd"
  let ?zip = "zip [0..<length pbs] (zip (step_Actors st) pbs)"
  have run: "runConcurrentStep env n workspace host st limits remaining r = map ?outcome ?zip"
    unfolding runConcurrentStep_def Let_def out prod.case ..
  have each: "reader_ok ?rd i \<and> cap_BytesRead (ex_Capture (turn_Execution (oc_Turn (?outcome (i, actor, pb))))) = bytes_read ?rd i"
    if "(i, actor, pb) \<in> set ?zip" for i actor pb
  proof (rule outcome_ok)
    from that have "?outcome (i, actor, pb) \<in> set (map ?outcome ?zip)" by (simp only: set_map imageI)
    then show "oc_Failure (?outcome (i, actor, pb)) = None" using assms(3) unfolding run by blast
    from that have "pb \<in> set pbs" by (meson in_set_zipE)
    then show "pb_First pb \<in> {StreamStdout, StreamStderr}" using fair(2) by blast
  qed
  have member: "(i, step_Actors st ! i, pbs ! i) \<in> set ?zip" if "i < length pbs" for i
    using that fair(1) by (auto simp: in_set_zip intro!: exI [of _ i])
  have "sum_list (map (cap_BytesRead \<circ> ex_Capture \<circ> turn_Execution \<circ> oc_Turn) (map ?outcome ?zip))
      = sum_list (map (bytes_read ?rd \<circ> fst) ?zip)"
    using each by (intro arg_cong [where f = sum_list]) (auto simp del: zip_map1)
  also have "\<dots> = sum_list (map (bytes_read ?rd) [0..<length pbs])" using fair(1) by (simp flip: map_map)
  also have "\<dots> = (\<Sum>i < length pbs. bytes_read ?rd i)" by (simp add: interv_sum_list_conv_sum_set_nat atLeast0LessThan)
  also have "\<dots> \<le> remaining"
    using read_output_budget [OF assms(2) fair(3), of "json_fmt env" r "MaxOutputBytes limits" "ExtractSessionID host"]
      each member by (auto simp: within_budget_def)
  finally show ?thesis unfolding run .
qed

section \<open>The limit over a sequence\<close>

lemma concurrent_ok:
  "failConcurrentStep lower i outcomes rules report = None \<Longrightarrow> oc \<in> set outcomes \<Longrightarrow> oc_Failure oc = None"
  by (auto simp: failConcurrentStep_def outcome_failed_def find_None_iff split: option.splits)

lemma concurrent_counted:
  assumes "fair_env env" "counted limits s" "concurrent_turns env workspace host limits r st s = Inr s'"
  shows "counted limits s'"
proof -
  let ?remaining = "MaxOutputBytes limits - ss_Captured s"
  let ?outcomes = "runConcurrentStep env (ss_Launches s) workspace host st limits ?remaining r"
  let ?bytes = "sum_list (map (cap_BytesRead \<circ> ex_Capture \<circ> turn_Execution \<circ> oc_Turn) ?outcomes)"
  have remaining: "0 \<le> ?remaining" using assms(2) by (simp add: counted_def)
  have s': "ss_Captured s' = ss_Captured s + ?bytes"
    "rep_Turns (ss_Report s') = rep_Turns (ss_Report s) @ map oc_Turn ?outcomes"
    and ok: "\<And>oc. oc \<in> set ?outcomes \<Longrightarrow> oc_Failure oc = None"
    using assms(3) by (auto simp: concurrent_turns_def Let_def dest: concurrent_ok split: if_splits option.splits)
  from concurrent_bytes [OF assms(1) remaining ok] have "?bytes \<le> ?remaining" .
  with assms(2) show ?thesis by (simp add: counted_def turns_bytes_def s' o_assoc)
qed

lemma single_counted:
  assumes "fair_env env" "counted limits s" "single_turn env workspace host limits r st s = Inr s'"
  shows "counted limits s'"
proof -
  let ?limits = "limits\<lparr>MaxOutputBytes := MaxOutputBytes limits - ss_Captured s\<rparr>"
  let ?command = "if step_Action st = SequencePrompt then Inr ((host_Run host)\<lparr>Prompt := step_Prompt st\<rparr>)
      else the (Resume host) (case map_of (ss_Sessions s) (step_Actor st) of Some i \<Rightarrow> i | None \<Rightarrow> []) (step_Prompt st)"
  let ?observed = "step_Action st = SequencePrompt \<and> ExtractSessionID host \<noteq> None"
  let ?getID = "if ?observed then ExtractSessionID host else None"
  show ?thesis
  proof (cases ?command)
    case (Inr command)
    let ?launched = "command\<lparr>Env := AList.update conformanceActorEnvironment (step_Actor st)
        (mergeEnvironment (Env (host_Run host)) (Env command))\<rparr>"
    obtain execution failure session where
      run: "runCommandObserved env (ss_Launches s) workspace ?launched ?limits r ?getID = (execution, failure, session)"
      by (metis prod_cases3)
    have s': "failure = None" "ss_Captured s' = ss_Captured s + cap_BytesRead (ex_Capture execution)"
      "turns_bytes (ss_Report s') = turns_bytes (ss_Report s) + cap_BytesRead (ex_Capture execution)"
      using assms(3) unfolding single_turn_def Inr sum.case Let_def run prod.case
      by (auto dest: not_failed simp: turns_bytes_def split: option.splits if_splits)
    with observed_bytes [OF assms(1), of "ss_Launches s" workspace ?launched ?limits r ?getID execution session] run assms(2)
    show ?thesis by (simp add: counted_def)
  next
    case (Inl err)
    with assms(3) show ?thesis by (simp add: single_turn_def)
  qed
qed

lemma step_counted:
  assumes "fair_env env" "counted limits s" "sequence_step env workspace host limits r st s = Inr s'"
  shows "counted limits s'"
proof (cases "step_Action st = SequenceHarness")
  case True
  with assms(2,3) show ?thesis by (simp add: sequence_step_def split: option.splits)
next
  case False
  with assms(3) have "concurrent_turns env workspace host limits r st s = Inr s'
      \<or> single_turn env workspace host limits r st s = Inr s'"
    by (simp add: sequence_step_def split: if_splits)
  then show ?thesis using concurrent_counted [OF assms(1,2)] single_counted [OF assms(1,2)] by blast
qed

lemma steps_counted:
  assumes "fair_env env"
  shows "counted limits s \<Longrightarrow> run_turn_steps env workspace host limits r steps s = Inr s' \<Longrightarrow> counted limits s'"
proof (induction steps arbitrary: s)
  case (Cons st steps)
  then obtain s'' where s'': "sequence_step env workspace host limits r st s = Inr s''"
    by (cases "sequence_step env workspace host limits r st s") simp_all
  from step_counted [OF assms Cons.prems(1) s''] have "counted limits s''" .
  with Cons.IH Cons.prems(2) s'' show ?case by simp
qed simp

text \<open>A run with a sound verdict for every choice of assertions is one that failed.\<close>

lemma always_sound_failed:
  assumes "\<forall>assertions minimum. sound_verdict assertions minimum report"
  shows "rep_InfrastructureFailures report \<noteq> []"
proof
  assume none: "rep_InfrastructureFailures report = []"
  with assms have "\<forall>assertions. map check_ID (rep_Checks report) = map as_ID (assertions :: Observation Assertion list)"
    by (simp add: sound_verdict_def)
  from spec [OF this, of "[]"] spec [OF this, of "[undefined]"] show False by simp
qed

text \<open>What a graded sequence has read.\<close>

lemma finish_sequence_turns:
  assumes "finish_sequence ev workspace r report = Some (report', None)" "rep_InfrastructureFailures report' = []"
  shows "rep_Turns report' = rep_Turns report"
  using assms
  by (auto simp: finish_sequence_def Let_def abort_def grade_report_def split: sum.splits)

lemma run_turns_bytes:
  assumes "fair_env env" "0 \<le> MaxOutputBytes limits" "rep_Turns report = []" "ungraded report"
    "run_turns env ev workspace limits r report = Some (report', None)" "rep_InfrastructureFailures report' = []"
  shows "turns_bytes report' \<le> MaxOutputBytes limits"
proof -
  let ?s = "\<lparr>ss_Report = report, ss_Sessions = [], ss_Captured = 0, ss_Launches = 1\<rparr>"
  let ?run = "run_turn_steps env workspace (seq_Host ev) limits r (seq_Steps ev) ?s"
  have keeps: "keeps_ungraded ?run" using assms(4) by (simp add: steps_keep)
  have start: "counted limits ?s" using assms(2,3) by (simp add: counted_def turns_bytes_def)
  show ?thesis
  proof (cases ?run)
    case (Inl result)
    with assms(5) have "result = (report', None)" by (simp add: run_turns_def split: prod.splits)
    with keeps Inl have "\<forall>assertions minimum. sound_verdict assertions minimum report'" by (simp add: keeps_ungraded_def)
    from always_sound_failed [OF this] assms(6) show ?thesis by simp
  next
    case (Inr s)
    with assms(5) have "finish_sequence ev workspace r (ss_Report s) = Some (report', None)" by (simp add: run_turns_def)
    from finish_sequence_turns [OF this assms(6)] steps_counted [OF assms(1) start Inr]
    show ?thesis by (simp add: counted_def turns_bytes_def)
  qed
qed

lemma RunSequence_bytes:
  assumes "fair_env env" "RunSequence env ev = Some (report, None)" "rep_InfrastructureFailures report = []"
  shows "turns_bytes report \<le> MaxOutputBytes (normalizedLimits (seq_Limits ev))"
proof -
  let ?limits = "normalizedLimits (seq_Limits ev)"
  have valid: "validateSequenceEvaluation ev = None"
    using assms(2) by (auto simp: RunSequence_def Let_def split: option.splits)
  then have limits: "0 \<le> MaxOutputBytes ?limits"
    by (auto simp: validateSequenceEvaluation_def validate_run_def normalizedLimits_def split: option.splits if_splits)
  have failed: "rep_InfrastructureFailures report' \<noteq> []"
    if "failedSequenceCommand lower phase execution failure rules preflight report'' = Some report'"
    for lower phase execution failure rules preflight report'' report'
    using that by (auto simp: failedSequenceCommand_def add_failure_def Let_def)
  have turns: "turns_bytes report \<le> MaxOutputBytes ?limits"
    if "run_turns env ev workspace ?limits r report' = Some (report, None)" "ungraded report'" "rep_Turns report' = []"
    for workspace r report'
    using run_turns_bytes [OF assms(1) limits that(3,2,1) assms(3)] .
  have "rep_Turns (new_report i host) = []" for i host by (simp add: new_report_def)
  with assms(2,3) valid show ?thesis
    by (auto simp: RunSequence_def Let_def newSequenceReport_def intro: turns dest: failed
        split: option.splits sum.splits prod.splits if_splits)
qed

section \<open>The verdict of a sequence\<close>


text \<open>A sequence of two actors that write one line each.\<close>

definition sample_runner :: eval_env where
  "sample_runner =
     \<lparr>MkdirTemp = Inr ''/w'', MkdirAll_error = (\<lambda>_. None), WriteFile_error = (\<lambda>_. None), environ = [], clock_exists = (\<lambda>_. False),
      behave = (\<lambda>n launches.
        (map (\<lambda>_. \<lparr>pb_Start = Started, pb_ScanError = (\<lambda>_. None), pb_First = StreamStdout, pb_Exit = 0,
                   pb_Context = CtxLive\<rparr>) launches,
         map (\<lambda>i. (i, StreamStdout, ''ok'')) [0..<length launches])),
      json_fmt = \<lparr>Unmarshal = (\<lambda>_. None), marshalJSON = (\<lambda>_. None), lowercase = (\<lambda>s. s)\<rparr>\<rparr>"

definition sample_host :: Host where
  "sample_host =
     \<lparr>host_Name = ''h'', host_Version = [], host_Model = [], host_Transport = [], host_IntegrationVersion = [],
      Preflight = None,
      host_Run = \<lparr>Executable = ''agent'', Args = [], Env = [], Stdin = [], Prompt = [], CleanEnv = True\<rparr>,
      Resume = None, ExtractSessionID = None, FailureRules = []\<rparr>"

definition sample_sequence :: "int \<Rightarrow> SequenceEvaluation" where
  "sample_sequence limit =
     \<lparr>seq_ID = ''s'', seq_Host = sample_host, seq_Fixture = [],
      seq_Steps = [\<lparr>step_ID = ''a'', step_Actor = [], step_Actors = [''x'', ''y''], step_Action = SequenceConcurrent,
                    step_Prompt = ''go'', step_Harness = None\<rparr>],
      seq_Limits = \<lparr>Timeout = 0, MaxOutputBytes = limit, MaxEventBytes = 0\<rparr>, seq_Redactions = [], seq_Normalizer = None,
      seq_Assertions = [\<lparr>as_ID = ''exit'', as_Description = [], as_Criteria = [], as_HardGate = [], as_Weight = 1, as_Required = True,
                         as_Evaluate = Some (\<lambda>ob. (ExitCode (ob_Process ob) = 0, []))\<rparr>],
      seq_MinimumScore = 0, seq_KeepWorkspace = False\<rparr>"

lemma sample_steps:
  "\<exists>s. rep_InfrastructureFailures (ss_Report s) = rep_InfrastructureFailures report
     \<and> run_turn_steps sample_runner ''/w'' sample_host (normalizedLimits (seq_Limits (sample_sequence 4))) r
      (seq_Steps (sample_sequence 4)) \<lparr>ss_Report = report, ss_Sessions = [], ss_Captured = 0, ss_Launches = 1\<rparr> = Inr s"
  by (simp add: sample_sequence_def sample_runner_def sample_host_def normalizedLimits_def sequence_step_def concurrent_turns_def
      Let_def runConcurrentStep_def read_output_def read_line_def collector_add_def newEventCollector_def reserve_in_def
      reserve_def concurrent_outcome_def runCommandBudgeted_def firstNonNil_def reader_error_def
      concurrentCommandSubstantiveFailure_def matchFailureRule_def failConcurrentStep_def outcome_failed_def
      capture_of_def process_exit_def)

lemma sample_valid: "validateSequenceEvaluation (sample_sequence 4) = None"
  unfolding sample_sequence_def sample_host_def by code_simp

lemma sample_runs:
  "\<exists>report. RunSequence sample_runner (sample_sequence 4) = Some (report, None) \<and> rep_InfrastructureFailures report = []"
proof -
  let ?ev = "sample_sequence 4"
  let ?report = "newSequenceReport ?ev"
  let ?limits = "normalizedLimits (seq_Limits ?ev)"
  let ?r = "newRedactor (seq_Redactions ?ev @ [''/w''] @ concat (map step_prompts (seq_Steps ?ev)))"
  have host: "seq_Host ?ev = sample_host" "Preflight sample_host = None" "seq_KeepWorkspace ?ev = False" "seq_Fixture ?ev = []"
    "MkdirTemp sample_runner = Inr ''/w''" "seq_Normalizer ?ev = None"
    by (simp_all add: sample_sequence_def sample_host_def sample_runner_def)
  have run: "RunSequence sample_runner ?ev = run_turns sample_runner ?ev ''/w'' ?limits ?r ?report"
    unfolding RunSequence_def Let_def sample_valid host option.case sum.case
    by (simp add: materializeFixture_def)
  obtain s where s: "run_turn_steps sample_runner ''/w'' sample_host ?limits ?r (seq_Steps ?ev)
      \<lparr>ss_Report = ?report, ss_Sessions = [], ss_Captured = 0, ss_Launches = 1\<rparr> = Inr s"
    "rep_InfrastructureFailures (ss_Report s) = []"
    using sample_steps [of ?report ?r] by (auto simp: newSequenceReport_def new_report_def)
  have "grade_report (seq_Assertions ?ev) minimum execution evidence report \<noteq> None" for minimum execution evidence report
    by (rule grade_report_total) (auto simp: sample_sequence_def)
  with s show ?thesis
    unfolding run run_turns_def host s(1) sum.case finish_sequence_def Let_def option.case
    by (fastforce simp: grade_report_def)
qed

lemma sample_fair: "fair_env sample_runner"
  by (auto simp: fair_env_def sample_runner_def)


end
