(* ===== verification/Handlers.thy ===== *)
theory Handlers
  imports Server
begin

text \<open>
  The handlers of \<^verbatim>\<open>serve.go\<close> that change the store of the project, one definition per handler, in the
  order of the file. Every handler validates its parameters first, then requires an initialized
  project, and answers from the committed store.
\<close>

section \<open>Ping and init\<close>

definition handlePing :: "'b server_env \<Rightarrow> json option \<Rightarrow> 'b act" where
  "handlePing e params =
     with_params (decode_empty params) (\<lambda>_ w.
       respond (RPing
         \<lparr>ping_Version = version e, ping_ProtocolVersion = protocolVersion, ping_Project = projectRoot e,
          ping_Initialized = w_initialized w,
          ping_Capabilities =
            [''dag'', ''leases'', ''lease_heartbeat'', ''atomic_handoff'', ''atomic_acquire'', ''idempotent_acquire'',
             ''session_bootstrap'', ''compact_receipts'', ''events'', ''event_pages'', ''cross_repository_dependencies'']\<rparr>) w)"

text \<open>The store is looked for first and written later, without the lock in between.\<close>

definition handleInit :: "'b server_env \<Rightarrow> json option \<Rightarrow> 'b act" where
  "handleInit e params =
     with_params (decode_empty params) (\<lambda>_.
       let storePath = tasksBinPath e;
           initialized = (\<lambda>w. respond (RInit (projectRoot e)) (w\<lparr>w_initialized := True\<rparr>))
       in read_files e (\<lambda>f.
            if file_exists f storePath then initialized
            else at_turn (\<lambda>n.
              case MkdirAll_err (io e n) of
                Some err \<Rightarrow> refuse rpcInternal (Errorf ''creating directory: %v'' [] [err])
              | None \<Rightarrow>
                  save_at e storePath NewTaskStore
                    (\<lambda>r. case r of
                           Some err \<Rightarrow> fail (storeError ''creating store: %v'' err)
                         | None \<Rightarrow> initialized))))"

section \<open>Adding and completing\<close>

definition valid_priority_param :: "float32 option \<Rightarrow> bool" where
  "valid_priority_param p = (case p of Some v \<Rightarrow> validPriority v | None \<Rightarrow> True)"

definition add_defaults :: "goerr + ProjectConfig \<Rightarrow> float32 option \<Rightarrow> string list option \<Rightarrow> float32 \<times> string list" where
  "add_defaults cfg priority capabilities =
     (case priority of Some v \<Rightarrow> v | None \<Rightarrow> (case cfg of Inr c \<Rightarrow> DefaultPriority c | Inl _ \<Rightarrow> f_zero),
      case capabilities of
        Some cs \<Rightarrow> cs
      | None \<Rightarrow>
          (case cfg of
             Inr c \<Rightarrow> if DefaultCapCaps c \<noteq> [] then normalizeCapabilities (DefaultCapCaps c) else []
           | Inl _ \<Rightarrow> []))"

definition handleAdd :: "'b server_env \<Rightarrow> json option \<Rightarrow> 'b act" where
  "handleAdd e params =
     with_params (decode_addParams (ParseFloat32 e) params) (\<lambda>p.
       let title = TrimSpace (add_Title p);
           capabilities = map_option normalizePersistedValues (add_Capabilities p);
           tags = normalizePersistedValues (or_empty (add_Tags p));
           after = or_empty (add_After p)
       in validated (validateRequiredPersistedString ''title'' title maxTaskTitleBytes)
         (validated (validateDependencies after)
         (validated (validateCapabilities (or_empty capabilities))
         (validated (validateTags tags)
         (require (valid_priority_param (add_Priority p)) (invalid ''priority must be between 0 and 1'')
         (ensureInitialized
         (read_files e (\<lambda>f.
            let (priority, caps) = add_defaults (loadConfig (f_config f)) (add_Priority p) capabilities
            in validated (validateCapabilities caps)
              (updateStoreSafe e rpcErrorFromDomain
                 (\<lambda>clk _. handleAdd_mutate clk
                    \<lparr>n_Title = title, n_After = after, n_Priority = priority, n_Capabilities = caps, n_Tags = tags\<rparr>)
                 (\<lambda>taskID s.
                    if add_Receipt p
                    then respond (RReceipt ((newMutationReceipt ''add'' [taskID])
                           \<lparr>mr_Task := Some \<lparr>tr_ID = taskID, tr_Status = ''pending'', tr_LeaseExpires = None,
                                            tr_RetryCount = 0\<rparr>,
                            mr_DetailFollowUp := taskDetailFollowUp taskID\<rparr>))
                    else respond (RAdd taskID title)))))))))))"

definition done_receipt :: "u64 list \<Rightarrow> mutationReceipt" where
  "done_receipt completed =
     (let receipt = (newMutationReceipt ''complete'' completed)\<lparr>mr_DetailFollowUp := graphDetailFollowUp\<rparr>
      in case completed of
           [i] \<Rightarrow> receipt\<lparr>mr_Task := Some \<lparr>tr_ID = i, tr_Status = ''completed'', tr_LeaseExpires = None, tr_RetryCount = 0\<rparr>,
                         mr_DetailFollowUp := taskDetailFollowUp i\<rparr>
         | _ \<Rightarrow> receipt)"

definition handleDone :: "'b server_env \<Rightarrow> json option \<Rightarrow> 'b act" where
  "handleDone e params =
     with_params (decode_doneParams params) (\<lambda>p.
       require (done_IDs p \<noteq> []) (invalid ''ids is required'')
       (validated (validateActor (done_Actor p) False)
       (ensureInitialized
       (loadStoreSafe e (\<lambda>preflight.
        with_snapshot e (GetAllTasks preflight) (\<lambda>resolver.
        updateStoreSafe e rpcErrorFromDomain
          (\<lambda>clk now. done_mutate clk (uniqueTaskIDs (done_IDs p)) (done_Actor p) resolver now)
          (\<lambda>completed committed.
             if done_Receipt p then respond (RReceipt (done_receipt completed))
             else respond (RDone completed (map ID (newlyReadyAfter committed completed resolver))))))))))"

section \<open>Metadata\<close>

definition handleUpdate :: "'b server_env \<Rightarrow> json option \<Rightarrow> 'b act" where
  "handleUpdate e params =
     with_params (decode_updateParams (ParseFloat32 e) params) (\<lambda>p.
       let title = map_option TrimSpace (update_Title p);
           capabilities = map_option normalizePersistedValues (update_Capabilities p);
           addDeps = or_empty (update_AddDeps p);
           removeDeps = or_empty (update_RemoveDeps p)
       in require (update_ID p \<noteq> 0) (invalid ''id is required'')
         (require (\<not> (update_Title p = None \<and> update_Priority p = None \<and> update_Capabilities p = None
                     \<and> update_Extra p = [] \<and> addDeps = [] \<and> removeDeps = [])) (invalid ''nothing to update'')
         (validated (case title of
                       Some t \<Rightarrow> validateRequiredPersistedString ''title'' t maxTaskTitleBytes
                     | None \<Rightarrow> None)
         (validated (validateActor (update_Actor p) False)
         (validated (validateCapabilities (or_empty capabilities))
         (validated (validateExtra (update_Extra p))
         (validated (validateDependencies addDeps)
         (validated (validateDependencies removeDeps)
         (require (valid_priority_param (update_Priority p)) (invalid ''priority must be between 0 and 1'')
         (ensureInitialized
         (updateStoreSafe e rpcErrorFromDomain
            (\<lambda>clk _. updateTask clk (update_ID p) (update_Actor p)
               \<lparr>u_Title = title, u_Priority = update_Priority p, u_SetCapabilities = (capabilities \<noteq> None),
                u_Capabilities = or_empty capabilities, u_Extra = update_Extra p, u_AddDeps = addDeps,
                u_RemoveDeps = removeDeps\<rparr>)
            (\<lambda>i s. with_task s i (\<lambda>updated.
               if update_Receipt p then respond (RReceipt (newTaskMutationReceipt ''update'' updated))
               else respond (RTask (newProtocolTask updated)))))))))))))))"

section \<open>Leases\<close>

text \<open>\<^verbatim>\<open>parseLeaseTTL\<close> with the two classes of its errors, as \<^verbatim>\<open>handleClaim\<close> and \<^verbatim>\<open>handleHeartbeat\<close> have it.\<close>

definition with_ttl :: "'b server_env \<Rightarrow> string \<Rightarrow> (duration \<Rightarrow> 'b act) \<Rightarrow> 'b act" where
  "with_ttl e explicit k =
     read_files e (\<lambda>f.
       case parseLeaseTTL (f_config f) explicit of
         Inl err \<Rightarrow>
           if errors_Is err errInvalidTTL then refuse rpcInvalidParams (Errorf ''ttl %v'' [] [err])
           else refuse rpcStoreCorrupted err
       | Inr ttl \<Rightarrow> k ttl)"

definition claim_receipt :: "claimResult \<Rightarrow> mutationReceipt" where
  "claim_receipt r =
     (newMutationReceipt ''claim'' [claimed_ID r])
       \<lparr>mr_Task := Some \<lparr>tr_ID = claimed_ID r, tr_Status = ''in_progress'',
                        tr_LeaseExpires = Some (claimed_Expires r), tr_RetryCount = claimed_RetryCount r\<rparr>,
        mr_DetailFollowUp := taskDetailFollowUp (claimed_ID r)\<rparr>"

definition handleClaim :: "'b server_env \<Rightarrow> json option \<Rightarrow> 'b act" where
  "handleClaim e params =
     with_params (decode_claimParams params) (\<lambda>p.
       require (claim_ID p \<noteq> 0) (invalid ''id is required'')
       (require (claim_Actor p \<noteq> []) (invalid ''actor is required'')
       (validated (validateActor (claim_Actor p) True)
       (ensureInitialized
       (with_ttl e (claim_TTL p) (\<lambda>ttl.
        touch e (claim_Actor p)
       (loadStoreSafe e (\<lambda>preflight.
        (case GetTask preflight (claim_ID p) of
           Some task \<Rightarrow> with_snapshot e [task]
         | None \<Rightarrow> (\<lambda>k. k None)) (\<lambda>resolver.
        updateStoreSafe e rpcErrorFromDomain
          (\<lambda>clk now. claimTask clk (claim_ID p) (claim_Actor p) ttl resolver now)
          (\<lambda>i s. with_task s i (\<lambda>task.
             let result = \<lparr>claimed_ID = claim_ID p, claimed_Owner = claim_Actor p,
                           claimed_Expires = formatTimestamp (LeaseExpires task),
                           claimed_RetryCount = RetryCount task, claimed_LastError = LastError task\<rparr>
             in if claim_Receipt p then respond (RReceipt (claim_receipt result))
                else respond (RClaim result))))))))))))"

definition handleAcquire :: "'b server_env \<Rightarrow> json option \<Rightarrow> 'b act" where
  "handleAcquire e params =
     with_params (decode_acquireParams params) (\<lambda>p.
       require (acquire_Actor p \<noteq> []) (invalid ''actor is required'')
       (validated (validateActor (acquire_Actor p) True)
       (validated (map_option (\<lambda>err. Errorf ''requestId: %v'' [] [err]) (validateAcquireRequestID (acquire_RequestID p)))
       (ensureInitialized
       (touch e (acquire_Actor p)
       (read_files e (\<lambda>f.
          case newAcquirePlan (fingerprint_digest e) (f_config f) (f_agents f) (acquire_Actor p) (acquire_TTL p)
                 (map_option normalizePersistedValues (acquire_Capabilities p)) of
            Inl err \<Rightarrow>
              if errors_Is err errInvalidTTL then refuse rpcInvalidParams (Errorf ''ttl %v'' [] [err])
              else refuse rpcInvalidParams err
          | Inr plan \<Rightarrow>
        loadStoreSafe e (\<lambda>preflight.
        with_snapshot e (GetAllTasks preflight) (\<lambda>resolver.
        updateStoreSafe e rpcErrorFromDomain
          (\<lambda>clk now. acquireFromStore clk now (plan_Actor plan) (acquire_RequestID p) (plan_Fingerprint plan)
             (plan_TTL plan) (plan_Capabilities plan) (plan_MaxLoad plan) resolver)
          (\<lambda>(acquired, replayed) _.
             if acquire_Receipt p
             then respond (RReceipt ((newTaskMutationReceipt ''acquire'' acquired)\<lparr>mr_Replayed := Some replayed\<rparr>))
             else respond (RAcquire
               \<lparr>ae_SchemaVersion = protocolVersion, ae_RequestID = acquire_RequestID p, ae_Replayed = replayed,
                ae_Task = newProtocolTask acquired\<rparr>)))))))))))"

definition handleHeartbeat :: "'b server_env \<Rightarrow> json option \<Rightarrow> 'b act" where
  "handleHeartbeat e params =
     with_params (decode_heartbeatParams params) (\<lambda>p.
       require (heartbeat_ID p \<noteq> 0) (invalid ''id is required'')
       (require (heartbeat_Actor p \<noteq> []) (invalid ''actor is required'')
       (validated (validateActor (heartbeat_Actor p) True)
       (ensureInitialized
       (with_ttl e (heartbeat_TTL p) (\<lambda>ttl.
        touch e (heartbeat_Actor p)
       (updateStoreSafe e rpcErrorFromDomain
          (\<lambda>clk now. renewLease clk (heartbeat_ID p) (heartbeat_Actor p) ttl now)
          (\<lambda>i s. with_task s i (\<lambda>renewed.
             if heartbeat_Receipt p then respond (RReceipt (newTaskMutationReceipt ''heartbeat'' renewed))
             else respond (RTaskEnvelope \<lparr>te_SchemaVersion = protocolVersion, te_Task = newProtocolTask renewed\<rparr>))))))))))"

definition handleRelease :: "'b server_env \<Rightarrow> json option \<Rightarrow> 'b act" where
  "handleRelease e params =
     with_params (decode_releaseParams params) (\<lambda>p.
       require (release_ID p \<noteq> 0) (invalid ''id is required'')
       (require (release_Actor p \<noteq> []) (invalid ''actor is required'')
       (validated (validateActor (release_Actor p) True)
       (validated (validatePersistedString ''error'' (release_Error p) maxErrorBytes)
       (ensureInitialized
       (updateStoreSafe e rpcErrorFromDomain
          (\<lambda>clk _. releaseTask clk (release_ID p) (release_Actor p) (release_Error p))
          (\<lambda>i s. with_task s i (\<lambda>released.
             if release_Receipt p then respond (RReceipt (newTaskMutationReceipt ''release'' released))
             else respond (RRelease (release_ID p) ''pending'')))))))))"

definition handleHandoff :: "'b server_env \<Rightarrow> json option \<Rightarrow> 'b act" where
  "handleHandoff e params =
     with_params (decode_handoffParams params) (\<lambda>p.
       require (handoff_ID p \<noteq> 0) (invalid ''id is required'')
       (validated (validateActor (handoff_Actor p) True)
       (require (handoff_Extra p \<noteq> []) (invalid ''extra must contain at least one structured handoff field'')
       (validated (validateExtra (handoff_Extra p))
       (ensureInitialized
       (updateStoreSafe e rpcErrorFromDomain
          (\<lambda>clk now. handoffTask clk (handoff_ID p) (handoff_Actor p) (handoff_Extra p) now)
          (\<lambda>i s. with_task s i (\<lambda>handedOff.
             if handoff_Receipt p then respond (RReceipt (newTaskMutationReceipt ''handoff'' handedOff))
             else respond (RRelease (handoff_ID p) ''pending'')))))))))"

section \<open>Blocking and logging\<close>

definition handleBlock :: "'b server_env \<Rightarrow> json option \<Rightarrow> 'b act" where
  "handleBlock e params =
     with_params (decode_blockParams params) (\<lambda>p.
       require (block_ID p \<noteq> 0) (invalid ''id is required'')
       (validated (validateRequiredPersistedString ''reason'' (block_Reason p) maxReasonBytes)
       (validated (validateActor (block_Actor p) False)
       (ensureInitialized
       (updateStoreSafe e rpcErrorFromDomain
          (\<lambda>clk _. blockTask clk (block_ID p) (block_Actor p) (block_Reason p))
          (\<lambda>i s. with_task s i (\<lambda>blocked.
             if block_Receipt p then respond (RReceipt (newTaskMutationReceipt ''block'' blocked))
             else respond (RBlock (block_ID p) ''blocked''))))))))"

definition handleUnblock :: "'b server_env \<Rightarrow> json option \<Rightarrow> 'b act" where
  "handleUnblock e params =
     with_params (decode_unblockParams params) (\<lambda>p.
       require (unblock_ID p \<noteq> 0) (invalid ''id is required'')
       (validated (validateActor (unblock_Actor p) False)
       (ensureInitialized
       (updateStoreSafe e rpcErrorFromDomain
          (\<lambda>clk _. unblockTask clk (unblock_ID p) (unblock_Actor p))
          (\<lambda>i s. with_task s i (\<lambda>unblocked.
             if unblock_Receipt p then respond (RReceipt (newTaskMutationReceipt ''unblock'' unblocked))
             else respond (RUnblock (unblock_ID p) ''pending'')))))))"

definition handleLog :: "'b server_env \<Rightarrow> json option \<Rightarrow> 'b act" where
  "handleLog e params =
     with_params (decode_logParams params) (\<lambda>p.
       require (log_ID p \<noteq> 0) (invalid ''id is required'')
       (validated (validateRequiredPersistedString ''message'' (log_Message p) maxLogMessageBytes)
       (validated (validateActor (log_Actor p) False)
       (ensureInitialized
       (updateStoreSafe e rpcErrorFromDomain
          (\<lambda>clk _. logTask clk (log_ID p) (log_Actor p) (log_Message p))
          (\<lambda>i s. with_task s i (\<lambda>logged.
             if log_Receipt p then respond (RReceipt (newTaskMutationReceipt ''log'' logged))
             else respond (RLog (log_ID p)))))))))"

section \<open>Decomposition\<close>

definition trim_subtask :: "decomposeSubtask \<Rightarrow> decomposeSubtask" where
  "trim_subtask sub =
     \<lparr>sub_Title = TrimSpace (sub_Title sub), sub_Capabilities = normalizePersistedValues (sub_Capabilities sub)\<rparr>"

text \<open>The loop over the subtasks; \<open>n\<close> is the number the messages give.\<close>

fun validate_subtasks :: "nat \<Rightarrow> decomposeSubtask list \<Rightarrow> goerr option" where
  "validate_subtasks n [] = None"
| "validate_subtasks n (sub # subs) =
     (case validateRequiredPersistedString ''subtask title'' (sub_Title sub) maxTaskTitleBytes of
        Some err \<Rightarrow> Some err
      | None \<Rightarrow>
          (case validateCapabilities (sub_Capabilities sub) of
             Some err \<Rightarrow> Some (Errorf ''subtask %d: %v'' [ArgInt (int n)] [err])
           | None \<Rightarrow> validate_subtasks (n + 1) subs))"

definition with_tasks :: "TaskStore \<Rightarrow> u64 list \<Rightarrow> (Task list \<Rightarrow> ('b, 'x) action) \<Rightarrow> ('b, 'x) action" where
  "with_tasks s ids k =
     (if list_all (\<lambda>i. map_of (Tasks s) i \<noteq> None) ids then k (map (\<lambda>i. the (map_of (Tasks s) i)) ids)
      else (\<lambda>_. None))"

definition decompose_receipt :: "protocolTask \<Rightarrow> protocolTask list \<Rightarrow> mutationReceipt" where
  "decompose_receipt parent subtasks =
     (newMutationReceipt ''decompose'' (map p_ID subtasks))
       \<lparr>mr_Task := mr_Task (newProtocolTaskMutationReceipt ''decompose'' parent),
        mr_DetailFollowUp := lineageDetailFollowUp (p_ID parent)\<rparr>"

definition handleDecompose :: "'b server_env \<Rightarrow> json option \<Rightarrow> 'b act" where
  "handleDecompose e params =
     with_params (decode_decomposeParams params) (\<lambda>p.
       let subtasks = map trim_subtask (decompose_Subtasks p)
       in require (decompose_ID p \<noteq> 0) (invalid ''id is required'')
         (require (decompose_Subtasks p \<noteq> []) (invalid ''at least one subtask is required'')
         (require (length (decompose_Subtasks p) \<le> maxMutationReceiptIDs)
            (refuse rpcInvalidParams
               (Errorf ''at most %d subtasks can be created in one decomposition'' [ArgInt (int maxMutationReceiptIDs)] []))
         (validated (validateActor (decompose_Actor p) False)
         (validated (validate_subtasks 1 subtasks)
         (ensureInitialized
         (updateStoreSafe e rpcErrorFromDomain
            (\<lambda>clk _. decomposeTask clk (decompose_ID p) (decompose_Actor p) subtasks)
            (\<lambda>(parentID, added) s.
               with_task s parentID (\<lambda>parentTask.
               with_tasks s added (\<lambda>addedTasks.
                 let parentProtocol = newProtocolTask parentTask;
                     subtaskProtocols = map newProtocolTask addedTasks
                 in if decompose_Receipt p then respond (RReceipt (decompose_receipt parentProtocol subtaskProtocols))
                    else respond (RDecompose \<lparr>dc_Parent = parentProtocol, dc_Subtasks = subtaskProtocols\<rparr>)))))))))))"

section \<open>Pruning, compaction and restoring\<close>

definition handlePrune :: "'b server_env \<Rightarrow> json option \<Rightarrow> 'b act" where
  "handlePrune e params =
     with_params (decode_pruneParams params) (\<lambda>p.
       ensureInitialized
       (updateStoreSafe e rpcErrorFromDomain
          (\<lambda>clk _ s. let (removed, s) = pruneCompletedTasks clk s in (Inr (map ID removed), s))
          (\<lambda>removedIDs _.
             if prune_Receipt p then respond (RReceipt (newMutationReceipt ''prune'' removedIDs))
             else respond (RPrune (length removedIDs)))))"

definition handleCompact :: "'b server_env \<Rightarrow> json option \<Rightarrow> 'b act" where
  "handleCompact e params =
     with_params (decode_compactParams params) (\<lambda>p.
       let before = (if compact_ReceiptsBefore p = [] then Some 0 else positive_duration (compact_ReceiptsBefore p));
           options = \<lparr>KeepEvents = compact_KeepEvents p,
                      ReceiptsBefore = (case before of Some d \<Rightarrow> d | None \<Rightarrow> 0), DryRun = compact_DryRun p\<rparr>
       in require (case compact_KeepEvents p of Some k \<Rightarrow> 0 \<le> k | None \<Rightarrow> True) (invalid ''keepEvents must be non-negative'')
         (require (before \<noteq> None) (invalid ''receiptsBefore must be a positive duration such as 2160h'')
         (require (\<not> (KeepEvents options = None \<and> ReceiptsBefore options = 0))
            (invalid ''keepEvents, receiptsBefore, or both are required'')
         (ensureInitialized
         (if DryRun options
          then load_at e (tasksBinPath e)
            (\<lambda>r. case r of
                   Inl err \<Rightarrow> fail (storeError ''loading store: %v'' err)
                 | Inr s \<Rightarrow> at_turn (\<lambda>n. respond (RCompact (fst (compactTaskStore s options False (project_clock e n))))))
          else updateStoreSafe e (storeError ''compacting store: %v'')
            (\<lambda>_ now s. let (r, s) = compactTaskStore s options True now in (Inr r, s))
            (\<lambda>r _. respond (RCompact r)))))))"

text \<open>The restored store is the snapshot as it was read, whatever the store it replaces holds.\<close>

definition handleRestore :: "'b server_env \<Rightarrow> json option \<Rightarrow> 'b act" where
  "handleRestore e params =
     with_params (decode_restoreParams params) (\<lambda>p.
       require (restore_Path p \<noteq> []) (invalid ''path is required'')
       (ensureInitialized
       (load_at e (restore_Path p)
          (\<lambda>r. case r of
                 Inl err \<Rightarrow> fail (storeError ''loading backup: %v'' err)
               | Inr backup \<Rightarrow>
                   updateStoreSafe e (storeError ''restoring from backup: %v'')
                     (\<lambda>_ _ existing. (Inr (length (Tasks backup)), backup))
                     (\<lambda>taskCount _. respond (RRestore taskCount))))))"

end
