(* ===== verification/Queries.thy ===== *)
theory Queries
  imports Handlers
begin

text \<open>
  The handlers of \<^verbatim>\<open>serve.go\<close> that read the store, and those that work on the documents of the
  project: configuration, linked projects and agent cards; backup and doctor.
\<close>

section \<open>Status\<close>

text \<open>The loop over the linked projects: every store is read with \<^verbatim>\<open>store.LoadCurrent\<close>.\<close>

fun load_linked ::
  "'b server_env \<Rightarrow> (string \<times> string) list \<Rightarrow> (projectStatus list \<Rightarrow> ('b, 'x) action) \<Rightarrow> ('b, 'x) action" where
  "load_linked e [] k = k []"
| "load_linked e ((alias', path) # links) k =
     load_current e (linked_path e path) (\<lambda>r.
       load_linked e links (\<lambda>projects. k
         ((case r of
             Inl err \<Rightarrow> \<lparr>ps_Alias = alias', ps_Path = path, ps_Available = False, ps_Error = Some err, ps_Tasks = []\<rparr>
           | Inr s \<Rightarrow> projectStatusFromStore alias' path s) # projects)))"

definition registered_links :: "repositoryRegistry \<Rightarrow> (string \<times> string) list" where
  "registered_links registry =
     map (\<lambda>alias'. (alias', case map_of (Repositories registry) alias' of Some p \<Rightarrow> p | None \<Rightarrow> []))
       (sort_Strings (map fst (Repositories registry)))"

definition handleStatusAll :: "'b server_env \<Rightarrow> 'b act" where
  "handleStatusAll e =
     loadStoreSafe e (\<lambda>s.
       let local_project = projectStatusFromStore ''local'' ''.'' s;
           answer = (\<lambda>projects. respond (RProjects \<lparr>pse_SchemaVersion = protocolVersion,
                                                     pse_Projects = local_project # projects\<rparr>))
       in read_files e (\<lambda>f.
            case loadRepositoryRegistry (f_repos f) of
              Inl _ \<Rightarrow> answer []
            | Inr registry \<Rightarrow> load_linked e (registered_links registry) answer))"

definition handleStatus :: "'b server_env \<Rightarrow> json option \<Rightarrow> 'b act" where
  "handleStatus e params =
     with_params (decode_statusParams params) (\<lambda>p.
       ensureInitialized
       (if status_All p then handleStatusAll e
        else loadStoreSafe e (\<lambda>s.
          respond (RTasks (tasks_envelope (status_tasks (status_Tag p) (status_Actor p) s))))))"

definition handleBootstrap :: "'b server_env \<Rightarrow> json option \<Rightarrow> 'b act" where
  "handleBootstrap e params =
     with_params (decode_bootstrapParams params) (\<lambda>(p, capabilitiesExplicit).
       case normalizeBootstrapParams p of
         Inl err \<Rightarrow> refuse rpcInvalidParams err
       | Inr normalized \<Rightarrow>
           ensureInitialized
           (loadStoreSafe e (\<lambda>s.
            read_files e (\<lambda>f.
              case loadAgentRegistry (f_agents f) of
                Inl err \<Rightarrow> fail (storeError ''loading agent registry: %v'' err)
              | Inr registry \<Rightarrow>
                  with_snapshot e (GetAllTasks s) (\<lambda>resolver.
                    case buildBootstrap s registry normalized capabilitiesExplicit resolver of
                      Inr result \<Rightarrow> respond (RBootstrap result)
                    | Inl err \<Rightarrow>
                        (case classifyCoordinationError err of
                           Some code \<Rightarrow> refuse (rpcCodeForErrorCode code) err
                         | None \<Rightarrow> refuse rpcInvalidParams err))))))"

section \<open>Reading tasks\<close>

definition handleCat :: "'b server_env \<Rightarrow> json option \<Rightarrow> 'b act" where
  "handleCat e params =
     with_params (decode_catParams params) (\<lambda>p.
       require (cat_ID p \<noteq> 0) (invalid ''id is required'')
       (ensureInitialized
       (loadStoreSafe e (\<lambda>s.
        found_task s (cat_ID p) (\<lambda>task. respond (RTask (newProtocolTask task)))))))"

definition handleNext :: "'b server_env \<Rightarrow> json option \<Rightarrow> 'b act" where
  "handleNext e params =
     with_params (decode_nextParams params) (\<lambda>p.
       ensureInitialized
       (loadStoreSafe e (\<lambda>s.
        with_resolver e (\<lambda>live.
          let filterCapabilities = (next_Capabilities p \<noteq> None);
              capabilities = normalizeCapabilities (Join '','' (or_empty (next_Capabilities p)))
          in respond (RNext (next_envelope s (Some live) capabilities filterCapabilities))))))"

definition handleMy :: "'b server_env \<Rightarrow> json option \<Rightarrow> 'b act" where
  "handleMy e params =
     with_params (decode_myParams params) (\<lambda>p.
       require (my_Actor p \<noteq> []) (invalid ''actor is required'')
       (ensureInitialized
       (loadStoreSafe e (\<lambda>s. respond (RTasks (tasks_envelope (my_tasks (my_Actor p) s)))))))"

definition handleSearch :: "'b server_env \<Rightarrow> json option \<Rightarrow> 'b act" where
  "handleSearch e params =
     with_params (decode_searchParams params) (\<lambda>p.
       require (search_Query p \<noteq> []) (invalid ''query is required'')
       (ensureInitialized
       (loadStoreSafe e (\<lambda>s. respond (RTasks (tasks_envelope (search_tasks (ToLower e) (search_Query p) s)))))))"

definition handleDepends :: "'b server_env \<Rightarrow> json option \<Rightarrow> 'b act" where
  "handleDepends e params =
     with_params (decode_dependsParams params) (\<lambda>p.
       require (depends_ID p \<noteq> 0) (invalid ''id is required'')
       (ensureInitialized
       (loadStoreSafe e (\<lambda>s.
        found_task s (depends_ID p) (\<lambda>task.
          respond (RDepends \<lparr>dr_TaskID = depends_ID p, dr_TaskTitle = Title task,
                             dr_Depends = map (depends_entry s) (Depends task)\<rparr>))))))"

definition handleDependents :: "'b server_env \<Rightarrow> json option \<Rightarrow> 'b act" where
  "handleDependents e params =
     with_params (decode_dependentsParams params) (\<lambda>p.
       require (dependents_ID p \<noteq> 0) (invalid ''id is required'')
       (ensureInitialized
       (loadStoreSafe e (\<lambda>s.
        found_task s (dependents_ID p) (\<lambda>task.
          respond (RDependents \<lparr>dnr_TaskID = dependents_ID p, dnr_TaskTitle = Title task,
             dnr_Dependents = map (\<lambda>t. \<lparr>dn_ID = ID t, dn_Title = Title t\<rparr>)
                                (dependents_of s (dependents_ID p))\<rparr>))))))"

definition handleLineage :: "'b server_env \<Rightarrow> json option \<Rightarrow> 'b act" where
  "handleLineage e params =
     with_params (decode_lineageParams params) (\<lambda>p.
       require (lineage_ID p \<noteq> 0) (invalid ''id is required'')
       (ensureInitialized
       (loadStoreSafe e (\<lambda>s.
        found_task s (lineage_ID p) (\<lambda>task. respond (RLineage (lineage_envelope s task)))))))"

text \<open>The limit is checked after the store was read.\<close>

definition handleEvents :: "'b server_env \<Rightarrow> json option \<Rightarrow> 'b act" where
  "handleEvents e params =
     with_params (decode_eventsParams params) (\<lambda>p.
       ensureInitialized
       (loadStoreSafe e (\<lambda>s.
          if ep_Limit p \<noteq> None \<and> \<not> ep_Page p then invalid ''limit requires page=true''
          else if ep_Page p
          then (case eventPageLimit (ep_Limit p) of
                  Inl err \<Rightarrow> refuse rpcInvalidParams err
                | Inr limit \<Rightarrow> respond (REventPage (buildEventPage s (ep_Since p) (nat limit))))
          else respond (REvents (EventsSince s (ep_Since p))))))"

definition handleWhatIf :: "'b server_env \<Rightarrow> json option \<Rightarrow> 'b act" where
  "handleWhatIf e params =
     with_params (decode_whatIfParams params) (\<lambda>p.
       require (whatIf_ID p \<noteq> 0) (invalid ''id is required'')
       (ensureInitialized
       (loadStoreSafe e (\<lambda>s.
        found_task s (whatIf_ID p) (\<lambda>task.
          let i = whatIf_ID p;
              if_blocked = (if whatIf_Scenario p = [] \<or> whatIf_Scenario p = ''block''
                            then Some (length (dependents_of s i)) else None);
              answer = (\<lambda>if_done. respond (RWhatIf \<lparr>wr_TaskID = i, wr_Title = Title task, wr_IfDone = if_done,
                                                    wr_IfBlocked = if_blocked\<rparr>))
          in if whatIf_Scenario p = [] \<or> whatIf_Scenario p = ''done''
             then with_resolver e (\<lambda>live. answer (Some (whatif_done s i (Some live))))
             else answer None)))))"

definition handleGraph :: "'b server_env \<Rightarrow> json option \<Rightarrow> 'b act" where
  "handleGraph e params =
     with_params (decode_graphParams params) (\<lambda>_.
       ensureInitialized
       (loadStoreSafe e (\<lambda>s. respond (RGraph (graph_result s)))))"

definition handleExport :: "'b server_env \<Rightarrow> json option \<Rightarrow> 'b act" where
  "handleExport e params =
     with_params (decode_exportParams params) (\<lambda>_.
       ensureInitialized
       (loadStoreSafe e (\<lambda>s. respond (RTasks (tasks_envelope (sortedTasks (Tasks s)))))))"

definition handleCaps :: "'b server_env \<Rightarrow> json option \<Rightarrow> 'b act" where
  "handleCaps e params =
     with_params (decode_capsParams params) (\<lambda>p.
       ensureInitialized
       (loadStoreSafe e (\<lambda>s. respond (RCaps (caps_result (caps_Actor p) (caps_All p) s)))))"

section \<open>Configuration\<close>

definition handleConfigGet :: "'b server_env \<Rightarrow> json option \<Rightarrow> 'b act" where
  "handleConfigGet e params =
     with_params (decode_configGetParams params) (\<lambda>p.
       ensureInitialized
       (read_files e (\<lambda>f.
          case loadConfig (f_config f) of
            Inl err \<Rightarrow> fail (storeError ''loading config: %v'' err)
          | Inr cfg \<Rightarrow>
              let key = configGet_Key p
              in if key = [] then respond (RConfig cfg)
                 else if key = ''default_ttl'' then respond (RConfigValue key (DefaultTTL cfg))
                 else if key = ''default_priority'' then respond (RConfigValue key (Sprintf2f e (DefaultPriority cfg)))
                 else if key = ''default_caps'' then respond (RConfigValue key (DefaultCapCaps cfg))
                 else refuse rpcInvalidParams (Errorf ''unknown config key: %s'' [ArgStr key] []))))"

text \<open>The check of a setting: the change of the configuration and the value of the response.\<close>

definition config_setting ::
  "'b server_env \<Rightarrow> string \<Rightarrow> string \<Rightarrow> goerr + (ProjectConfig \<Rightarrow> ProjectConfig) \<times> string" where
  "config_setting e key val =
     (if key = ''default_ttl'' then
        (case positive_duration val of
           None \<Rightarrow> Inl (msg ''default_ttl must be a positive duration'')
         | Some _ \<Rightarrow> Inr (\<lambda>cfg. cfg\<lparr>DefaultTTL := val\<rparr>, val))
      else if key = ''default_priority'' then
        (case ParseFloat32 e val of
           None \<Rightarrow> Inl (msg ''default_priority must be between 0 and 1'')
         | Some v \<Rightarrow>
             if \<not> validPriority v then Inl (msg ''default_priority must be between 0 and 1'')
             else Inr (\<lambda>cfg. cfg\<lparr>DefaultPriority := v\<rparr>, val))
      else if key = ''default_caps'' then
        (let capabilities = normalizeCapabilities val
         in case validateCapabilities capabilities of
              Some err \<Rightarrow> Inl err
            | None \<Rightarrow> Inr (\<lambda>cfg. cfg\<lparr>DefaultCapCaps := Join '','' capabilities\<rparr>, Join '','' capabilities))
      else Inl (Errorf ''unknown config key %q'' [ArgStr key] []))"

definition handleConfigSet :: "'b server_env \<Rightarrow> json option \<Rightarrow> 'b act" where
  "handleConfigSet e params =
     with_params (decode_configSetParams params) (\<lambda>p.
       require (configSet_Key p \<noteq> []) (invalid ''key is required'')
       (require (configSet_Value p \<noteq> []) (invalid ''value is required'')
       (ensureInitialized
       (case config_setting e (configSet_Key p) (configSet_Value p) of
          Inl err \<Rightarrow> refuse rpcInvalidParams err
        | Inr (change, resultValue) \<Rightarrow>
            update_config e (\<lambda>cfg. Inr (change cfg))
              (\<lambda>r. case r of
                     Some err \<Rightarrow> refuse rpcStoreCorrupted err
                   | None \<Rightarrow> respond (RConfigSet (configSet_Key p) resultValue))))))"

section \<open>Linked projects\<close>

definition handleLink :: "'b server_env \<Rightarrow> json option \<Rightarrow> 'b act" where
  "handleLink e params =
     with_params (decode_linkParams params) (\<lambda>p.
       require (link_Alias p \<noteq> [] \<and> link_Path p \<noteq> []) (invalid ''alias and path are required'')
       (require (link_Alias p \<noteq> ''local'')
          (invalid (''alias '' @ [CHR 0x27] @ ''local'' @ [CHR 0x27] @ '' is reserved''))
       (validated (case ParseTaskURI (''todo://'' @ link_Alias p @ ''/1'') of Inl err \<Rightarrow> Some err | Inr _ \<Rightarrow> None)
       (case filepath_Abs e (link_Path p) of
          Inl err \<Rightarrow> refuse rpcInvalidParams (Errorf ''resolving path: %v'' [] [err])
        | Inr target_dir \<Rightarrow>
            read_files e (\<lambda>f.
            require (file_exists f (filepath_Join [target_dir, ''.terminal-todo'', ''tasks.bin'']))
              (refuse rpcNotInitialized (Errorf ''%s is not an initialized todo project'' [ArgStr target_dir] []))
            (ensureInitialized (at_turn (\<lambda>n.
            require (\<not> same_file e n (projectRoot e) target_dir) (invalid ''cannot link a project to itself'')
            (let storedPath = (case filepath_Rel e (projectRoot e) target_dir of Some r \<Rightarrow> r | None \<Rightarrow> target_dir)
             in update_repos e (\<lambda>registry. Inr (registry\<lparr>Repositories :=
                                  AList.update (link_Alias p) storedPath (Repositories registry)\<rparr>))
                  (\<lambda>_ _ r. case r of
                     Some err \<Rightarrow> fail (storeError ''saving registry: %v'' err)
                   | None \<Rightarrow> respond (RLink (link_Alias p) storedPath)))))))))))"

text \<open>\<^verbatim>\<open>found\<close> is set when the callback ran and knew the alias.\<close>

definition unlink_found :: "string \<Rightarrow> json_env \<Rightarrow> repositoryRegistry json_file \<Rightarrow> bool" where
  "unlink_found alias' je f \<longleftrightarrow>
     first_some [j_Open_err je, j_Acquire_err je] = None
     \<and> (case loadRepositoryRegistry f of
          Inl _ \<Rightarrow> False
        | Inr registry \<Rightarrow> map_of (Repositories registry) alias' \<noteq> None)"

definition handleUnlink :: "'b server_env \<Rightarrow> json option \<Rightarrow> 'b act" where
  "handleUnlink e params =
     with_params (decode_unlinkParams params) (\<lambda>p.
       require (unlink_Alias p \<noteq> []) (invalid ''alias is required'')
       (ensureInitialized
       (update_repos e
          (\<lambda>registry.
             if map_of (Repositories registry) (unlink_Alias p) = None
             then Inl (Errorf ''alias %s not found'' [ArgStr (unlink_Alias p)] [])
             else Inr (registry\<lparr>Repositories := AList.delete (unlink_Alias p) (Repositories registry)\<rparr>))
          (\<lambda>je f r. case r of
             Some err \<Rightarrow> refuse (if unlink_found (unlink_Alias p) je f then rpcStoreCorrupted else rpcInvalidParams) err
           | None \<Rightarrow> respond (RUnlink (unlink_Alias p))))))"

section \<open>Backup and doctor\<close>

definition int_string :: "int \<Rightarrow> string" where
  "int_string n = (if n < 0 then CHR ''-'' # decimal (nat (- n)) else decimal (nat n))"

definition handleBackup :: "'b server_env \<Rightarrow> json option \<Rightarrow> 'b act" where
  "handleBackup e params =
     with_params (decode_backupParams params) (\<lambda>p.
       ensureInitialized (at_turn (\<lambda>n.
         let output = (if backup_Output p = []
                       then filepath_Join [projectRoot e, ''.terminal-todo'',
                              ''backup-'' @ int_string (project_clock e n div 1000000) @ ''.bin'']
                       else backup_Output p)
         in loadStoreSafe e (\<lambda>s.
            read_files e (\<lambda>_. at_turn (\<lambda>n.
              case MkdirAll_err (io e n) of
                Some err \<Rightarrow> fail (storeError ''creating backup directory: %v'' err)
              | None \<Rightarrow>
                  save_at e output s
                    (\<lambda>r. case r of
                           Some err \<Rightarrow> fail (storeError ''saving backup: %v'' err)
                         | None \<Rightarrow> respond (RBackup output (length (Tasks s))))))))))"

definition orphaned_deps :: "TaskStore \<Rightarrow> nat" where
  "orphaned_deps s =
     sum_list (map (\<lambda>t. length (filter (\<lambda>d. case ParseLocalID d of
                                             Some depID \<Rightarrow> map_of (Tasks s) depID = None
                                           | None \<Rightarrow> False) (Depends t))) (GetAllTasks s))"

text \<open>The parameter \<^verbatim>\<open>fix\<close> is decoded and not used.\<close>

definition handleDoctor :: "'b server_env \<Rightarrow> json option \<Rightarrow> 'b act" where
  "handleDoctor e params =
     with_params (decode_doctorParams params) (\<lambda>_.
       ensureInitialized
       (read_files e (\<lambda>f. at_turn (\<lambda>n.
          let ttDir = filepath_Join [projectRoot e, ''.terminal-todo''];
              tasksBin = filepath_Join [ttDir, ''tasks.bin''];
              size = (\<lambda>there path. if there then Some (file_size e n path) else None)
          in load_at e tasksBin
               (\<lambda>r. respond (RDoctor
                  \<lparr>doc_TasksBin = size (file_exists f tasksBin) tasksBin,
                   doc_Repositories = size (f_repos f \<noteq> JSONAbsent) (filepath_Join [ttDir, ''repositories.json'']),
                   doc_Config = size (f_config f \<noteq> JSONAbsent) (filepath_Join [ttDir, ''config.json'']),
                   doc_StaleLocks = False,
                   doc_Store = (case r of Inl err \<Rightarrow> Inl err | Inr s \<Rightarrow> Inr (length (Tasks s), orphaned_deps s))\<rparr>))))))"

section \<open>Agent cards\<close>

definition edit_card ::
  "string \<Rightarrow> string list option \<Rightarrow> string option \<Rightarrow> int option \<Rightarrow> string \<Rightarrow> AgentRegistry \<Rightarrow> AgentRegistry" where
  "edit_card actor caps desc maxLoad now registry =
     (let c = (case map_of (Agents registry) actor of Some c \<Rightarrow> c | None \<Rightarrow> new_card actor now);
          c = (case caps of Some cs \<Rightarrow> c\<lparr>card_Capabilities := cs\<rparr> | None \<Rightarrow> c);
          c = (case desc of Some d \<Rightarrow> c\<lparr>card_Description := d\<rparr> | None \<Rightarrow> c);
          c = (case maxLoad of Some m \<Rightarrow> c\<lparr>card_MaxLoad := m\<rparr> | None \<Rightarrow> c)
      in registry\<lparr>Agents := AList.update actor (c\<lparr>card_LastSeen := now\<rparr>) (Agents registry)\<rparr>)"

text \<open>The first half of \<^verbatim>\<open>handleAgentCard\<close>: the changes, when there are any.\<close>

definition agent_card_changes :: "'b server_env \<Rightarrow> agentCardParams \<Rightarrow> 'b act \<Rightarrow> 'b act" where
  "agent_card_changes e p k =
     (if agentCard_Caps p \<noteq> None \<or> agentCard_Desc p \<noteq> None \<or> agentCard_MaxLoad p \<noteq> None then
        (let caps = map_option normalizePersistedValues (agentCard_Caps p)
         in validated (validateActor (agentCard_Actor p) True)
           (validated (case caps of Some cs \<Rightarrow> validateCapabilities cs | None \<Rightarrow> None)
           (validated (case agentCard_Desc p of
                         Some d \<Rightarrow> validatePersistedString ''description'' d maxAgentDescriptionBytes
                       | None \<Rightarrow> None)
           (update_agents e
              (\<lambda>now registry. Inr (edit_card (agentCard_Actor p) caps (agentCard_Desc p) (agentCard_MaxLoad p)
                                     (nowTimestamp now) registry))
              (\<lambda>r. case r of
                     Some err \<Rightarrow> fail (storeError ''updating agent registry: %v'' err)
                   | None \<Rightarrow> k)))))
      else k)"

definition handleAgentCard :: "'b server_env \<Rightarrow> json option \<Rightarrow> 'b act" where
  "handleAgentCard e params =
     with_params (decode_agentCardParams params) (\<lambda>p.
       require (TrimSpace (agentCard_Actor p) \<noteq> []) (invalid ''actor is required'')
       (require (case agentCard_MaxLoad p of Some m \<Rightarrow> 0 \<le> m | None \<Rightarrow> True)
          (invalid ''maxLoad must be a non-negative integer'')
       (ensureInitialized
       (agent_card_changes e p
       (read_files e (\<lambda>f.
          case loadAgentRegistry (f_agents f) of
            Inl err \<Rightarrow> fail (storeError ''loading agent registry: %v'' err)
          | Inr registry \<Rightarrow>
              (case map_of (Agents registry) (agentCard_Actor p) of
                 None \<Rightarrow> refuse rpcTaskNotFound (Errorf ''agent %s not found in registry'' [ArgStr (agentCard_Actor p)] [])
               | Some c \<Rightarrow>
                   loadStoreSafe e (\<lambda>s. respond (RAgentCard
                     \<lparr>ac_Actor = card_Name c, ac_Caps = card_Capabilities c, ac_Desc = card_Description c,
                      ac_MaxLoad = card_MaxLoad c, ac_CurrentLoad = computeAgentLoad s (agentCard_Actor p),
                      ac_CreatedAt = card_CreatedAt c, ac_LastSeen = card_LastSeen c, ac_Registered = True\<rparr>)))))))))"

end
