(* ===== verification/CliArgs.thy ===== *)
theory CliArgs
  imports Queries
begin

text \<open>
  The command line of \<^verbatim>\<open>todo\<close> (cli_registry.go, the scanning of todo.go and of the commands): the
  registry of commands and flags, the validation of the arguments, and the functions that read IDs,
  titles, options and flags from them.
\<close>

section \<open>Commands and flags\<close>

datatype flagKind = flagBoolean | flagValue | flagRepeatable

definition takesValue :: "flagKind \<Rightarrow> bool" where
  "takesValue k \<longleftrightarrow> k = flagValue \<or> k = flagRepeatable"

record flagSpec =
  flag_Name :: string
  flag_Kind :: flagKind
  flag_Help :: string

record cli_command =
  cmd_Name :: string
  cmd_Aliases :: "string list"
  cmd_Usage :: string
  cmd_Summary :: string
  cmd_Group :: string
  cmd_AllowsUninitializedProject :: bool
  cmd_Hidden :: bool
  cmd_Flags :: "flagSpec list"

definition valueFlags :: "cli_command \<Rightarrow> string list" where
  "valueFlags c = map flag_Name (filter (takesValue \<circ> flag_Kind) (cmd_Flags c))"

definition accepts :: "cli_command \<Rightarrow> string \<Rightarrow> flagSpec option" where
  "accepts c name = find (\<lambda>f. flag_Name f = name) (cmd_Flags c)"

definition helpGroups :: "string list" where
  "helpGroups = [''Task Management'', ''Agent Operations'', ''DAG & Dependency'', ''Reactivity'', ''Integrations'', ''Project'']"

definition flag :: "string \<Rightarrow> flagKind \<Rightarrow> string \<Rightarrow> flagSpec" where
  "flag name kind help = \<lparr>flag_Name = name, flag_Kind = kind, flag_Help = help\<rparr>"

definition jsonFlag :: flagSpec where
  "jsonFlag = flag ''--json'' flagBoolean ''Emit a versioned JSON envelope''"

definition receiptFlag :: flagSpec where
  "receiptFlag = flag ''--receipt'' flagBoolean ''Emit a compact mutation receipt''"

definition actorFlag :: flagSpec where
  "actorFlag = flag ''--as'' flagValue ''Actor identity to attribute the operation to''"

definition ttlFlag :: flagSpec where
  "ttlFlag = flag ''--ttl'' flagValue ''Lease duration, such as 30m''"

definition mutationFlags :: "flagSpec list \<Rightarrow> flagSpec list" where
  "mutationFlags extra = extra @ [jsonFlag, receiptFlag]"

section \<open>The registry\<close>

definition command_spec ::
  "string \<Rightarrow> string list \<Rightarrow> string \<Rightarrow> string \<Rightarrow> string \<Rightarrow> bool \<Rightarrow> flagSpec list \<Rightarrow> cli_command" where
  "command_spec name aliases usage summary grp uninitialized flags =
     \<lparr>cmd_Name = name, cmd_Aliases = aliases, cmd_Usage = usage, cmd_Summary = summary, cmd_Group = grp,
      cmd_AllowsUninitializedProject = uninitialized, cmd_Hidden = False, cmd_Flags = flags\<rparr>"

definition task_commands :: "cli_command list" where
  "task_commands =
     [command_spec ''init'' [] ''init'' ''Initialize .terminal-todo/ in the current directory''
        ''Task Management'' True [],
      command_spec ''add'' [] (''add '' @ [CHR 0x22] @ ''<title>'' @ [CHR 0x22]) ''Add a new task''
        ''Task Management'' False (mutationFlags [flag ''--after'' flagRepeatable ''Depend on a task ID or todo:// reference'',
         flag ''--priority'' flagValue ''Priority between 0 and 1'',
         flag ''--caps'' flagValue ''Comma-separated required capabilities'',
         flag ''--tag'' flagRepeatable ''Tag to attach'']),
      command_spec ''done'' [] ''done <id>...'' ''Mark work complete''
        ''Task Management'' False (mutationFlags [actorFlag]),
      command_spec ''status'' [] ''status'' ''Show tasks''
        ''Task Management'' False [flag ''--tag'' flagValue ''Filter by tag'',
         actorFlag,
         jsonFlag,
         flag ''--all'' flagBoolean ''Include completed tasks''],
      command_spec ''cat'' [] ''cat <id>'' ''Show task detail''
        ''Task Management'' False [jsonFlag],
      command_spec ''rm'' [] ''rm <id>...'' ''Remove a task''
        ''Task Management'' False (mutationFlags []),
      command_spec ''update'' [] ''update <id>'' ''Update task metadata''
        ''Task Management'' False (mutationFlags [flag ''--title'' flagValue ''New title'',
         flag ''--priority'' flagValue ''New priority between 0 and 1'',
         flag ''--caps'' flagValue ''Replacement comma-separated capabilities'',
         flag ''--set'' flagRepeatable ''Structured metadata as key=value'',
         actorFlag,
         flag ''--add-dep'' flagRepeatable ''Add a dependency reference'',
         flag ''--remove-dep'' flagRepeatable ''Remove a dependency reference'']),
      command_spec ''log'' [] ''log <id>'' (''Append to a task'' @ [CHR 0x27] @ ''s audit trail'')
        ''Task Management'' False (mutationFlags [flag ''--msg'' flagValue ''Message to record'',
         actorFlag]),
      command_spec ''next'' [] ''next'' ''Show tasks ready to work''
        ''Task Management'' False [flag ''--capabilities'' flagValue ''Filter by comma-separated capabilities'',
         jsonFlag,
         flag ''--ready'' flagBoolean ''Show only ready tasks''],
      command_spec ''search'' [] ''search <query>'' ''Search tasks by title or tag''
        ''Task Management'' False [jsonFlag]]"

definition agent_commands :: "cli_command list" where
  "agent_commands =
     [command_spec ''claim'' [] ''claim <id> --as <actor>'' ''Secure an exclusive execution lease on a specific task''
        ''Agent Operations'' False (mutationFlags [actorFlag,
         ttlFlag]),
      command_spec ''acquire'' [] ''acquire --as <actor> --request-id <id>'' ''Atomically select and claim the next compatible ready task''
        ''Agent Operations'' False (mutationFlags [actorFlag,
         flag ''--request-id'' flagValue ''Idempotency key; retry with the same value'',
         ttlFlag,
         flag ''--capabilities'' flagValue ''Override the registered capability set'',
         flag ''--wait'' flagValue ''Poll for work up to this duration'']),
      command_spec ''heartbeat'' [] ''heartbeat <id> --as <actor>'' ''Renew an active owned lease''
        ''Agent Operations'' False (mutationFlags [actorFlag,
         ttlFlag]),
      command_spec ''handoff'' [] ''handoff <id> --as <actor>'' ''Persist successor context and yield the lease atomically''
        ''Agent Operations'' False (mutationFlags [actorFlag,
         flag ''--set'' flagRepeatable ''Handoff context as key=value'']),
      command_spec ''release'' [] ''release <id> --as <actor>'' ''Yield an owned lease back to the pool''
        ''Agent Operations'' False (mutationFlags [actorFlag,
         flag ''--error'' flagValue ''Failure to record for the next worker'']),
      command_spec ''my'' [] ''my --as <actor>'' ''Show tasks currently leased by an actor''
        ''Agent Operations'' False [actorFlag,
         jsonFlag],
      command_spec ''bootstrap'' [] ''bootstrap --as <actor>'' ''Get a bounded worker session brief''
        ''Agent Operations'' False [actorFlag,
         flag ''--capabilities'' flagValue ''Capabilities to match ready work against'',
         flag ''--objective'' flagValue ''Task ID to treat as the objective'',
         flag ''--limit'' flagValue ''Maximum tasks per section'',
         flag ''--events'' flagValue ''Maximum recent events'',
         jsonFlag],
      command_spec ''agent-card'' [] ''agent-card [--as <actor>]'' ''Register or query agent identity''
        ''Agent Operations'' False [actorFlag,
         flag ''--caps'' flagValue ''Comma-separated capabilities to register'',
         flag ''--desc'' flagValue ''Human-readable description'',
         flag ''--max-load'' flagValue ''Maximum concurrent leases'',
         jsonFlag],
      command_spec ''caps'' [] ''caps'' ''Show capability demand across tasks''
        ''Agent Operations'' False [actorFlag,
         jsonFlag,
         flag ''--all'' flagBoolean ''Include capabilities with no demand''],
      command_spec ''block'' [] ''block <id> --reason <text>'' ''Record a blocker and release ownership''
        ''Agent Operations'' False (mutationFlags [flag ''--reason'' flagValue ''Why the task is blocked'',
         actorFlag]),
      command_spec ''unblock'' [] ''unblock <id>'' ''Return blocked work to the pending pool''
        ''Agent Operations'' False (mutationFlags [actorFlag])]"

definition dag_commands :: "cli_command list" where
  "dag_commands =
     [command_spec ''depends'' [] ''depends <id>'' ''Show what this task depends on''
        ''DAG & Dependency'' False [jsonFlag],
      command_spec ''dependents'' [] ''dependents <id>'' ''Show tasks that depend on this one''
        ''DAG & Dependency'' False [jsonFlag],
      command_spec ''decompose'' [] ''decompose <id> --into <json>'' ''Split a task into sub-tasks''
        ''DAG & Dependency'' False (mutationFlags [flag ''--into'' flagValue (''Subtask document: {'' @ [CHR 0x22] @ ''subtasks'' @ [CHR 0x22] @ '':[{'' @ [CHR 0x22] @ ''title'' @ [CHR 0x22] @ '':'' @ [CHR 0x22, CHR 0xE2, CHR 0x80, CHR 0xA6, CHR 0x22] @ '','' @ [CHR 0x22] @ ''caps'' @ [CHR 0x22] @ '':['' @ [CHR 0x22] @ ''go'' @ [CHR 0x22] @ '']}]}''),
         actorFlag]),
      command_spec ''lineage'' [] ''lineage <id>'' ''Show the recursive decomposition tree''
        ''DAG & Dependency'' False [jsonFlag],
      command_spec ''what-if'' [''whatif''] ''what-if <id>'' ''Simulate completing, claiming, or blocking a task''
        ''DAG & Dependency'' False [flag ''--done'' flagBoolean ''Simulate completion'',
         flag ''--claim'' flagBoolean ''Simulate claiming'',
         flag ''--block'' flagBoolean ''Simulate blocking'',
         jsonFlag],
      command_spec ''graph'' [] ''graph'' ''Visualize the DAG topology''
        ''DAG & Dependency'' False [flag ''--dot'' flagBoolean ''Emit Graphviz DOT'',
         jsonFlag]]"

definition reactivity_commands :: "cli_command list" where
  "reactivity_commands =
     [command_spec ''watch'' [] ''watch [<id>]'' ''Live-refresh the task dashboard''
        ''Reactivity'' False [flag ''--poll'' flagValue ''Refresh interval''],
      command_spec ''events'' [] ''events [<since>]'' ''Show the event log''
        ''Reactivity'' False [flag ''--limit'' flagValue ''Maximum events per page'',
         jsonFlag]]"

definition integration_commands :: "cli_command list" where
  "integration_commands =
     [command_spec ''mcp'' [] ''mcp --stdio'' ''Start the Model Context Protocol server''
        ''Integrations'' True [flag ''--stdio'' flagBoolean ''Serve over stdio''],
      command_spec ''serve'' [] ''serve --stdio'' ''Start the native JSON-RPC server''
        ''Integrations'' True [flag ''--stdio'' flagBoolean ''Serve over stdio''],
      command_spec ''integrate'' [] ''integrate [target]'' ''Install Codex or Claude Code project integration''
        ''Integrations'' True [flag ''--command'' flagValue ''Path to the todo binary to register'',
         flag ''--force'' flagBoolean ''Overwrite existing configuration'',
         flag ''--check'' flagBoolean ''Report integration status without writing'',
         flag ''--live'' flagBoolean ''Perform a live MCP handshake check''],
      command_spec ''conformance'' [] ''conformance'' ''Probe real-agent hosts; --run performs the opt-in suite''
        ''Integrations'' True [flag ''--host'' flagValue ''Host to evaluate'',
         flag ''--timeout'' flagValue ''Per-scenario timeout'',
         flag ''--model'' flagValue ''Explicit model ID'',
         flag ''--suite'' flagValue ''Suite version'',
         flag ''--run'' flagBoolean ''Execute the suite; may consume paid usage'',
         jsonFlag,
         flag ''--include-events'' flagBoolean ''Include raw host events'',
         flag ''--keep-workspace'' flagBoolean ''Retain disposable workspaces'']]"

definition project_commands :: "cli_command list" where
  "project_commands =
     [command_spec ''config'' [] ''config [key=value]'' ''View or set project configuration''
        ''Project'' False [],
      command_spec ''export'' [] ''export'' ''Export tasks''
        ''Project'' False [flag ''--markdown'' flagBoolean ''Emit Markdown''],
      command_spec ''prune'' [] ''prune'' ''Remove all completed tasks''
        ''Project'' False (mutationFlags []),
      command_spec ''backup'' [] ''backup'' ''Snapshot the task store''
        ''Project'' False [flag ''--output'' flagValue ''Destination path''],
      command_spec ''restore'' [] ''restore <path>'' ''Restore tasks from a backup''
        ''Project'' False [],
      command_spec ''compact'' [] ''compact'' ''Apply the audit and receipt retention policy''
        ''Project'' False [flag ''--keep-events'' flagValue ''Events to retain'',
         flag ''--receipts-before'' flagValue ''Drop receipts older than this'',
         flag ''--dry-run'' flagBoolean ''Report without writing'',
         jsonFlag],
      command_spec ''doctor'' [] ''doctor'' ''Diagnose project health''
        ''Project'' False [flag ''--fix'' flagBoolean ''Repair what can be repaired''],
      command_spec ''link'' [] ''link <alias> <path>'' ''Register a linked repository''
        ''Project'' False [],
      command_spec ''unlink'' [] ''unlink <alias>'' ''Remove a linked repository alias''
        ''Project'' False []]"

definition commandRegistry :: "cli_command list" where
  "commandRegistry =
     task_commands @ agent_commands @ dag_commands @ reactivity_commands @ integration_commands @ project_commands"

text \<open>The index over names and aliases; a later entry replaces an earlier one.\<close>

definition registryIndex :: "(string \<times> cli_command) list" where
  "registryIndex = rev (concat (map (\<lambda>c. map (\<lambda>name. (name, c)) (cmd_Name c # cmd_Aliases c)) commandRegistry))"

definition lookupCommand :: "string \<Rightarrow> cli_command option" where
  "lookupCommand name = map_of registryIndex name"

section \<open>Validating and scanning arguments\<close>

fun validateArgs :: "cli_command \<Rightarrow> string list \<Rightarrow> goerr option" where
  "validateArgs c [] = None"
| "validateArgs c (arg # rest) =
     (if \<not> HasPrefix arg ''-'' then validateArgs c rest
      else
        (case accepts c arg of
           None \<Rightarrow> Some (Errorf ''unknown option %s for %s'' [ArgStr arg, ArgStr (cmd_Name c)] [])
         | Some f \<Rightarrow>
             if \<not> takesValue (flag_Kind f) then validateArgs c rest
             else
               (case rest of
                  [] \<Rightarrow> Some (Errorf ''%s requires a value'' [ArgStr arg] [])
                | val # rest' \<Rightarrow>
                    if HasPrefix val ''-'' then Some (Errorf ''%s requires a value'' [ArgStr arg] [])
                    else validateArgs c rest')))"

text \<open>The loops that skip the value of a value flag.\<close>

fun parse_ids :: "string list \<Rightarrow> u64 list \<Rightarrow> string list \<Rightarrow> u64 list" where
  "parse_ids values seen [] = []"
| "parse_ids values seen (arg # rest) =
     (if arg \<in> set values then parse_ids values seen (tl rest)
      else if HasPrefix arg ''-'' then parse_ids values seen rest
      else
        (case ParseUint arg of
           Some i \<Rightarrow>
             if i > 0
             then (if i \<in> set seen then parse_ids values seen rest else i # parse_ids values (i # seen) rest)
             else parse_ids values seen rest
         | None \<Rightarrow> parse_ids values seen rest))"

definition parseIDsWithValueFlags :: "string list \<Rightarrow> string list \<Rightarrow> u64 list" where
  "parseIDsWithValueFlags args values = parse_ids values [] args"

definition parseIDs :: "cli_command \<Rightarrow> string list \<Rightarrow> u64 list" where
  "parseIDs c args = parseIDsWithValueFlags args (valueFlags c)"

fun title_parts :: "string list \<Rightarrow> string list \<Rightarrow> string list" where
  "title_parts values [] = []"
| "title_parts values (arg # rest) =
     (if arg \<in> set values then title_parts values (tl rest)
      else if HasPrefix arg ''--'' then title_parts values rest
      else arg # title_parts values rest)"

definition extractTitle :: "cli_command \<Rightarrow> string list \<Rightarrow> string" where
  "extractTitle c args = Join '' '' (title_parts (valueFlags c) args)"

text \<open>The loops over \<^verbatim>\<open>args[i]\<close> and \<^verbatim>\<open>args[i+1]\<close>.\<close>

definition hasFlag :: "string list \<Rightarrow> string \<Rightarrow> bool" where
  "hasFlag args name \<longleftrightarrow> name \<in> set args"

definition parseRepeatedValues :: "string list \<Rightarrow> string \<Rightarrow> string list" where
  "parseRepeatedValues args name = map snd (filter (\<lambda>(arg, _). arg = name) (zip args (tl args)))"

definition optionalValue :: "string list \<Rightarrow> string \<Rightarrow> string option" where
  "optionalValue args name = map_option snd (find (\<lambda>(arg, _). arg = name) (zip args (tl args)))"

definition optionValue :: "string list \<Rightarrow> string \<Rightarrow> string" where
  "optionValue args name = (case optionalValue args name of Some val \<Rightarrow> val | None \<Rightarrow> [])"

definition extractAfterIDs :: "string list \<Rightarrow> string list" where
  "extractAfterIDs args = parseRepeatedValues args ''--after''"

definition receiptRequested :: "string list \<Rightarrow> bool" where
  "receiptRequested args = hasFlag args ''--receipt''"

section \<open>Options of single commands\<close>

text \<open>\<^verbatim>\<open>strings.Cut\<close> at \<^verbatim>\<open>=\<close>.\<close>

definition cut_equals :: "string \<Rightarrow> (string \<times> string) option" where
  "cut_equals s =
     (if CHR ''='' \<in> set s
      then Some (takeWhile (\<lambda>c. c \<noteq> CHR ''='') s, tl (dropWhile (\<lambda>c. c \<noteq> CHR ''='') s))
      else None)"

fun extra_updates :: "string list \<Rightarrow> (string, string) gomap \<Rightarrow> goerr + (string, string) gomap" where
  "extra_updates [] acc = Inr acc"
| "extra_updates (setting # settings) acc =
     (case cut_equals setting of
        None \<Rightarrow> Inl (msg ''--set requires key=value'')
      | Some (key, val) \<Rightarrow>
          if TrimSpace key = [] then Inl (msg ''--set requires key=value'')
          else extra_updates settings (AList.update (TrimSpace key) val acc))"

definition parseExtraUpdates :: "string list \<Rightarrow> goerr + (string, string) gomap" where
  "parseExtraUpdates args = extra_updates (parseRepeatedValues args ''--set'') []"

text \<open>\<^verbatim>\<open>strconv.Atoi\<close> on a 64-bit machine.\<close>

definition Atoi :: "string \<Rightarrow> int option" where
  "Atoi s =
     (let (negative, digits) = (case s of
                                  c # cs \<Rightarrow> if c = CHR ''-'' then (True, cs) else if c = CHR ''+'' then (False, cs) else (False, s)
                                | [] \<Rightarrow> (False, []))
      in if digits = [] then None
         else
           (case parse_digits 0 digits of
              None \<Rightarrow> None
            | Some n \<Rightarrow>
                if negative then (if n \<le> 2 ^ 63 then Some (- int n) else None)
                else (if n < 2 ^ 63 then Some (int n) else None)))"

definition bootstrapIntOption :: "string list \<Rightarrow> string \<Rightarrow> int \<Rightarrow> goerr + int" where
  "bootstrapIntOption args name fallback =
     (let val = optionValue args name
      in if val = [] then Inr fallback
         else (case Atoi val of
                 None \<Rightarrow> Inl (Errorf ''%s must be an integer'' [ArgStr name] [])
               | Some parsed \<Rightarrow> Inr parsed))"

definition bootstrapUintOption :: "string list \<Rightarrow> string \<Rightarrow> goerr + u64" where
  "bootstrapUintOption args name =
     (let val = optionValue args name
      in if val = [] then Inr 0
         else (case ParseUint val of
                 None \<Rightarrow> Inl (Errorf ''%s must be a positive task ID'' [ArgStr name] [])
               | Some parsed \<Rightarrow>
                   if parsed = 0 then Inl (Errorf ''%s must be a positive task ID'' [ArgStr name] []) else Inr parsed))"

definition parseCompactOptions :: "string list \<Rightarrow> goerr + compactOptions" where
  "parseCompactOptions args =
     (let keepRaw = optionValue args ''--keep-events'';
          beforeRaw = optionValue args ''--receipts-before'';
          keep = (if keepRaw = [] then Inr None
                  else (case Atoi keepRaw of
                          Some v \<Rightarrow> if v < 0 then Inl () else Inr (Some v)
                        | None \<Rightarrow> Inl ()));
          before = (if beforeRaw = [] then Some 0 else positive_duration beforeRaw)
      in case keep of
           Inl _ \<Rightarrow> Inl (msg ''--keep-events must be a non-negative integer'')
         | Inr keepEvents \<Rightarrow>
             (case before of
                None \<Rightarrow> Inl (msg ''--receipts-before must be a positive duration such as 2160h'')
              | Some d \<Rightarrow>
                  if keepEvents = None \<and> d = 0 then Inl (msg ''set --keep-events, --receipts-before, or both'')
                  else Inr \<lparr>KeepEvents = keepEvents, ReceiptsBefore = d, DryRun = hasFlag args ''--dry-run''\<rparr>))"

text \<open>The loop of \<^verbatim>\<open>parseEventCLIOptions\<close> over the positional arguments.\<close>

fun event_cursor :: "u64 option \<Rightarrow> string list \<Rightarrow> goerr + u64" where
  "event_cursor since [] = Inr (case since of Some v \<Rightarrow> v | None \<Rightarrow> 0)"
| "event_cursor since (arg # rest) =
     (if arg = ''--limit'' then event_cursor since (tl rest)
      else if HasPrefix arg ''-'' then event_cursor since rest
      else if since \<noteq> None then Inl (msg ''events accepts at most one cursor'')
      else
        (case ParseUint arg of
           None \<Rightarrow> Inl (msg ''event cursor must be a non-negative integer'')
         | Some parsed \<Rightarrow> event_cursor (Some parsed) rest))"

definition parseEventCLIOptions :: "string list \<Rightarrow> goerr + u64 \<times> int option" where
  "parseEventCLIOptions args =
     (let raw = optionValue args ''--limit'';
          limit = (if raw = [] then Inr None
                   else
                     (case Atoi raw of
                        None \<Rightarrow> Inl (msg ''--limit must be an integer'')
                      | Some parsed \<Rightarrow>
                          (case eventPageLimit (Some parsed) of
                             Inl err \<Rightarrow> Inl (Errorf ''--%w'' [] [err])
                           | Inr v \<Rightarrow> Inr (Some v))))
      in case limit of
           Inl err \<Rightarrow> Inl err
         | Inr l \<Rightarrow> map_sum id (\<lambda>since. (since, l)) (event_cursor None args))"

section \<open>Help\<close>

text \<open>\<^verbatim>\<open>%-*s\<close> of a text in which every byte is a character.\<close>

definition padded :: "nat \<Rightarrow> string \<Rightarrow> string" where
  "padded width s = s @ replicate (width - length s) CHR '' ''"

definition newline :: string where
  "newline = [CHR 0x0A]"

definition usage_width :: "cli_command list \<Rightarrow> nat" where
  "usage_width cmds = fold max (map (length \<circ> cmd_Usage) cmds) 0"

definition usage_line :: "nat \<Rightarrow> cli_command \<Rightarrow> string" where
  "usage_line width c = ''  '' @ padded width (cmd_Usage c) @ ''  '' @ cmd_Summary c @ newline"

definition usage_group :: "nat \<Rightarrow> cli_command list \<Rightarrow> string \<Rightarrow> string" where
  "usage_group width cmds grp =
     (let members = filter (\<lambda>c. cmd_Group c = grp) cmds
      in if members = [] then []
         else newline @ grp @ '':'' @ newline @ concat (map (usage_line width) members))"

definition help_examples :: string where
  "help_examples =
     newline @ ''Examples:'' @ newline
     @ ''  todo add '' @ [CHR 0x22] @ ''Implement auth'' @ [CHR 0x22] @ newline
     @ ''  todo add '' @ [CHR 0x22] @ ''Fix bug'' @ [CHR 0x22] @ '' --after 1'' @ newline
     @ ''  todo claim 1 --as agent-alpha'' @ newline
     @ ''  todo decompose 1 --into '' @ [CHR 0x27] @ ''{'' @ [CHR 0x22] @ ''subtasks'' @ [CHR 0x22] @ '':[{'' @ [CHR 0x22]
         @ ''title'' @ [CHR 0x22] @ '':'' @ [CHR 0x22] @ ''Sub1'' @ [CHR 0x22] @ ''}]}'' @ [CHR 0x27] @ newline
     @ ''  todo done 1'' @ newline
     @ ''  todo status --json'' @ newline
     @ newline
     @ ''Run '' @ [CHR 0x27] @ ''todo help <command>'' @ [CHR 0x27] @ '' for the flags a command accepts.'' @ newline"

definition renderUsage :: "string \<Rightarrow> string" where
  "renderUsage vers =
     (let shown = filter (Not \<circ> cmd_Hidden) commandRegistry;
          width = usage_width shown
      in ''todo v'' @ vers @ '' - Distributed Multi-Agent Task Orchestration'' @ newline @ newline
         @ ''Usage: todo <command> [options]'' @ newline
         @ concat (map (usage_group width shown) helpGroups)
         @ newline @ ''Help:'' @ newline
         @ ''  '' @ padded width ''help'' @ ''  Show this help'' @ newline
         @ ''  '' @ padded width ''--version'' @ ''  Show the installed version'' @ newline
         @ help_examples)"

definition flagDisplay :: "flagSpec \<Rightarrow> string" where
  "flagDisplay f = (if takesValue (flag_Kind f) then flag_Name f @ '' <value>'' else flag_Name f)"

definition renderCommandHelp :: "cli_command \<Rightarrow> string" where
  "renderCommandHelp c =
     (let width = fold max (map (length \<circ> flagDisplay) (cmd_Flags c)) 0
      in ''todo '' @ cmd_Usage c @ newline @ newline @ cmd_Summary c @ newline
         @ (if cmd_Aliases c \<noteq> [] then newline @ ''Aliases: '' @ Join '', '' (cmd_Aliases c) @ newline else [])
         @ (if cmd_Flags c = [] then []
            else newline @ ''Options:'' @ newline
                 @ concat (map (\<lambda>f. ''  '' @ padded width (flagDisplay f) @ ''  '' @ flag_Help f @ newline) (cmd_Flags c))))"

section \<open>What scanning finds\<close>

text \<open>The reference reading of validated arguments: every argument is used once.\<close>

datatype token = Positional string | Switch string | Valued string string

fun tokens :: "cli_command \<Rightarrow> string list \<Rightarrow> token list" where
  "tokens c [] = []"
| "tokens c (arg # rest) =
     (if \<not> HasPrefix arg ''-'' then Positional arg # tokens c rest
      else
        (case accepts c arg of
           None \<Rightarrow> Switch arg # tokens c rest
         | Some f \<Rightarrow>
             if \<not> takesValue (flag_Kind f) then Switch arg # tokens c rest
             else (case rest of [] \<Rightarrow> [Switch arg] | val # rest' \<Rightarrow> Valued arg val # tokens c rest')))"

fun spell :: "token \<Rightarrow> string list" where
  "spell (Positional s) = [s]"
| "spell (Switch name) = [name]"
| "spell (Valued name val) = [name, val]"

fun positional :: "token \<Rightarrow> string list" where
  "positional (Positional s) = [s]"
| "positional _ = []"

fun value_of :: "string \<Rightarrow> token \<Rightarrow> string list" where
  "value_of name (Valued n val) = (if n = name then [val] else [])"
| "value_of name _ = []"

definition positionals :: "token list \<Rightarrow> string list" where
  "positionals ts = concat (map positional ts)"

definition values_of :: "string \<Rightarrow> token list \<Rightarrow> string list" where
  "values_of name ts = concat (map (value_of name) ts)"

text \<open>The positive numbers among the words, each once, at its first occurrence.\<close>

primrec firsts :: "'a list \<Rightarrow> 'a list" where
  "firsts [] = []"
| "firsts (x # xs) = x # filter (\<lambda>y. y \<noteq> x) (firsts xs)"

definition ids_among :: "string list \<Rightarrow> u64 list" where
  "ids_among ws = firsts (filter (\<lambda>i. 0 < i) (List.map_filter ParseUint ws))"

text \<open>What is used of the commands: flags begin with two dashes and are declared once.\<close>

definition wf_command :: "cli_command \<Rightarrow> bool" where
  "wf_command c \<longleftrightarrow>
     list_all (\<lambda>f. HasPrefix (flag_Name f) ''--'') (cmd_Flags c) \<and> distinct (map flag_Name (cmd_Flags c))"

lemma registry_wf: "list_all wf_command commandRegistry"
  by code_simp

lemma registry_names: "distinct (concat (map (\<lambda>c. cmd_Name c # cmd_Aliases c) commandRegistry))"
  by code_simp

lemma registry_groups: "list_all (\<lambda>c. cmd_Group c \<in> set helpGroups \<and> \<not> cmd_Hidden c) commandRegistry"
  by code_simp

lemma find_name: "g \<in> set fs \<Longrightarrow> distinct (map flag_Name fs) \<Longrightarrow> find (\<lambda>f. flag_Name f = flag_Name g) fs = Some g"
  by (induction fs) auto

lemma accepts_member: "wf_command c \<Longrightarrow> f \<in> set (cmd_Flags c) \<Longrightarrow> accepts c (flag_Name f) = Some f"
  by (simp add: accepts_def wf_command_def find_name)

lemma acceptsD: "accepts c arg = Some f \<Longrightarrow> f \<in> set (cmd_Flags c) \<and> flag_Name f = arg"
  by (auto simp: accepts_def find_Some_iff)

lemma valueFlags_accepts:
  "wf_command c \<Longrightarrow> arg \<in> set (valueFlags c) \<longleftrightarrow> (\<exists>f. accepts c arg = Some f \<and> takesValue (flag_Kind f))"
  by (auto simp: valueFlags_def accepts_member dest: acceptsD)

lemma dash_dash: "HasPrefix s ''--'' \<Longrightarrow> HasPrefix s ''-''"
  by (cases s) (auto simp: HasPrefix_def)

lemma accepts_dash: "wf_command c \<Longrightarrow> accepts c arg = Some f \<Longrightarrow> HasPrefix arg ''--''"
  by (auto simp: wf_command_def list_all_iff dest: acceptsD)

lemma tokens_spell: "concat (map spell (tokens c args)) = args"
  by (induction c args rule: tokens.induct) (auto split: option.splits list.splits)

lemma positionals_Cons [simp]: "positionals (t # ts) = positional t @ positionals ts"
  by (simp add: positionals_def)

lemma positionals_Nil [simp]: "positionals [] = []"
  by (simp add: positionals_def)

lemma values_of_simps [simp]: "values_of name [] = []" "values_of name (t # ts) = value_of name t @ values_of name ts"
  by (simp_all add: values_of_def)

lemma ids_among_Nil [simp]: "ids_among [] = []"
  by (simp add: ids_among_def List.map_filter_simps)

lemma ids_among_Cons [simp]:
  "ids_among (w # ws) =
     (case ParseUint w of
        Some i \<Rightarrow> if 0 < i then i # filter (\<lambda>j. j \<noteq> i) (ids_among ws) else ids_among ws
      | None \<Rightarrow> ids_among ws)"
  by (simp add: ids_among_def List.map_filter_simps split: option.split)

text \<open>The cases of a validated list of arguments.\<close>

lemma validated_cases:
  assumes "wf_command c" "validateArgs c (arg # rest) = None"
  obtains "\<not> HasPrefix arg ''-''" "arg \<notin> set (valueFlags c)" "\<not> HasPrefix arg ''--''" "validateArgs c rest = None"
    "tokens c (arg # rest) = Positional arg # tokens c rest"
  | "HasPrefix arg ''-''" "HasPrefix arg ''--''" "arg \<notin> set (valueFlags c)" "validateArgs c rest = None"
    "tokens c (arg # rest) = Switch arg # tokens c rest"
  | val rest' where "HasPrefix arg ''-''" "arg \<in> set (valueFlags c)" "rest = val # rest'" "\<not> HasPrefix val ''-''"
    "validateArgs c rest' = None" "tokens c (arg # rest) = Valued arg val # tokens c rest'"
proof (cases "HasPrefix arg ''-''")
  case False
  with assms that(1) show ?thesis
    using dash_dash by (auto simp: valueFlags_accepts dest: accepts_dash dash_dash)
next
  case True
  with assms(2) obtain f where f: "accepts c arg = Some f" by (auto split: option.splits)
  show ?thesis
  proof (cases "takesValue (flag_Kind f)")
    case False
    with True f assms that(2) show ?thesis by (simp add: valueFlags_accepts accepts_dash)
  next
    case takes: True
    with True f assms obtain val rest' where "rest = val # rest'" "\<not> HasPrefix val ''-''" "validateArgs c rest' = None"
      by (auto split: list.splits if_splits)
    with True takes f assms that(3) show ?thesis by (simp add: valueFlags_accepts)
  qed
qed

lemma validated_induct [consumes 2, case_names Nil Positional Switch Valued]:
  assumes "wf_command c" "validateArgs c args = None" "P []"
    "\<And>arg rest. \<not> HasPrefix arg ''-'' \<Longrightarrow> arg \<notin> set (valueFlags c) \<Longrightarrow> \<not> HasPrefix arg ''--''
      \<Longrightarrow> tokens c (arg # rest) = Positional arg # tokens c rest \<Longrightarrow> P rest \<Longrightarrow> P (arg # rest)"
    "\<And>arg rest. HasPrefix arg ''-'' \<Longrightarrow> HasPrefix arg ''--'' \<Longrightarrow> arg \<notin> set (valueFlags c)
      \<Longrightarrow> tokens c (arg # rest) = Switch arg # tokens c rest \<Longrightarrow> P rest \<Longrightarrow> P (arg # rest)"
    "\<And>arg val rest. HasPrefix arg ''-'' \<Longrightarrow> arg \<in> set (valueFlags c) \<Longrightarrow> \<not> HasPrefix val ''-''
      \<Longrightarrow> tokens c (arg # val # rest) = Valued arg val # tokens c rest \<Longrightarrow> P rest \<Longrightarrow> P (arg # val # rest)"
  shows "P args"
  using assms(2)
proof (induction args rule: length_induct)
  case (1 args)
  show ?case
  proof (cases args)
    case (Cons arg rest)
    from 1 Cons have smaller: "P xs" if "length xs < Suc (length rest)" "validateArgs c xs = None" for xs
      using that by simp
    from assms(1) 1(2) [unfolded Cons] show ?thesis
    proof (cases rule: validated_cases)
      case 1
      then show ?thesis unfolding Cons by (intro assms(4) smaller) simp_all
    next
      case 2
      then show ?thesis unfolding Cons by (intro assms(5) smaller) simp_all
    next
      case (3 val rest')
      then show ?thesis unfolding Cons by (simp only: 3(3)) (intro assms(6) smaller; simp add: 3(3) del: tokens.simps)
    qed
  qed (simp add: assms(3))
qed

lemma scan_ids:
  assumes "wf_command c" "validateArgs c args = None"
  shows "parse_ids (valueFlags c) seen args = filter (\<lambda>i. i \<notin> set seen) (ids_among (positionals (tokens c args)))"
  using assms
proof (induction args arbitrary: seen rule: validated_induct)
  case (Positional arg rest)
  have "filter (\<lambda>i. i \<notin> set (j # seen)) xs = filter (\<lambda>i. i \<notin> set seen) (filter (\<lambda>i. i \<noteq> j) xs)" for j and xs :: "u64 list"
    by (auto intro: filter_cong)
  moreover have "filter (\<lambda>i. i \<notin> set seen) (filter (\<lambda>i. i \<noteq> j) xs) = filter (\<lambda>i. i \<notin> set seen) xs" if "j \<in> set seen"
    for j and xs :: "u64 list" using that by (auto intro: filter_cong)
  ultimately show ?case using Positional by (auto simp del: tokens.simps(2) split: option.split)
qed (auto simp del: tokens.simps(2))

lemma scan_title:
  assumes "wf_command c" "validateArgs c args = None"
  shows "title_parts (valueFlags c) args = positionals (tokens c args)"
  using assms by (induction args rule: validated_induct) (auto simp del: tokens.simps(2))

lemma pairs_Cons: "zip (x # xs) (tl (x # xs)) = (case xs of [] \<Rightarrow> [] | y # _ \<Rightarrow> (x, y) # zip xs (tl xs))"
  by (simp split: list.split)

lemma scan_values:
  assumes "wf_command c" "validateArgs c args = None" "name \<in> set (valueFlags c)"
  shows "parseRepeatedValues args name = values_of name (tokens c args)"
  using assms(1,2)
proof (induction args rule: validated_induct)
  case (Valued arg val rest)
  have "val \<noteq> name" using Valued(3) assms(1,3) by (auto simp: valueFlags_accepts dest: accepts_dash dash_dash)
  with Valued show ?case
    by (cases rest) (auto simp: parseRepeatedValues_def simp del: tokens.simps(2))
next
  case (Positional arg rest)
  then show ?case using assms(3) by (cases rest) (auto simp: parseRepeatedValues_def simp del: tokens.simps(2))
next
  case (Switch arg rest)
  then show ?case using assms(3) by (cases rest) (auto simp: parseRepeatedValues_def simp del: tokens.simps(2))
qed (simp add: parseRepeatedValues_def)

lemma optionalValue_first: "optionalValue args name = (case parseRepeatedValues args name of [] \<Rightarrow> None | v # _ \<Rightarrow> Some v)"
proof -
  have "map_option snd (find (\<lambda>(arg, _). arg = name) xs)
      = (case map snd (filter (\<lambda>(arg, _). arg = name) xs) of [] \<Rightarrow> None | v # _ \<Rightarrow> Some v)" for xs :: "(string \<times> string) list"
    by (induction xs) auto
  then show ?thesis by (simp add: optionalValue_def parseRepeatedValues_def)
qed

lemma scan_flags:
  assumes "wf_command c" "validateArgs c args = None" "HasPrefix name ''-''"
  shows "hasFlag args name \<longleftrightarrow> (\<exists>t \<in> set (tokens c args). t = Switch name \<or> (\<exists>val. t = Valued name val))"
  using assms(1,2)
  by (induction args rule: validated_induct) (use assms(3) in \<open>auto simp: hasFlag_def simp del: tokens.simps(2)\<close>)

section \<open>Properties\<close>

text \<open>
  C35: the scanning functions agree on validated arguments. There is one reading of the arguments of a
  registered command, in which every argument is used exactly once, and every function finds what it
  says: \<^verbatim>\<open>parseIDs\<close> the positive numbers among the positional arguments, each once and in order, never
  the value of a flag; \<^verbatim>\<open>extractTitle\<close> the positional arguments; \<^verbatim>\<open>parseRepeatedValues\<close> all values of a
  value flag and \<^verbatim>\<open>optionalValue\<close> the first; and \<^verbatim>\<open>hasFlag\<close> the flags that were given.
\<close>

theorem scan_agrees:
  assumes "c \<in> set commandRegistry" "validateArgs c args = None"
  shows "concat (map spell (tokens c args)) = args
    \<and> parseIDs c args = ids_among (positionals (tokens c args))
    \<and> extractTitle c args = Join '' '' (positionals (tokens c args))
    \<and> (\<forall>name \<in> set (valueFlags c). parseRepeatedValues args name = values_of name (tokens c args)
         \<and> optionalValue args name = (case values_of name (tokens c args) of [] \<Rightarrow> None | v # _ \<Rightarrow> Some v))
    \<and> (\<forall>name. HasPrefix name ''-'' \<longrightarrow>
         (hasFlag args name \<longleftrightarrow> (\<exists>t \<in> set (tokens c args). t = Switch name \<or> (\<exists>val. t = Valued name val))))"
proof -
  have wf: "wf_command c" using registry_wf assms(1) by (simp add: list_all_iff)
  show ?thesis
    using scan_values [OF wf assms(2)] scan_flags [OF wf assms(2)]
    by (simp add: tokens_spell parseIDs_def parseIDsWithValueFlags_def scan_ids [OF wf assms(2)] extractTitle_def
        scan_title [OF wf assms(2)] optionalValue_first)
qed

lemma scan_agrees_witness:
  "\<exists>c. lookupCommand ''log'' = Some c \<and> parseIDs c [''7'', ''--msg'', ''8'', ''--json'', ''7''] = [7]
     \<and> optionalValue [''7'', ''--msg'', ''8'', ''--json'', ''7''] ''--msg'' = Some ''8''"
proof -
  let ?c = "task_commands ! 7" and ?args = "[''7'', ''--msg'', ''8'', ''--json'', ''7'']"
  have c: "lookupCommand ''log'' = Some ?c" "?c \<in> set commandRegistry" "''--msg'' \<in> set (valueFlags ?c)"
    "validateArgs ?c ?args = None" "values_of ''--msg'' (tokens ?c ?args) = [''8'']"
    "positionals (tokens ?c ?args) = [''7'', ''7'']" by code_simp+
  moreover have "ids_among [''7'', ''7''] = [7]"
    by (simp add: ParseUint_def is_digit_def of_char_def)
  ultimately show ?thesis using scan_agrees [OF c(2,4)] by (intro exI [of _ ?c]) simp
qed

end
