(* ===== verification/CliText.thy ===== *)
theory CliText
  imports CliArgs
begin

text \<open>
  What the commands of the command line print when no \<^verbatim>\<open>--json\<close> is asked for: the status board, task
  lists, the dependency graph as text and as Graphviz DOT, the Markdown export, the session report, the
  event table. A text is the sequence of its bytes, colour sequences and UTF-8 symbols included.
\<close>

section \<open>Formatting\<close>

definition line :: "string list \<Rightarrow> string" where
  "line parts = concat parts @ newline"

definition brackets :: "string list \<Rightarrow> string" where
  "brackets xs = ''['' @ Join '' '' xs @ '']''"

text \<open>\<^verbatim>\<open>utf8.RuneCountInString\<close>; a byte that starts no character counts for one. \<^verbatim>\<open>%-40s\<close> pads by it.\<close>

function rune_count :: "string \<Rightarrow> nat" where
  "rune_count s = (if s = [] then 0 else Suc (rune_count (drop (max 1 (rune_len s)) s)))"
  by pat_completeness auto
termination by (relation "measure length") auto

declare rune_count.simps [simp del]

definition pad_runes :: "nat \<Rightarrow> string \<Rightarrow> string" where
  "pad_runes width s = s @ replicate (width - rune_count s) CHR '' ''"

definition escape_sequence :: "string \<Rightarrow> string" where
  "escape_sequence code = [CHR 0x1B] @ ''['' @ code"

definition colorReset :: string where "colorReset = escape_sequence ''0m''"

definition colorRed :: string where "colorRed = escape_sequence ''31m''"

definition colorGreen :: string where "colorGreen = escape_sequence ''32m''"

definition colorYellow :: string where "colorYellow = escape_sequence ''33m''"

definition colorCyan :: string where "colorCyan = escape_sequence ''36m''"

definition colorGray :: string where "colorGray = escape_sequence ''90m''"

definition circle_half :: string where "circle_half = [CHR 0xE2, CHR 0x97, CHR 0x90]"

definition circle :: string where "circle = [CHR 0xE2, CHR 0x97, CHR 0x8B]"

definition circle_full :: string where "circle_full = [CHR 0xE2, CHR 0x97, CHR 0x8F]"

definition circle_cross :: string where "circle_cross = [CHR 0xE2, CHR 0x8A, CHR 0x97]"

definition arrow_left :: string where "arrow_left = [CHR 0xE2, CHR 0x86, CHR 0x90]"

definition arrow_right :: string where "arrow_right = [CHR 0xE2, CHR 0x86, CHR 0x92]"

definition em_dash :: string where "em_dash = [CHR 0xE2, CHR 0x80, CHR 0x94]"

section \<open>The status board\<close>

definition statusIcon :: "Task \<Rightarrow> string" where
  "statusIcon t =
     (if Status t = StatusInProgress then colorYellow @ '' '' @ circle_half @ colorReset
      else if Status t = StatusPending then '' '' @ circle
      else if Status t = StatusBlocked then colorRed @ '' '' @ circle_cross @ colorReset
      else if Status t = StatusCompleted then colorGreen @ '' '' @ circle_full @ colorReset
      else '' ?'')"

definition tagStr :: "string list \<Rightarrow> string" where
  "tagStr tags =
     (if tags = [] then []
      else '' ['' @ Join '' '' (map (\<lambda>tag. colorGray @ tag @ colorReset) tags) @ '']'')"

definition status_section :: "string \<Rightarrow> (Task \<Rightarrow> string) \<Rightarrow> Task list \<Rightarrow> string" where
  "status_section label suffix tasks =
     (if tasks = [] then []
      else newline @ line [colorCyan, label, colorReset]
        @ concat (map (\<lambda>t. line [''  '', statusIcon t, '' '', fmt_id (ID t), '' '', pad_runes 40 (Title t), suffix t]) tasks))"

definition status_text :: "string \<Rightarrow> string \<Rightarrow> TaskStore \<Rightarrow> string" where
  "status_text filterTag filterAgent s =
     (let shown = status_tasks filterTag filterAgent s;
          grouped = (\<lambda>st. filter (\<lambda>t. Status t = st) shown);
          order = [StatusInProgress, StatusPending, StatusBlocked, StatusCompleted];
          summary = Join '', '' (map (\<lambda>st. decimal (length (grouped st)) @ '' '' @ statusName st)
                                  (filter (\<lambda>st. grouped st \<noteq> []) order));
          total = sum_list (map (\<lambda>st. length (grouped st)) order);
          tags = (\<lambda>t. tagStr (Tags t))
      in (if total > 0 then line [colorCyan, ''Tasks: '', summary, colorReset] @ newline else [])
         @ status_section ''In Progress'' (\<lambda>t. '' '' @ colorYellow @ Owner t @ colorReset @ tags t) (grouped StatusInProgress)
         @ status_section ''Pending'' tags (grouped StatusPending)
         @ status_section ''Blocked'' tags (grouped StatusBlocked)
         @ status_section ''Completed'' tags (grouped StatusCompleted))"

text \<open>The text of an error is the parameter \<open>show_err\<close>.\<close>

definition project_text :: "(goerr \<Rightarrow> string) \<Rightarrow> projectStatus \<Rightarrow> string" where
  "project_text show_err p =
     newline @ line [''['', ps_Alias p, ''] '', ps_Path p]
     @ (if \<not> ps_Available p
        then line [''  unavailable: '', (case ps_Error p of Some err \<Rightarrow> show_err err | None \<Rightarrow> [])]
        else if ps_Tasks p = [] then line [''  No tasks.'']
        else concat (map (\<lambda>t. line [''  '', fmt_id (p_ID t), '' ['', p_Status t, ''] '', p_Title t]) (ps_Tasks p)))"

section \<open>Single tasks and lists of tasks\<close>

definition recent_log :: "LogEntry list \<Rightarrow> string" where
  "recent_log entries =
     concat (map (\<lambda>entry. line [''  ['', formatTimestamp (LogEntry.log_Timestamp entry), ''] '', LogEntry.log_Agent entry, '': '', LogEntry.log_Message entry])
       (drop (length entries - 5) entries))"

definition cat_text :: "(float32 \<Rightarrow> string) \<Rightarrow> Task \<Rightarrow> string" where
  "cat_text show_priority task =
     line [''ID:         '', fmt_id (ID task)]
     @ line [''Title:      '', Title task]
     @ line [''Status:     '',
         if Status task = StatusInProgress then ''In-Progress''
         else if Status task = StatusCompleted then ''Completed''
         else if Status task = StatusBlocked then ''Blocked'' else ''Pending'']
     @ line [''Owner:      '', Owner task]
     @ line [''Depends:    '', brackets (Depends task)]
     @ line [''Caps:       '', brackets (Capabilities task)]
     @ line [''Tags:       '', brackets (Tags task)]
     @ line [''Priority:   '', show_priority (Priority task)]
     @ line [''Lineage:    '', Lineage task]
     @ line [''Retries:    '', decimal (unat (RetryCount task))]
     @ (if LastError task \<noteq> [] then line [''Last Error: '', LastError task] else [])
     @ (if Log task \<noteq> [] then line [''Log:''] @ recent_log (Log task) else [])"

definition search_text :: "Task list \<Rightarrow> string" where
  "search_text results =
     (if results = [] then line [''No tasks found.'']
      else line [''Found '', decimal (length results), '' task(s):'']
        @ concat (map (\<lambda>t. line [''  '', fmt_id (ID t), '' '',
            if Status t = StatusInProgress then ''[/]''
            else if Status t = StatusCompleted then ''[x]''
            else if Status t = StatusBlocked then ''[B]'' else ''[ ]'', '' '', Title t]) results))"

text \<open>The time left of a lease, at the time each line is written.\<close>

definition my_text :: "string \<Rightarrow> gotime \<Rightarrow> Task list \<Rightarrow> string" where
  "my_text owner now mine =
     (if mine = [] then line [''No tasks claimed by '', owner]
      else line [''Tasks claimed by '', owner, '':''] @ newline
        @ concat (map (\<lambda>t.
            let remaining = sint (LeaseExpires t) - UnixMilli now;
                leaseInfo = (if LeaseExpires t = 0 then []
                             else if remaining > 0 then '' (lease: '' @ duration_string (remaining * 1000000) @ '')''
                             else '' (lease EXPIRED)'')
            in line [''  '',
                 if Status t = StatusInProgress then circle_half
                 else if Status t = StatusBlocked then circle_cross else circle,
                 '' '', fmt_id (ID t), '' '', pad_runes 40 (Title t), leaseInfo]) mine))"

definition next_text :: "(float32 \<Rightarrow> string) \<Rightarrow> Task list \<Rightarrow> allocationDiagnostics \<Rightarrow> string" where
  "next_text show_priority ready diagnostics =
     (if ready = [] then line [''No tasks ready: '', allocationReasonMessage (d_Reason diagnostics), ''.'']
      else line [''Ready to work:'']
        @ concat (map (\<lambda>t. line [''- '', fmt_id (ID t), '': '', Title t, '' (Priority: '', show_priority (Priority t), '')'']) ready))"

definition export_markdown :: "TaskStore \<Rightarrow> string" where
  "export_markdown s =
     (let tasks = sortedTasks (Tasks s);
          item = (\<lambda>box t. line [box, fmt_id (ID t), '': '', Title t])
      in line [''# Project Tasks''] @ newline @ line [''## Pending'']
         @ concat (map (item ''- [ ] '') (filter (\<lambda>t. Status t \<noteq> StatusCompleted) tasks))
         @ newline @ line [''## Completed'']
         @ concat (map (item ''- [x] '') (filter (\<lambda>t. Status t = StatusCompleted) tasks)))"

section \<open>Dependencies\<close>

definition depends_text :: "TaskStore \<Rightarrow> u64 \<Rightarrow> Task \<Rightarrow> string" where
  "depends_text s i task =
     (if Depends task = [] then line [''Task '', fmt_id i, '' has no dependencies.'']
      else line [''Task '', fmt_id i, '' depends on:'']
        @ concat (map (\<lambda>dep. line [''  - '',
            case ParseLocalID dep of
              Some depID \<Rightarrow> fmt_id depID @ '': '' @ (case GetTask s depID of Some dt \<Rightarrow> Title dt | None \<Rightarrow> ''[not found locally]'')
            | None \<Rightarrow> dep]) (Depends task)))"

definition dependents_text :: "TaskStore \<Rightarrow> u64 \<Rightarrow> string" where
  "dependents_text s targetID =
     line [''Tasks that depend on '', fmt_id targetID, '':'']
     @ (if dependents_of s targetID = [] then line [''  None.'']
        else concat (map (\<lambda>t. line [''  - '', fmt_id (ID t), '': '', Title t]) (dependents_of s targetID)))"

text \<open>The percentage is printed by \<^verbatim>\<open>%.0f\<close>, the parameter \<open>percent\<close>.\<close>

definition lineage_text :: "(rat \<Rightarrow> string) \<Rightarrow> TaskStore \<Rightarrow> Task \<Rightarrow> string" where
  "lineage_text percent s objective =
     (let descendants = lineageDescendants (ID objective) (Tasks s);
          progress = calculateLineageProgress (objective # descendants)
      in line [''Objective '', fmt_id (ID objective), '': '', Title objective]
         @ line [''Progress: '', decimal (lp_Completed progress), ''/'', decimal (lp_Total progress), '' complete ('',
                 percent (lp_Percent progress), ''%)'']
         @ concat (map (\<lambda>t. line [''- '', fmt_id (ID t), '' ['', statusName (Status t), ''] '', Title t]) descendants))"

definition whatif_text :: "Task \<Rightarrow> whatifDone option \<Rightarrow> nat option \<Rightarrow> string" where
  "whatif_text task if_done if_blocked =
     line [''What-if analysis for task '', fmt_id (ID task), '': '', Title task] @ newline
     @ (case if_done of
          None \<Rightarrow> []
        | Some d \<Rightarrow>
            line [''If marked DONE:'']
            @ (if wd_WouldUnblock d \<noteq> []
               then line [''  Would unblock '', decimal (length (wd_WouldUnblock d)), '' task(s):'']
                 @ concat (map (\<lambda>t. line [''    - '', fmt_id (wi_ID t), '': '', wi_Title t]) (wd_WouldUnblock d))
               else if wd_StillBlocked d > 0
               then line [''  No tasks would be unblocked ('', decimal (wd_StillBlocked d), '' task(s) still blocked)'']
               else line [''  No impact on other tasks'']))
     @ (case if_blocked of
          None \<Rightarrow> []
        | Some wouldBlock \<Rightarrow>
            newline @ line [''If BLOCKED:''] @ line [''  Would block '', decimal wouldBlock, '' dependent(s)''])"

section \<open>The graph\<close>

definition graph_text :: "TaskStore \<Rightarrow> string" where
  "graph_text s =
     line [''Task Dependency Graph:''] @ newline
     @ concat (map (\<lambda>t.
         let depIDs = map (\<lambda>dep. case ParseLocalID dep of Some depID \<Rightarrow> fmt_id depID | None \<Rightarrow> dep) (Depends t);
             depOf = concat (map (\<lambda>other. map (\<lambda>_. ID other) (filter (refers_to (ID t)) (Depends other))) (GetAllTasks s));
             deps = (if Depends t = [] then [] else '' '' @ arrow_left @ '' '' @ Join '', '' depIDs);
             dependents = (if depOf = [] then [] else '' '' @ arrow_right @ '' '' @ Join '', '' (map fmt_id depOf))
         in line [''  '', fmt_id (ID t), '' '', Title t, deps, dependents]) (sortedTasks (Tasks s)))"

text \<open>The loop runs over characters; a byte that starts none is replaced.\<close>

function escapeDOT :: "string \<Rightarrow> string" where
  "escapeDOT s =
     (if s = [] then []
      else if rune_len s = 0 then replacement_char @ escapeDOT (tl s)
      else
        (if hd s = CHR 0x22 then [CHR 0x5C, CHR 0x22]
         else if hd s = CHR 0x5C then [CHR 0x5C, CHR 0x5C]
         else if hd s = CHR 0x0A then [CHR 0x5C] @ ''n''
         else take (rune_len s) s) @ escapeDOT (drop (rune_len s) s))"
  by pat_completeness auto
termination by (relation "measure length") auto

declare escapeDOT.simps [simp del]

definition quoted :: "string \<Rightarrow> string" where
  "quoted s = [CHR 0x22] @ s @ [CHR 0x22]"

definition dot_color :: "Task \<Rightarrow> string" where
  "dot_color t =
     (if Status t = StatusCompleted then ''palegreen''
      else if Status t = StatusInProgress then ''lightyellow''
      else if Status t = StatusBlocked then ''mistyrose'' else ''white'')"

definition dot_label :: "Task \<Rightarrow> string" where
  "dot_label t = fmt_id (ID t) @ [CHR 0x5C] @ ''n'' @ escapeDOT (Title t)"

definition dot_node :: "Task \<Rightarrow> string" where
  "dot_node t =
     line [''  '', fmt_id (ID t), '' [label='', quoted (dot_label t), '', fillcolor='', dot_color t, '', style=filled];'']"

definition dot_edge :: "Task \<Rightarrow> string \<Rightarrow> string" where
  "dot_edge t dep =
     (case ParseLocalID dep of
        Some depID \<Rightarrow> line [''  '', fmt_id depID, '' -> '', fmt_id (ID t), '';'']
      | None \<Rightarrow> line [''  '', quoted dep, '' -> '', fmt_id (ID t), '' [style=dashed, color=gray];''])"

definition renderDOT :: "tasks \<Rightarrow> string" where
  "renderDOT ts =
     line [''digraph tasks {''] @ line [''  rankdir=LR;''] @ line [''  node [shape=box, style=rounded];'']
     @ concat (map dot_node (sortedTasks ts))
     @ concat (map (\<lambda>t. concat (map (dot_edge t) (Depends t))) (sortedTasks ts))
     @ line [''}'']"

section \<open>Reports\<close>

definition caps_text :: "capsEnvelope \<Rightarrow> string" where
  "caps_text r =
     (if ce_TotalUnclaimedTasks r = 0 then line [''No unclaimed tasks found.'']
      else line [''Capability Demand:'']
        @ (if ce_RequiredCapabilities r = [] then line [''  (none)'']
           else concat (map (\<lambda>cd. line [''  '', pad_runes 15 (cd_Capability cd @ '':''), '' '', decimal (cd_TaskCount cd), '' tasks'',
                  if cd_Capability cd \<in> set (ce_UnmatchedCapabilities r) then '' (unmatched)'' else []])
                  (ce_RequiredCapabilities r)))
        @ newline @ line [''Total unclaimed tasks: '', decimal (ce_TotalUnclaimedTasks r)]
        @ (if ce_TasksWithoutCaps r > 0 then line [''Tasks without capabilities: '', decimal (ce_TasksWithoutCaps r)] else [])
        @ line [''Registered agents: '', decimal (ce_RegisteredAgents r)]
        @ (if ce_UnmatchedCapabilities r \<noteq> []
           then line [''Unmatched capabilities: '', Join '', '' (ce_UnmatchedCapabilities r)] else []))"

definition printBootstrapTasks :: "string \<Rightarrow> bootstrapTaskList \<Rightarrow> string" where
  "printBootstrapTasks label tasks =
     line [label, '': '', decimal (length (bl_Items tasks)), '' shown of '', decimal (bl_Total tasks)]
     @ concat (map (\<lambda>t. line [''  - '', fmt_id (bt_ID t), '' ['', bt_Status t, ''] '', bt_Title t,
         if bt_Owner t \<noteq> [] then '' '' @ em_dash @ '' '' @ bt_Owner t else []]) (bl_Items tasks))"

definition bootstrap_objective :: "bootstrapTask option \<Rightarrow> string" where
  "bootstrap_objective objective =
     (case objective of
        None \<Rightarrow> line [''Objective: none'']
      | Some t \<Rightarrow>
          line [''Objective: '', fmt_id (bt_ID t), '' ['', bt_Status t, ''] '', bt_Title t]
          @ (if bt_BlockReason t \<noteq> [] then line [''  blocked: '', bt_BlockReason t] else []))"

definition bootstrap_blockers :: "bootstrapBlockers \<Rightarrow> string" where
  "bootstrap_blockers b =
     line [''Blockers: '', decimal (bb_ExplicitTotal b), '' explicit, '', decimal (bb_DependencyBlockedTotal b),
           '' dependency-blocked'',
           if bb_PrimaryDependencies b \<noteq> [] then ''; dependencies: '' @ Join '', '' (bb_PrimaryDependencies b) else []]
     @ concat (map (\<lambda>t. line [''  - '', fmt_id (bt_ID t), '': '', bt_Title t,
         if bt_BlockReason t \<noteq> [] then '' '' @ em_dash @ '' '' @ bt_BlockReason t else []]) (bb_Explicit b))"

definition bootstrap_demand :: "bootstrapCapabilitySummary \<Rightarrow> string" where
  "bootstrap_demand d =
     line [''Capability demand: '', decimal (bc_UnclaimedTasks d), '' unclaimed ('', decimal (bc_WithoutCaps d),
           '' without requirements)'']
     @ concat (map (\<lambda>c. line [''  - '', bd_Capability c, '': '', decimal (bd_TaskCount c),
         if bd_Matched c then [] else '' (unmatched)'']) (bc_Items d))"

definition bootstrap_events :: "bootstrapEventList \<Rightarrow> string" where
  "bootstrap_events ev =
     line [''Recent events: '', decimal (length (bev_Items ev)), '' shown of '', decimal (bev_Total ev)]
     @ concat (map (\<lambda>x. line [''  - #'', fmt_id (be_ID x), '' '', be_Type x, '' task '', fmt_id (be_TaskID x),
         if be_Actor x \<noteq> [] then '' by '' @ be_Actor x else [],
         if be_Detail x \<noteq> [] then '' ('' @ be_Detail x @ '')'' else []]) (bev_Items ev))"

definition printBootstrap :: "bootstrapResult \<Rightarrow> string" where
  "printBootstrap r =
     bootstrap_objective (br_Objective r)
     @ line [''Progress: '', decimal (bp_Completed (br_Progress r)), ''/'', decimal (bp_Total (br_Progress r)), '' complete ('',
             decimal (bp_Percent (br_Progress r)), ''%); '', decimal (bp_InProgress (br_Progress r)), '' active, '',
             decimal (bp_Pending (br_Progress r)), '' pending, '', decimal (bp_Blocked (br_Progress r)), '' blocked'']
     @ line [''Worker: '', bw_Actor (br_Worker r), ''; '', decimal (bl_Total (br_OwnedWork r)), '' owned; '',
             decimal (bl_Total (br_ReadyWork r)), '' compatible ready'',
             if bw_AtCapacity (br_Worker r) then ''; at capacity'' else []]
     @ printBootstrapTasks ''Owned work'' (br_OwnedWork r)
     @ printBootstrapTasks ''Ready work'' (br_ReadyWork r)
     @ bootstrap_blockers (br_Blockers r)
     @ bootstrap_demand (br_CapabilityDemand r)
     @ bootstrap_events (br_RecentEvents r)"

text \<open>The event table; the parameter \<open>local_time\<close> is the parsed timestamp in the local zone.\<close>

definition renderEventTable :: "(string \<Rightarrow> string) \<Rightarrow> protocolEvent list \<Rightarrow> u64 \<Rightarrow> string" where
  "renderEventTable local_time events since =
     (if events = []
      then (if since > 0 then line [''No events since ID '', fmt_id since] else line [''No events recorded''])
      else line [pad_runes 4 ''ID'', '' '', pad_runes 25 ''TIMESTAMP'', '' '', pad_runes 14 ''TYPE'', '' '', pad_runes 6 ''TASK'',
                 '' '', pad_runes 16 ''ACTOR'', '' '', ''DATA'']
        @ concat (map (\<lambda>x. line [pad_runes 4 (fmt_id (pe_ID x)), '' '', pad_runes 25 (local_time (pe_Timestamp x)), '' '',
            pad_runes 14 (pe_Type x), '' '', pad_runes 6 (fmt_id (pe_TaskID x)), '' '', pad_runes 16 (pe_Actor x), '' '',
            Join '', '' (sort_Strings (map (\<lambda>(key, val). key @ ''='' @ val) (pe_Data x)))]) events))"

section \<open>A title survives the DOT output\<close>

text \<open>How Graphviz reads a label: up to the closing quote, with the escapes of \<^verbatim>\<open>escString\<close>.\<close>

fun read_dot :: "string \<Rightarrow> (string \<times> string) option" where
  "read_dot [] = None"
| "read_dot (c # cs) =
     (if c = CHR 0x22 then Some ([], cs)
      else if c = CHR 0x5C then
        (case cs of
           [] \<Rightarrow> None
         | d # ds \<Rightarrow> map_option (apfst ((#) (if d = CHR ''n'' then CHR 0x0A else d))) (read_dot ds))
      else map_option (apfst ((#) c)) (read_dot cs))"

lemma rune_tail_high:
  assumes "1 < rune_len s" "c \<in> set (take (rune_len s) s)"
  shows "0x80 \<le> byte c"
  using assms
  by (auto simp: rune_len_def second_ok_def cont_byte_def split: list.splits if_splits)

lemma read_dot_plain:
  assumes "list_all (\<lambda>c. c \<noteq> CHR 0x22 \<and> c \<noteq> CHR 0x5C) xs"
  shows "read_dot (xs @ ys) = map_option (apfst ((@) xs)) (read_dot ys)"
  using assms
proof (induction xs)
  case (Cons a xs)
  then show ?case by (cases "read_dot ys") auto
qed (cases "read_dot ys"; simp add: prod_eq_iff)

lemma take_drop_append: "take n s @ drop n s @ a = s @ a"
  by (metis append_assoc append_take_drop_id)

lemma rune_plain:
  assumes "rune_len s \<noteq> 0" "hd s \<noteq> CHR 0x22" "hd s \<noteq> CHR 0x5C"
  shows "list_all (\<lambda>c. c \<noteq> CHR 0x22 \<and> c \<noteq> CHR 0x5C) (take (rune_len s) s)"
proof (cases "rune_len s = 1")
  case True
  with assms show ?thesis by (cases s) auto
next
  case False
  with assms(1) have "\<forall>c \<in> set (take (rune_len s) s). 0x80 \<le> byte c" using rune_tail_high [of s] by auto
  then show ?thesis by (fastforce simp: list_all_iff)
qed

lemma rune_ascii: "s \<noteq> [] \<Longrightarrow> byte (hd s) < (0x80 :: nat) \<Longrightarrow> rune_len s = 1"
  by (cases s) (auto simp: rune_len_def)

lemma read_escaped:
  assumes "ValidString s"
  shows "read_dot (escapeDOT s @ rest) = map_option (apfst ((@) s)) (read_dot rest)"
  using assms
proof (induction s rule: escapeDOT.induct)
  case (1 s)
  show ?case
  proof (cases "s = []")
    case True
    then show ?thesis by (cases "read_dot rest") (auto simp: escapeDOT.simps [of "[]"])
  next
    case False
    with 1(3) have n: "rune_len s \<noteq> 0" "ValidString (drop (rune_len s) s)"
      by (metis ValidString.simps)+
    have IH: "read_dot (escapeDOT (drop (rune_len s) s) @ rest)
        = map_option (apfst ((@) (drop (rune_len s) s))) (read_dot rest)"
      using 1(2) [OF False n(1) n(2)] .
    have one: "rune_len s = 1 \<and> s = c # drop (rune_len s) s" if "hd s = c" "byte c < (0x80 :: nat)" for c
      using that False rune_ascii [OF False] by (cases s) auto
    consider "hd s = CHR 0x22" | "hd s = CHR 0x5C" | "hd s = CHR 0x0A"
      | "hd s \<noteq> CHR 0x22" "hd s \<noteq> CHR 0x5C" "hd s \<noteq> CHR 0x0A" by blast
    then show ?thesis
    proof cases
      case 4
      then have "escapeDOT s = take (rune_len s) s @ escapeDOT (drop (rune_len s) s)"
        using False n(1) by (simp add: escapeDOT.simps [of s])
      then show ?thesis
        using read_dot_plain [OF rune_plain [OF n(1) 4(1,2)]] IH
        by (cases "read_dot rest") (auto simp: take_drop_append)
    qed (use False n(1) IH one [of "hd s"] in \<open>cases "read_dot rest"; auto simp: escapeDOT.simps [of s]\<close>)+
  qed
qed

lemma read_digits: "read_dot (fmt_id i @ ys) = map_option (apfst ((@) (fmt_id i))) (read_dot ys)"
  by (rule read_dot_plain) (auto simp: list_all_iff fmt_id_def is_digit_def dest!: is_digit_decimal)



end
