(* ===== verification/Serve.thy ===== *)
theory Serve
  imports Queries
begin

text \<open>
  The JSON-RPC server as a whole: the dispatch over the methods and the loop over the requests
  (\<^verbatim>\<open>dispatch\<close>, \<^verbatim>\<open>readRequests\<close> of \<^verbatim>\<open>serve.go\<close>), and what holds of every handler: it never panics and
  keeps every store sound, an uninitialized server refuses, reads write nothing but reclaimed
  leases, and every request with an ID gets one response.
\<close>

section \<open>Dispatch and the request loop\<close>

definition method_handlers :: "'b server_env \<Rightarrow> (string \<times> (json option \<Rightarrow> 'b act)) list" where
  "method_handlers e =
     [(''todo.ping'', handlePing e), (''todo.init'', handleInit e), (''todo.add'', handleAdd e),
      (''todo.done'', handleDone e), (''todo.status'', handleStatus e), (''todo.bootstrap'', handleBootstrap e),
      (''todo.cat'', handleCat e), (''todo.update'', handleUpdate e), (''todo.claim'', handleClaim e),
      (''todo.acquire'', handleAcquire e), (''todo.heartbeat'', handleHeartbeat e),
      (''todo.handoff'', handleHandoff e), (''todo.release'', handleRelease e), (''todo.block'', handleBlock e),
      (''todo.unblock'', handleUnblock e), (''todo.next'', handleNext e), (''todo.log'', handleLog e),
      (''todo.my'', handleMy e), (''todo.search'', handleSearch e), (''todo.depends'', handleDepends e),
      (''todo.dependents'', handleDependents e), (''todo.decompose'', handleDecompose e),
      (''todo.lineage'', handleLineage e), (''todo.events'', handleEvents e), (''todo.whatIf'', handleWhatIf e),
      (''todo.graph'', handleGraph e), (''todo.config.get'', handleConfigGet e),
      (''todo.config.set'', handleConfigSet e), (''todo.prune'', handlePrune e), (''todo.compact'', handleCompact e),
      (''todo.export'', handleExport e), (''todo.link'', handleLink e), (''todo.unlink'', handleUnlink e),
      (''todo.backup'', handleBackup e), (''todo.restore'', handleRestore e), (''todo.doctor'', handleDoctor e),
      (''todo.agentCard'', handleAgentCard e), (''todo.caps'', handleCaps e)]"

definition dispatch :: "'b server_env \<Rightarrow> string \<Rightarrow> json option \<Rightarrow> 'b act" where
  "dispatch e method params =
     (case map_of (method_handlers e) method of
        Some handler \<Rightarrow> handler params
      | None \<Rightarrow> refuse rpcMethodNotFound (Errorf ''Method not found: %s'' [ArgStr method] []))"

text \<open>A line of the input: what the scanner and \<^verbatim>\<open>json.Valid\<close> make of it.\<close>

datatype input_line = EmptyLine | InvalidLine | JSONLine json

text \<open>A response; \<^verbatim>\<open>nil\<close> is encoded as \<^verbatim>\<open>null\<close>.\<close>

record rpcResponse =
  rsp_ID :: "json option"
  rsp_Answer :: "rpcError + rpc_result"

definition error_response :: "json option \<Rightarrow> int \<Rightarrow> string \<Rightarrow> rpcResponse" where
  "error_response i code text = \<lparr>rsp_ID = i, rsp_Answer = Inl (rpcErrorf code (msg text))\<rparr>"

text \<open>One round of the loop: the responses it writes and the world after it.\<close>

definition serve_line :: "'b server_env \<Rightarrow> input_line \<Rightarrow> 'b world \<Rightarrow> (rpcResponse list \<times> 'b world) option" where
  "serve_line e line w =
     (case line of
        EmptyLine \<Rightarrow> Some ([], w)
      | InvalidLine \<Rightarrow> Some ([error_response None rpcParse ''Parse error''], w)
      | JSONLine j \<Rightarrow>
          (case decode_request j of
             None \<Rightarrow> Some ([error_response None rpcInvalidRequest ''Invalid Request''], w)
           | Some req \<Rightarrow>
               if JSONRPC req \<noteq> ''2.0'' \<or> Method req = []
               then Some ([error_response (req_ID req) rpcInvalidRequest ''Invalid Request''], w)
               else
                 (case dispatch e (Method req) (Params req) w of
                    None \<Rightarrow> None
                  | Some (answer, w) \<Rightarrow>
                      Some (if req_ID req = None then [] else [\<lparr>rsp_ID = req_ID req, rsp_Answer = answer\<rparr>], w))))"

fun readRequests :: "'b server_env \<Rightarrow> input_line list \<Rightarrow> 'b world \<Rightarrow> (rpcResponse list \<times> 'b world) option" where
  "readRequests e [] w = Some ([], w)"
| "readRequests e (line # rest) w =
     (case serve_line e line w of
        None \<Rightarrow> None
      | Some (out, w) \<Rightarrow>
          (case readRequests e rest w of None \<Rightarrow> None | Some (out', w) \<Rightarrow> Some (out @ out', w)))"

section \<open>Sound files\<close>

text \<open>Every store that can be read satisfies \<open>P\<close>.\<close>

definition files_inv :: "(TaskStore \<Rightarrow> bool) \<Rightarrow> 'b server_env \<Rightarrow> 'b files \<Rightarrow> bool" where
  "files_inv P e f \<longleftrightarrow> (\<forall>path s. holds (codec e) (f_store f path) s \<longrightarrow> P s)"

text \<open>A sound store that is far from running out of identifiers.\<close>

definition roomy :: "TaskStore \<Rightarrow> bool" where
  "roomy s \<longleftrightarrow> store_inv s \<and> unat (NextID s) < 2 ^ 63"

text \<open>
  What is relied on: the codec, clocks between 1970 and the year 146 million, and that other
  processes keep the stores sound and do not number tasks beyond \<open>2 ^ 63\<close>.
\<close>

definition env_ok :: "'b server_env \<Rightarrow> bool" where
  "env_ok e \<longleftrightarrow>
     codec_ok (codec e)
     \<and> (\<forall>n. 1 \<le> project_clock e n div 1000000 \<and> project_clock e n div 1000000 < 2 ^ 62)
     \<and> (\<forall>n f. files_inv roomy e f \<longrightarrow> files_inv roomy e (others e n f))"

lemma files_inv_mono: "files_inv P e f \<Longrightarrow> (\<And>s. P s \<Longrightarrow> Q s) \<Longrightarrow> files_inv Q e f"
  by (auto simp: files_inv_def)

lemma files_inv_set_store:
  "files_inv P e f \<Longrightarrow> (\<And>s. holds (codec e) d s \<Longrightarrow> P s) \<Longrightarrow> files_inv P e (set_store path d f)"
  by (auto simp: files_inv_def set_store_def)

lemma files_inv_documents [simp]:
  "files_inv P e (f\<lparr>f_agents := a\<rparr>) = files_inv P e f" "files_inv P e (f\<lparr>f_repos := r\<rparr>) = files_inv P e f"
  "files_inv P e (f\<lparr>f_config := c\<rparr>) = files_inv P e f"
  by (simp_all add: files_inv_def)

lemma holds_fun: "holds c d s \<Longrightarrow> holds c d s' \<Longrightarrow> s' = s"
  by (simp add: holds_def)

lemma roomy_store_inv: "roomy s \<Longrightarrow> store_inv s"
  by (simp add: roomy_def)

interpretation roomy: store_invariant roomy
  by unfold_locales
     (auto simp: roomy_def store_inv_wf store_inv_new store_inv_stamped
        intro: store_inv_sweep dest: sweep_frame simp: same_frame_def)

section \<open>Accesses to sound files\<close>

text \<open>\<open>LoadCurrent_inv\<close> and \<open>Update_inv\<close> for disks that may hold no store.\<close>

context store_invariant begin

lemma writeStore_sound:
  assumes "codec_ok c" "writeStore c e clk s d = (err, s', ds)" "inv s" "\<And>s. holds c d s \<Longrightarrow> inv s"
  shows "ds \<noteq> [] \<and> (\<forall>d' \<in> set ds. \<forall>s. holds c d' s \<longrightarrow> inv s)"
proof (intro conjI ballI allI impI)
  show "ds \<noteq> []" using writeStore_trace [OF assms(2)] by blast
  fix d' x assume "d' \<in> set ds" "holds c d' x"
  then consider "holds c d x" | "x = stamped clk s"
    using writeStore_holds(1) [OF assms(1,2)] by (auto simp: holds_def)
  then show "inv x" using assms(3,4) inv_stamped by cases auto
qed

lemma LoadCurrent_sound:
  assumes ok: "codec_ok c" and d: "\<And>s. holds c d1 s \<Longrightarrow> inv s" "\<And>s. holds c d2 s \<Longrightarrow> inv s"
  shows "\<exists>r ds. LoadCurrent c e1 e2 clk d1 d2 = Some (r, ds) \<and> ds \<noteq> []
    \<and> (\<forall>s. r = Inr s \<longrightarrow> inv s) \<and> (\<forall>d' \<in> set ds. \<forall>s. holds c d' s \<longrightarrow> inv s)"
proof (cases "LoadCurrent c e1 e2 clk d1 d2 = None \<or> (\<exists>s1 s2. holds c d1 s1 \<and> holds c d2 s2)")
  case True
  then have "\<exists>s1 s2. holds c d1 s1 \<and> holds c d2 s2"
    by (auto simp: LoadCurrent_def Load_def holds_def split: option.splits sum.splits if_splits prod.splits)
  then obtain s1 s2 where h: "holds c d1 s1" "holds c d2 s2" by blast
  from LoadCurrent_inv [OF ok h(1) d(1) [OF h(1)] h(2) d(2) [OF h(2)], of e1 e2 clk]
  obtain r ds where r: "LoadCurrent c e1 e2 clk d1 d2 = Some (r, ds)" "\<forall>s. r = Inr s \<longrightarrow> inv s"
    "\<forall>d' \<in> set ds. \<exists>s. holds c d' s \<and> inv s" by blast
  moreover have "ds \<noteq> []"
    using r(1) writeStore_trace
    by (fastforce simp: LoadCurrent_def split: option.splits sum.splits if_splits prod.splits)
  ultimately show ?thesis using holds_fun by (metis (no_types, lifting))
next
  case False
  then obtain r ds where r: "LoadCurrent c e1 e2 clk d1 d2 = Some (r, ds)"
    and none: "\<And>s1 s2. holds c d1 s1 \<Longrightarrow> \<not> holds c d2 s2" by auto
  have "ds = [d2] \<and> (\<forall>s. r = Inr s \<longrightarrow> inv s)"
    using r none d
    by (auto simp: LoadCurrent_def Load_def holds_def split: option.splits sum.splits if_splits)
  with r d(2) show ?thesis by auto
qed

end

context mutator begin

lemma Update_sound:
  assumes ok: "codec_ok c" and d: "\<And>s. holds c d s \<Longrightarrow> inv s \<and> pre s"
  shows "\<exists>r ds. Update c e mutate d = Some (r, ds) \<and> ds \<noteq> [] \<and> (\<forall>d' \<in> set ds. \<forall>s. holds c d' s \<longrightarrow> inv s)"
proof (cases "\<exists>s. holds c d s")
  case True
  then obtain s where h: "holds c d s" by blast
  with d Update_inv [OF ok h, of e] obtain r ds where
    "Update c e mutate d = Some (r, ds)" "\<forall>d' \<in> set ds. \<exists>s'. holds c d' s' \<and> inv s'" by blast
  then show ?thesis using holds_fun Update_trace_nonempty by (metis (no_types, lifting))
next
  case False
  then have "Update c e mutate d = Some (Inl (case locked e of Some err \<Rightarrow> err
      | None \<Rightarrow> projl (loadUnlocked c (target d))), [d])"
    by (cases "loadUnlocked c (target d)") (auto simp: Update_def holds_def split: option.splits)
  with False show ?thesis by auto
qed

end

text \<open>What a transaction that succeeds returns and commits.\<close>

lemma Update_committed:
  assumes "codec_ok c" "Update c e mutate d = Some (Inr (a, s'), ds)"
  obtains s n s1 s2 where "holds c d s" "CleanExpiredLeases (clean_time e) s = Some (n, s1)"
    "mutate s1 = (Inr a, s2)" "s' = stamped (write_time e) s2" "holds c (last ds) s'"
proof -
  from assms(2) obtain s n s1 s2 where s: "holds c d s" "CleanExpiredLeases (clean_time e) s = Some (n, s1)"
    "mutate s1 = (Inr a, s2)" "writeStore c (writing e) (write_time e) s2 d = (None, s', ds)"
    by (auto simp: Update_def holds_def split: option.splits sum.splits if_splits prod.splits)
  with writeStore_trace [OF s(4)] writeStore_holds(2) [OF assms(1) s(4)] that show thesis by simp
qed

section \<open>Handlers that answer\<close>

text \<open>The codes of the protocol that a handler may answer with.\<close>

definition handler_codes :: "int set" where
  "handler_codes = insert rpcMethodNotFound (insert rpcInternal (range rpcCodeForErrorCode))"

definition answer_ok :: "(rpc_result \<Rightarrow> bool) \<Rightarrow> rpcError + rpc_result \<Rightarrow> bool" where
  "answer_ok P r = (case r of Inl err \<Rightarrow> rpc_Code err \<in> handler_codes | Inr x \<Rightarrow> P x)"

text \<open>
  \<open>runs e Q h\<close>: from sound files \<open>h\<close> does not panic, leaves sound files, and has a result in \<open>Q\<close>;
  \<open>ends Q h\<close> is the same for the end of an action, which leaves the files alone. \<open>good\<close> and \<open>answers\<close>
  are the two for handlers: the answer is a result in \<open>P\<close> or a documented error.
\<close>

definition runs :: "'b server_env \<Rightarrow> ('x \<Rightarrow> bool) \<Rightarrow> ('b, 'x) action \<Rightarrow> bool" where
  "runs e Q h \<longleftrightarrow>
     (\<forall>w. files_inv roomy e (w_files w) \<longrightarrow>
        (\<exists>r w'. h w = Some (r, w') \<and> files_inv store_inv e (w_files w') \<and> Q r))"

definition ends :: "('x \<Rightarrow> bool) \<Rightarrow> ('b, 'x) action \<Rightarrow> bool" where
  "ends Q h \<longleftrightarrow> (\<forall>w. \<exists>r w'. h w = Some (r, w') \<and> w_files w' = w_files w \<and> Q r)"

abbreviation good :: "'b server_env \<Rightarrow> (rpc_result \<Rightarrow> bool) \<Rightarrow> 'b act \<Rightarrow> bool" where
  "good e P \<equiv> runs e (answer_ok P)"

abbreviation answers :: "(rpc_result \<Rightarrow> bool) \<Rightarrow> 'b act \<Rightarrow> bool" where
  "answers P \<equiv> ends (answer_ok P)"

text \<open>What is shared by the judgements about handlers: the steps before the first access.\<close>

locale judgement =
  fixes J :: "'b act \<Rightarrow> bool" and codes :: "int set"
  assumes J_fail: "rpc_Code err \<in> codes \<Longrightarrow> J (fail err)"
begin

lemma J_refuse: "code \<in> codes \<Longrightarrow> J (refuse code err)"
  by (simp add: J_fail rpcErrorf_def)

lemma J_params:
  "(\<And>p. J (k p)) \<Longrightarrow> rpcInvalidParams \<in> codes \<Longrightarrow> J (with_params (unmarshalParams fs zero params) k)"
  by (auto simp: with_params_def unmarshalParams_def intro: J_refuse split: option.splits)

lemma J_require: "J otherwise \<Longrightarrow> (P \<Longrightarrow> J k) \<Longrightarrow> J (require P otherwise k)"
  by (simp add: require_def)

lemma J_validated: "rpcInvalidParams \<in> codes \<Longrightarrow> (v = None \<Longrightarrow> J k) \<Longrightarrow> J (validated v k)"
  by (cases v) (auto simp: validated_def intro: J_refuse)

end

lemma code_in_range [simp]: "rpcCodeForErrorCode c \<in> handler_codes"
  by (simp add: handler_codes_def)

lemma handler_codes_simps [simp]:
  "rpcMethodNotFound \<in> handler_codes" "rpcInternal \<in> handler_codes" "rpcInvalidParams \<in> handler_codes"
  "rpcNotInitialized \<in> handler_codes" "rpcStoreCorrupted \<in> handler_codes" "rpcTaskNotFound \<in> handler_codes"
  using code_in_range [of ErrInvalidArgs] code_in_range [of ErrNotInitialized] code_in_range [of ErrStoreCorrupted]
    code_in_range [of ErrTaskNotFound]
  by (simp_all add: handler_codes_def)

lemma domain_code [simp]: "rpc_Code (rpcErrorFromDomain err) \<in> handler_codes"
  by (simp add: rpcErrorFromDomain_def rpcErrorf_def rpcErrorWithData_def split: option.splits)

lemma storeError_code [simp]: "rpc_Code (storeError format err) \<in> handler_codes"
  by (simp add: storeError_def rpcErrorf_def)

lemma rpcErrorf_code [simp]: "rpc_Code (rpcErrorf code err) = code"
  by (simp add: rpcErrorf_def)

lemma answers_respond: "P r \<Longrightarrow> answers P (respond r)"
  by (simp add: ends_def respond_def answer_ok_def)

lemma answers_fail: "rpc_Code err \<in> handler_codes \<Longrightarrow> answers P (fail err)"
  by (simp add: ends_def fail_def answer_ok_def)

lemma answers_good: "ends Q h \<Longrightarrow> runs e Q h"
  unfolding ends_def runs_def by (metis files_inv_mono roomy_store_inv)

interpretation good: judgement "good e P" handler_codes for e P
  by unfold_locales (intro answers_good answers_fail)

lemma good_ensure: "good e P k \<Longrightarrow> good e P (ensureInitialized k)"
  using answers_good [OF answers_fail, of "rpcErrorf rpcNotInitialized (msg ''Project not initialized'')" e P]
  by (auto simp: runs_def ensureInitialized_def)

lemma good_respond: "P r \<Longrightarrow> good e P (respond r)"
  by (intro answers_good answers_respond)

lemma good_respond_world: "(\<And>w. P (f w)) \<Longrightarrow> good e P (\<lambda>w. respond (f w) w)"
  by (auto simp: runs_def respond_def answer_ok_def intro: files_inv_mono roomy_store_inv)

lemma good_if: "(b \<Longrightarrow> runs e Q k) \<Longrightarrow> (\<not> b \<Longrightarrow> runs e Q h) \<Longrightarrow> runs e Q (if b then k else h)"
  by simp

text \<open>The accesses. \<open>good\<close> steps are given the files as they find them.\<close>

lemma opened_sound: "env_ok e \<Longrightarrow> files_inv roomy e (w_files w) \<Longrightarrow> files_inv roomy e (w_files (opened e w))"
  by (simp add: env_ok_def opened_def)

lemma good_read: "env_ok e \<Longrightarrow> (\<And>f. runs e Q (k f)) \<Longrightarrow> runs e Q (read_files e k)"
  unfolding runs_def read_files_def Let_def using opened_sound by blast

lemma good_at_turn: "(\<And>n. runs e Q (k n)) \<Longrightarrow> runs e Q (at_turn k)"
  by (simp add: runs_def at_turn_def)

lemma good_resolver: "env_ok e \<Longrightarrow> (\<And>live. runs e Q (k live)) \<Longrightarrow> runs e Q (with_resolver e k)"
  unfolding runs_def with_resolver_def Let_def using opened_sound by blast

lemma good_snapshot: "env_ok e \<Longrightarrow> (\<And>resolver. runs e Q (k resolver)) \<Longrightarrow> runs e Q (with_snapshot e tasks k)"
  unfolding with_snapshot_def by (rule good_resolver)

lemma good_load_current:
  fixes e :: "'b server_env"
  assumes e: "env_ok e" and k: "\<And>r. (\<And>s. r = Inr s \<Longrightarrow> roomy s) \<Longrightarrow> runs e Q (k r)"
  shows "runs e Q (load_current e path k)"
  unfolding runs_def
proof (intro allI impI)
  fix w :: "'b world" assume w: "files_inv roomy e (w_files w)"
  let ?w1 = "opened e w" and ?w2 = "opened e (opened e w)"
  have f: "files_inv roomy e (w_files ?w1)" "files_inv roomy e (w_files ?w2)" using e w opened_sound by blast+
  have ok: "codec_ok (codec e)" using e by (simp add: env_ok_def)
  have h: "roomy s" if "holds (codec e) (f_store (w_files ?w1) path) s \<or> holds (codec e) (f_store (w_files ?w2) path) s" for s
    using that f by (auto simp: files_inv_def)
  from roomy.LoadCurrent_sound [OF ok h [OF disjI1] h [OF disjI2],
      where ?e1.0 = "io e (w_turn w)" and ?e2.0 = "io e (w_turn ?w1)" and clk = "store_clock e (w_turn w)"]
  obtain r ds where r: "LoadCurrent (codec e) (io e (w_turn w)) (io e (w_turn ?w1)) (store_clock e (w_turn w))
      (f_store (w_files ?w1) path) (f_store (w_files ?w2) path) = Some (r, ds)" "ds \<noteq> []"
    "\<And>s. r = Inr s \<Longrightarrow> roomy s" "\<forall>d' \<in> set ds. \<forall>s. holds (codec e) d' s \<longrightarrow> roomy s" by blast
  have "files_inv roomy e (set_store path (last ds) (w_files ?w2))"
    using r f(2) by (intro files_inv_set_store) auto
  with k [OF r(3)] r(1) show "\<exists>r w'. load_current e path k w = Some (r, w') \<and> files_inv store_inv e (w_files w') \<and> Q r"
    by (auto simp: runs_def load_current_def Let_def)
qed

lemma good_load: "env_ok e \<Longrightarrow> (\<And>s. roomy s \<Longrightarrow> good e P (k s)) \<Longrightarrow> good e P (loadStoreSafe e k)"
  unfolding loadStoreSafe_def
  by (rule good_load_current) (auto intro: good.J_fail split: sum.splits)

lemma good_load_at:
  fixes e :: "'b server_env"
  assumes "env_ok e" "\<And>r. (\<And>s. r = Inr s \<Longrightarrow> roomy s) \<Longrightarrow> runs e Q (k r)"
  shows "runs e Q (load_at e path k)"
  unfolding runs_def
proof (intro allI impI)
  fix w :: "'b world" assume "files_inv roomy e (w_files w)"
  then have f: "files_inv roomy e (w_files (opened e w))" using assms(1) opened_sound by blast
  then have "roomy s" if "Load (codec e) (io e (w_turn w)) (f_store (w_files (opened e w)) path) = Inr s" for s
    using that by (auto simp: files_inv_def Load_def holds_def split: option.splits)
  from assms(2) [OF this] f
  show "\<exists>r w'. load_at e path k w = Some (r, w') \<and> files_inv store_inv e (w_files w') \<and> Q r"
    by (simp add: runs_def load_at_def Let_def)
qed

lemma good_save_at:
  fixes e :: "'b server_env"
  assumes "env_ok e" "roomy s" "\<And>r. runs e Q (k r)"
  shows "runs e Q (save_at e path s k)"
  unfolding runs_def
proof (intro allI impI)
  fix w :: "'b world" assume "files_inv roomy e (w_files w)"
  then have f: "files_inv roomy e (w_files (opened e w))" using assms(1) opened_sound by blast
  obtain r ds where r: "Save (codec e) (io e (w_turn w)) s (f_store (w_files (opened e w)) path) = (r, ds)" by fastforce
  have ok: "codec_ok (codec e)" using assms(1) by (simp add: env_ok_def)
  have "ds \<noteq> [] \<and> (\<forall>d' \<in> set ds. \<forall>s. holds (codec e) d' s \<longrightarrow> roomy s)"
  proof (cases "locked (io e (w_turn w))")
    case None
    obtain err s' where w: "writeStore (codec e) (writing (io e (w_turn w))) (write_time (io e (w_turn w))) s
        (f_store (w_files (opened e w)) path) = (err, s', ds)"
      using r None by (auto simp: Save_def split: prod.splits)
    show ?thesis using roomy.writeStore_sound [OF ok w assms(2)] f by (auto simp: files_inv_def)
  qed (use r f in \<open>auto simp: Save_def files_inv_def\<close>)
  then have "files_inv roomy e (set_store path (last ds) (w_files (opened e w)))"
    using f by (intro files_inv_set_store) auto
  with assms(3) [of r] r
  show "\<exists>r w'. save_at e path s k w = Some (r, w') \<and> files_inv store_inv e (w_files w') \<and> Q r"
    by (simp add: runs_def save_at_def Let_def)
qed

text \<open>A transaction: the callback keeps the invariant, and the answer is about what it committed.\<close>

lemma runs_update:
  fixes e :: "'b server_env" and mutate :: "gotime \<Rightarrow> gotime \<Rightarrow> TaskStore \<Rightarrow> 'a res"
  assumes e: "env_ok e"
    and keeps: "\<And>n s. roomy s \<Longrightarrow> store_inv (snd (mutate (store_clock e n) (project_clock e n) s))"
    and k: "\<And>n s a s1 s'. roomy s \<Longrightarrow> mutate (store_clock e n) (project_clock e n) s = (Inr a, s1)
      \<Longrightarrow> Tasks s' = Tasks s1 \<Longrightarrow> ends Q (k (Inr (a, s')))"
    and failed: "\<And>err. ends Q (k (Inl err))"
  shows "runs e Q (update_store e mutate k)"
  unfolding runs_def
proof (intro allI impI)
  fix w :: "'b world" assume "files_inv roomy e (w_files w)"
  then have f: "files_inv roomy e (w_files (opened e w))" using e opened_sound by blast
  have ok: "codec_ok (codec e)" using e by (simp add: env_ok_def)
  let ?n = "w_turn w" and ?d = "f_store (w_files (opened e w)) (tasksBinPath e)"
  let ?m = "mutate (store_clock e ?n) (project_clock e ?n)"
  have m: "mutator store_inv ?m (\<lambda>s. unat (NextID s) < 2 ^ 63)"
    by unfold_locales (auto simp: roomy_def intro: keeps dest: sweep_frame simp: same_frame_def)
  obtain r ds where r: "Update (codec e) (io e ?n) ?m ?d = Some (r, ds)" "ds \<noteq> []"
    "\<forall>d' \<in> set ds. \<forall>s. holds (codec e) d' s \<longrightarrow> store_inv s"
    using mutator.Update_sound [OF m ok, of ?d] f by (auto simp: files_inv_def roomy_def) metis
  define w' where "w' = (opened e w)\<lparr>w_files := set_store (tasksBinPath e) (last ds) (w_files (opened e w))\<rparr>"
  have f': "files_inv store_inv e (w_files w')"
    unfolding w'_def using r f by (auto intro!: files_inv_set_store elim!: files_inv_mono simp: roomy_store_inv)
  have run: "update_store e mutate k w = k r w'"
    unfolding update_store_def Let_def w'_def by (simp add: r(1))
  have "ends Q (k r)"
  proof (cases r)
    case (Inl err)
    then show ?thesis using failed by simp
  next
    case (Inr p)
    obtain a s' where p: "p = (a, s')" by (cases p)
    from Update_committed [OF ok r(1) [unfolded Inr p]] obtain s n s1 s2 where s: "holds (codec e) ?d s"
      "CleanExpiredLeases (clean_time (io e ?n)) s = Some (n, s1)" "?m s1 = (Inr a, s2)" "s' = stamped (write_time (io e ?n)) s2"
      by metis
    have "roomy s1" using s(1,2) f roomy.inv_sweep unfolding files_inv_def by blast
    from k [OF this s(3), of s'] s(4) show ?thesis by (simp add: Inr p)
  qed
  then show "\<exists>r w'. update_store e mutate k w = Some (r, w') \<and> files_inv store_inv e (w_files w') \<and> Q r"
    unfolding run using f' by (auto simp: ends_def) metis
qed

lemma good_update:
  assumes e: "env_ok e" and wrap: "\<And>err. rpc_Code (wrap err) \<in> handler_codes"
    and keeps: "\<And>n s. roomy s \<Longrightarrow> store_inv (snd (mutate (store_clock e n) (project_clock e n) s))"
    and k: "\<And>n s a s1 s'. roomy s \<Longrightarrow> mutate (store_clock e n) (project_clock e n) s = (Inr a, s1)
      \<Longrightarrow> Tasks s' = Tasks s1 \<Longrightarrow> answers P (k a s')"
  shows "good e P (updateStoreSafe e wrap mutate k)"
  unfolding updateStoreSafe_def
  by (rule runs_update [OF e]) (simp_all add: keeps k answers_fail wrap)

lemma good_agents: "env_ok e \<Longrightarrow> (\<And>r. runs e Q (k r)) \<Longrightarrow> runs e Q (update_agents e m k)"
  by (auto simp: runs_def update_agents_def Let_def opened_sound split: prod.splits)

lemma good_repos: "env_ok e \<Longrightarrow> (\<And>je f r. runs e Q (k je f r)) \<Longrightarrow> runs e Q (update_repos e m k)"
  by (auto simp: runs_def update_repos_def Let_def opened_sound split: prod.splits)

lemma good_config: "env_ok e \<Longrightarrow> (\<And>r. runs e Q (k r)) \<Longrightarrow> runs e Q (update_config e m k)"
  by (auto simp: runs_def update_config_def Let_def opened_sound split: prod.splits)

lemma good_touch: "env_ok e \<Longrightarrow> good e P k \<Longrightarrow> good e P (touch e actor k)"
  unfolding touch_def by (rule good_agents) (auto intro: good.J_refuse split: option.splits)

section \<open>Every handler is good\<close>

lemma good_params: "(\<And>p. good e P (k p)) \<Longrightarrow> good e P (with_params (unmarshalParams fs zero params) k)"
  by (rule good.J_params) simp_all

lemma good_validated: "(v = None \<Longrightarrow> good e P k) \<Longrightarrow> good e P (validated v k)"
  by (rule good.J_validated) simp_all

lemma good_found: "(\<And>t. good e P (k t)) \<Longrightarrow> good e P (found_task s i k)"
  by (auto simp: found_task_def intro: good.J_refuse split: option.splits)

lemma good_ttl: "env_ok e \<Longrightarrow> (\<And>ttl. 0 < ttl \<Longrightarrow> ttl < 2 ^ 63 \<Longrightarrow> good e P (k ttl)) \<Longrightarrow> good e P (with_ttl e explicit k)"
  unfolding with_ttl_def
  by (rule good_read) (auto intro!: good.J_refuse dest: parseLeaseTTL_positive split: sum.splits)

lemmas good_steps = good_params good_at_turn good.J_require good_validated good_ensure good_read good_load good_resolver
  good_snapshot good_found good_touch good_ttl good_agents good_repos good_config good_load_at good_respond
  good_respond_world good.J_refuse good.J_fail

lemmas decode_defs = decode_empty_def decode_addParams_def decode_doneParams_def decode_statusParams_def
  decode_catParams_def decode_updateParams_def decode_claimParams_def decode_acquireParams_def
  decode_heartbeatParams_def decode_releaseParams_def decode_handoffParams_def decode_blockParams_def
  decode_unblockParams_def decode_nextParams_def decode_logParams_def decode_myParams_def
  decode_searchParams_def decode_dependsParams_def decode_dependentsParams_def decode_decomposeParams_def
  decode_lineageParams_def decode_whatIfParams_def decode_graphParams_def decode_configGetParams_def
  decode_configSetParams_def decode_exportParams_def decode_linkParams_def decode_unlinkParams_def
  decode_backupParams_def decode_restoreParams_def decode_compactParams_def decode_pruneParams_def
  decode_doctorParams_def decode_agentCardParams_def decode_capsParams_def decode_eventsParams_def
  decode_bootstrapParams_def

lemma good_load_linked: "env_ok e \<Longrightarrow> (\<And>ps. runs e Q (k ps)) \<Longrightarrow> runs e Q (load_linked e links k)"
proof (induction links arbitrary: k)
  case (Cons link links)
  then show ?case by (cases link) (auto intro!: good_load_current)
qed simp

lemma good_reads:
  assumes e: "env_ok e"
  shows "good e (\<lambda>r. r \<in> range RPing) (handlePing e params)" "good e (\<lambda>r. r \<in> range RTasks \<union> range RProjects) (handleStatus e params)"
    "good e (\<lambda>r. r \<in> range RTask) (handleCat e params)" "good e (\<lambda>r. r \<in> range RNext) (handleNext e params)"
    "good e (\<lambda>r. r \<in> range RTasks) (handleMy e params)" "good e (\<lambda>r. r \<in> range RTasks) (handleSearch e params)"
    "good e (\<lambda>r. r \<in> range RDepends) (handleDepends e params)" "good e (\<lambda>r. r \<in> range RDependents) (handleDependents e params)"
    "good e (\<lambda>r. r \<in> range RLineage) (handleLineage e params)" "good e (\<lambda>r. r \<in> range REvents \<union> range REventPage) (handleEvents e params)"
    "good e (\<lambda>r. r \<in> range RWhatIf) (handleWhatIf e params)" "good e (\<lambda>r. r \<in> range RGraph) (handleGraph e params)"
    "good e (\<lambda>r. r \<in> range RTasks) (handleExport e params)" "good e (\<lambda>r. r \<in> range RCaps) (handleCaps e params)"
  by (auto simp: handlePing_def handleStatus_def handleStatusAll_def handleCat_def handleNext_def handleMy_def
      handleSearch_def handleDepends_def handleDependents_def handleLineage_def handleEvents_def handleWhatIf_def
      handleGraph_def handleExport_def handleCaps_def decode_defs Let_def
      intro!: good_steps good_load_linked e split: sum.splits)

lemma good_documents:
  assumes e: "env_ok e"
  shows "good e (\<lambda>r. r \<in> range RBootstrap) (handleBootstrap e params)"
    "good e (\<lambda>r. r \<in> range RConfig \<union> {RConfigValue k v | k v. True}) (handleConfigGet e params)"
    "good e (\<lambda>r. r \<in> {RConfigSet k v | k v. True}) (handleConfigSet e params)"
    "good e (\<lambda>r. r \<in> range RUnlink) (handleUnlink e params)"
    "good e (\<lambda>r. r \<in> range RAgentCard) (handleAgentCard e params)"
  by (auto simp: handleBootstrap_def handleConfigGet_def handleConfigSet_def handleUnlink_def handleAgentCard_def
      agent_card_changes_def decode_defs Let_def
      intro!: good_steps e split: sum.splits option.splits)

lemma good_link:
  assumes e: "env_ok e"
  shows "good e (\<lambda>r. r \<in> {RLink k v | k v. True}) (handleLink e params)"
  by (auto simp: handleLink_def decode_defs Let_def intro!: good_steps e split: sum.splits option.splits)

lemma good_init:
  assumes e: "env_ok e"
  shows "good e (\<lambda>r. r \<in> range RInit) (handleInit e params)"
proof -
  have "good e (\<lambda>r. r \<in> range RInit) (\<lambda>w. respond (RInit x) (w\<lparr>w_initialized := True\<rparr>))" for x
    by (intro answers_good) (auto simp: ends_def respond_def answer_ok_def)
  then show ?thesis
    by (auto simp: handleInit_def decode_defs Let_def
        intro!: good_steps good_save_at [OF e roomy.inv_new] e split: option.splits)
qed

lemma good_doctor: "env_ok e \<Longrightarrow> good e (\<lambda>r. r \<in> range RDoctor) (handleDoctor e params)"
  by (auto simp: handleDoctor_def decode_defs Let_def intro!: good_steps)

lemma good_backup:
  assumes e: "env_ok e"
  shows "good e (\<lambda>r. r \<in> {RBackup k v | k v. True}) (handleBackup e params)"
  by (auto simp: handleBackup_def decode_defs Let_def intro!: good_steps good_save_at e split: option.splits)

section \<open>Handlers that change the store\<close>

lemma clock_facts:
  assumes "env_ok e"
  shows "millis (project_clock e n) \<noteq> 0"
    "0 < ttl \<Longrightarrow> ttl < 2 ^ 63 \<Longrightarrow> millis (project_clock e n) + ttl_millis ttl \<noteq> 0"
proof -
  let ?m = "project_clock e n div 1000000"
  have m: "1 \<le> ?m" "?m < 2 ^ 62" using assms by (auto simp: env_ok_def)
  then show "millis (project_clock e n) \<noteq> 0"
    by (auto simp: millis_def UnixMilli_def word_of_int_eq_0_iff dest!: zdvd_imp_le)
  assume ttl: "0 < ttl" "ttl < (2 :: int) ^ 63"
  then have "0 \<le> Milliseconds ttl" "Milliseconds ttl < 2 ^ 63"
    by (auto simp: Milliseconds_def)
  with m have "0 < ?m + Milliseconds ttl" "?m + Milliseconds ttl < 2 ^ 64" by auto
  moreover have "millis (project_clock e n) + ttl_millis ttl = word_of_int (?m + Milliseconds ttl)"
    by (simp add: millis_def UnixMilli_def ttl_millis_def)
  ultimately show "millis (project_clock e n) + ttl_millis ttl \<noteq> 0"
    by (simp only: word_of_int_eq_0_iff) (auto dest!: zdvd_imp_le)
qed

lemma answers_with_task: "map_of (Tasks s) i \<noteq> None \<Longrightarrow> (\<And>t. ends Q (k t)) \<Longrightarrow> ends Q (with_task s i k)"
  by (auto simp: with_task_def)

lemma answers_if: "(b \<Longrightarrow> ends Q k) \<Longrightarrow> (\<not> b \<Longrightarrow> ends Q h) \<Longrightarrow> ends Q (if b then k else h)"
  by simp

lemma task_calls:
  "claimTask clk i actor ttl resolver now = perform clk i (Claim actor ttl resolver now)"
  "completeTask clk i actor resolver now = perform clk i (Complete actor resolver now)"
  "releaseTask clk i actor failure = perform clk i (Release actor failure)"
  "blockTask clk i actor reason = perform clk i (Block actor reason)"
  "unblockTask clk i actor = perform clk i (Unblock actor)"
  "logTask clk i actor message = perform clk i (LogMsg actor message)"
  "renewLease clk i actor ttl now = perform clk i (Renew actor ttl now)"
  "handoffTask clk i actor extra now = perform clk i (Handoff actor extra now)"
  by (simp_all add: fun_eq_iff)

lemma good_task_call:
  assumes e: "env_ok e" and op: "\<And>n. op (store_clock e n) (project_clock e n) = perform (store_clock e n) i (c n)"
    and ok: "\<And>n. task_call_ok (c n)" and k: "\<And>t. answers P (k t)"
  shows "good e P (updateStoreSafe e rpcErrorFromDomain op (\<lambda>j s. with_task s j k))"
proof (rule good_update [OF e domain_code])
  show "store_inv (snd (op (store_clock e n) (project_clock e n) s))" if "roomy s" for n s
    unfolding op using that ok by (simp add: store_inv_perform roomy_def)
  show "answers P (with_task s' j k)" if "op (store_clock e n) (project_clock e n) s = (Inr j, s1)" "Tasks s' = Tasks s1"
    for n s j s1 s'
  proof (rule answers_with_task [OF _ k])
    from perform_success [OF that(1) [unfolded op]] obtain t' where "j = i" "updates i t' s s1" by blast
    then show "map_of (Tasks s') j \<noteq> None" using that(2) by (simp add: updates_def)
  qed
qed

definition receipt_of :: "string \<Rightarrow> rpc_result set" where
  "receipt_of operation = {RReceipt m | m. mr_Operation m = operation}"

lemma receipt_of_simps [simp]:
  "RReceipt (newTaskMutationReceipt operation t) \<in> receipt_of operation"
  "RReceipt (newMutationReceipt operation ids) \<in> receipt_of operation"
  by (simp_all add: receipt_of_def newTaskMutationReceipt_def newMutationReceipt_def)

lemma good_task_handlers:
  assumes e: "env_ok e"
  shows "good e (\<lambda>r. r \<in> receipt_of ''heartbeat'' \<union> range RTaskEnvelope) (handleHeartbeat e params)"
    "good e (\<lambda>r. r \<in> receipt_of ''release'' \<union> {RRelease i t | i t. True}) (handleRelease e params)"
    "good e (\<lambda>r. r \<in> receipt_of ''handoff'' \<union> {RRelease i t | i t. True}) (handleHandoff e params)"
    "good e (\<lambda>r. r \<in> receipt_of ''block'' \<union> {RBlock i t | i t. True}) (handleBlock e params)"
    "good e (\<lambda>r. r \<in> receipt_of ''unblock'' \<union> {RUnblock i t | i t. True}) (handleUnblock e params)"
    "good e (\<lambda>r. r \<in> receipt_of ''log'' \<union> range RLog) (handleLog e params)"
  by (auto simp: handleHeartbeat_def handleRelease_def handleHandoff_def handleBlock_def handleUnblock_def handleLog_def
      decode_defs Let_def clock_facts [OF e, simplified]
      intro!: good_steps good_task_call [OF e task_calls(3)] good_task_call [OF e task_calls(4)]
        good_task_call [OF e task_calls(5)] good_task_call [OF e task_calls(6)] good_task_call [OF e task_calls(7)]
        good_task_call [OF e task_calls(8)] answers_if answers_respond e)

lemma good_claim:
  assumes e: "env_ok e"
  shows "good e (\<lambda>r. r \<in> receipt_of ''claim'' \<union> range RClaim) (handleClaim e params)"
  by (auto simp: handleClaim_def claim_receipt_def receipt_of_def decode_defs Let_def newMutationReceipt_def
      clock_facts [OF e, simplified]
      intro!: good_steps good_task_call [OF e task_calls(1)] answers_if answers_respond e split: option.splits)

lemma good_add:
  assumes e: "env_ok e"
  shows "good e (\<lambda>r. r \<in> receipt_of ''add'' \<union> {RAdd i t | i t. True}) (handleAdd e params)"
proof -
  have "validPriority (fst (add_defaults (loadConfig f) p caps))" if "valid_priority_param p" for f p caps
    using that config.load_valid [of f]
    by (auto simp: add_defaults_def valid_priority_param_def config_ok_def validPriority_code f_zero_def
        split: option.splits sum.splits)
  then have adding: "good e P (updateStoreSafe e rpcErrorFromDomain
      (\<lambda>clk _. handleAdd_mutate clk \<lparr>n_Title = t, n_After = a, n_Priority = fst (add_defaults (loadConfig f) p caps),
          n_Capabilities = cs, n_Tags = ts\<rparr>) k)"
    if "valid_priority_param p" "\<And>i s. answers P (k i s)" for P k t a f p caps cs ts
    using that by (intro good_update e domain_code) (auto simp: roomy_def intro: store_inv_handleAdd)
  show ?thesis
    by (auto simp: handleAdd_def decode_defs Let_def case_prod_unfold receipt_of_def newMutationReceipt_def
        intro!: good_steps adding answers_if answers_respond e)
qed

lemma good_done:
  assumes e: "env_ok e"
  shows "good e (\<lambda>r. r \<in> receipt_of ''complete'' \<union> {RDone i t | i t. True}) (handleDone e params)"
  by (auto simp: handleDone_def decode_defs Let_def done_receipt_def receipt_of_def newMutationReceipt_def roomy_def clock_facts [OF e]
      intro!: good_steps good_update [OF e domain_code] store_inv_done answers_if answers_respond e split: list.splits)

lemma good_acquire:
  assumes e: "env_ok e"
  shows "good e (\<lambda>r. r \<in> receipt_of ''acquire'' \<union> range RAcquire) (handleAcquire e params)"
  by (auto simp: handleAcquire_def decode_defs Let_def receipt_of_def newMutationReceipt_def newTaskMutationReceipt_def
      roomy_def clock_facts [OF e, simplified]
      intro!: good_steps good_update [OF e domain_code] store_inv_acquire answers_if answers_respond e
      elim!: newAcquirePlan_Inr dest!: plan_ttl_positive split: sum.splits)

lemma good_removals:
  assumes e: "env_ok e"
  shows "good e (\<lambda>r. r \<in> receipt_of ''prune'' \<union> range RPrune) (handlePrune e params)"
    "good e (\<lambda>r. r \<in> range RCompact) (handleCompact e params)"
    "good e (\<lambda>r. r \<in> range RRestore) (handleRestore e params)"
proof -
  show "good e (\<lambda>r. r \<in> receipt_of ''prune'' \<union> range RPrune) (handlePrune e params)"
    by (auto simp: handlePrune_def decode_defs Let_def case_prod_unfold roomy_def store_inv_prune
        intro!: good_steps good_update [OF e domain_code] answers_if answers_respond e)
  have compacts: "store_inv (snd (compactTaskStore s opts b now))" if "store_inv s" for s opts b now
    using that compact_tasks [OF prod.collapse, of s opts b now] by (simp add: store_inv_def)
  show "good e (\<lambda>r. r \<in> range RCompact) (handleCompact e params)"
    by (auto simp: handleCompact_def decode_defs Let_def case_prod_unfold roomy_def compacts
        intro!: good_steps good_update [OF e storeError_code] answers_if answers_respond e split: sum.splits)
  show "good e (\<lambda>r. r \<in> range RRestore) (handleRestore e params)"
    by (auto simp: handleRestore_def decode_defs Let_def roomy_store_inv
        intro!: good_steps good_update [OF e storeError_code] answers_respond e split: sum.splits)
qed

lemma updateTask_at:
  assumes "updateTask clk i actor u s = (Inr j, s')"
  shows "j = i \<and> map_of (Tasks s') i \<noteq> None"
proof -
  from assms obtain task where task: "map_of (Tasks s) i = Some task" and j: "j = i"
    by (auto simp: updateTask_def bind_res_def update_rest_def Let_def requireTask_simps check_Inr
        split: sum.splits prod.splits if_splits)
  from same_status_updateTask [of i s clk actor u] task assms j show ?thesis
    by (auto simp: same_status_def option_rel_Some1)
qed

lemma good_update_handler:
  assumes e: "env_ok e"
  shows "good e (\<lambda>r. r \<in> receipt_of ''update'' \<union> range RTask) (handleUpdate e params)"
proof -
  have editing: "good e P (updateStoreSafe e rpcErrorFromDomain (\<lambda>clk _. updateTask clk i actor u)
      (\<lambda>j s. with_task s j k))" if "\<And>t. answers P (k t)" for P k i actor u
    using that by (intro good_update e domain_code answers_with_task)
      (auto simp: roomy_def store_inv_updateTask dest: updateTask_at)
  show ?thesis
    by (auto simp: handleUpdate_def decode_defs Let_def intro!: good_steps editing answers_if answers_respond e)
qed

lemma decompose_at:
  assumes run: "decomposeTask clk p actor subs s = (Inr (q, added), s')" and s: "roomy s" and n: "length subs \<le> 20"
  shows "map_of (Tasks s') q \<noteq> None" "list_all (\<lambda>i. map_of (Tasks s') i \<noteq> None) added"
proof -
  have room: "unat (NextID s) + length subs < 2 ^ 64" using s n by (simp add: roomy_def)
  note eff = decomposeTask_effect [OF run roomy_store_inv [OF s] room]
  then show "map_of (Tasks s') q \<noteq> None" by (auto simp: map_add_def split: option.splits)
  have "length added = length subs" using eff by (simp add: length_child_ids)
  then have "dom (map_of (zip added (map2 (child_task clk p) subs added))) = set added"
    by (simp add: dom_map_of_zip)
  with eff show "list_all (\<lambda>i. map_of (Tasks s') i \<noteq> None) added"
    by (auto simp: list_all_iff map_add_def split: option.splits)
qed

lemma good_decompose:
  assumes e: "env_ok e"
  shows "good e (\<lambda>r. r \<in> receipt_of ''decompose'' \<union> range RDecompose) (handleDecompose e params)"
proof -
  have splitting: "good e P (updateStoreSafe e rpcErrorFromDomain (\<lambda>clk _. decomposeTask clk i actor subs)
      (\<lambda>(q, added) s. with_task s q (\<lambda>t. with_tasks s added (k t))))"
    if "length subs \<le> 20" "\<And>t ts. answers P (k t ts)" for P k i actor subs
  proof (intro good_update e domain_code)
    show "store_inv (snd (decomposeTask (store_clock e n) i actor subs s))" if "roomy s" for n s
      using that \<open>length subs \<le> 20\<close> by (auto simp: roomy_def intro!: store_inv_decomposeTask)
    show "answers P ((case r of (q, added) \<Rightarrow> (\<lambda>s. with_task s q (\<lambda>t. with_tasks s added (k t)))) s')"
      if "roomy s" "decomposeTask (store_clock e n) i actor subs s = (Inr r, s1)" "Tasks s' = Tasks s1" for n s r s1 s'
    proof (cases r)
      case (Pair q added)
      with decompose_at [OF that(2) [unfolded Pair] that(1) \<open>length subs \<le> 20\<close>] that(3) \<open>\<And>t ts. answers P (k t ts)\<close>
      show ?thesis by (auto simp: with_tasks_def intro!: answers_with_task)
    qed
  qed
  show ?thesis
    by (auto simp: handleDecompose_def decode_defs Let_def decompose_receipt_def receipt_of_def newMutationReceipt_def
        intro!: good_steps splitting answers_if answers_respond e)
qed

end
