(* ===== verification/Cli.thy ===== *)
theory Cli
  imports CliText Serve
begin

text \<open>
  The commands of the command line (\<^verbatim>\<open>cmd_*.go\<close>) and the entry point \<^verbatim>\<open>Execute\<close> (\<^verbatim>\<open>todo.go\<close>). A command is
  a step of the world of \<open>Server\<close>: it prints one output, or ends the process through \<^verbatim>\<open>fail\<close> with an
  error code; \<open>None\<close> is a panic. Every command has its arguments as the command line passes them.
\<close>

section \<open>Outputs and steps\<close>

text \<open>A text, or one of the JSON documents.\<close>

record agentsEnvelope =
  ags_SchemaVersion :: string
  ags_Agents :: "(string, AgentCard) gomap"

datatype cli_output =
    OText string
  | OReceipt mutationReceipt
  | OTask taskEnvelope
  | OTasks tasksEnvelope
  | OProjects projectsEnvelope
  | OAcquire acquireEnvelope
  | ODecompose decomposeResult
  | ONext nextEnvelope
  | OBootstrap bootstrapResult
  | OCaps capsEnvelope
  | ODepends dependsResult
  | ODependents dependentsResult
  | OLineage lineageEnvelope
  | OWhatIf whatIfResult
  | OGraph graphResult
  | OEvents "protocolEvent list"
  | OEventPage eventsEnvelope
  | OCompact compactResult
  | OAgents agentsEnvelope
  | OAgent agentCardResult

type_synonym 'b cmd = "('b, ErrorCode \<times> goerr + cli_output) action"

definition emit :: "cli_output \<Rightarrow> 'b cmd" where
  "emit out w = Some (Inr out, w)"

text \<open>\<^verbatim>\<open>fail\<close>: the process ends.\<close>

definition stop :: "ErrorCode \<Rightarrow> goerr \<Rightarrow> 'b cmd" where
  "stop code err w = Some (Inl (code, err), w)"

abbreviation misuse :: "string \<Rightarrow> 'b cmd" where
  "misuse text \<equiv> stop ErrInvalidArgs (msg text)"

definition checked :: "goerr option \<Rightarrow> 'b cmd \<Rightarrow> 'b cmd" where
  "checked v k = (case v of None \<Rightarrow> k | Some err \<Rightarrow> stop ErrInvalidArgs err)"

definition parsed :: "goerr + 'a \<Rightarrow> ('a \<Rightarrow> 'b cmd) \<Rightarrow> 'b cmd" where
  "parsed r k = (case r of Inl err \<Rightarrow> stop ErrInvalidArgs err | Inr a \<Rightarrow> k a)"

definition first_id :: "u64 list \<Rightarrow> (u64 \<Rightarrow> 'b cmd) \<Rightarrow> 'b cmd" where
  "first_id ids k = (case ids of [] \<Rightarrow> misuse ''task ID required'' | i # _ \<Rightarrow> k i)"

definition loadStore :: "'b server_env \<Rightarrow> (TaskStore \<Rightarrow> 'b cmd) \<Rightarrow> 'b cmd" where
  "loadStore e k =
     load_current e (tasksBinPath e)
       (\<lambda>r. case r of Inl err \<Rightarrow> stop ErrStoreCorrupted (Errorf ''loading store: %v'' [] [err]) | Inr s \<Rightarrow> k s)"

definition updateStore ::
  "'b server_env \<Rightarrow> (gotime \<Rightarrow> gotime \<Rightarrow> TaskStore \<Rightarrow> 'a res) \<Rightarrow> ('a \<Rightarrow> TaskStore \<Rightarrow> 'b cmd) \<Rightarrow> 'b cmd" where
  "updateStore e mutate k =
     update_store e mutate (\<lambda>r. case r of Inl err \<Rightarrow> stop (updateStore_code err) err | Inr (a, s) \<Rightarrow> k a s)"

definition seen_task :: "TaskStore \<Rightarrow> u64 \<Rightarrow> (Task \<Rightarrow> 'b cmd) \<Rightarrow> 'b cmd" where
  "seen_task s i k =
     (case GetTask s i of
        Some task \<Rightarrow> k task
      | None \<Rightarrow> stop ErrTaskNotFound (Errorf ''task %d not found'' [ArgId i] []))"

text \<open>The three forms of the answer of a command about one task.\<close>

definition emit_task :: "string list \<Rightarrow> mutationReceipt \<Rightarrow> Task \<Rightarrow> string \<Rightarrow> 'b cmd" where
  "emit_task args receipt task text =
     (if receiptRequested args then emit (OReceipt receipt)
      else if hasFlag args ''--json''
      then emit (OTask \<lparr>te_SchemaVersion = protocolVersion, te_Task = newProtocolTask task\<rparr>)
      else emit (OText text))"

definition emit_tasks :: "string list \<Rightarrow> mutationReceipt \<Rightarrow> Task list \<Rightarrow> string \<Rightarrow> 'b cmd" where
  "emit_tasks args receipt tasks text =
     (if receiptRequested args then emit (OReceipt receipt)
      else if hasFlag args ''--json'' then emit (OTasks (tasks_envelope tasks))
      else emit (OText text))"

definition single_receipt :: "string \<Rightarrow> Task list \<Rightarrow> mutationReceipt" where
  "single_receipt operation tasks =
     (let receipt = (newMutationReceipt operation (map ID tasks))\<lparr>mr_DetailFollowUp := graphDetailFollowUp\<rparr>
      in case tasks of
           [t] \<Rightarrow> receipt\<lparr>mr_Task := Some (newMutationTaskReference t), mr_DetailFollowUp := taskDetailFollowUp (ID t)\<rparr>
         | _ \<Rightarrow> receipt)"

definition cli_touch :: "'b server_env \<Rightarrow> string \<Rightarrow> 'b cmd \<Rightarrow> 'b cmd" where
  "cli_touch e actor k =
     update_agents e (\<lambda>now r. Inr (touch_card actor (nowTimestamp now) r))
       (\<lambda>r. case r of
              Some err \<Rightarrow> stop ErrStoreCorrupted (Errorf ''registering agent %s: %v'' [ArgStr actor] [err])
            | None \<Rightarrow> k)"

text \<open>\<^verbatim>\<open>parseLeaseTTL\<close> of the option, and how the commands tell a wrong one from a wrong configuration.\<close>

definition lease_ttl :: "'b server_env \<Rightarrow> string list \<Rightarrow> (duration \<Rightarrow> 'b cmd) \<Rightarrow> 'b cmd" where
  "lease_ttl e args k =
     read_files e (\<lambda>f.
       case parseLeaseTTL (f_config f) (optionValue args ''--ttl'') of
         Inl err \<Rightarrow>
           if errors_Is err errInvalidTTL then stop ErrInvalidArgs (Errorf ''--ttl %v'' [] [err])
           else stop ErrStoreCorrupted err
       | Inr ttl \<Rightarrow> k ttl)"

section \<open>Adding and completing\<close>

record add_opts =
  o_Priority :: "float32 option"
  o_Capabilities :: "string list"
  o_Tags :: "string list"

text \<open>The loop over the arguments; a later \<^verbatim>\<open>--priority\<close> or \<^verbatim>\<open>--caps\<close> replaces an earlier one.\<close>

fun add_options :: "(string \<Rightarrow> float32 option) \<Rightarrow> string list \<Rightarrow> add_opts \<Rightarrow> goerr + add_opts" where
  "add_options parse [] o' = Inr o'"
| "add_options parse (arg # rest) o' =
     (if arg = ''--priority'' then
        (case rest of
           [] \<Rightarrow> Inl (msg ''--priority requires a value'')
         | val # _ \<Rightarrow>
             (case parse val of
                None \<Rightarrow> Inl (msg ''--priority must be between 0 and 1'')
              | Some v \<Rightarrow>
                  if \<not> validPriority v then Inl (msg ''--priority must be between 0 and 1'')
                  else add_options parse rest (o'\<lparr>o_Priority := Some v\<rparr>)))
      else if arg = ''--caps'' then
        (case rest of
           [] \<Rightarrow> Inl (msg ''--caps requires a comma-separated value'')
         | val # _ \<Rightarrow> add_options parse rest (o'\<lparr>o_Capabilities := normalizeCapabilities val\<rparr>))
      else if arg = ''--tag'' then
        (case rest of
           [] \<Rightarrow> Inl (msg ''--tag requires a comma-separated value'')
         | val # _ \<Rightarrow> add_options parse rest (o'\<lparr>o_Tags := o_Tags o' @ normalizeCapabilities val\<rparr>))
      else add_options parse rest o')"

text \<open>A capability list that is empty is the \<^verbatim>\<open>nil\<close> that the configured default replaces.\<close>

definition cmdAdd :: "'b server_env \<Rightarrow> cli_command \<Rightarrow> string list \<Rightarrow> 'b cmd" where
  "cmdAdd e c args =
     (let title = TrimSpace (extractTitle c args); after = extractAfterIDs args
      in checked (validateRequiredPersistedString ''title'' title maxTaskTitleBytes)
        (checked (validateDependencies after)
        (parsed (add_options (ParseFloat32 e) args \<lparr>o_Priority = None, o_Capabilities = [], o_Tags = []\<rparr>) (\<lambda>opts.
         read_files e (\<lambda>f.
           let given = (if o_Capabilities opts = [] then None else Some (o_Capabilities opts));
               (priority, capabilities) = add_defaults (loadConfig (f_config f)) (o_Priority opts) given;
               tags = normalizePersistedValues (o_Tags opts)
           in checked (validateCapabilities capabilities)
             (checked (validateTags tags)
             (updateStore e
                (\<lambda>clk _. cmdAdd_mutate clk
                   \<lparr>n_Title = title, n_After = after, n_Priority = priority, n_Capabilities = capabilities, n_Tags = tags\<rparr>)
                (\<lambda>i s. with_task s i (\<lambda>created.
                   emit_task args (newTaskMutationReceipt ''add'' created) created
                     (line [''Added task '', fmt_id (ID created), '': '', title]))))))))))"

definition cmdDone :: "'b server_env \<Rightarrow> cli_command \<Rightarrow> string list \<Rightarrow> 'b cmd" where
  "cmdDone e c args =
     (let ids = parseIDs c args; owner = optionValue args ''--as''
      in first_id ids (\<lambda>_.
         checked (validateActor owner False)
        (loadStore e (\<lambda>preflight.
         with_snapshot e (GetAllTasks preflight) (\<lambda>resolver.
         updateStore e (\<lambda>clk now. done_mutate clk ids owner resolver now)
           (\<lambda>completed s. with_tasks s completed (\<lambda>tasks.
              emit_tasks args (single_receipt ''complete'' tasks) tasks
                (concat (map (\<lambda>i. line [''Marked task '', fmt_id i, '' as done'']) ids)))))))))"

definition cmdRm :: "'b server_env \<Rightarrow> cli_command \<Rightarrow> string list \<Rightarrow> 'b cmd" where
  "cmdRm e c args =
     (let ids = parseIDs c args
      in first_id ids (\<lambda>_.
         updateStore e (\<lambda>clk _. rm_mutate clk ids)
           (\<lambda>removed _.
              emit_tasks args (newMutationReceipt ''remove'' (map ID removed)) removed
                (concat (map (\<lambda>i. line [''Removed task '', fmt_id i]) ids)))))"

section \<open>Metadata\<close>

definition cmdUpdate :: "'b server_env \<Rightarrow> cli_command \<Rightarrow> string list \<Rightarrow> 'b cmd" where
  "cmdUpdate e c args =
     first_id (parseIDs c args) (\<lambda>i.
       let title = optionalValue args ''--title'';
           trimmed = map_option TrimSpace title;
           priorityValue = optionalValue args ''--priority'';
           capsValue = optionalValue args ''--caps'';
           owner = optionValue args ''--as'';
           addDeps = parseRepeatedValues args ''--add-dep'';
           removeDeps = parseRepeatedValues args ''--remove-dep'';
           bad_priority = misuse ''--priority must be between 0 and 1''
       in parsed (parseExtraUpdates args) (\<lambda>extra.
          require (\<not> (title = None \<and> priorityValue = None \<and> capsValue = None \<and> extra = [] \<and> addDeps = [] \<and> removeDeps = []))
            (misuse ''provide --title, --priority, --caps, --set, --add-dep, or --remove-dep'')
         (checked (case trimmed of
                     Some t \<Rightarrow> validateRequiredPersistedString ''title'' t maxTaskTitleBytes
                   | None \<Rightarrow> None)
         (checked (validateActor owner False)
         (checked (validateExtra extra)
         (checked (validateDependencies addDeps)
         (checked (validateDependencies removeDeps)
         (let priority = (case priorityValue of None \<Rightarrow> None | Some val \<Rightarrow> ParseFloat32 e val);
              capabilities = map_option normalizeCapabilities capsValue
          in require (priorityValue \<noteq> None \<longrightarrow> priority \<noteq> None \<and> validPriority (the priority)) bad_priority
            (checked (case capabilities of Some cs \<Rightarrow> validateCapabilities cs | None \<Rightarrow> None)
            (updateStore e
               (\<lambda>clk _. updateTask clk i owner
                  \<lparr>u_Title = trimmed, u_Priority = priority, u_SetCapabilities = (capabilities \<noteq> None),
                   u_Capabilities = (case capabilities of Some cs \<Rightarrow> cs | None \<Rightarrow> []), u_Extra = extra,
                   u_AddDeps = addDeps, u_RemoveDeps = removeDeps\<rparr>)
               (\<lambda>j s. with_task s j (\<lambda>task.
                  emit_task args (newTaskMutationReceipt ''update'' task) task
                    (line [''Updated task '', fmt_id (ID task), '': '', Title task])))))))))))))"

definition cmdLog :: "'b server_env \<Rightarrow> cli_command \<Rightarrow> string list \<Rightarrow> 'b cmd" where
  "cmdLog e c args =
     (let message = optionValue args ''--msg''; owner = optionValue args ''--as''
      in first_id (parseIDs c args) (\<lambda>i.
         checked (validateRequiredPersistedString ''message'' message maxLogMessageBytes)
        (checked (validateActor owner False)
        (updateStore e (\<lambda>clk _. logTask clk i owner message)
           (\<lambda>j s. with_task s j (\<lambda>logged.
              emit_task args (newTaskMutationReceipt ''log'' logged) logged
                (line [''Logged to task '', fmt_id i, '': '', message])))))))"

section \<open>Leases\<close>

text \<open>The history that is printed is read in the transaction, before the claim.\<close>

definition claim_mutate ::
  "gotime \<Rightarrow> u64 \<Rightarrow> string \<Rightarrow> duration \<Rightarrow> DependencyResolver \<Rightarrow> gotime \<Rightarrow> TaskStore \<Rightarrow> (u64 \<times> u32 \<times> string) res" where
  "claim_mutate clk i owner ttl resolver now s =
     (case requireTask s i of
        Inl err \<Rightarrow> (Inl err, s)
      | Inr task \<Rightarrow>
          apfst (map_sum id (\<lambda>j. (j, RetryCount task, LastError task))) (claimTask clk i owner ttl resolver now s))"

definition cmdClaim :: "'b server_env \<Rightarrow> cli_command \<Rightarrow> string list \<Rightarrow> 'b cmd" where
  "cmdClaim e c args =
     (let owner = optionValue args ''--as''
      in first_id (parseIDs c args) (\<lambda>i.
         lease_ttl e args (\<lambda>ttl.
         require (owner \<noteq> []) (misuse ''--as <owner> is required'')
        (checked (validateActor owner True)
        (cli_touch e owner
        (loadStore e (\<lambda>preflight.
        (case GetTask preflight i of
           Some task \<Rightarrow> with_snapshot e [task]
         | None \<Rightarrow> (\<lambda>k. k None)) (\<lambda>resolver.
         updateStore e (\<lambda>clk now. claim_mutate clk i owner ttl resolver now)
           (\<lambda>(j, retryCount, lastError) s. with_task s j (\<lambda>claimed.
              emit_task args (newTaskMutationReceipt ''claim'' claimed) claimed
                (line [''Task '', fmt_id i, '' claimed by '', owner, '' (expires in '', duration_string ttl, '')'',
                   if retryCount > 0 then '' [retry #'' @ decimal (unat retryCount) @ '']'' else [],
                   if lastError \<noteq> [] then '' (previous error: '' @ lastError @ '')'' else []])))))))))))"

text \<open>
  One attempt at an acquisition, and the loop that \<^verbatim>\<open>--wait\<close> asks for: \<open>polls\<close> is how many times the
  deadline is still ahead when there was no work, and then the loop sleeps and tries again.
\<close>

definition acquire_attempt ::
  "'b server_env \<Rightarrow> acquirePlan \<Rightarrow> string \<Rightarrow> (goerr \<Rightarrow> 'b cmd) \<Rightarrow> (Task \<Rightarrow> bool \<Rightarrow> 'b cmd) \<Rightarrow> 'b cmd" where
  "acquire_attempt e plan requestID otherwise k =
     loadStore e (\<lambda>preflight.
     with_snapshot e (GetAllTasks preflight) (\<lambda>resolver.
     update_store e
       (\<lambda>clk now. acquireFromStore clk now (plan_Actor plan) requestID (plan_Fingerprint plan)
          (plan_TTL plan) (plan_Capabilities plan) (plan_MaxLoad plan) resolver)
       (\<lambda>r. case r of Inl err \<Rightarrow> otherwise err | Inr ((acquired, replayed), _) \<Rightarrow> k acquired replayed)))"

primrec acquire_polls ::
  "'b server_env \<Rightarrow> acquirePlan \<Rightarrow> string \<Rightarrow> nat \<Rightarrow> (Task \<Rightarrow> bool \<Rightarrow> 'b cmd) \<Rightarrow> 'b cmd" where
  "acquire_polls e plan requestID 0 k =
     acquire_attempt e plan requestID (\<lambda>err. stop (updateStore_code err) err) k"
| "acquire_polls e plan requestID (Suc polls) k =
     acquire_attempt e plan requestID
       (\<lambda>err. if errors_Is err errNoReadyTasks then acquire_polls e plan requestID polls k
              else stop (updateStore_code err) err) k"

definition cmdAcquire :: "'b server_env \<Rightarrow> nat \<Rightarrow> string list \<Rightarrow> 'b cmd" where
  "cmdAcquire e polls args =
     (let actor = optionValue args ''--as''; requestID = optionValue args ''--request-id'';
          waitValue = optionValue args ''--wait'';
          explicit = (if hasFlag args ''--capabilities''
                      then Some (normalizeCapabilities (optionValue args ''--capabilities'')) else None)
      in require (actor \<noteq> []) (misuse ''--as <owner> is required'')
        (checked (validateActor actor True)
        (checked (map_option (\<lambda>err. Errorf ''--request-id: %v'' [] [err]) (validateAcquireRequestID requestID))
        (require (waitValue = [] \<or> positive_duration waitValue \<noteq> None) (misuse ''--wait must be a positive duration'')
        (cli_touch e actor
        (read_files e (\<lambda>f.
           case newAcquirePlan (fingerprint_digest e) (f_config f) (f_agents f) actor (optionValue args ''--ttl'') explicit of
             Inl err \<Rightarrow>
               if errors_Is err errInvalidTTL then stop ErrInvalidArgs (Errorf ''--ttl %v'' [] [err])
               else stop ErrStoreCorrupted err
           | Inr plan \<Rightarrow>
               acquire_polls e plan requestID (if waitValue = [] then 0 else polls) (\<lambda>acquired replayed.
                 if receiptRequested args
                 then emit (OReceipt ((newTaskMutationReceipt ''acquire'' acquired)\<lparr>mr_Replayed := Some replayed\<rparr>))
                 else if hasFlag args ''--json''
                 then emit (OAcquire \<lparr>ae_SchemaVersion = protocolVersion, ae_RequestID = requestID,
                                      ae_Replayed = replayed, ae_Task = newProtocolTask acquired\<rparr>)
                 else emit (OText (line [if replayed then ''Replayed acquisition for'' else ''Acquired'', '' task '',
                        fmt_id (ID acquired), '': '', Title acquired, '' (owner: '', actor, '', lease expires: '',
                        formatTimestamp (LeaseExpires acquired), '')'']))))))))))"

text \<open>\<^verbatim>\<open>cmdHeartbeat\<close> and \<^verbatim>\<open>cmdHandoff\<close> tell the errors of a lease themselves.\<close>

definition lease_failure :: "goerr \<Rightarrow> ErrorCode" where
  "lease_failure err =
     (if errors_Is err errLeaseTaskNotFound then ErrTaskNotFound
      else if errors_Is err errLeaseNotOwner then ErrNotOwner
      else if errors_Is err errLeaseNotActive then ErrLeaseNotActive
      else ErrStoreCorrupted)"

definition cmdHeartbeat :: "'b server_env \<Rightarrow> cli_command \<Rightarrow> string list \<Rightarrow> 'b cmd" where
  "cmdHeartbeat e c args =
     (let actor = optionValue args ''--as''
      in first_id (parseIDs c args) (\<lambda>i.
         require (actor \<noteq> []) (misuse ''--as <owner> is required'')
        (checked (validateActor actor True)
        (lease_ttl e args (\<lambda>ttl.
         cli_touch e actor
        (update_store e (\<lambda>clk now. renewLease clk i actor ttl now)
           (\<lambda>r. case r of
                  Inl err \<Rightarrow> stop (lease_failure err) err
                | Inr (j, s) \<Rightarrow> with_task s j (\<lambda>renewed.
                    emit_task args (newTaskMutationReceipt ''heartbeat'' renewed) renewed
                      (line [''Renewed task '', fmt_id i, '' lease for '', actor, '' (expires in '', duration_string ttl, '')''])))))))))"

definition cmdHandoff :: "'b server_env \<Rightarrow> cli_command \<Rightarrow> string list \<Rightarrow> 'b cmd" where
  "cmdHandoff e c args =
     (let actor = optionValue args ''--as''
      in case parseIDs c args of
           [i] \<Rightarrow>
             checked (validateActor actor True)
            (parsed (parseExtraUpdates args) (\<lambda>extra.
             require (extra \<noteq> []) (misuse ''at least one --set key=value handoff field is required'')
            (checked (validateExtra extra)
            (update_store e (\<lambda>clk now. handoffTask clk i actor extra now)
               (\<lambda>r. case r of
                      Inl err \<Rightarrow> stop (if isPersistedInputFailure err then ErrInvalidArgs else lease_failure err) err
                    | Inr (j, s) \<Rightarrow> with_task s j (\<lambda>handedOff.
                        emit_task args (newTaskMutationReceipt ''handoff'' handedOff) handedOff
                          (line [''Handed off task '', fmt_id (ID handedOff)])))))))
         | _ \<Rightarrow> misuse ''exactly one task ID is required'')"

text \<open>The loop of \<^verbatim>\<open>cmdRelease\<close>.\<close>

fun release_mutate :: "gotime \<Rightarrow> u64 list \<Rightarrow> string \<Rightarrow> string \<Rightarrow> TaskStore \<Rightarrow> u64 list res" where
  "release_mutate clk [] owner errorMsg s = (Inr [], s)"
| "release_mutate clk (i # is) owner errorMsg s =
     (case releaseTask clk i owner errorMsg s of
        (Inl err, s) \<Rightarrow> (Inl err, s)
      | (Inr j, s) \<Rightarrow> apfst (map_sum id ((#) j)) (release_mutate clk is owner errorMsg s))"

definition cmdRelease :: "'b server_env \<Rightarrow> cli_command \<Rightarrow> string list \<Rightarrow> 'b cmd" where
  "cmdRelease e c args =
     (let ids = parseIDs c args; owner = optionValue args ''--as''; errorMsg = optionValue args ''--error''
      in first_id ids (\<lambda>_.
         checked (validateActor owner False)
        (checked (validatePersistedString ''error'' errorMsg maxErrorBytes)
        (updateStore e (\<lambda>clk _. release_mutate clk ids owner errorMsg)
           (\<lambda>released s. with_tasks s released (\<lambda>tasks.
              emit_tasks args (single_receipt ''release'' tasks) tasks
                (concat (map (\<lambda>i. line [''Released task '', fmt_id i]) ids))))))))"

section \<open>Blocking\<close>

definition cmdBlock :: "'b server_env \<Rightarrow> cli_command \<Rightarrow> string list \<Rightarrow> 'b cmd" where
  "cmdBlock e c args =
     (let reason = optionValue args ''--reason''; owner = optionValue args ''--as''
      in first_id (parseIDs c args) (\<lambda>i.
         checked (validateRequiredPersistedString ''reason'' reason maxReasonBytes)
        (checked (validateActor owner False)
        (updateStore e (\<lambda>clk _. blockTask clk i owner reason)
           (\<lambda>j s. with_task s j (\<lambda>blocked.
              emit_task args (newTaskMutationReceipt ''block'' blocked) blocked
                (line [''Blocked task '', fmt_id i, '': '', reason])))))))"

definition cmdUnblock :: "'b server_env \<Rightarrow> cli_command \<Rightarrow> string list \<Rightarrow> 'b cmd" where
  "cmdUnblock e c args =
     (let owner = optionValue args ''--as''
      in first_id (parseIDs c args) (\<lambda>i.
         checked (validateActor owner False)
        (updateStore e (\<lambda>clk _. unblockTask clk i owner)
           (\<lambda>j s. with_task s j (\<lambda>unblocked.
              emit_task args (newTaskMutationReceipt ''unblock'' unblocked) unblocked
                (line [''Unblocked task '', fmt_id i]))))))"

section \<open>Decomposition\<close>

text \<open>
  The \<^verbatim>\<open>--into\<close> document: \<open>parse\<close> is \<^verbatim>\<open>encoding/json\<close> up to the decoded value. The command line spells
  the capabilities of a subtask \<^verbatim>\<open>caps\<close>.
\<close>

text \<open>\<^verbatim>\<open>json.Unmarshal\<close> passes over the names it does not know.\<close>

fun decode_known :: "'r fields \<Rightarrow> 'r setter" where
  "decode_known fs JNull r = Some r"
| "decode_known fs (JObject kvs) r = decode_object fs (filter (\<lambda>(name, _). find_field fs name \<noteq> None) kvs) r"
| "decode_known fs _ r = None"

fun payload_subtasks :: "json list \<Rightarrow> decomposeSubtask list option" where
  "payload_subtasks [] = Some []"
| "payload_subtasks (j # js) =
     (case decode_known
             [(''title'', set_string (\<lambda>v p. p\<lparr>sub_Title := v\<rparr>)),
              (''caps'', set_strings (\<lambda>v p. p\<lparr>sub_Capabilities := or_empty v\<rparr>))]
             j \<lparr>sub_Title = [], sub_Capabilities = []\<rparr> of
        None \<Rightarrow> None
      | Some sub \<Rightarrow> map_option ((#) sub) (payload_subtasks js))"

fun set_payload :: "decomposeSubtask list setter" where
  "set_payload (JArray js) r = payload_subtasks js"
| "set_payload JNull r = Some []"
| "set_payload _ r = None"

definition DecomposePayload :: "(string \<Rightarrow> json option) \<Rightarrow> string \<Rightarrow> decomposeSubtask list option" where
  "DecomposePayload parse payloadStr =
     (case parse payloadStr of
        None \<Rightarrow> None
      | Some j \<Rightarrow> decode_known [(''subtasks'', set_payload)] j [])"

definition cmdDecompose :: "'b server_env \<Rightarrow> (string \<Rightarrow> json option) \<Rightarrow> cli_command \<Rightarrow> string list \<Rightarrow> 'b cmd" where
  "cmdDecompose e parse c args =
     (let payloadStr = optionValue args ''--into''; agent = optionValue args ''--as''
      in first_id (parseIDs c args) (\<lambda>i.
         require (payloadStr \<noteq> []) (misuse ''--into <json> is required'')
        (case DecomposePayload parse payloadStr of
           None \<Rightarrow> misuse ''invalid JSON''
         | Some payload \<Rightarrow>
             let subtasks = map trim_subtask payload
             in require (payload \<noteq> []) (misuse ''at least one subtask is required'')
               (require (length payload \<le> maxMutationReceiptIDs)
                  (stop ErrInvalidArgs
                     (Errorf ''at most %d subtasks can be created in one decomposition'' [ArgInt (int maxMutationReceiptIDs)] []))
               (checked (validate_subtasks 1 subtasks)
               (checked (validateActor agent False)
               (updateStore e (\<lambda>clk _. decomposeTask clk i agent subtasks)
                  (\<lambda>(parentID, added) s.
                     with_task s parentID (\<lambda>parent.
                     with_tasks s added (\<lambda>tasks.
                       if receiptRequested args
                       then emit (OReceipt ((newMutationReceipt ''decompose'' (map ID tasks))
                              \<lparr>mr_Task := Some (newMutationTaskReference parent),
                               mr_DetailFollowUp := lineageDetailFollowUp (ID parent)\<rparr>))
                       else if hasFlag args ''--json''
                       then emit (ODecompose \<lparr>dc_Parent = newProtocolTask parent, dc_Subtasks = map newProtocolTask tasks\<rparr>)
                       else emit (OText
                         (line [''Decomposing task '', fmt_id i, '' into '', decimal (length payload), '' subtasks...'']
                          @ concat (map (\<lambda>t. line [''  Added subtask '', fmt_id (ID t), '': '', Title t]) tasks)
                          @ line [''Decomposition complete.'']))))))))))))"

section \<open>Pruning, compaction and restoring\<close>

definition cmdPrune :: "'b server_env \<Rightarrow> string list \<Rightarrow> 'b cmd" where
  "cmdPrune e args =
     updateStore e (\<lambda>clk _ s. let (removed, s) = pruneCompletedTasks clk s in (Inr removed, s))
       (\<lambda>removed _.
          emit_tasks args (newMutationReceipt ''prune'' (map ID removed)) removed
            (line [''Removed '', decimal (length removed), '' completed task(s)'']))"

definition cmdCompact :: "'b server_env \<Rightarrow> string list \<Rightarrow> 'b cmd" where
  "cmdCompact e args =
     parsed (parseCompactOptions args) (\<lambda>options.
       let report = (\<lambda>r.
             if hasFlag args ''--json'' then emit (OCompact r)
             else emit (OText (line [if DryRun options then ''Would remove'' else ''Removed'', '' '',
                    int_string (EventsRemoved r), '' event(s) and '', decimal (ReceiptsRemoved r),
                    '' completed-task acquisition receipt(s)''])))
       in if DryRun options
          then load_at e (tasksBinPath e)
            (\<lambda>r. case r of
                   Inl err \<Rightarrow> stop ErrStoreCorrupted (Errorf ''loading store: %v'' [] [err])
                 | Inr s \<Rightarrow> at_turn (\<lambda>n. report (fst (compactTaskStore s options False (project_clock e n)))))
          else updateStore e (\<lambda>_ now s. let (r, s) = compactTaskStore s options True now in (Inr r, s))
            (\<lambda>r _. report r))"

text \<open>\<^verbatim>\<open>restoreBackup\<close>: the store becomes the snapshot as it was read.\<close>

definition cmdRestore :: "'b server_env \<Rightarrow> string list \<Rightarrow> 'b cmd" where
  "cmdRestore e args =
     (case args of
        [] \<Rightarrow> misuse ''usage: todo restore <backup-file>''
      | backupPath # _ \<Rightarrow>
          require (backupPath \<noteq> [] \<and> hd backupPath \<noteq> CHR ''-'') (misuse ''usage: todo restore <backup-file>'')
         (load_at e backupPath
            (\<lambda>r. case r of
                   Inl err \<Rightarrow> stop ErrStoreCorrupted
                     (Errorf ''restoring backup: %v'' [] [Errorf ''loading backup: %w'' [] [err]])
                 | Inr snapshot \<Rightarrow>
                     update_store e (\<lambda>_ _ existing. (Inr (length (Tasks snapshot)), snapshot))
                       (\<lambda>r. case r of
                              Inl err \<Rightarrow> stop ErrStoreCorrupted (Errorf ''restoring backup: %v'' [] [err])
                            | Inr (taskCount, _) \<Rightarrow>
                                emit (OText (line [''Restored '', decimal taskCount, '' tasks from '', backupPath]))))))"

definition cmdBackup :: "'b server_env \<Rightarrow> string list \<Rightarrow> 'b cmd" where
  "cmdBackup e args =
     at_turn (\<lambda>n.
       let output = (if optionValue args ''--output'' = []
                     then filepath_Join [projectRoot e, ''.terminal-todo'',
                            ''backup-'' @ int_string (UnixMilli (project_clock e n)) @ ''.bin'']
                     else optionValue args ''--output'')
       in loadStore e (\<lambda>s.
          read_files e (\<lambda>_. at_turn (\<lambda>n.
            case MkdirAll_err (io e n) of
              Some err \<Rightarrow> stop ErrStoreCorrupted (Errorf ''creating backup directory: %v'' [] [err])
            | None \<Rightarrow>
                save_at e output s
                  (\<lambda>r. case r of
                         Some err \<Rightarrow> stop ErrStoreCorrupted (Errorf ''saving backup: %v'' [] [err])
                       | None \<Rightarrow> emit (OText (line [''Backup saved to '', output, '' ('', decimal (length (Tasks s)), '' tasks)''])))))))"

section \<open>Projects and configuration\<close>

definition cmdInit :: "'b server_env \<Rightarrow> 'b cmd" where
  "cmdInit e =
     (let storePath = tasksBinPath e
      in read_files e (\<lambda>f.
           if file_exists f storePath
           then emit (OText (line [''Already initialized .terminal-todo/ in '', projectRoot e]))
           else at_turn (\<lambda>n.
             case MkdirAll_err (io e n) of
               Some err \<Rightarrow> stop ErrStoreCorrupted (Errorf ''creating directory: %v'' [] [err])
             | None \<Rightarrow>
                 save_at e storePath NewTaskStore
                   (\<lambda>r. case r of
                          Some err \<Rightarrow> stop ErrStoreCorrupted (Errorf ''creating tasks.bin: %v'' [] [err])
                        | None \<Rightarrow> emit (OText (line [''Initialized .terminal-todo/ in '', projectRoot e]))))))"

definition cmdLink :: "'b server_env \<Rightarrow> string list \<Rightarrow> 'b cmd" where
  "cmdLink e args =
     (case args of
        [alias', path] \<Rightarrow>
          require (alias' \<noteq> ''local'') (misuse ''repository alias local is reserved'')
         (checked (case ParseTaskURI (''todo://'' @ alias' @ ''/1'') of Inl err \<Rightarrow> Some err | Inr _ \<Rightarrow> None)
         (case filepath_Abs e path of
            Inl err \<Rightarrow> stop ErrInvalidArgs (Errorf ''resolving repository path: %v'' [] [err])
          | Inr target_dir \<Rightarrow>
              read_files e (\<lambda>f.
              require (file_exists f (filepath_Join [target_dir, ''.terminal-todo'', ''tasks.bin'']))
                (stop ErrNotInitialized (Errorf ''%s is not an initialized todo project'' [ArgStr target_dir] []))
              (at_turn (\<lambda>n.
              require (\<not> same_file e n (projectRoot e) target_dir) (misuse ''cannot link a project to itself'')
              (let storedPath = (case filepath_Rel e (projectRoot e) target_dir of Some r \<Rightarrow> r | None \<Rightarrow> target_dir)
               in update_repos e (\<lambda>registry. Inr (registry\<lparr>Repositories :=
                                    AList.update alias' storedPath (Repositories registry)\<rparr>))
                    (\<lambda>_ _ r. case r of
                       Some err \<Rightarrow> stop ErrStoreCorrupted (Errorf ''saving repository registry: %v'' [] [err])
                     | None \<Rightarrow> emit (OText (line [''Linked '', alias', '' to '', storedPath])))))))))
      | _ \<Rightarrow> misuse ''usage: todo link <alias> <project-path>'')"

definition cmdUnlink :: "'b server_env \<Rightarrow> string list \<Rightarrow> 'b cmd" where
  "cmdUnlink e args =
     (case args of
        [alias'] \<Rightarrow>
          require (alias' \<noteq> ''local'') (misuse ''repository alias local is reserved'')
         (update_repos e
            (\<lambda>registry.
               if map_of (Repositories registry) alias' = None
               then Inl (Errorf ''repository alias %s not found'' [ArgStr alias'] [])
               else Inr (registry\<lparr>Repositories := AList.delete alias' (Repositories registry)\<rparr>))
            (\<lambda>je f r. case r of
               Some err \<Rightarrow>
                 if unlink_found alias' je f then stop ErrStoreCorrupted (Errorf ''saving repository registry: %v'' [] [err])
                 else stop ErrInvalidArgs err
             | None \<Rightarrow> emit (OText (line [''Unlinked '', alias']))))
      | _ \<Rightarrow> misuse ''usage: todo unlink <alias>'')"

text \<open>The loop over the settings of \<^verbatim>\<open>todo config\<close>; the messages are its own.\<close>

definition cli_setting :: "'b server_env \<Rightarrow> string \<Rightarrow> string \<Rightarrow> ProjectConfig \<Rightarrow> goerr + ProjectConfig" where
  "cli_setting e key val cfg =
     (if key = ''default_ttl'' then
        (case positive_duration val of
           None \<Rightarrow> Inl (msg ''default_ttl must be a positive duration (e.g. 15m, 1h)'')
         | Some _ \<Rightarrow> Inr (cfg\<lparr>DefaultTTL := val\<rparr>))
      else if key = ''default_priority'' then
        (case ParseFloat32 e val of
           None \<Rightarrow> Inl (msg ''default_priority must be between 0 and 1'')
         | Some v \<Rightarrow>
             if \<not> validPriority v then Inl (msg ''default_priority must be between 0 and 1'')
             else Inr (cfg\<lparr>DefaultPriority := v\<rparr>))
      else if key = ''default_caps'' then
        (let capabilities = normalizeCapabilities val
         in case validateCapabilities capabilities of
              Some err \<Rightarrow> Inl err
            | None \<Rightarrow> Inr (cfg\<lparr>DefaultCapCaps := Join '','' capabilities\<rparr>))
      else Inl (Errorf ''unknown config key %q (valid: default_ttl, default_priority, default_caps)'' [ArgStr key] []))"

fun cli_settings :: "'b server_env \<Rightarrow> string list \<Rightarrow> ProjectConfig \<Rightarrow> goerr + ProjectConfig" where
  "cli_settings e [] cfg = Inr cfg"
| "cli_settings e (arg # args) cfg =
     (case cut_equals arg of
        None \<Rightarrow> Inl (Errorf ''invalid format %q, use key=value'' [ArgStr arg] [])
      | Some (key, val) \<Rightarrow>
          (case cli_setting e (TrimSpace key) (TrimSpace val) cfg of
             Inl err \<Rightarrow> Inl err
           | Inr cfg \<Rightarrow> cli_settings e args cfg))"

definition showConfig :: "'b server_env \<Rightarrow> (ProjectConfig \<Rightarrow> 'b cmd) \<Rightarrow> 'b cmd" where
  "showConfig e k =
     read_files e (\<lambda>f.
       case loadConfig (f_config f) of
         Inl err \<Rightarrow> stop ErrStoreCorrupted (Errorf ''loading config: %v'' [] [err])
       | Inr cfg \<Rightarrow> k cfg)"

definition cmdConfig :: "'b server_env \<Rightarrow> string list \<Rightarrow> 'b cmd" where
  "cmdConfig e args =
     (if args = [] then
        showConfig e (\<lambda>cfg. emit (OText
          (line [''default_ttl       = '', DefaultTTL cfg]
           @ line [''default_priority  = '', Sprintf2f e (DefaultPriority cfg)]
           @ line [''default_caps      = '', DefaultCapCaps cfg])))
      else if length args = 1 \<and> \<not> Contains (hd args) ''='' then
        showConfig e (\<lambda>cfg.
          if hd args = ''default_ttl'' then emit (OText (line [DefaultTTL cfg]))
          else if hd args = ''default_priority'' then emit (OText (line [Sprintf2f e (DefaultPriority cfg)]))
          else if hd args = ''default_caps'' then emit (OText (line [DefaultCapCaps cfg]))
          else stop ErrInvalidArgs (Errorf ''unknown config key %q'' [ArgStr (hd args)] []))
      else
        update_config e (cli_settings e args)
          (\<lambda>r. case r of
                 Some err \<Rightarrow> stop ErrInvalidArgs err
               | None \<Rightarrow> emit (OText (concat (map (\<lambda>arg. line [''Set '', arg]) args)))))"

section \<open>Agent cards\<close>

definition agent_text :: "agentCardResult \<Rightarrow> string" where
  "agent_text d =
     line [''Agent: '', ac_Actor d]
     @ (if ac_Caps d \<noteq> [] then line [''  Capabilities: '', Join '', '' (sort_Strings (ac_Caps d))] else [])
     @ (if ac_Desc d \<noteq> [] then line [''  Description: '', ac_Desc d] else [])
     @ (if ac_MaxLoad d > 0 then line [''  Max Load: '', int_string (ac_MaxLoad d)] else [])
     @ line [''  Current Load: '', decimal (ac_CurrentLoad d)]
     @ line [''  Created: '', ac_CreatedAt d]
     @ (if ac_LastSeen d \<noteq> [] then line [''  Last Seen: '', ac_LastSeen d] else [])"

definition cmdAgentCard :: "'b server_env \<Rightarrow> string list \<Rightarrow> 'b cmd" where
  "cmdAgentCard e args =
     (let agentName = optionValue args ''--as'';
          desc = optionValue args ''--desc'';
          caps = (if hasFlag args ''--caps'' then Some (normalizeCapabilities (optionValue args ''--caps'')) else None);
          given = (\<lambda>name v. if hasFlag args name then Some v else None);
          registry_error = (\<lambda>err. stop ErrStoreCorrupted (Errorf ''loading agent registry: %v'' [] [err]))
      in if agentName = [] then
           read_files e (\<lambda>f.
             case loadAgentRegistry (f_agents f) of
               Inl err \<Rightarrow> registry_error err
             | Inr registry \<Rightarrow> emit (OAgents \<lparr>ags_SchemaVersion = ''1'', ags_Agents = Agents registry\<rparr>))
         else if hasFlag args ''--caps'' \<or> hasFlag args ''--desc'' \<or> hasFlag args ''--max-load'' then
           checked (validateActor agentName True)
          (checked (case caps of Some cs \<Rightarrow> validateCapabilities cs | None \<Rightarrow> None)
          (checked (if hasFlag args ''--desc'' then validatePersistedString ''description'' desc maxAgentDescriptionBytes else None)
          (update_agents e
             (\<lambda>now registry.
                let maxLoad = Atoi (optionValue args ''--max-load'')
                in if hasFlag args ''--max-load'' \<and> (maxLoad = None \<or> the maxLoad < 0)
                   then Inl (msg ''--max-load must be a non-negative integer'')
                   else Inr (edit_card agentName caps (given ''--desc'' desc) (if hasFlag args ''--max-load'' then maxLoad else None)
                               (nowTimestamp now) registry))
             (\<lambda>r. case r of
                    Some err \<Rightarrow> stop ErrStoreCorrupted (Errorf ''updating agent registry: %v'' [] [err])
                  | None \<Rightarrow> emit (OText (line [''Agent '', agentName, '' updated'']))))))
         else
           read_files e (\<lambda>f.
             case loadAgentRegistry (f_agents f) of
               Inl err \<Rightarrow> registry_error err
             | Inr registry \<Rightarrow>
                 (case map_of (Agents registry) agentName of
                    None \<Rightarrow> stop ErrTaskNotFound (Errorf ''agent %s not found in registry'' [ArgStr agentName] [])
                  | Some found \<Rightarrow>
                      loadStore e (\<lambda>s.
                        let detail = \<lparr>ac_Actor = card_Name found, ac_Caps = card_Capabilities found, ac_Desc = card_Description found,
                              ac_MaxLoad = card_MaxLoad found, ac_CurrentLoad = computeAgentLoad s agentName,
                              ac_CreatedAt = card_CreatedAt found, ac_LastSeen = card_LastSeen found, ac_Registered = True\<rparr>
                        in if hasFlag args ''--json'' then emit (OAgent detail) else emit (OText (agent_text detail))))))"

section \<open>Reading tasks\<close>

definition cmdStatusAll :: "'b server_env \<Rightarrow> (goerr \<Rightarrow> string) \<Rightarrow> string list \<Rightarrow> 'b cmd" where
  "cmdStatusAll e show_err args =
     loadStore e (\<lambda>s.
       read_files e (\<lambda>f.
         case loadRepositoryRegistry (f_repos f) of
           Inl err \<Rightarrow> stop ErrStoreCorrupted (Errorf ''loading repository registry: %v'' [] [err])
         | Inr registry \<Rightarrow>
             load_linked e (registered_links registry) (\<lambda>linked.
               let projects = projectStatusFromStore ''local'' ''.'' s # linked
               in if hasFlag args ''--json''
                  then emit (OProjects \<lparr>pse_SchemaVersion = protocolVersion, pse_Projects = projects\<rparr>)
                  else emit (OText (concat (map (project_text show_err) projects))))))"

definition cmdStatus :: "'b server_env \<Rightarrow> (goerr \<Rightarrow> string) \<Rightarrow> string list \<Rightarrow> 'b cmd" where
  "cmdStatus e show_err args =
     (let filterTag = optionValue args ''--tag''; filterAgent = optionValue args ''--as''
      in if hasFlag args ''--all'' then cmdStatusAll e show_err args
         else loadStore e (\<lambda>s.
           if hasFlag args ''--json'' then emit (OTasks (tasks_envelope (status_tasks filterTag filterAgent s)))
           else emit (OText (status_text filterTag filterAgent s))))"

definition cmdCat :: "'b server_env \<Rightarrow> cli_command \<Rightarrow> string list \<Rightarrow> 'b cmd" where
  "cmdCat e c args =
     first_id (parseIDs c args) (\<lambda>i.
       loadStore e (\<lambda>s.
       seen_task s i (\<lambda>task.
         if hasFlag args ''--json''
         then emit (OTask \<lparr>te_SchemaVersion = protocolVersion, te_Task = newProtocolTask task\<rparr>)
         else emit (OText (cat_text (Sprintf2f e) task)))))"

text \<open>The last \<^verbatim>\<open>--capabilities\<close> counts.\<close>

definition cmdNext :: "'b server_env \<Rightarrow> string list \<Rightarrow> 'b cmd" where
  "cmdNext e args =
     loadStore e (\<lambda>s.
     with_resolver e (\<lambda>live.
       let given = parseRepeatedValues args ''--capabilities'';
           caps = (if given = [] then [] else normalizeCapabilities (last given));
           filterCapabilities = hasFlag args ''--capabilities''
       in if hasFlag args ''--json'' then emit (ONext (next_envelope s (Some live) caps filterCapabilities))
          else emit (OText (next_text (Sprintf2f e) (rankedReadyTasks s (Some live) caps filterCapabilities)
                 (diagnoseAllocation s (Some live) [] caps filterCapabilities 0)))))"

definition cmdMy :: "'b server_env \<Rightarrow> string list \<Rightarrow> 'b cmd" where
  "cmdMy e args =
     (let owner = optionValue args ''--as''
      in require (owner \<noteq> []) (misuse ''--as <agent-name> is required'')
        (loadStore e (\<lambda>s.
         at_turn (\<lambda>n.
           if hasFlag args ''--json'' then emit (OTasks (tasks_envelope (my_tasks owner s)))
           else emit (OText (my_text owner (project_clock e n) (my_tasks owner s)))))))"

definition cmdSearch :: "'b server_env \<Rightarrow> string list \<Rightarrow> 'b cmd" where
  "cmdSearch e args =
     (let query = Join '' '' (filter (\<lambda>arg. arg \<noteq> ''--json'') args)
      in require (query \<noteq> []) (misuse ''search query required'')
        (loadStore e (\<lambda>s.
           if hasFlag args ''--json'' then emit (OTasks (tasks_envelope (search_tasks (ToLower e) query s)))
           else emit (OText (search_text (search_tasks (ToLower e) query s))))))"

definition cmdBootstrap :: "'b server_env \<Rightarrow> string list \<Rightarrow> 'b cmd" where
  "cmdBootstrap e args =
     (let explicit = hasFlag args ''--capabilities''
      in parsed (bootstrapIntOption args ''--limit'' defaultBootstrapLimit) (\<lambda>limit.
         parsed (bootstrapIntOption args ''--events'' defaultBootstrapEventLimit) (\<lambda>eventLimit.
         parsed (bootstrapUintOption args ''--objective'') (\<lambda>objectiveID.
         loadStore e (\<lambda>s.
         read_files e (\<lambda>f.
           case loadAgentRegistry (f_agents f) of
             Inl err \<Rightarrow> stop ErrStoreCorrupted (Errorf ''loading agent registry: %v'' [] [err])
           | Inr registry \<Rightarrow>
               with_snapshot e (GetAllTasks s) (\<lambda>resolver.
                 case buildBootstrap s registry
                        \<lparr>bp_Actor = optionValue args ''--as'',
                         bp_Capabilities = (if explicit then normalizeCapabilities (optionValue args ''--capabilities'') else []),
                         bp_ObjectiveID = objectiveID, bp_Limit = limit, bp_EventLimit = eventLimit\<rparr> explicit resolver of
                   Inr result \<Rightarrow> if hasFlag args ''--json'' then emit (OBootstrap result) else emit (OText (printBootstrap result))
                 | Inl err \<Rightarrow>
                     (case classifyCoordinationError err of
                        Some code \<Rightarrow> stop code err
                      | None \<Rightarrow> stop ErrInvalidArgs err))))))))"

text \<open>The linked projects that can be read; the error of a project is passed over.\<close>

fun gather_linked :: "'b server_env \<Rightarrow> string list \<Rightarrow> (Task list \<Rightarrow> 'b cmd) \<Rightarrow> 'b cmd" where
  "gather_linked e [] k = k []"
| "gather_linked e (path # paths) k =
     load_current e (linked_path e path) (\<lambda>r.
       gather_linked e paths (\<lambda>tasks. k ((case r of Inl _ \<Rightarrow> [] | Inr s \<Rightarrow> GetAllTasks s) @ tasks)))"

text \<open>The registry of an unreadable agent file is \<^verbatim>\<open>nil\<close>, and \<^verbatim>\<open>cmdCaps\<close> dereferences it.\<close>

definition cmdCaps :: "'b server_env \<Rightarrow> string list \<Rightarrow> 'b cmd" where
  "cmdCaps e args =
     loadStore e (\<lambda>s.
       let report = (\<lambda>linked. read_files e (\<lambda>f.
             case cmdCaps_report (optionValue args ''--as'') (loadAgentRegistry (f_agents f)) (GetAllTasks s @ linked) of
               None \<Rightarrow> (\<lambda>_. None)
             | Some r \<Rightarrow> if hasFlag args ''--json'' then emit (OCaps r) else emit (OText (caps_text r))))
       in if hasFlag args ''--all'' then
            read_files e (\<lambda>f.
              case loadRepositoryRegistry (f_repos f) of
                Inl _ \<Rightarrow> report []
              | Inr registry \<Rightarrow> gather_linked e (map snd (Repositories registry)) report)
          else report [])"

section \<open>Reading the graph and the events\<close>

definition cmdDepends :: "'b server_env \<Rightarrow> cli_command \<Rightarrow> string list \<Rightarrow> 'b cmd" where
  "cmdDepends e c args =
     first_id (parseIDs c args) (\<lambda>i.
       loadStore e (\<lambda>s.
       seen_task s i (\<lambda>task.
         if hasFlag args ''--json''
         then emit (ODepends \<lparr>dr_TaskID = ID task, dr_TaskTitle = Title task, dr_Depends = map (depends_entry s) (Depends task)\<rparr>)
         else emit (OText (depends_text s i task)))))"

definition cmdDependents :: "'b server_env \<Rightarrow> cli_command \<Rightarrow> string list \<Rightarrow> 'b cmd" where
  "cmdDependents e c args =
     first_id (parseIDs c args) (\<lambda>targetID.
       loadStore e (\<lambda>s.
       seen_task s targetID (\<lambda>task.
         if hasFlag args ''--json''
         then emit (ODependents \<lparr>dnr_TaskID = ID task, dnr_TaskTitle = Title task,
                dnr_Dependents = map (\<lambda>t. \<lparr>dn_ID = ID t, dn_Title = Title t\<rparr>) (dependents_of s targetID)\<rparr>)
         else emit (OText (dependents_text s targetID)))))"

definition cmdLineage :: "'b server_env \<Rightarrow> (rat \<Rightarrow> string) \<Rightarrow> cli_command \<Rightarrow> string list \<Rightarrow> 'b cmd" where
  "cmdLineage e percent c args =
     first_id (parseIDs c args) (\<lambda>i.
       loadStore e (\<lambda>s.
       seen_task s i (\<lambda>task.
         if hasFlag args ''--json'' then emit (OLineage (lineage_envelope s task))
         else emit (OText (lineage_text percent s task)))))"

text \<open>The scenario is the last of the three flags; none means completion and blocking.\<close>

definition whatif_filter :: "string list \<Rightarrow> string" where
  "whatif_filter args =
     (case filter (\<lambda>arg. arg \<in> {''--done'', ''--claim'', ''--block''}) args of
        [] \<Rightarrow> [] | given \<Rightarrow> drop 2 (last given))"

definition cmdWhatIf :: "'b server_env \<Rightarrow> cli_command \<Rightarrow> string list \<Rightarrow> 'b cmd" where
  "cmdWhatIf e c args =
     first_id (parseIDs c args) (\<lambda>i.
       loadStore e (\<lambda>s.
       seen_task s i (\<lambda>task.
         let scenario = whatif_filter args;
             if_blocked = (if scenario = [] \<or> scenario = ''block'' then Some (countDependents (Tasks s) i) else None);
             answer = (\<lambda>if_done.
               if hasFlag args ''--json''
               then emit (OWhatIf \<lparr>wr_TaskID = ID task, wr_Title = Title task, wr_IfDone = if_done, wr_IfBlocked = if_blocked\<rparr>)
               else emit (OText (whatif_text task if_done if_blocked)))
         in if scenario = [] \<or> scenario = ''done''
            then with_resolver e (\<lambda>live. answer (Some (whatif_done s i (Some live))))
            else answer None)))"

definition cmdGraph :: "'b server_env \<Rightarrow> string list \<Rightarrow> 'b cmd" where
  "cmdGraph e args =
     loadStore e (\<lambda>s.
       if hasFlag args ''--dot'' then emit (OText (renderDOT (Tasks s)))
       else if hasFlag args ''--json'' then emit (OGraph (graph_result s))
       else emit (OText (graph_text s)))"

definition page_text :: "(string \<Rightarrow> string) \<Rightarrow> u64 \<Rightarrow> eventsEnvelope \<Rightarrow> string" where
  "page_text local_time since page =
     (case RetentionGap (ee_Cursor page) of
        Some gap \<Rightarrow> line [''Warning: event IDs '', fmt_id (gap_From gap), ''-'', fmt_id (gap_Through gap),
                          '' are no longer retained; inspect current status before resuming.'']
      | None \<Rightarrow> [])
     @ renderEventTable local_time (ee_Events page) since
     @ (if HasMore (ee_Cursor page)
        then line [''More events are available; continue with `todo events '', fmt_id (NextSince (ee_Cursor page)),
                   '' --limit '', int_string (ee_Limit page), ''`.'']
        else [])"

definition cmdEvents :: "'b server_env \<Rightarrow> (string \<Rightarrow> string) \<Rightarrow> string list \<Rightarrow> 'b cmd" where
  "cmdEvents e local_time args =
     parsed (parseEventCLIOptions args) (\<lambda>(since, limit).
       loadStore e (\<lambda>s.
         case limit of
           None \<Rightarrow>
             (let events = map newProtocolEvent (EventsSince s since)
              in if hasFlag args ''--json'' then emit (OEvents events)
                 else emit (OText (renderEventTable local_time events since)))
         | Some l \<Rightarrow>
             (let page = buildEventPage s since (nat l)
              in if hasFlag args ''--json'' then emit (OEventPage page)
                 else emit (OText (page_text local_time since page)))))"

definition cmdExport :: "'b server_env \<Rightarrow> string list \<Rightarrow> 'b cmd" where
  "cmdExport e args =
     loadStore e (\<lambda>s.
       if hasFlag args ''--markdown'' then emit (OText (export_markdown s))
       else emit (OTasks (tasks_envelope (sortedTasks (Tasks s)))))"

text \<open>
  \<^verbatim>\<open>watchTask\<close> repeats until the task is completed; \<open>rounds\<close> bounds how long it is watched, and the text
  is what it wrote up to then; when it ends in an error the screens drawn before are not kept here. The screen is drawn again when the status or the length of the log
  changed since the last time.
\<close>

definition clearScreen :: string where
  "clearScreen = escape_sequence ''H'' @ escape_sequence ''2J''"

definition watch_screen :: "u64 \<Rightarrow> Task \<Rightarrow> string" where
  "watch_screen i task =
     clearScreen
     @ line [''Watching task '', fmt_id i, '' '', em_dash, '' '', Title task]
     @ line [concat (replicate 50 [CHR 0xE2, CHR 0x94, CHR 0x80])]
     @ line [''Status: '', statusName (Status task)]
     @ (if Owner task \<noteq> [] then line [''Owner:  '', Owner task] else [])
     @ (if Log task \<noteq> [] then newline @ line [''Recent log:''] @ recent_log (Log task) else [])"

primrec watchTask :: "'b server_env \<Rightarrow> u64 \<Rightarrow> nat \<Rightarrow> string \<Rightarrow> nat \<Rightarrow> string \<Rightarrow> 'b cmd" where
  "watchTask e i 0 lastStatus lastLogCount out = emit (OText out)"
| "watchTask e i (Suc rounds) lastStatus lastLogCount out =
     loadStore e (\<lambda>s.
       case GetTask s i of
         None \<Rightarrow> stop ErrTaskNotFound (Errorf ''Task %d not found'' [ArgId i] [])
       | Some task \<Rightarrow>
           (let statusStr = statusName (Status task);
                changed = (statusStr \<noteq> lastStatus \<or> length (Log task) \<noteq> lastLogCount \<or> lastStatus = []);
                out = out @ (if changed then watch_screen i task else [])
            in if Status task = StatusCompleted
               then emit (OText (out @ newline @ line [[CHR 0xE2, CHR 0x9C, CHR 0x93], '' Task completed!'']))
               else if changed then watchTask e i rounds statusStr (length (Log task)) out
               else watchTask e i rounds lastStatus lastLogCount out))"

primrec watchDashboard :: "'b server_env \<Rightarrow> nat \<Rightarrow> string \<Rightarrow> 'b cmd" where
  "watchDashboard e 0 out = emit (OText out)"
| "watchDashboard e (Suc rounds) out =
     loadStore e (\<lambda>s. watchDashboard e rounds (out @ clearScreen @ status_text [] [] s))"

definition cmdWatch :: "'b server_env \<Rightarrow> nat \<Rightarrow> cli_command \<Rightarrow> string list \<Rightarrow> 'b cmd" where
  "cmdWatch e rounds c args =
     (case parseIDs c args of
        i # _ \<Rightarrow> watchTask e i rounds [] 0 []
      | [] \<Rightarrow> watchDashboard e rounds [])"

section \<open>The entry point\<close>

text \<open>
  What a run of the program depends on besides the environment of \<open>Server\<close>: the text of an error,
  \<^verbatim>\<open>json.Unmarshal\<close> up to the value, the local time of a timestamp, \<^verbatim>\<open>%.0f\<close>, how often waiting commands
  repeat, and the commands that are not a step of this world (\<^verbatim>\<open>serve\<close>, \<^verbatim>\<open>mcp\<close>, \<^verbatim>\<open>integrate\<close>,
  \<^verbatim>\<open>conformance\<close>, \<^verbatim>\<open>doctor\<close>).
\<close>

record 'b cli_env =
  cli_server :: "'b server_env"
  cli_show_err :: "goerr \<Rightarrow> string"
  cli_parse :: "string \<Rightarrow> json option"
  cli_local_time :: "string \<Rightarrow> string"
  cli_percent :: "rat \<Rightarrow> string"
  cli_polls :: nat
  cli_rounds :: nat
  cli_other :: "string \<Rightarrow> string list \<Rightarrow> 'b cmd"

definition command_runs :: "'b cli_env \<Rightarrow> cli_command \<Rightarrow> string list \<Rightarrow> (string \<times> 'b cmd) list" where
  "command_runs ce c args =
     (let e = cli_server ce
      in [(''init'', cmdInit e), (''add'', cmdAdd e c args), (''done'', cmdDone e c args),
          (''status'', cmdStatus e (cli_show_err ce) args), (''cat'', cmdCat e c args), (''rm'', cmdRm e c args),
          (''update'', cmdUpdate e c args), (''log'', cmdLog e c args), (''next'', cmdNext e args),
          (''search'', cmdSearch e args), (''claim'', cmdClaim e c args), (''acquire'', cmdAcquire e (cli_polls ce) args),
          (''heartbeat'', cmdHeartbeat e c args), (''handoff'', cmdHandoff e c args), (''release'', cmdRelease e c args),
          (''my'', cmdMy e args), (''bootstrap'', cmdBootstrap e args), (''agent-card'', cmdAgentCard e args),
          (''caps'', cmdCaps e args), (''block'', cmdBlock e c args), (''unblock'', cmdUnblock e c args),
          (''depends'', cmdDepends e c args), (''dependents'', cmdDependents e c args),
          (''decompose'', cmdDecompose e (cli_parse ce) c args), (''lineage'', cmdLineage e (cli_percent ce) c args),
          (''what-if'', cmdWhatIf e c args), (''graph'', cmdGraph e args), (''watch'', cmdWatch e (cli_rounds ce) c args),
          (''events'', cmdEvents e (cli_local_time ce) args), (''config'', cmdConfig e args), (''export'', cmdExport e args),
          (''prune'', cmdPrune e args), (''backup'', cmdBackup e args), (''restore'', cmdRestore e args),
          (''compact'', cmdCompact e args), (''link'', cmdLink e args), (''unlink'', cmdUnlink e args)])"

definition run_command :: "'b cli_env \<Rightarrow> cli_command \<Rightarrow> string list \<Rightarrow> 'b cmd" where
  "run_command ce c args =
     (case map_of (command_runs ce c args) (cmd_Name c) of
        Some k \<Rightarrow> k
      | None \<Rightarrow> cli_other ce (cmd_Name c) args)"

text \<open>
  The search for the project upwards from the working directory, which is given by its elements, the
  deepest first; \<open>there\<close> is whether \<^verbatim>\<open>os.Stat\<close> finds a path.
\<close>

definition dir_path :: "string list \<Rightarrow> string" where
  "dir_path elems = CHR ''/'' # Join ''/'' (rev elems)"

primrec find_root :: "(string \<Rightarrow> bool) \<Rightarrow> string list \<Rightarrow> string option" where
  "find_root there [] =
     (if there (filepath_Join [dir_path [], ''.terminal-todo'']) then Some (dir_path []) else None)"
| "find_root there (d # up) =
     (if there (filepath_Join [dir_path (d # up), ''.terminal-todo'']) then Some (dir_path (d # up))
      else find_root there up)"

definition findProjectRoot :: "goerr + string list \<Rightarrow> (string \<Rightarrow> bool) \<Rightarrow> goerr + string" where
  "findProjectRoot cwd there =
     (case cwd of
        Inl err \<Rightarrow> Inl err
      | Inr elems \<Rightarrow>
          (case find_root there elems of
             Some dir \<Rightarrow> Inr dir
           | None \<Rightarrow> Inl (msg ''not in a project (no .terminal-todo/ found)'')))"

text \<open>How the process ends: its status, what it wrote, and the error it reported.\<close>

record process_end =
  end_Status :: int
  end_Output :: "cli_output option"
  end_Error :: "(ErrorCode \<times> goerr) option"

definition wrote :: "int \<Rightarrow> string \<Rightarrow> process_end" where
  "wrote status text = \<lparr>end_Status = status, end_Output = Some (OText text), end_Error = None\<rparr>"

definition failed :: "ErrorCode \<Rightarrow> goerr \<Rightarrow> process_end" where
  "failed code err = \<lparr>end_Status = exitCode code, end_Output = None, end_Error = Some (code, err)\<rparr>"

definition ended :: "ErrorCode \<times> goerr + cli_output \<Rightarrow> process_end" where
  "ended r =
     (case r of
        Inl (code, err) \<Rightarrow> failed code err
      | Inr out \<Rightarrow> \<lparr>end_Status = 0, end_Output = Some out, end_Error = None\<rparr>)"

definition run_in :: "'b cli_env \<Rightarrow> string \<Rightarrow> cli_command \<Rightarrow> string list \<Rightarrow> ('b, process_end) action" where
  "run_in ce dir c args w =
     (case validateArgs c args of
        Some err \<Rightarrow> Some (failed ErrInvalidArgs err, w)
      | None \<Rightarrow>
          map_option (apfst ended)
            (run_command (ce\<lparr>cli_server := (cli_server ce)\<lparr>projectRoot := dir\<rparr>\<rparr>) c args w))"

definition Execute ::
  "'b cli_env \<Rightarrow> goerr + string list \<Rightarrow> (string \<Rightarrow> bool) \<Rightarrow> string list \<Rightarrow> ('b, process_end) action" where
  "Execute ce cwd there argv w =
     (let usage = renderUsage (version (cli_server ce));
          unknown = (\<lambda>name. failed ErrInvalidArgs (Errorf ''unknown command: %s'' [ArgStr name] []))
      in case argv of
           [] \<Rightarrow> Some (wrote 1 usage, w)
         | name # args \<Rightarrow>
             if name = ''--version'' \<or> name = ''-v''
             then Some (wrote 0 (line [''todo v'', version (cli_server ce)]), w)
             else if name = ''help'' \<or> name = ''--help'' \<or> name = ''-h'' then
               (case args of
                  [] \<Rightarrow> Some (wrote 0 usage, w)
                | topic # _ \<Rightarrow>
                    (case lookupCommand topic of
                       Some c \<Rightarrow> Some (wrote 0 (renderCommandHelp c), w)
                     | None \<Rightarrow> Some (unknown topic, w)))
             else
               (case lookupCommand name of
                  None \<Rightarrow> Some (unknown name, w)
                | Some c \<Rightarrow>
                    (case findProjectRoot cwd there of
                       Inr dir \<Rightarrow> run_in ce dir c args w
                     | Inl err \<Rightarrow>
                         if cmd_AllowsUninitializedProject c
                         then run_in ce (case cwd of Inr elems \<Rightarrow> dir_path elems | Inl _ \<Rightarrow> []) c args w
                         else Some (failed ErrNotInitialized err, w))))"

end
