(* ===== verification/Session.thy ===== *)
theory Session
  imports Serve
begin

text \<open>
  What the JSON-RPC server promises: properties of \<^verbatim>\<open>dispatch\<close> and \<^verbatim>\<open>readRequests\<close> over all methods,
  from the lemmas about the single handlers.
\<close>

section \<open>The results of the methods\<close>

definition method_results :: "(string \<times> rpc_result set) list" where
  "method_results =
     [(''todo.ping'', range RPing), (''todo.init'', range RInit),
      (''todo.add'', receipt_of ''add'' \<union> {RAdd i t | i t. True}),
      (''todo.done'', receipt_of ''complete'' \<union> {RDone i t | i t. True}),
      (''todo.status'', range RTasks \<union> range RProjects), (''todo.bootstrap'', range RBootstrap),
      (''todo.cat'', range RTask), (''todo.update'', receipt_of ''update'' \<union> range RTask),
      (''todo.claim'', receipt_of ''claim'' \<union> range RClaim),
      (''todo.acquire'', receipt_of ''acquire'' \<union> range RAcquire),
      (''todo.heartbeat'', receipt_of ''heartbeat'' \<union> range RTaskEnvelope),
      (''todo.handoff'', receipt_of ''handoff'' \<union> {RRelease i t | i t. True}),
      (''todo.release'', receipt_of ''release'' \<union> {RRelease i t | i t. True}),
      (''todo.block'', receipt_of ''block'' \<union> {RBlock i t | i t. True}),
      (''todo.unblock'', receipt_of ''unblock'' \<union> {RUnblock i t | i t. True}),
      (''todo.next'', range RNext), (''todo.log'', receipt_of ''log'' \<union> range RLog),
      (''todo.my'', range RTasks), (''todo.search'', range RTasks), (''todo.depends'', range RDepends),
      (''todo.dependents'', range RDependents), (''todo.decompose'', receipt_of ''decompose'' \<union> range RDecompose),
      (''todo.lineage'', range RLineage), (''todo.events'', range REvents \<union> range REventPage),
      (''todo.whatIf'', range RWhatIf), (''todo.graph'', range RGraph),
      (''todo.config.get'', range RConfig \<union> {RConfigValue k v | k v. True}),
      (''todo.config.set'', {RConfigSet k v | k v. True}), (''todo.prune'', receipt_of ''prune'' \<union> range RPrune),
      (''todo.compact'', range RCompact), (''todo.export'', range RTasks), (''todo.link'', {RLink k v | k v. True}),
      (''todo.unlink'', range RUnlink), (''todo.backup'', {RBackup k v | k v. True}),
      (''todo.restore'', range RRestore), (''todo.doctor'', range RDoctor), (''todo.agentCard'', range RAgentCard),
      (''todo.caps'', range RCaps)]"

lemma map_of_related:
  assumes "list_all2 (\<lambda>(k, x) (k', y). k = k' \<and> R x y) xs ys" "map_of xs k = Some x"
  shows "\<exists>y. map_of ys k = Some y \<and> R x y"
  using assms by (induction rule: list_all2_induct) (auto split: if_splits)

lemma handlers_good:
  assumes "env_ok e" "map_of (method_handlers e) meth = Some handler"
  shows "\<exists>R. map_of method_results meth = Some R \<and> (\<forall>params. good e (\<lambda>r. r \<in> R) (handler params))"
proof -
  have "list_all2 (\<lambda>(k, h) (k', R). k = k' \<and> (\<forall>params. good e (\<lambda>r. r \<in> R) (h params)))
      (method_handlers e) method_results"
    unfolding method_handlers_def method_results_def
    by (simp only: list_all2_Cons list_all2_Nil prod.case)
       (intro conjI allI refl TrueI good_reads [OF assms(1)] good_init [OF assms(1)] good_add [OF assms(1)]
        good_done [OF assms(1)] good_documents [OF assms(1)] good_update_handler [OF assms(1)] good_claim [OF assms(1)]
        good_acquire [OF assms(1)] good_task_handlers [OF assms(1)] good_decompose [OF assms(1)]
        good_removals [OF assms(1)] good_link [OF assms(1)] good_backup [OF assms(1)] good_doctor [OF assms(1)])
  from map_of_related [OF this assms(2)] show ?thesis .
qed

text \<open>The answer to a meth: a result of its type or an error with a documented code.\<close>

lemma dispatch_good:
  assumes "env_ok e"
  shows "good e (\<lambda>r. \<exists>R. map_of method_results meth = Some R \<and> r \<in> R) (dispatch e meth params)"
proof (cases "map_of (method_handlers e) meth")
  case None
  then show ?thesis by (simp add: dispatch_def good.J_refuse)
next
  case (Some handler)
  from handlers_good [OF assms Some] show ?thesis by (force simp: dispatch_def Some runs_def answer_ok_def split: sum.splits)
qed

section \<open>Before the project is initialized\<close>

text \<open>
  \<open>gated e h\<close>: without an initialized project \<open>h\<close> refuses, and the files change only by what others do.
\<close>

definition gate_codes :: "int set" where
  "gate_codes = {rpcInvalidParams, rpcNotInitialized, rpcMethodNotFound}"

definition gated :: "'b server_env \<Rightarrow> 'b act \<Rightarrow> bool" where
  "gated e h \<longleftrightarrow>
     (\<forall>w. \<not> w_initialized w \<longrightarrow>
        (\<exists>err n. h w = Some (Inl err, (opened e ^^ n) w) \<and> rpc_Code err \<in> gate_codes))"

interpretation gated: judgement "gated e" gate_codes for e
proof
  show "gated e (fail err)" if "rpc_Code err \<in> gate_codes" for err
    using that unfolding gated_def fail_def by (metis funpow_0)
qed

lemma gated_params: "(\<And>p. gated e (k p)) \<Longrightarrow> gated e (with_params (unmarshalParams fs zero params) k)"
  by (rule gated.J_params) (simp_all add: gate_codes_def)

lemma gated_validated: "gated e k \<Longrightarrow> gated e (validated v k)"
  by (rule gated.J_validated) (simp_all add: gate_codes_def)

lemma gated_refuse: "code = rpcInvalidParams \<or> code = rpcNotInitialized \<Longrightarrow> gated e (refuse code err)"
  by (rule gated.J_refuse) (auto simp: gate_codes_def)

lemma gated_ensure: "gated e (ensureInitialized k)"
  using gated_refuse [of rpcNotInitialized e "msg ''Project not initialized''"] by (auto simp: gated_def ensureInitialized_def)

lemma opened_initialized [simp]: "w_initialized (opened e w) = w_initialized w"
  by (simp add: opened_def)

lemma gated_read:
  assumes "\<And>f. gated e (k f)"
  shows "gated e (read_files e k)"
  unfolding gated_def
proof (intro allI impI)
  fix w :: "'a world" assume "\<not> w_initialized w"
  then obtain err n where "k (w_files (opened e w)) (opened e w) = Some (Inl err, (opened e ^^ n) (opened e w))"
    "rpc_Code err \<in> gate_codes"
    using assms [of "w_files (opened e w)", unfolded gated_def, rule_format, of "opened e w"] by auto
  then show "\<exists>err n. read_files e k w = Some (Inl err, (opened e ^^ n) w) \<and> rpc_Code err \<in> gate_codes"
    by (intro exI [of _ err] exI [of _ "Suc n"]) (simp add: read_files_def Let_def funpow_Suc_right del: funpow.simps)
qed

lemmas gated_steps = gated_params gated_validated gated_refuse gated_ensure gated_read gated.J_require

lemma gated_handlers:
  assumes "map_of (method_handlers e) meth = Some handler" "meth \<notin> {''todo.ping'', ''todo.init''}"
  shows "gated e (handler params)"
proof -
  have "list_all (\<lambda>(m, h). m \<notin> {''todo.ping'', ''todo.init''} \<longrightarrow> (\<forall>params. gated e (h params))) (method_handlers e)"
    unfolding method_handlers_def
    by (auto simp: handleAdd_def handleDone_def handleStatus_def handleBootstrap_def handleCat_def handleUpdate_def
        handleClaim_def handleAcquire_def handleHeartbeat_def handleHandoff_def handleRelease_def handleBlock_def
        handleUnblock_def handleNext_def handleLog_def handleMy_def handleSearch_def handleDepends_def
        handleDependents_def handleDecompose_def handleLineage_def handleEvents_def handleWhatIf_def handleGraph_def
        handleConfigGet_def handleConfigSet_def handlePrune_def handleCompact_def handleExport_def handleLink_def
        handleUnlink_def handleBackup_def handleRestore_def handleDoctor_def handleAgentCard_def handleCaps_def
        decode_defs Let_def intro!: gated_steps split: sum.splits prod.splits)
  with map_of_SomeD [OF assms(1)] assms(2) show ?thesis by (auto simp: list_all_iff)
qed

section \<open>Reading\<close>

text \<open>A task before and after reads: the same, or its lease ran out and was reclaimed.\<close>

definition tidied :: "Task \<Rightarrow> Task \<Rightarrow> bool" where
  "tidied t t' \<longleftrightarrow> t' = t \<or> (\<exists>now. task_expired now t) \<and> t' = reclaimed t"

definition tidied_store :: "TaskStore \<Rightarrow> TaskStore \<Rightarrow> bool" where
  "tidied_store s s' \<longleftrightarrow>
     (\<forall>i. rel_option tidied (map_of (Tasks s) i) (map_of (Tasks s') i)) \<and> NextID s' = NextID s
     \<and> Acquisitions s' = Acquisitions s \<and> (\<exists>es. Events s' = Events s @ es)"

definition tidied_files :: "'b server_env \<Rightarrow> 'b files \<Rightarrow> 'b files \<Rightarrow> bool" where
  "tidied_files e f f' \<longleftrightarrow>
     f_agents f' = f_agents f \<and> f_repos f' = f_repos f \<and> f_config f' = f_config f
     \<and> (\<forall>path. target (f_store f' path) = target (f_store f path)
          \<or> (\<exists>s s'. holds (codec e) (f_store f path) s \<and> holds (codec e) (f_store f' path) s' \<and> tidied_store s s'))"

lemma tidied_trans: "tidied t t' \<Longrightarrow> tidied t' t'' \<Longrightarrow> tidied t t''"
  by (auto simp: tidied_def)

lemma tidied_store_refl: "tidied_store s s"
  by (simp add: tidied_store_def tidied_def option.rel_refl)

lemma tidied_store_trans:
  assumes "tidied_store s s'" "tidied_store s' s''"
  shows "tidied_store s s''"
proof -
  have "transp (rel_option tidied)" by (rule option.rel_transp) (auto intro: transpI tidied_trans)
  with assms show ?thesis unfolding tidied_store_def by (auto dest: transpD)
qed

lemma tidied_files_refl: "tidied_files e f f"
  by (simp add: tidied_files_def)

lemma tidied_files_trans:
  assumes "tidied_files e f f'" "tidied_files e f' f''"
  shows "tidied_files e f f''"
proof -
  have "target (f_store f'' path) = target (f_store f path)
      \<or> (\<exists>s s'. holds (codec e) (f_store f path) s \<and> holds (codec e) (f_store f'' path) s' \<and> tidied_store s s')" for path
  proof -
    have "target (f_store f' path) = target (f_store f path)
        \<or> (\<exists>s s'. holds (codec e) (f_store f path) s \<and> holds (codec e) (f_store f' path) s' \<and> tidied_store s s')"
      "target (f_store f'' path) = target (f_store f' path)
        \<or> (\<exists>s s'. holds (codec e) (f_store f' path) s \<and> holds (codec e) (f_store f'' path) s' \<and> tidied_store s s')"
      using assms by (simp_all add: tidied_files_def)
    then show ?thesis by (auto simp: holds_def intro: tidied_store_trans)
  qed
  with assms show ?thesis by (simp add: tidied_files_def)
qed

text \<open>A sweep tidies, and so does the read that writes it back.\<close>

lemma sweep_tidied:
  assumes "store_inv s" "CleanExpiredLeases clk s = Some (n, s')"
  shows "tidied_store s (stamped clk' s')"
  using CleanExpiredLeases_spec [OF store_inv_wf [OF assms(1)], of clk] assms(2)
  by (auto simp: tidied_store_def tidied_def swept_def same_frame_def option.rel_map intro!: option.rel_refl_strong)

lemma LoadCurrent_tidied:
  assumes ok: "codec_ok c" and inv: "\<And>s. holds c d s \<Longrightarrow> store_inv s"
    and run: "LoadCurrent c e1 e2 clk d d = Some (r, ds)"
  shows "target (last ds) = target d
    \<or> (\<exists>s s'. holds c d s \<and> holds c (last ds) s' \<and> tidied_store s s' \<and> store_inv s')"
proof (cases "ds = [d]")
  case False
  with run obtain s n s1 err s2 where s: "holds c d s" "CleanExpiredLeases (clean_time e2) s = Some (n, s1)"
    "writeStore c (writing e2) (write_time e2) s1 d = (err, s2, ds)"
    by (auto simp: LoadCurrent_def Load_def holds_def split: option.splits sum.splits if_splits prod.splits)
  have "target (last ds) = target d \<or> holds c (last ds) (stamped (write_time e2) s1)"
    using writeStore_holds(1) [OF ok s(3)] writeStore_trace [OF s(3)] by simp
  moreover have "store_inv (stamped (write_time e2) s1)"
    using store_inv_stamped store_inv_sweep [OF inv [OF s(1)] s(2)] by blast
  ultimately show ?thesis using s(1) sweep_tidied [OF inv [OF s(1)] s(2)] by blast
qed simp

text \<open>
  \<open>quiet e h\<close>: alone with sound files \<open>h\<close> writes nothing but reclaimed leases.
\<close>

definition undisturbed :: "'b server_env \<Rightarrow> bool" where
  "undisturbed e \<longleftrightarrow> codec_ok (codec e) \<and> (\<forall>n f. others e n f = f)"

definition quiet :: "'b server_env \<Rightarrow> 'b act \<Rightarrow> bool" where
  "quiet e h \<longleftrightarrow>
     (\<forall>w r w'. files_inv store_inv e (w_files w) \<longrightarrow> h w = Some (r, w') \<longrightarrow>
        files_inv store_inv e (w_files w') \<and> tidied_files e (w_files w) (w_files w'))"

interpretation quiet: judgement "quiet e" UNIV for e
  by unfold_locales (simp add: quiet_def fail_def tidied_files_refl)

lemma quiet_respond: "quiet e (respond r)"
  by (simp add: quiet_def respond_def tidied_files_refl)

lemma quiet_respond_world: "quiet e (\<lambda>w. respond (f w) w)"
  by (simp add: quiet_def respond_def tidied_files_refl)

lemma quiet_ensure:
  assumes "quiet e k"
  shows "quiet e (ensureInitialized k)"
proof -
  have "ensureInitialized k w = k w \<or> (\<exists>err. ensureInitialized k w = Some (Inl err, w))" for w
    by (simp add: ensureInitialized_def fail_def)
  with assms show ?thesis unfolding quiet_def by (metis option.inject prod.inject tidied_files_refl)
qed

lemma quiet_at_turn: "(\<And>n. quiet e (k n)) \<Longrightarrow> quiet e (at_turn k)"
  by (simp add: quiet_def at_turn_def)

lemma undisturbed_opened: "undisturbed e \<Longrightarrow> w_files (opened e w) = w_files w"
  by (simp add: undisturbed_def opened_def)

lemma quietD:
  "quiet e h \<Longrightarrow> files_inv store_inv e (w_files w) \<Longrightarrow> h w = Some (r, w')
    \<Longrightarrow> files_inv store_inv e (w_files w') \<and> tidied_files e (w_files w) (w_files w')"
  by (simp add: quiet_def)

lemma quiet_opened:
  assumes e: "undisturbed e" and k: "\<And>x. quiet e (k x)"
  shows "quiet e (\<lambda>w. k (g w) (opened e w))"
  unfolding quiet_def
proof (intro allI impI)
  fix w r w' assume "files_inv store_inv e (w_files w)" "k (g w) (opened e w) = Some (r, w')"
  then show "files_inv store_inv e (w_files w') \<and> tidied_files e (w_files w) (w_files w')"
    using quietD [OF k, of "opened e w"] by (simp add: undisturbed_opened [OF e])
qed

lemma quiet_read: "undisturbed e \<Longrightarrow> (\<And>f. quiet e (k f)) \<Longrightarrow> quiet e (read_files e k)"
  unfolding read_files_def [abs_def] Let_def by (rule quiet_opened)

lemma quiet_resolver: "undisturbed e \<Longrightarrow> (\<And>live. quiet e (k live)) \<Longrightarrow> quiet e (with_resolver e k)"
  unfolding with_resolver_def [abs_def] Let_def by (rule quiet_opened)

lemma quiet_snapshot: "undisturbed e \<Longrightarrow> (\<And>r. quiet e (k r)) \<Longrightarrow> quiet e (with_snapshot e tasks k)"
  unfolding with_snapshot_def by (rule quiet_resolver)

lemma quiet_load_at: "undisturbed e \<Longrightarrow> (\<And>r. quiet e (k r)) \<Longrightarrow> quiet e (load_at e path k)"
  unfolding load_at_def [abs_def] Let_def by (rule quiet_opened)

lemma quiet_found: "(\<And>t. quiet e (k t)) \<Longrightarrow> quiet e (found_task s i k)"
  by (auto simp: found_task_def intro: quiet.J_refuse split: option.splits)

lemma quiet_load_current:
  fixes e :: "'b server_env"
  assumes e: "undisturbed e" and k: "\<And>r. quiet e (k r)"
  shows "quiet e (load_current e path k)"
  unfolding quiet_def
proof (intro allI impI)
  fix w :: "'b world" and r w'
  assume w: "files_inv store_inv e (w_files w)" and run: "load_current e path k w = Some (r, w')"
  let ?d = "f_store (w_files w) path"
  have files: "w_files (opened e w) = w_files w" "w_files (opened e (opened e w)) = w_files w"
    using undisturbed_opened [OF e] by simp_all
  from run obtain q ds where q: "LoadCurrent (codec e) (io e (w_turn w)) (io e (w_turn (opened e w))) (store_clock e (w_turn w)) ?d ?d
      = Some (q, ds)" and k_run: "k q ((opened e (opened e w))\<lparr>w_files := set_store path (last ds) (w_files w)\<rparr>) = Some (r, w')"
    by (auto simp: load_current_def Let_def files split: option.splits prod.splits)
  have ok: "codec_ok (codec e)" using e by (simp add: undisturbed_def)
  have inv: "store_inv s" if "holds (codec e) ?d s" for s using that w by (auto simp: files_inv_def)
  have d: "target (last ds) = target ?d \<or> (\<exists>s s'. holds (codec e) ?d s \<and> holds (codec e) (last ds) s' \<and> tidied_store s s' \<and> store_inv s')"
    by (rule LoadCurrent_tidied [OF ok inv q])
  let ?f = "set_store path (last ds) (w_files w)"
  have "store_inv s" if "holds (codec e) (last ds) s" for s
    using d that inv by (metis holds_def holds_fun)
  then have 1: "files_inv store_inv e ?f" using w by (intro files_inv_set_store)
  have 2: "tidied_files e (w_files w) ?f" using d by (auto simp: tidied_files_def set_store_def)
  from quietD [OF k _ k_run] 1 have "files_inv store_inv e (w_files w') \<and> tidied_files e ?f (w_files w')" by simp
  with 2 show "files_inv store_inv e (w_files w') \<and> tidied_files e (w_files w) (w_files w')"
    using tidied_files_trans by blast
qed

lemma quiet_load: "undisturbed e \<Longrightarrow> (\<And>s. quiet e (k s)) \<Longrightarrow> quiet e (loadStoreSafe e k)"
  unfolding loadStoreSafe_def by (rule quiet_load_current) (auto intro: quiet.J_fail split: sum.splits)

lemma quiet_load_linked: "undisturbed e \<Longrightarrow> (\<And>ps. quiet e (k ps)) \<Longrightarrow> quiet e (load_linked e links k)"
proof (induction links arbitrary: k)
  case (Cons link links)
  then show ?case by (cases link) (auto intro!: quiet_load_current)
qed simp

lemmas quiet_steps = quiet.J_params quiet.J_validated quiet.J_require quiet.J_refuse quiet.J_fail quiet_ensure
  quiet_at_turn quiet_read quiet_resolver quiet_snapshot quiet_load_at quiet_found quiet_load quiet_load_linked
  quiet_respond quiet_respond_world

definition read_methods :: "string list" where
  "read_methods =
     [''todo.ping'', ''todo.status'', ''todo.bootstrap'', ''todo.cat'', ''todo.next'', ''todo.my'', ''todo.search'',
      ''todo.depends'', ''todo.dependents'', ''todo.lineage'', ''todo.events'', ''todo.whatIf'', ''todo.graph'',
      ''todo.config.get'', ''todo.export'', ''todo.doctor'', ''todo.caps'']"

lemma quiet_handlers:
  assumes e: "undisturbed e" and m: "map_of (method_handlers e) meth = Some handler" "meth \<in> set read_methods"
  shows "quiet e (handler params)"
proof -
  have "list_all (\<lambda>(m, h). m \<in> set read_methods \<longrightarrow> (\<forall>params. quiet e (h params))) (method_handlers e)"
    unfolding method_handlers_def read_methods_def
    by (auto simp: handlePing_def handleStatus_def handleStatusAll_def handleBootstrap_def handleCat_def handleNext_def
        handleMy_def handleSearch_def handleDepends_def handleDependents_def handleLineage_def handleEvents_def
        handleWhatIf_def handleGraph_def handleConfigGet_def handleExport_def handleDoctor_def handleCaps_def
        decode_defs Let_def intro!: quiet_steps e split: sum.splits prod.splits option.splits)
  with map_of_SomeD [OF m(1)] m(2) show ?thesis by (auto simp: list_all_iff)
qed

section \<open>Transactions that were acknowledged\<close>

text \<open>How a handler got to its result: every guard passed, every access succeeded.\<close>

lemma passed:
  "with_params params k w = Some (Inr r, w') \<longleftrightarrow> (\<exists>p. params = Inr p \<and> k p w = Some (Inr r, w'))"
  "require P (fail err) h w = Some (Inr r, w') \<longleftrightarrow> P \<and> h w = Some (Inr r, w')"
  "validated v h w = Some (Inr r, w') \<longleftrightarrow> v = None \<and> h w = Some (Inr r, w')"
  "ensureInitialized h w = Some (Inr r, w') \<longleftrightarrow> w_initialized w \<and> h w = Some (Inr r, w')"
  "fail err w = Some (Inr r, w') \<longleftrightarrow> False"
  by (auto simp: with_params_def require_def validated_def ensureInitialized_def fail_def split: sum.splits option.splits)

lemma passed_ttl:
  "with_ttl e explicit k w = Some (Inr r, w') \<Longrightarrow> \<exists>ttl w1. k ttl w1 = Some (Inr r, w')"
  by (auto simp: with_ttl_def read_files_def Let_def passed split: sum.splits if_splits)

lemma passed_touch: "touch e actor h w = Some (Inr r, w') \<Longrightarrow> \<exists>w1. h w1 = Some (Inr r, w')"
  by (auto simp: touch_def update_agents_def Let_def passed split: prod.splits option.splits)

lemma passed_load: "loadStoreSafe e k w = Some (Inr r, w') \<Longrightarrow> \<exists>s w1. k s w1 = Some (Inr r, w')"
  by (auto simp: loadStoreSafe_def load_current_def Let_def passed split: option.splits prod.splits sum.splits)

lemma passed_snapshot: "with_snapshot e tasks k w = Some (Inr r, w') \<Longrightarrow> \<exists>resolver w1. k resolver w1 = Some (Inr r, w')"
  by (auto simp: with_snapshot_def with_resolver_def Let_def)

lemma passed_update:
  assumes "codec_ok (codec e)" "updateStoreSafe e wrap mutate k w = Some (Inr r, w')"
  obtains a s s1 s2 w1 where "mutate (store_clock e (w_turn w)) (project_clock e (w_turn w)) s1 = (Inr a, s2)"
    "Tasks s = Tasks s2" "k a s w1 = Some (Inr r, w')" "holds (codec e) (f_store (w_files w1) (tasksBinPath e)) s"
proof -
  let ?m = "mutate (store_clock e (w_turn w)) (project_clock e (w_turn w))"
  let ?d = "f_store (w_files (opened e w)) (tasksBinPath e)"
  from assms(2) obtain a s ds where u: "Update (codec e) (io e (w_turn w)) ?m ?d = Some (Inr (a, s), ds)"
    "k a s ((opened e w)\<lparr>w_files := set_store (tasksBinPath e) (last ds) (w_files (opened e w))\<rparr>) = Some (Inr r, w')"
    by (auto simp: updateStoreSafe_def update_store_def Let_def passed split: option.splits prod.splits sum.splits)
  from Update_committed [OF assms(1) u(1)] obtain s0 n s1 s2 where "?m s1 = (Inr a, s2)"
    "s = stamped (write_time (io e (w_turn w))) s2" "holds (codec e) (last ds) s" by metis
  then show thesis by (intro that [OF _ _ u(2)]) (simp_all add: set_store_def)
qed

lemma respond_eq: "respond r w = Some (Inr r', w') \<longleftrightarrow> r' = r \<and> w' = w"
  by (auto simp: respond_def)

section \<open>A sample server\<close>

definition sample_env :: "TaskStore server_env" where
  "sample_env =
     \<lparr>codec = plain_codec, projectRoot = ''/p'', version = ''1.0'', others = (\<lambda>_ f. f),
      io = (\<lambda>_. no_io_errors 1000000000 1000000000), documents = (\<lambda>_. no_json_errors), store_clock = (\<lambda>_. 1000000000),
      project_clock = (\<lambda>_. 1000000000), file_size = (\<lambda>_ _. 0), same_file = (\<lambda>_ a b. a = b),
      filepath_Abs = (\<lambda>p. Inr p), filepath_Rel = (\<lambda>_ _. None), ToLower = (\<lambda>s. s), ParseFloat32 = (\<lambda>_. None),
      Sprintf2f = (\<lambda>_. []), fingerprint_digest = (\<lambda>_. [])\<rparr>"

definition sample_files :: "TaskStore stored_file \<Rightarrow> TaskStore files" where
  "sample_files s =
     \<lparr>f_store = (\<lambda>path. \<lparr>target = (if path = tasksBinPath sample_env then s else FileAbsent), temporary = TempAbsent\<rparr>),
      f_agents = JSONAbsent, f_repos = JSONAbsent, f_config = JSONAbsent\<rparr>"

definition sample_world :: "TaskStore stored_file \<Rightarrow> bool \<Rightarrow> TaskStore world" where
  "sample_world s initialized = \<lparr>w_files = sample_files s, w_initialized = initialized, w_turn = 0\<rparr>"

lemma sample_world_fields [simp]:
  "codec sample_env = plain_codec" "projectRoot sample_env = ''/p''" "others sample_env n f = f"
  "io sample_env n = no_io_errors 1000000000 1000000000" "store_clock sample_env n = 1000000000"
  "project_clock sample_env n = 1000000000" "documents sample_env n = no_json_errors"
  by (simp_all add: sample_env_def)

lemma sample_files_at [simp]:
  "f_store (sample_files s) path = \<lparr>target = (if path = tasksBinPath sample_env then s else FileAbsent), temporary = TempAbsent\<rparr>"
  by (simp add: sample_files_def)

lemma sample_env_ok: "env_ok sample_env"
  by (simp add: env_ok_def sample_env_def)

lemma sample_undisturbed: "undisturbed sample_env"
  by (simp add: undisturbed_def sample_env_def)

lemma two_store_roomy: "roomy two_store"
  by (simp add: roomy_def two_store_inv two_store)

lemma two_store_version: "SchemaVersion two_store = CurrentSchemaVersion"
  by (simp add: two_store_def one_store_def insert_new_def Let_def case_prod_unfold AddEvent_fields AddTask_def store_simps)

lemma sample_files_roomy: "files_inv roomy sample_env (sample_files (FileBytes two_store))"
  using two_store_roomy two_store_version roomy.inv_new
  by (auto simp: files_inv_def holds_def sample_files_def loadUnlocked_def sample_env_def plain_codec_def split: if_splits)

lemma sample_path: "tasksBinPath sample_env = ''/p/.terminal-todo/tasks.bin''"
  by code_simp

lemma two_store_idle: "\<not> HasExpiredLeases clk two_store"
proof -
  have "\<not> task_expired now t" if "t \<in> set (GetAllTasks two_store)" for now t
    using that GetAllTasks_set [OF store_inv_wf [OF two_store_inv], of t] two_store(1)
    by (auto simp: task_expired_def split: if_splits)
  then show ?thesis by (simp add: HasExpiredLeases_def list_ex_iff)
qed

lemma two_store_fresh: "CleanExpiredLeases clk two_store = Some (0, two_store)"
  using two_store_idle by (rule CleanExpiredLeases_idle)

section \<open>Properties\<close>



text \<open>
  A successful answer has the type of its meth: the receipt of that very operation or the
  result \<^verbatim>\<open>serve.go\<close> declares for it. A meth that is not in the table has no successful answer.
\<close>

theorem dispatch_typed:
  assumes "env_ok e" "files_inv roomy e (w_files w)" "dispatch e meth params w = Some (Inr r, w')"
  shows "\<exists>R. map_of method_results meth = Some R \<and> r \<in> R"
  using dispatch_good [OF assms(1), of meth params] assms(2,3) unfolding runs_def answer_ok_def by fastforce

lemma ping_answer:
  "\<exists>r. dispatch sample_env ''todo.ping'' None (sample_world s b) = Some (Inr r, sample_world s b)"
  by (simp add: dispatch_def method_handlers_def handlePing_def decode_empty_def unmarshalParams_def with_params_def
      respond_def)

lemma dispatch_typed_witness:
  "\<exists>r R. dispatch sample_env ''todo.ping'' None (sample_world (FileBytes two_store) True)
      = Some (Inr r, sample_world (FileBytes two_store) True)
    \<and> map_of method_results ''todo.ping'' = Some R \<and> r \<in> R"
proof -
  have "files_inv roomy sample_env (w_files (sample_world (FileBytes two_store) True))"
    using sample_files_roomy by (simp add: sample_world_def)
  with ping_answer show ?thesis using dispatch_typed [OF sample_env_ok] by metis
qed

text \<open>
  C25: before \<^verbatim>\<open>todo.init\<close> the server only refuses. Every other meth but \<^verbatim>\<open>todo.ping\<close> answers with an error,
  invalid parameters before anything else, and writes no file.
\<close>

theorem uninitialized_refuses:
  assumes "\<not> w_initialized w" "meth \<notin> {''todo.ping'', ''todo.init''}"
  shows "\<exists>err n. dispatch e meth params w = Some (Inl err, (opened e ^^ n) w) \<and> rpc_Code err \<in> gate_codes"
proof (cases "map_of (method_handlers e) meth")
  case None
  then show ?thesis
    using gated.J_refuse [of rpcMethodNotFound e] assms(1) by (auto simp: dispatch_def gated_def gate_codes_def)
next
  case (Some handler)
  with gated_handlers [OF Some assms(2)] assms(1) show ?thesis by (simp add: dispatch_def gated_def)
qed

lemma uninitialized_refuses_witness:
  "\<exists>err n. dispatch sample_env ''todo.prune'' None (sample_world FileAbsent False)
     = Some (Inl err, (opened sample_env ^^ n) (sample_world FileAbsent False)) \<and> rpc_Code err \<in> gate_codes"
  by (rule uninitialized_refuses) (simp_all add: sample_world_def)

text \<open>
  C26: reading writes nothing but reclaimed leases. With no other process at work a read meth
  leaves the documents as they are, and every store with the same tasks, identifiers and receipts:
  the only tasks that differ are those whose lease had run out, now pending and without owner, and
  the log only grows.
\<close>

theorem reads_only_tidy:
  assumes "undisturbed e" "files_inv store_inv e (w_files w)" "meth \<in> set read_methods"
    "dispatch e meth params w = Some (r, w')"
  shows "tidied_files e (w_files w) (w_files w')"
proof -
  obtain handler where h: "map_of (method_handlers e) meth = Some handler"
    using assms(3) by (auto simp: read_methods_def method_handlers_def)
  from quietD [OF quiet_handlers [OF assms(1) h assms(3)] assms(2)] assms(4) show ?thesis
    by (simp add: dispatch_def h)
qed

lemma reads_only_tidy_witness:
  "\<exists>r w'. dispatch sample_env ''todo.next'' None (sample_world (FileBytes two_store) True) = Some (r, w')
    \<and> tidied_files sample_env (sample_files (FileBytes two_store)) (w_files w')"
proof -
  let ?w = "sample_world (FileBytes two_store) True"
  have f: "files_inv roomy sample_env (w_files ?w)" using sample_files_roomy by (simp add: sample_world_def)
  obtain r w' where r: "dispatch sample_env ''todo.next'' None ?w = Some (r, w')"
    using dispatch_good [OF sample_env_ok, of "''todo.next''" None] f unfolding runs_def by blast
  from reads_only_tidy [OF sample_undisturbed files_inv_mono [OF f roomy_store_inv] _ r] r
  show ?thesis by (auto simp: read_methods_def sample_world_def)
qed

text \<open>
  The responses that the lines of the input ask for, by their IDs: none for an empty line and for a
  notification, the null ID where no request can be read.
\<close>

fun expected_responses :: "input_line \<Rightarrow> json option list" where
  "expected_responses EmptyLine = []"
| "expected_responses InvalidLine = [None]"
| "expected_responses (JSONLine j) =
     (case decode_request j of
        None \<Rightarrow> [None]
      | Some req \<Rightarrow>
          if JSONRPC req \<noteq> ''2.0'' \<or> Method req = [] then [req_ID req]
          else if req_ID req = None then [] else [req_ID req])"

text \<open>The worlds before each line.\<close>

fun worlds :: "'b server_env \<Rightarrow> input_line list \<Rightarrow> 'b world \<Rightarrow> 'b world list" where
  "worlds e [] w = []"
| "worlds e (line # rest) w = w # (case serve_line e line w of None \<Rightarrow> [] | Some (_, w) \<Rightarrow> worlds e rest w)"

definition has_room :: "'b server_env \<Rightarrow> 'b files \<Rightarrow> bool" where
  "has_room e f = files_inv (\<lambda>s. unat (NextID s) < 2 ^ 63) e f"

lemma has_room_roomy: "files_inv store_inv e f \<Longrightarrow> has_room e f \<Longrightarrow> files_inv roomy e f"
  by (simp add: files_inv_def has_room_def roomy_def)

lemma serve_line_answers:
  assumes "env_ok e" "files_inv roomy e (w_files w)"
  shows "\<exists>out w'. serve_line e line w = Some (out, w') \<and> map rsp_ID out = expected_responses line
    \<and> files_inv store_inv e (w_files w')"
proof -
  have keep: "files_inv store_inv e (w_files w)" using assms(2) roomy_store_inv by (rule files_inv_mono)
  have run: "\<exists>r w'. dispatch e m p w = Some (r, w') \<and> files_inv store_inv e (w_files w')" for m p
    using dispatch_good [OF assms(1), of m p] assms(2) unfolding runs_def by blast
  show ?thesis
  proof (cases line)
    case (JSONLine j)
    show ?thesis
    proof (cases "decode_request j")
      case (Some req)
      from run [of "Method req" "Params req"] keep show ?thesis
        by (auto simp: serve_line_def JSONLine Some error_response_def)
    qed (use keep in \<open>simp add: serve_line_def JSONLine error_response_def\<close>)
  qed (use keep in \<open>simp_all add: serve_line_def error_response_def\<close>)
qed


definition ping_request :: input_line where
  "ping_request = JSONLine (JObject [(''jsonrpc'', JString ''2.0''), (''id'', JNumber ''7''), (''method'', JString ''todo.ping'')])"


text \<open>
  C30: an acknowledged claim is on disk. When \<^verbatim>\<open>todo.claim\<close> answers with a claim, the file of the project
  holds a store in which that task is in progress, owned by the actor of the answer until the
  expiry the answer gives.
\<close>

theorem claim_durable:
  assumes "codec_ok (codec e)" "dispatch e ''todo.claim'' params w = Some (Inr (RClaim c), w')"
  shows "\<exists>s t. holds (codec e) (f_store (w_files w') (tasksBinPath e)) s \<and> map_of (Tasks s) (claimed_ID c) = Some t
    \<and> Status t = StatusInProgress \<and> Owner t = claimed_Owner c \<and> claimed_Expires c = formatTimestamp (LeaseExpires t)"
proof -
  let ?result = "\<lambda>p task. \<lparr>claimed_ID = claim_ID p, claimed_Owner = claim_Actor p,
      claimed_Expires = formatTimestamp (LeaseExpires task), claimed_RetryCount = RetryCount task,
      claimed_LastError = LastError task\<rparr>"
  let ?k = "\<lambda>(p :: claimParams) i s. with_task s i (\<lambda>task. let result = ?result p task in
      if claim_Receipt p then respond (RReceipt (claim_receipt result)) else respond (RClaim result))"
  let ?run = "\<lambda>p ttl resolver. updateStoreSafe e rpcErrorFromDomain
      (\<lambda>clk now. claimTask clk (claim_ID p) (claim_Actor p) ttl resolver now) (?k p)"
  from assms(2) obtain p where "with_ttl e (claim_TTL p) (\<lambda>ttl. touch e (claim_Actor p) (loadStoreSafe e (\<lambda>preflight.
      (case GetTask preflight (claim_ID p) of Some task \<Rightarrow> with_snapshot e [task] | None \<Rightarrow> (\<lambda>k. k None))
        (?run p ttl)))) w = Some (Inr (RClaim c), w')"
    by (auto simp: dispatch_def method_handlers_def handleClaim_def passed)
  from passed_ttl [OF this] obtain ttl w1 where "touch e (claim_Actor p) (loadStoreSafe e (\<lambda>preflight.
      (case GetTask preflight (claim_ID p) of Some task \<Rightarrow> with_snapshot e [task] | None \<Rightarrow> (\<lambda>k. k None))
        (?run p ttl))) w1 = Some (Inr (RClaim c), w')" by blast
  from passed_touch [OF this] obtain w2 where "loadStoreSafe e (\<lambda>preflight.
      (case GetTask preflight (claim_ID p) of Some task \<Rightarrow> with_snapshot e [task] | None \<Rightarrow> (\<lambda>k. k None))
        (?run p ttl)) w2 = Some (Inr (RClaim c), w')" by blast
  from passed_load [OF this] obtain s0 w3 where split_run:
    "(case GetTask s0 (claim_ID p) of Some task \<Rightarrow> with_snapshot e [task] | None \<Rightarrow> (\<lambda>k. k None)) (?run p ttl) w3
      = Some (Inr (RClaim c), w')" by blast
  have "\<exists>resolver w1. ?run p ttl resolver w1 = Some (Inr (RClaim c), w')"
  proof (cases "GetTask s0 (claim_ID p)")
    case None
    from split_run [unfolded None option.case] show ?thesis by (intro exI)
  next
    case (Some task)
    from passed_snapshot [OF split_run [unfolded Some option.case]] show ?thesis .
  qed
  then obtain resolver w1 where run: "?run p ttl resolver w1 = Some (Inr (RClaim c), w')" by blast
  obtain i s s1 s2 w2 where u:
    "claimTask (store_clock e (w_turn w1)) (claim_ID p) (claim_Actor p) ttl resolver (project_clock e (w_turn w1)) s1 = (Inr i, s2)"
    "Tasks s = Tasks s2" "?k p i s w2 = Some (Inr (RClaim c), w')" "holds (codec e) (f_store (w_files w2) (tasksBinPath e)) s"
    by (rule passed_update [OF assms(1) run]) (rule that, assumption+)
  from claimTask_effect [OF u(1)] obtain t where t: "i = claim_ID p"
    "updates i (claimed (store_clock e (w_turn w1)) (claim_Actor p) (millis (project_clock e (w_turn w1)) + ttl_millis ttl) t) s1 s2"
    by blast
  from updates_at [OF t(2)] u(2-4) t(1) show ?thesis
    by (auto simp: with_task_def Let_def respond_eq claimed_def split: if_splits)
qed

definition claim_params :: "json option" where
  "claim_params = Some (JObject [(''id'', JNumber ''1''), (''actor'', JString ''ann'')])"

lemma claim_decoded:
  "decode_claimParams claim_params = Inr \<lparr>claim_ID = 1, claim_Actor = ''ann'', claim_TTL = [], claim_Receipt = False\<rparr>"
proof -
  have "ParseUint ''1'' = Some 1" by (simp add: ParseUint_def is_digit_def of_char_def)
  then show ?thesis by (simp add: decode_claimParams_def claim_params_def unmarshalParams_def find_field_def)
qed

lemma claim_actor: "validateActor ''ann'' True = None"
proof -
  have "TrimSpace ''ann'' = ''ann''" "ValidString ''ann''" by code_simp+
  then show ?thesis
    by (simp add: validateActor_def validateRequiredPersistedString_def validatePersistedString_def)
qed

lemma sample_claim:
  "\<exists>s1. claimTask 1000000000 1 ''ann'' ttl (snapshotDependencyResolver live ts) 1000000000 two_store = (Inr 1, s1)
     \<and> map_of (Tasks s1) 1 = Some (claimed 1000000000 ''ann'' (millis 1000000000 + ttl_millis ttl) first_task)"
proof -
  have "task_effect 1000000000 (Claim ''ann'' ttl (snapshotDependencyResolver live ts) 1000000000) (Tasks two_store) first_task
      = Some (claimed 1000000000 ''ann'' (millis 1000000000 + ttl_millis ttl) first_task)"
    by (simp add: DependenciesCompleteWithResolver_def may_mutate_def)
  then have "fst (claimTask 1000000000 1 ''ann'' ttl (snapshotDependencyResolver live ts) 1000000000 two_store) = Inr 1"
    using perform_accepts [of two_store 1 first_task] by (simp add: two_store task_calls(1) del: perform.simps)
  then obtain s1 where s1: "claimTask 1000000000 1 ''ann'' ttl (snapshotDependencyResolver live ts) 1000000000 two_store = (Inr 1, s1)"
    by (metis prod.collapse)
  from claimTask_effect [OF s1] updates_at show ?thesis using s1 by (auto simp: two_store)
qed

lemma sample_claim_answer:
  "\<exists>c w'. dispatch sample_env ''todo.claim'' claim_params (sample_world (FileBytes two_store) True) = Some (Inr (RClaim c), w')
     \<and> claimed_ID c = 1 \<and> claimed_Owner c = ''ann''"
proof -
  let ?io = "no_io_errors 1000000000 1000000000"
  let ?d = "\<lparr>target = FileBytes two_store, temporary = TempAbsent\<rparr>"
  obtain ttl where ttl: "parseLeaseTTL JSONAbsent [] = Inr ttl"
    by (simp add: parseLeaseTTL_def loadConfig_def)
  have "\<exists>s1 ds. Update plain_codec ?io
      (claimTask 1000000000 1 ''ann'' ttl (snapshotDependencyResolver live ts) 1000000000) ?d
      = Some (Inr (1, stamped 1000000000 s1), ds) \<and> map_of (Tasks s1) 1 \<noteq> None" for live ts
  proof -
    obtain s1 where s1: "claimTask 1000000000 1 ''ann'' ttl (snapshotDependencyResolver live ts) 1000000000 two_store = (Inr 1, s1)"
      "map_of (Tasks s1) 1 \<noteq> None" using sample_claim by blast
    obtain ds where ds: "writeStore plain_codec no_write_errors 1000000000 s1 ?d = (None, stamped 1000000000 s1, ds)"
      using writeStore_success [of plain_codec "1000000000" s1 "stamped 1000000000 s1" ?d] by (auto simp: plain_codec_def)
    have "loadUnlocked plain_codec (FileBytes two_store) = Inr two_store"
      by (simp add: loadUnlocked_def plain_codec_def two_store_version)
    then have "Update plain_codec ?io (claimTask 1000000000 1 ''ann'' ttl (snapshotDependencyResolver live ts) 1000000000) ?d
        = Some (Inr (1, stamped 1000000000 s1), ds)"
      using s1 ds two_store_fresh by (simp add: Update_def locked_def no_io_errors_def)
    with s1(2) show ?thesis by blast
  qed
  then obtain S D where upd: "\<And>live ts. Update plain_codec ?io
      (claimTask 1000000000 1 ''ann'' ttl (snapshotDependencyResolver live ts) 1000000000) ?d
      = Some (Inr (1, stamped 1000000000 (S live ts)), D live ts)" "\<And>live ts. map_of (Tasks (S live ts)) 1 \<noteq> None"
    by metis
  have load: "LoadCurrent plain_codec ?io ?io 1000000000 ?d ?d = Some (Inr two_store, [?d])"
    using two_store_idle by (simp add: LoadCurrent_def Load_def no_io_errors_def loadUnlocked_def plain_codec_def two_store_version)
  obtain t where t: "map_of (Tasks two_store) 1 = Some t" by (simp add: two_store)
  let ?path = "tasksBinPath sample_env"
  let ?W = "\<lambda>f n. \<lparr>w_files = f, w_initialized = True, w_turn = n\<rparr>"
  have op: "opened sample_env (?W f n) = ?W f (n + 1)" for f n by (simp add: opened_def)
  have ttl_eq: "with_ttl sample_env [] k (?W f n) = k ttl (?W f (n + 1))" if "f_config f = JSONAbsent" for k f n
    using that ttl by (simp add: with_ttl_def read_files_def op)
  have touch_eq: "\<exists>a. touch sample_env ''ann'' k (?W f n) = k (?W (f\<lparr>f_agents := a\<rparr>) (n + 1))" if "f_agents f = JSONAbsent" for k f n
    using that by (simp add: touch_def update_agents_def op updateAgentRegistry_def update_json_def loadAgentRegistry_def
        load_json_def saveAgentRegistry_def save_json_def no_json_errors_def) (rule exI, rule refl)
  have load_eq: "loadStoreSafe sample_env k (?W f n) = k two_store (?W f (n + 2))" if "f_store f ?path = ?d" for k f n
  proof -
    have "set_store ?path ?d f = f" using that by (simp add: set_store_def fun_upd_idem)
    then show ?thesis using that by (simp add: loadStoreSafe_def load_current_def op load)
  qed
  have snapshot_eq: "\<exists>live. with_snapshot sample_env ts k (?W f n) = k (snapshotDependencyResolver live ts) (?W f (n + 1))" for ts k f n
    by (simp add: with_snapshot_def with_resolver_def op) (rule exI, rule refl)
  have update_eq: "\<exists>w'. updateStoreSafe sample_env wrap
      (\<lambda>clk now. claimTask clk 1 ''ann'' ttl (snapshotDependencyResolver live ts) now) k (?W f n)
      = k 1 (stamped 1000000000 (S live ts)) w'" if "f_store f ?path = ?d" for wrap live ts k f n
    using that by (simp add: updateStoreSafe_def update_store_def op upd(1)) (rule exI, rule refl)
  let ?f = "sample_files (FileBytes two_store)"
  have f: "f_store ?f ?path = ?d" "f_config ?f = JSONAbsent" "f_agents ?f = JSONAbsent" by (simp_all add: sample_files_def)
  let ?answer = "\<lambda>i s. with_task s i (\<lambda>task. let result = \<lparr>claimed_ID = 1, claimed_Owner = ''ann'',
        claimed_Expires = formatTimestamp (LeaseExpires task), claimed_RetryCount = RetryCount task,
        claimed_LastError = LastError task\<rparr>
      in if False then respond (RReceipt (claim_receipt result)) else respond (RClaim result))"
  let ?update = "\<lambda>resolver. updateStoreSafe sample_env rpcErrorFromDomain (\<lambda>clk now. claimTask clk 1 ''ann'' ttl resolver now) ?answer"
  let ?load = "loadStoreSafe sample_env (\<lambda>preflight. (case GetTask preflight 1 of Some task \<Rightarrow> with_snapshot sample_env [task]
      | None \<Rightarrow> (\<lambda>k. k None)) ?update)"
  have "dispatch sample_env ''todo.claim'' claim_params (?W ?f 0) = touch sample_env ''ann'' ?load (?W ?f 1)"
    by (simp add: dispatch_def method_handlers_def handleClaim_def claim_decoded claim_actor with_params_def require_def
        validated_def ensureInitialized_def ttl_eq f)
  moreover obtain a where "touch sample_env ''ann'' ?load (?W ?f 1) = ?load (?W (?f\<lparr>f_agents := a\<rparr>) (1 + 1))"
    using touch_eq [OF f(3)] by blast
  moreover have "?load (?W (?f\<lparr>f_agents := a\<rparr>) (1 + 1)) = with_snapshot sample_env [t] ?update (?W (?f\<lparr>f_agents := a\<rparr>) (1 + 1 + 2))"
    using f(1) load_eq [of "?f\<lparr>f_agents := a\<rparr>"] by (simp add: t GetTask_def)
  moreover obtain live where "with_snapshot sample_env [t] ?update (?W (?f\<lparr>f_agents := a\<rparr>) (1 + 1 + 2))
      = ?update (snapshotDependencyResolver live [t]) (?W (?f\<lparr>f_agents := a\<rparr>) (1 + 1 + 2 + 1))"
    using snapshot_eq [of "[t]" ?update "?f\<lparr>f_agents := a\<rparr>" "1 + 1 + 2"] by blast
  moreover obtain w' where "?update (snapshotDependencyResolver live [t]) (?W (?f\<lparr>f_agents := a\<rparr>) (1 + 1 + 2 + 1))
      = ?answer 1 (stamped 1000000000 (S live [t])) w'"
  proof -
    have "f_store (?f\<lparr>f_agents := a\<rparr>) ?path = ?d" using f(1) by simp
    from update_eq [OF this, of rpcErrorFromDomain live "[t]" ?answer "1 + 1 + 2 + 1"] show thesis by (elim exE) (rule that)
  qed
  moreover have "\<exists>c. ?answer 1 (stamped 1000000000 (S live [t])) w' = Some (Inr (RClaim c), w') \<and> claimed_ID c = 1
      \<and> claimed_Owner c = ''ann''"
  proof -
    obtain y where "map_of (Tasks (S live [t])) 1 = Some y" using upd(2) [of live "[t]"] by blast
    then show ?thesis by (simp add: with_task_def respond_def)
  qed
  ultimately show ?thesis by (auto simp: sample_world_def)
qed

lemma claim_durable_witness:
  "\<exists>c w' s t. dispatch sample_env ''todo.claim'' claim_params (sample_world (FileBytes two_store) True) = Some (Inr (RClaim c), w')
    \<and> holds plain_codec (f_store (w_files w') (tasksBinPath sample_env)) s
    \<and> map_of (Tasks s) 1 = Some t \<and> Owner t = ''ann'' \<and> Status t = StatusInProgress"
proof -
  obtain c w' where c: "dispatch sample_env ''todo.claim'' claim_params (sample_world (FileBytes two_store) True)
      = Some (Inr (RClaim c), w')" "claimed_ID c = 1" "claimed_Owner c = ''ann''"
    using sample_claim_answer by blast
  have "codec_ok (codec sample_env)" by simp
  from claim_durable [OF this c(1)] obtain s t where "holds plain_codec (f_store (w_files w') (tasksBinPath sample_env)) s"
    "map_of (Tasks s) 1 = Some t" "Status t = StatusInProgress" "Owner t = ''ann''" by (auto simp: c(2,3))
  with c(1) show ?thesis by blast
qed

section \<open>Stores that are lost\<close>

text \<open>
  Restoring from a path where there is no file succeeds and replaces the store by an empty one:
  \<^verbatim>\<open>store.Load\<close> takes an absent file for a new store.
\<close>

theorem restore_of_missing_file:
  "\<exists>w' s. dispatch sample_env ''todo.restore'' (Some (JObject [(''path'', JString ''/typo.bin'')]))
       (sample_world (FileBytes two_store) True) = Some (Inr (RRestore 0), w')
    \<and> holds plain_codec (f_store (w_files w') (tasksBinPath sample_env)) s \<and> Tasks s = []"
proof -
  let ?w = "sample_world (FileBytes two_store) True"
  let ?d = "f_store (sample_files (FileBytes two_store)) (tasksBinPath sample_env)"
  let ?io = "no_io_errors 1000000000 1000000000"
  have d: "?d = \<lparr>target = FileBytes two_store, temporary = TempAbsent\<rparr>" by (simp add: sample_files_def)
  obtain ds where ds: "writeStore plain_codec no_write_errors 1000000000 NewTaskStore ?d
      = (None, stamped 1000000000 NewTaskStore, ds)"
    using writeStore_success [of plain_codec "1000000000" NewTaskStore "stamped 1000000000 NewTaskStore" ?d]
    by (auto simp: plain_codec_def)
  then have upd: "Update plain_codec ?io (\<lambda>existing. (Inr 0, NewTaskStore)) ?d
      = Some (Inr (0 :: nat, stamped 1000000000 NewTaskStore), ds)"
    using two_store_fresh two_store_version
    by (simp add: Update_def locked_def no_io_errors_def d loadUnlocked_def plain_codec_def)
  have last: "holds plain_codec (last ds) (stamped 1000000000 NewTaskStore)"
    using writeStore_holds(2) [OF plain_codec_ok ds] by simp
  have decoded: "decode_restoreParams (Some (JObject [(''path'', JString ''/typo.bin'')])) = Inr \<lparr>restore_Path = ''/typo.bin''\<rparr>"
    by (simp add: decode_restoreParams_def unmarshalParams_def find_field_def)
  have absent: "Load plain_codec ?io (f_store (sample_files (FileBytes two_store)) ''/typo.bin'') = Inr NewTaskStore"
    by (simp add: Load_def no_io_errors_def sample_files_def sample_path loadUnlocked_def)
  have "\<exists>w'. dispatch sample_env ''todo.restore'' (Some (JObject [(''path'', JString ''/typo.bin'')])) ?w = Some (Inr (RRestore 0), w')
      \<and> f_store (w_files w') (tasksBinPath sample_env) = last ds"
    using upd absent
    by (simp add: dispatch_def method_handlers_def handleRestore_def decoded passed with_params_def require_def
        ensureInitialized_def load_at_def updateStoreSafe_def update_store_def Let_def opened_def sample_world_def
        respond_def set_store_def)
  moreover have "Tasks (stamped 1000000000 NewTaskStore) = []" by simp
  ultimately show ?thesis using last by metis
qed

text \<open>
  \<^verbatim>\<open>todo.init\<close> looks for the store and writes it without a lock in between: a store that another
  process creates meanwhile is replaced by an empty one.
\<close>

definition race_env :: "TaskStore server_env" where
  "race_env = sample_env\<lparr>others := (\<lambda>n f. if n = 1 then sample_files (FileBytes two_store) else f)\<rparr>"

lemma race_fields:
  "codec race_env = plain_codec" "projectRoot race_env = ''/p''" "io race_env n = no_io_errors 1000000000 1000000000"
  "others race_env n f = (if n = 1 then sample_files (FileBytes two_store) else f)"
  by (simp_all add: race_env_def)

lemma MkdirAll_none: "MkdirAll_err (no_io_errors c w) = None"
  by (simp add: no_io_errors_def)

theorem init_overwrites:
  "\<exists>w' s. dispatch race_env ''todo.init'' None (sample_world FileAbsent False) = Some (Inr (RInit ''/p''), w')
    \<and> holds plain_codec (f_store (w_files w') (tasksBinPath sample_env)) s \<and> Tasks s = []"
proof -
  let ?d = "f_store (sample_files (FileBytes two_store)) (tasksBinPath sample_env)"
  have path: "tasksBinPath race_env = tasksBinPath sample_env"
    by (simp add: tasksBinPath_def race_env_def)
  obtain ds where ds: "writeStore plain_codec no_write_errors 1000000000 NewTaskStore ?d
      = (None, stamped 1000000000 NewTaskStore, ds)"
    using writeStore_success [of plain_codec "1000000000" NewTaskStore "stamped 1000000000 NewTaskStore" ?d]
    by (auto simp: plain_codec_def)
  then have saved: "Save plain_codec (no_io_errors 1000000000 1000000000) NewTaskStore ?d = (None, ds)"
    by (simp add: Save_def locked_def no_io_errors_def)
  have last: "holds plain_codec (last ds) (stamped 1000000000 NewTaskStore)"
    using writeStore_holds(2) [OF plain_codec_ok ds] by simp
  have "\<exists>w'. dispatch race_env ''todo.init'' None (sample_world FileAbsent False) = Some (Inr (RInit ''/p''), w')
      \<and> f_store (w_files w') (tasksBinPath sample_env) = last ds"
    using saved
    by (simp add: dispatch_def method_handlers_def handleInit_def decode_empty_def unmarshalParams_def with_params_def
        read_files_def at_turn_def save_at_def Let_def opened_def path file_exists_def sample_world_def set_store_def
        race_fields MkdirAll_none respond_def)
  moreover have "Tasks (stamped 1000000000 NewTaskStore) = []" by simp
  ultimately show ?thesis using last by metis
qed

end
