(* ===== verification/CliRuns.thy ===== *)
theory CliRuns
  imports Cli Session
begin

text \<open>
  What holds of every command of the command line: from sound files it does not panic and leaves sound
  files, and with \<^verbatim>\<open>--json\<close> or \<^verbatim>\<open>--receipt\<close> it prints a document and no text. The judgement is \<open>runs\<close> of
  \<open>Serve\<close>, so the rules for the accesses are shared with the server.
\<close>

section \<open>Outputs\<close>

definition is_text :: "cli_output \<Rightarrow> bool" where
  "is_text out = (case out of OText _ \<Rightarrow> True | _ \<Rightarrow> False)"

text \<open>\<open>says b\<close>: when \<open>b\<close>, the output is a document.\<close>

definition says :: "bool \<Rightarrow> ErrorCode \<times> goerr + cli_output \<Rightarrow> bool" where
  "says b r = (case r of Inl _ \<Rightarrow> True | Inr out \<Rightarrow> b \<longrightarrow> \<not> is_text out)"

abbreviation asked :: "string list \<Rightarrow> bool" where
  "asked args \<equiv> hasFlag args ''--json'' \<or> receiptRequested args"

lemma ends_stop: "ends (says b) (stop code err)"
  by (simp add: ends_def stop_def says_def)

lemma ends_emit: "(b \<Longrightarrow> \<not> is_text out) \<Longrightarrow> ends (says b) (emit out)"
  by (simp add: ends_def emit_def says_def)

lemmas runs_stop = answers_good [OF ends_stop]
lemmas runs_emit = answers_good [OF ends_emit]

lemma runs_checked: "(v = None \<Longrightarrow> runs e (says b) k) \<Longrightarrow> runs e (says b) (checked v k)"
  by (cases v) (auto simp: checked_def intro: runs_stop)

lemma runs_parsed: "(\<And>a. r = Inr a \<Longrightarrow> runs e (says b) (k a)) \<Longrightarrow> runs e (says b) (parsed r k)"
  by (cases r) (auto simp: parsed_def intro: runs_stop)

lemma runs_first: "(\<And>i. runs e (says b) (k i)) \<Longrightarrow> runs e (says b) (first_id ids k)"
  by (cases ids) (auto simp: first_id_def intro: runs_stop)

lemma runs_require: "runs e Q otherwise \<Longrightarrow> (P \<Longrightarrow> runs e Q k) \<Longrightarrow> runs e Q (require P otherwise k)"
  by (simp add: require_def)

lemma runs_seen: "(\<And>t. runs e (says b) (k t)) \<Longrightarrow> runs e (says b) (seen_task s i k)"
  by (auto simp: seen_task_def intro: runs_stop split: option.splits)

lemma runs_loadStore: "env_ok e \<Longrightarrow> (\<And>s. roomy s \<Longrightarrow> runs e (says b) (k s)) \<Longrightarrow> runs e (says b) (loadStore e k)"
  unfolding loadStore_def by (rule good_load_current) (auto intro: runs_stop split: sum.splits)

lemma runs_touch: "env_ok e \<Longrightarrow> runs e (says b) k \<Longrightarrow> runs e (says b) (cli_touch e actor k)"
  unfolding cli_touch_def by (rule good_agents) (auto intro: runs_stop split: option.splits)

lemma runs_ttl:
  "env_ok e \<Longrightarrow> (\<And>ttl. 0 < ttl \<Longrightarrow> ttl < 2 ^ 63 \<Longrightarrow> runs e (says b) (k ttl)) \<Longrightarrow> runs e (says b) (lease_ttl e args k)"
  unfolding lease_ttl_def
  by (rule good_read) (auto intro: runs_stop dest: parseLeaseTTL_positive split: sum.splits)

lemma runs_updateStore:
  assumes "env_ok e"
    and "\<And>n s. roomy s \<Longrightarrow> store_inv (snd (mutate (store_clock e n) (project_clock e n) s))"
    and "\<And>n s a s1 s'. roomy s \<Longrightarrow> mutate (store_clock e n) (project_clock e n) s = (Inr a, s1)
      \<Longrightarrow> Tasks s' = Tasks s1 \<Longrightarrow> ends (says b) (k a s')"
  shows "runs e (says b) (updateStore e mutate k)"
  unfolding updateStore_def by (rule runs_update [OF assms(1)]) (simp_all add: assms(2,3) ends_stop)

lemma ends_emit_task: "(b \<Longrightarrow> asked args) \<Longrightarrow> ends (says b) (emit_task args receipt task text)"
  by (auto simp: emit_task_def is_text_def intro!: ends_emit)

lemma ends_emit_tasks: "(b \<Longrightarrow> asked args) \<Longrightarrow> ends (says b) (emit_tasks args receipt tasks text)"
  by (auto simp: emit_tasks_def is_text_def intro!: ends_emit)

text \<open>A transaction after which more is done: it keeps the room for identifiers too.\<close>

lemma runs_update_again:
  fixes e :: "'b server_env" and mutate :: "gotime \<Rightarrow> gotime \<Rightarrow> TaskStore \<Rightarrow> 'a res"
  assumes e: "env_ok e"
    and keeps: "\<And>n s. roomy s \<Longrightarrow> roomy (snd (mutate (store_clock e n) (project_clock e n) s))"
    and k: "\<And>r. runs e Q (k r)"
  shows "runs e Q (update_store e mutate k)"
  unfolding runs_def
proof (intro allI impI)
  fix w :: "'b world" assume "files_inv roomy e (w_files w)"
  then have f: "files_inv roomy e (w_files (opened e w))" using e opened_sound by blast
  have ok: "codec_ok (codec e)" using e by (simp add: env_ok_def)
  let ?n = "w_turn w" and ?d = "f_store (w_files (opened e w)) (tasksBinPath e)"
  let ?m = "mutate (store_clock e ?n) (project_clock e ?n)"
  have m: "mutator roomy ?m (\<lambda>s. True)" by unfold_locales (auto intro: keeps)
  obtain r ds where r: "Update (codec e) (io e ?n) ?m ?d = Some (r, ds)" "ds \<noteq> []"
    "\<forall>d' \<in> set ds. \<forall>s. holds (codec e) d' s \<longrightarrow> roomy s"
    using mutator.Update_sound [OF m ok, of ?d] f by (auto simp: files_inv_def) metis
  define w' where "w' = (opened e w)\<lparr>w_files := set_store (tasksBinPath e) (last ds) (w_files (opened e w))\<rparr>"
  have "files_inv roomy e (w_files w')" unfolding w'_def using r f by (auto intro!: files_inv_set_store)
  then show "\<exists>r w'. update_store e mutate k w = Some (r, w') \<and> files_inv store_inv e (w_files w') \<and> Q r"
    using k [of r] r(1) unfolding runs_def update_store_def Let_def w'_def by auto
qed

lemmas cli_steps = runs_checked runs_parsed runs_first runs_require runs_seen runs_loadStore runs_touch runs_ttl
  runs_stop runs_emit good_read good_at_turn good_resolver good_snapshot good_agents good_repos good_config
  good_load_at good_load_current good_if

section \<open>The reading commands\<close>

lemma cli_documents [simp]:
  "\<not> is_text (OReceipt a)" "\<not> is_text (OTask b)" "\<not> is_text (OTasks c)" "\<not> is_text (OProjects d)"
  "\<not> is_text (OAcquire e)" "\<not> is_text (ODecompose f)" "\<not> is_text (ONext g)" "\<not> is_text (OBootstrap h)"
  "\<not> is_text (OCaps i)" "\<not> is_text (ODepends j)" "\<not> is_text (ODependents k)" "\<not> is_text (OLineage l)"
  "\<not> is_text (OWhatIf m)" "\<not> is_text (OGraph n)" "\<not> is_text (OEvents p)" "\<not> is_text (OEventPage q)"
  "\<not> is_text (OCompact r)" "\<not> is_text (OAgents s)" "\<not> is_text (OAgent t)"
  by (simp_all add: is_text_def)

lemma runs_reads:
  assumes e: "env_ok e"
  shows "runs e (says (hasFlag args ''--json'')) (cmdStatus e show args)"
    "runs e (says (hasFlag args ''--json'')) (cmdCat e c args)"
    "runs e (says (hasFlag args ''--json'')) (cmdNext e args)"
    "runs e (says (hasFlag args ''--json'')) (cmdMy e args)"
    "runs e (says (hasFlag args ''--json'')) (cmdSearch e args)"
    "runs e (says (hasFlag args ''--json'')) (cmdDepends e c args)"
    "runs e (says (hasFlag args ''--json'')) (cmdDependents e c args)"
    "runs e (says (hasFlag args ''--json'')) (cmdLineage e percent c args)"
    "runs e (says (hasFlag args ''--json'')) (cmdWhatIf e c args)"
    "runs e (says (hasFlag args ''--json'' \<and> \<not> hasFlag args ''--dot'')) (cmdGraph e args)"
    "runs e (says (hasFlag args ''--json'')) (cmdEvents e local_time args)"
    "runs e (says False) (cmdExport e args)"
  by (auto simp: cmdStatus_def cmdStatusAll_def cmdCat_def cmdNext_def cmdMy_def cmdSearch_def cmdDepends_def
      cmdDependents_def cmdLineage_def cmdWhatIf_def cmdGraph_def cmdEvents_def cmdExport_def Let_def
      intro!: cli_steps good_load_linked e split: sum.splits option.splits prod.splits)

lemma runs_bootstrap:
  assumes e: "env_ok e"
  shows "runs e (says (hasFlag args ''--json'')) (cmdBootstrap e args)"
  by (auto simp: cmdBootstrap_def Let_def intro!: cli_steps e split: sum.splits option.splits)

lemma runs_watch:
  assumes e: "env_ok e"
  shows "runs e (says False) (cmdWatch e rounds c args)"
proof -
  have "runs e (says False) (watchTask e i n st k out)" for i n st k out
    by (induction n arbitrary: st k out) (auto simp: Let_def intro!: cli_steps e split: option.splits)
  moreover have "runs e (says False) (watchDashboard e n out)" for n out
    by (induction n arbitrary: out) (auto intro!: cli_steps e)
  ultimately show ?thesis by (auto simp: cmdWatch_def split: list.splits)
qed

section \<open>The documents of the project\<close>

lemma runs_documents:
  assumes e: "env_ok e"
  shows "runs e (says False) (cmdConfig e args)" "runs e (says False) (cmdLink e args)"
    "runs e (says False) (cmdUnlink e args)"
    "runs e (says (hasFlag args ''--json'' \<and> \<not> hasFlag args ''--caps'' \<and> \<not> hasFlag args ''--desc'' \<and> \<not> hasFlag args ''--max-load''))
       (cmdAgentCard e args)"
  by (auto simp: cmdConfig_def showConfig_def cmdLink_def cmdUnlink_def cmdAgentCard_def Let_def
      intro!: cli_steps e split: sum.splits option.splits list.splits)

lemma runs_files:
  assumes e: "env_ok e"
  shows "runs e (says False) (cmdInit e)" "runs e (says False) (cmdBackup e args)"
  by (auto simp: cmdInit_def cmdBackup_def Let_def
      intro!: cli_steps good_save_at [OF e roomy.inv_new] good_save_at e split: option.splits)

section \<open>The commands that change the store\<close>

lemma ends_with_task: "map_of (Tasks s) i \<noteq> None \<Longrightarrow> (\<And>t. ends Q (k t)) \<Longrightarrow> ends Q (with_task s i k)"
  by (rule answers_with_task)

lemma perform_at:
  assumes "perform clk i c s = (Inr j, s1)" "Tasks s' = Tasks s1"
  shows "map_of (Tasks s') j \<noteq> None"
  using perform_success [OF assms(1)] assms(2) by (auto simp: updates_def)

lemma runs_task_call:
  assumes e: "env_ok e" and op: "\<And>n. op (store_clock e n) (project_clock e n) = perform (store_clock e n) i (c n)"
    and ok: "\<And>n. task_call_ok (c n)" and k: "\<And>t. ends (says b) (k t)"
  shows "runs e (says b) (updateStore e op (\<lambda>j s. with_task s j k))"
    and "(\<And>err. ends (says b) (h err)) \<Longrightarrow>
      runs e (says b) (update_store e op (\<lambda>r. case r of Inl err \<Rightarrow> h err | Inr (j, s) \<Rightarrow> with_task s j k))"
proof -
  have keeps: "store_inv (snd (op (store_clock e n) (project_clock e n) s))" if "roomy s" for n s
    unfolding op using that ok by (simp add: store_inv_perform roomy_def)
  have committed: "ends (says b) (with_task s' j k)"
    if "op (store_clock e n) (project_clock e n) s = (Inr j, s1)" "Tasks s' = Tasks s1" for n s j s1 s'
    using perform_at [OF that(1) [unfolded op] that(2)] k by (rule ends_with_task)
  show "runs e (says b) (updateStore e op (\<lambda>j s. with_task s j k))"
    by (rule runs_updateStore [OF e]) (auto intro: keeps committed)
  show "runs e (says b) (update_store e op (\<lambda>r. case r of Inl err \<Rightarrow> h err | Inr (j, s) \<Rightarrow> with_task s j k))"
    if "\<And>err. ends (says b) (h err)"
    by (rule runs_update [OF e]) (auto intro: keeps committed that)
qed

lemma runs_task_commands:
  assumes e: "env_ok e"
  shows "runs e (says (asked args)) (cmdLog e c args)" "runs e (says (asked args)) (cmdHeartbeat e c args)"
    "runs e (says (asked args)) (cmdHandoff e c args)" "runs e (says (asked args)) (cmdBlock e c args)"
    "runs e (says (asked args)) (cmdUnblock e c args)"
proof -
  show "runs e (says (asked args)) (cmdLog e c args)"
    unfolding cmdLog_def Let_def
    by (intro cli_steps runs_task_call(1) [OF e task_calls(6)] ends_emit_task e) auto
  show "runs e (says (asked args)) (cmdHeartbeat e c args)"
    unfolding cmdHeartbeat_def Let_def
    by (intro cli_steps runs_task_call(2) [OF e task_calls(7)] ends_emit_task ends_stop e)
       (auto simp: clock_facts [OF e, simplified])
  show "runs e (says (asked args)) (cmdBlock e c args)"
    unfolding cmdBlock_def Let_def
    by (intro cli_steps runs_task_call(1) [OF e task_calls(4)] ends_emit_task e) auto
  show "runs e (says (asked args)) (cmdUnblock e c args)"
    unfolding cmdUnblock_def Let_def
    by (intro cli_steps runs_task_call(1) [OF e task_calls(5)] ends_emit_task e) auto
  have "runs e (says (asked args))
      (checked (validateActor actor True)
        (parsed (parseExtraUpdates args) (\<lambda>extra. require (extra \<noteq> []) (misuse usage)
          (checked (validateExtra extra)
            (update_store e (\<lambda>clk now. handoffTask clk i actor extra now)
               (\<lambda>r. case r of Inl err \<Rightarrow> stop (code err) err
                  | Inr (j, s) \<Rightarrow> with_task s j (\<lambda>t. emit_task args (receipt t) t (out t))))))))"
    for actor usage i code receipt out
    by (intro cli_steps runs_task_call(2) [OF e task_calls(8)] ends_emit_task ends_stop e) auto
  then show "runs e (says (asked args)) (cmdHandoff e c args)"
    by (auto simp: cmdHandoff_def Let_def intro: runs_stop split: list.split)
qed

lemma ends_with_tasks: "\<forall>i \<in> set is. map_of (Tasks s) i \<noteq> None \<Longrightarrow> (\<And>ts. ends Q (k ts)) \<Longrightarrow> ends Q (with_tasks s is k)"
  by (auto simp: with_tasks_def list_all_iff)

lemma done_at:
  assumes "done_mutate clk ids owner resolver now s = (Inr completed, s1)" "Tasks s' = Tasks s1"
  shows "\<forall>i \<in> set completed. map_of (Tasks s') i \<noteq> None"
  using done_mutate_effect [OF assms(1)] assms(2) by auto

lemma add_options_valid:
  assumes "add_options parse args o' = Inr o2" "valid_priority_param (o_Priority o')"
  shows "valid_priority_param (o_Priority o2)"
  using assms
proof (induction parse args o' rule: add_options.induct)
  case (2 parse arg rest o')
  consider (p) val more v where "arg = ''--priority''" "rest = val # more" "parse val = Some v" "validPriority v"
      "add_options parse rest (o'\<lparr>o_Priority := Some v\<rparr>) = Inr o2"
    | (c) val more where "arg = ''--caps''" "rest = val # more"
      "add_options parse rest (o'\<lparr>o_Capabilities := normalizeCapabilities val\<rparr>) = Inr o2"
    | (t) val more where "arg = ''--tag''" "rest = val # more"
      "add_options parse rest (o'\<lparr>o_Tags := o_Tags o' @ normalizeCapabilities val\<rparr>) = Inr o2"
    | (other) "arg \<noteq> ''--priority''" "arg \<noteq> ''--caps''" "arg \<noteq> ''--tag''" "add_options parse rest o' = Inr o2"
    using 2(5)
    by (cases "arg = ''--priority''"; cases "arg = ''--caps''"; cases "arg = ''--tag''"; cases rest)
       (simp_all split: option.splits if_splits)
  then show ?case
  proof cases
    case p
    show ?thesis by (rule 2(1) [OF p(1-3) _ p(5)]) (simp_all add: valid_priority_param_def p(4))
  next
    case c
    then show ?thesis using 2(2) [OF _ c(1,2,3)] 2(6) by simp
  next
    case t
    then show ?thesis using 2(3) [OF _ _ t(1,2,3)] 2(6) by simp
  next
    case other
    then show ?thesis using 2(4,6) by blast
  qed
qed simp

lemma cmdAdd_at:
  assumes "cmdAdd_mutate clk p s = (Inr i, s1)" "Tasks s' = Tasks s1"
  shows "map_of (Tasks s') i \<noteq> None"
  using assms insert_new_effect(1,2) [of clk p _ s "Inr i" s1]
  by (auto simp: cmdAdd_mutate_def split: sum.splits option.splits)

lemma runs_add:
  assumes e: "env_ok e"
  shows "runs e (says (asked args)) (cmdAdd e c args)"
proof -
  have "validPriority (fst (add_defaults (loadConfig f) p caps))" if "valid_priority_param p" for f p caps
    using that config.load_valid [of f]
    by (auto simp: add_defaults_def valid_priority_param_def config_ok_def validPriority_code f_zero_def
        split: option.splits sum.splits)
  then have adding: "runs e (says b) (updateStore e
      (\<lambda>clk _. cmdAdd_mutate clk \<lparr>n_Title = t, n_After = a, n_Priority = fst (add_defaults (loadConfig f) p caps),
          n_Capabilities = cs, n_Tags = ts\<rparr>) (\<lambda>i s. with_task s i k))"
    if "valid_priority_param p" "\<And>t. ends (says b) (k t)" for b k t a f p caps cs ts
    using that
    by (intro runs_updateStore e ends_with_task)
       (auto simp: roomy_def cmdAdd_same_store intro: store_inv_handleAdd dest: cmdAdd_at)
  show ?thesis
    by (auto simp: cmdAdd_def Let_def case_prod_unfold valid_priority_param_def [of None]
        intro!: cli_steps adding ends_emit_task e dest!: add_options_valid)
qed

lemma runs_done:
  assumes e: "env_ok e"
  shows "runs e (says (asked args)) (cmdDone e c args)"
  unfolding cmdDone_def Let_def
  by (intro cli_steps runs_updateStore ends_with_tasks ends_emit_tasks e)
     (auto simp: roomy_def clock_facts [OF e] intro!: store_inv_done dest!: done_at)

lemma runs_removals:
  assumes e: "env_ok e"
  shows "runs e (says (asked args)) (cmdRm e c args)" "runs e (says (asked args)) (cmdPrune e args)"
    "runs e (says (hasFlag args ''--json'')) (cmdCompact e args)" "runs e (says False) (cmdRestore e args)"
proof -
  show "runs e (says (asked args)) (cmdRm e c args)" "runs e (says (asked args)) (cmdPrune e args)"
    by (auto simp: cmdRm_def cmdPrune_def Let_def case_prod_unfold roomy_def store_inv_rm store_inv_prune
        intro!: cli_steps runs_updateStore ends_emit_tasks e)
  have compacts: "store_inv (snd (compactTaskStore s opts b now))" if "store_inv s" for s opts b now
    using that compact_tasks [OF prod.collapse, of s opts b now] by (simp add: store_inv_def)
  show "runs e (says (hasFlag args ''--json'')) (cmdCompact e args)"
    by (auto simp: cmdCompact_def Let_def case_prod_unfold roomy_def compacts
        intro!: cli_steps runs_updateStore ends_emit answers_if e split: sum.splits)
  show "runs e (says False) (cmdRestore e args)"
    by (auto simp: cmdRestore_def roomy_store_inv
        intro!: cli_steps runs_update ends_emit ends_stop e split: sum.splits list.splits)
qed

lemma runs_update_command:
  assumes e: "env_ok e"
  shows "runs e (says (asked args)) (cmdUpdate e c args)"
proof -
  have editing: "runs e (says b) (updateStore e (\<lambda>clk _. updateTask clk i actor u) (\<lambda>j s. with_task s j k))"
    if "\<And>t. ends (says b) (k t)" for b k i actor u
    using that by (intro runs_updateStore e ends_with_task)
      (auto simp: roomy_def store_inv_updateTask dest: updateTask_at)
  show ?thesis
    unfolding cmdUpdate_def Let_def by (intro cli_steps editing ends_emit_task e)
qed

lemma runs_decompose:
  assumes e: "env_ok e"
  shows "runs e (says (asked args)) (cmdDecompose e parse c args)"
proof -
  have splitting: "runs e (says b) (updateStore e (\<lambda>clk _. decomposeTask clk i actor subs)
      (\<lambda>(q, added) s. with_task s q (\<lambda>t. with_tasks s added (k t))))"
    if "length subs \<le> 20" "\<And>t ts. ends (says b) (k t ts)" for b k i actor subs
  proof (intro runs_updateStore e)
    show "store_inv (snd (decomposeTask (store_clock e n) i actor subs s))" if "roomy s" for n s
      using that \<open>length subs \<le> 20\<close> by (auto simp: roomy_def intro!: store_inv_decomposeTask)
    show "ends (says b) ((case r of (q, added) \<Rightarrow> (\<lambda>s. with_task s q (\<lambda>t. with_tasks s added (k t)))) s')"
      if "roomy s" "decomposeTask (store_clock e n) i actor subs s = (Inr r, s1)" "Tasks s' = Tasks s1" for n s r s1 s'
    proof (cases r)
      case (Pair q added)
      with decompose_at [OF that(2) [unfolded Pair] that(1) \<open>length subs \<le> 20\<close>] that(3) \<open>\<And>t ts. ends (says b) (k t ts)\<close>
      show ?thesis by (auto simp: with_tasks_def intro!: ends_with_task)
    qed
  qed
  show ?thesis
    by (auto simp: cmdDecompose_def Let_def intro!: cli_steps splitting answers_if ends_emit e split: option.splits)
qed

lemma map_sum_results:
  "map_sum id f r = Inr y \<longleftrightarrow> (\<exists>x. r = Inr x \<and> f x = y)" "map_sum id f r = Inl err \<longleftrightarrow> r = Inl err"
  by (cases r; auto)+

lemma claim_mutate_store: "snd (claim_mutate clk i owner ttl resolver now s) = snd (claimTask clk i owner ttl resolver now s)"
  by (simp add: claim_mutate_def claimTask_def split: sum.split)

lemma claim_mutate_Inr:
  assumes "claim_mutate clk i owner ttl resolver now s = (Inr (j, retries, failure), s1)"
  shows "claimTask clk i owner ttl resolver now s = (Inr j, s1)"
  using assms
  by (cases "claimTask clk i owner ttl resolver now s")
     (auto simp: claim_mutate_def map_sum_results split: sum.splits)

lemma claim_mutate_Inl:
  "claim_mutate clk i owner ttl resolver now s = (Inl err, s1) \<longleftrightarrow> claimTask clk i owner ttl resolver now s = (Inl err, s1)"
proof (cases "requireTask s i")
  case (Inr task)
  then show ?thesis
    by (cases "claimTask clk i owner ttl resolver now s") (simp add: claim_mutate_def map_sum_results)
qed (simp add: claim_mutate_def claimTask_def)

lemma runs_claim:
  assumes e: "env_ok e"
  shows "runs e (says (asked args)) (cmdClaim e c args)"
proof -
  have claiming: "runs e (says b) (updateStore e (\<lambda>clk now. claim_mutate clk i owner ttl resolver now)
      (\<lambda>(j, r, f) s. with_task s j (k r f)))"
    if "\<And>r f t. ends (says b) (k r f t)" "owner \<noteq> []" "0 < ttl" "ttl < 2 ^ 63" for b k i owner ttl resolver
  proof (intro runs_updateStore e)
    show "store_inv (snd (claim_mutate (store_clock e n) i owner ttl resolver (project_clock e n) s))" if "roomy s" for n s
      unfolding claim_mutate_store task_calls
      by (rule store_inv_perform) (use that \<open>owner \<noteq> []\<close> \<open>0 < ttl\<close> \<open>ttl < 2 ^ 63\<close> in \<open>auto simp: roomy_def clock_facts [OF e, simplified]\<close>)
    show "ends (says b) ((case r of (j, r, f) \<Rightarrow> (\<lambda>s. with_task s j (k r f))) s')"
      if "claim_mutate (store_clock e n) i owner ttl resolver (project_clock e n) s = (Inr r, s1)" "Tasks s' = Tasks s1"
      for n s r s1 s'
    proof (cases r)
      case (fields j q f)
      have "map_of (Tasks s') j \<noteq> None"
        using claim_mutate_Inr [OF that(1) [unfolded fields]] that(2) unfolding task_calls by (rule perform_at)
      then show ?thesis using \<open>\<And>r f t. ends (says b) (k r f t)\<close> by (simp add: fields ends_with_task)
    qed
  qed
  have snap: "runs e (says (asked args)) ((case GetTask preflight i of Some task \<Rightarrow> with_snapshot e [task] | None \<Rightarrow> (\<lambda>k. k None)) k)"
    if "\<And>r. runs e (says (asked args)) (k r)" for preflight i k
    using that by (auto intro!: good_snapshot e split: option.splits)
  show ?thesis
    unfolding cmdClaim_def Let_def by (intro cli_steps snap claiming ends_emit_task e)
qed

lemma store_inv_release:
  "store_inv s \<Longrightarrow> store_inv (snd (release_mutate clk is owner failure s))"
proof (induction clk "is" owner failure s rule: release_mutate.induct)
  case (2 clk i js owner failure s)
  obtain r s1 where r: "releaseTask clk i owner failure s = (r, s1)" by fastforce
  then have "store_inv s1"
    using store_inv_perform [OF 2(2), of "Release owner failure" clk i] by simp
  with r 2(1) [OF r [symmetric]] show ?case by (cases r) auto
qed simp

lemma release_at:
  assumes "release_mutate clk is owner failure s = (Inr freed, s1)"
  shows "\<forall>i \<in> set freed. map_of (Tasks s1) i \<noteq> None" "map fst (Tasks s1) = map fst (Tasks s)"
proof -
  have "map fst (Tasks s1) = map fst (Tasks s) \<and> set freed \<subseteq> dom (map_of (Tasks s))"
    using assms
  proof (induction clk "is" owner failure s arbitrary: freed rule: release_mutate.induct)
    case (2 clk i js owner failure s)
    from 2(2) obtain j s2 rest where c: "releaseTask clk i owner failure s = (Inr j, s2)"
      and rest: "release_mutate clk js owner failure s2 = (Inr rest, s1)" "freed = j # rest"
      by (auto simp: apfst_def map_prod_def map_sum_results split: prod.splits sum.splits)
    from perform_success [of clk i "Release owner failure" s j s2] c obtain t where
      "j = i" "map_of (Tasks s) i \<noteq> None" "updates i t s s2" by auto
    moreover from this have "map fst (Tasks s2) = map fst (Tasks s)" by (simp add: updates_def)
    moreover have "dom (map_of (Tasks s2)) = dom (map_of (Tasks s))"
      using calculation(4) by (metis dom_map_of_conv_image_fst list.set_map)
    ultimately show ?case using 2(1) [OF c [symmetric] refl rest(1)] rest(2) by auto
  qed simp
  then show "map fst (Tasks s1) = map fst (Tasks s)" "\<forall>i \<in> set freed. map_of (Tasks s1) i \<noteq> None"
    by (auto simp: dom_map_of_conv_image_fst map_of_eq_None_iff) (metis (no_types, lifting) image_eqI list.set_map subsetD)
qed

lemma runs_release:
  assumes e: "env_ok e"
  shows "runs e (says (asked args)) (cmdRelease e c args)"
  unfolding cmdRelease_def Let_def
  by (intro cli_steps runs_updateStore ends_with_tasks ends_emit_tasks e)
     (auto simp: roomy_def intro: store_inv_release dest: release_at(1))

lemma roomy_acquire:
  assumes "roomy s" "actor \<noteq> []" "millis now + ttl_millis ttl \<noteq> 0"
  shows "roomy (snd (acquireFromStore clk now actor rid fp ttl caps maxLoad resolver s))"
proof -
  have inv: "store_inv s" using assms(1) by (simp add: roomy_def)
  obtain r s' where run: "acquireFromStore clk now actor rid fp ttl caps maxLoad resolver s = (r, s')" by fastforce
  from run store_inv_wf [OF inv] store_inv_all_valid [OF inv] have "NextID s' = NextID s"
    by (cases rule: acquire_cases) (auto simp: updates_def same_frame_def)
  then show ?thesis
    using store_inv_acquire [OF inv assms(2,3), of clk rid fp caps maxLoad resolver] run assms(1) by (simp add: roomy_def)
qed

lemma runs_attempt:
  assumes e: "env_ok e" and plan: "plan_Actor plan \<noteq> []" "0 < plan_TTL plan" "plan_TTL plan < 2 ^ 63"
    and "\<And>err. runs e (says b) (h err)" "\<And>t r. runs e (says b) (k t r)"
  shows "runs e (says b) (acquire_attempt e plan requestID h k)"
  unfolding acquire_attempt_def
  by (intro runs_loadStore good_snapshot runs_update_again e)
     (use assms in \<open>auto intro!: roomy_acquire simp: clock_facts [OF e, simplified] split: sum.split prod.split\<close>)

lemma plan_facts:
  assumes "newAcquirePlan digest cf af actor explicit caps = Inr plan"
  shows "plan_Actor plan = actor" "0 < plan_TTL plan" "plan_TTL plan < 2 ^ 63"
  using assms by (auto elim!: newAcquirePlan_Inr dest!: plan_ttl_positive)

lemma runs_acquire:
  assumes e: "env_ok e"
  shows "runs e (says (asked args)) (cmdAcquire e polls args)"
proof -
  have loop: "runs e (says b) (acquire_polls e plan requestID n k)"
    if "plan_Actor plan \<noteq> []" "0 < plan_TTL plan" "plan_TTL plan < 2 ^ 63" "\<And>t r. runs e (says b) (k t r)" for b plan requestID n k
    by (induction n) (auto intro!: runs_attempt [OF e that(1-3)] runs_stop that(4))
  have planned: "runs e (says b) (case newAcquirePlan d cf af actor x caps of Inl err \<Rightarrow> h err | Inr plan \<Rightarrow> acquire_polls e plan rid n k)"
    if "actor \<noteq> []" "\<And>err. runs e (says b) (h err)" "\<And>t r. runs e (says b) (k t r)" for b d cf af actor x caps h rid n k
  proof (cases "newAcquirePlan d cf af actor x caps")
    case (Inr plan)
    with plan_facts [OF this] that show ?thesis by (auto intro: loop)
  qed (use that in simp)
  show ?thesis
    unfolding cmdAcquire_def Let_def
    by (intro cli_steps planned e) (auto simp: is_text_def)
qed

section \<open>Every command\<close>

lemma good_read_as: "env_ok e \<Longrightarrow> (\<And>n f. runs e Q (k (others e n f))) \<Longrightarrow> runs e Q (read_files e k)"
  by (auto simp: runs_def read_files_def Let_def opened_def env_ok_def)

definition agents_readable :: "'b server_env \<Rightarrow> bool" where
  "agents_readable e \<longleftrightarrow> (\<forall>n f. \<exists>r. loadAgentRegistry (f_agents (others e n f)) = Inr r)"

lemma runs_caps:
  assumes e: "env_ok e" and agents: "agents_readable e"
  shows "runs e (says (hasFlag args ''--json'')) (cmdCaps e args)"
proof -
  have gathers: "runs e Q (gather_linked e paths k)" if "\<And>ts. runs e Q (k ts)" for paths Q k
    using that by (induction paths arbitrary: k) (auto intro!: good_load_current e)
  have reports: "runs e (says (hasFlag args ''--json'')) (read_files e (\<lambda>f.
      case cmdCaps_report actor (loadAgentRegistry (f_agents f)) tasks of
        None \<Rightarrow> (\<lambda>_. None)
      | Some r \<Rightarrow> if hasFlag args ''--json'' then emit (OCaps r) else emit (OText (caps_text r))))" for actor tasks
  proof (rule good_read_as [OF e])
    fix n f
    obtain r where "loadAgentRegistry (f_agents (others e n f)) = Inr r" using agents by (auto simp: agents_readable_def)
    then obtain q where "cmdCaps_report actor (loadAgentRegistry (f_agents (others e n f))) tasks = Some q"
      by (simp add: cmdCaps_report_def Let_def)
    then show "runs e (says (hasFlag args ''--json'')) (case cmdCaps_report actor (loadAgentRegistry (f_agents (others e n f))) tasks of
        None \<Rightarrow> (\<lambda>_. None)
      | Some r \<Rightarrow> if hasFlag args ''--json'' then emit (OCaps r) else emit (OText (caps_text r)))"
      by (auto intro!: runs_emit)
  qed
  show ?thesis
    unfolding cmdCaps_def Let_def
    by (auto intro!: runs_loadStore good_read gathers reports e split: sum.split)
qed

lemma runs_says: "runs e (says b) k \<Longrightarrow> (b' \<Longrightarrow> b) \<Longrightarrow> runs e (says b') k"
proof -
  assume "runs e (says b) k" "b' \<Longrightarrow> b"
  moreover have "says b r \<Longrightarrow> says b' r" for r using \<open>b' \<Longrightarrow> b\<close> by (auto simp: says_def split: sum.splits)
  ultimately show ?thesis unfolding runs_def by blast
qed

lemma validated_flag:
  assumes "validateArgs c args = None" "hasFlag args name" "HasPrefix name ''-''"
  shows "accepts c name \<noteq> None"
  using assms
  by (induction c args rule: validateArgs.induct) (auto simp: hasFlag_def split: if_splits option.splits list.splits)

text \<open>
  Where the documents stop: \<^verbatim>\<open>todo agent-card\<close> answers a change with a text, and \<^verbatim>\<open>--dot\<close> comes before
  \<^verbatim>\<open>--json\<close>.
\<close>

definition text_anyway :: "cli_command \<Rightarrow> string list \<Rightarrow> bool" where
  "text_anyway c args \<longleftrightarrow>
     cmd_Name c = ''agent-card'' \<and> (hasFlag args ''--caps'' \<or> hasFlag args ''--desc'' \<or> hasFlag args ''--max-load'')
     \<or> cmd_Name c = ''graph'' \<and> hasFlag args ''--dot''"

definition plain_commands :: "string list" where
  "plain_commands =
     [''init'', ''watch'', ''config'', ''export'', ''backup'', ''restore'', ''link'', ''unlink'']"

definition reading_commands :: "string list" where
  "reading_commands =
     [''status'', ''cat'', ''next'', ''search'', ''my'', ''bootstrap'', ''agent-card'', ''caps'', ''depends'', ''dependents'',
      ''lineage'', ''what-if'', ''graph'', ''events'', ''compact'']"

lemma document_flags:
  "list_all (\<lambda>c. (cmd_Name c \<in> set plain_commands \<longrightarrow> accepts c ''--json'' = None)
     \<and> (cmd_Name c \<in> set plain_commands \<union> set reading_commands \<longrightarrow> accepts c ''--receipt'' = None)) commandRegistry"
  by code_simp

lemma asked_flags:
  assumes "c \<in> set commandRegistry" "validateArgs c args = None" "asked args"
  shows "cmd_Name c \<notin> set plain_commands" "cmd_Name c \<in> set reading_commands \<Longrightarrow> hasFlag args ''--json''"
  using document_flags assms(1,3) validated_flag [OF assms(2), of "''--json''"] validated_flag [OF assms(2), of "''--receipt''"]
  by (auto simp: list_all_iff receiptRequested_def HasPrefix_def)

definition documented :: "string \<Rightarrow> string list \<Rightarrow> bool" where
  "documented name args \<longleftrightarrow>
     asked args \<and> name \<notin> set plain_commands \<and> (name \<in> set reading_commands \<longrightarrow> hasFlag args ''--json'')
     \<and> \<not> (name = ''agent-card'' \<and> (hasFlag args ''--caps'' \<or> hasFlag args ''--desc'' \<or> hasFlag args ''--max-load''))
     \<and> \<not> (name = ''graph'' \<and> hasFlag args ''--dot'')"

lemmas runs_all = runs_reads runs_bootstrap runs_watch runs_documents runs_files runs_task_commands runs_add runs_done
  runs_removals runs_update_command runs_decompose runs_claim runs_release runs_acquire

lemma runs_table:
  assumes e: "env_ok (cli_server ce)"
  shows "list_all (\<lambda>(name, k). name = ''caps'' \<and> \<not> agents_readable (cli_server ce)
      \<or> runs (cli_server ce) (says (documented name args)) k) (command_runs ce c args)"
proof -
  have caps: "''caps'' = ''caps'' \<and> \<not> agents_readable (cli_server ce)
      \<or> runs (cli_server ce) (says (documented ''caps'' args)) (cmdCaps (cli_server ce) args)"
    using runs_says [OF runs_caps [OF e]] by (auto simp: documented_def reading_commands_def)
  show ?thesis
    unfolding command_runs_def Let_def list.pred_inject prod.case
    by (intro conjI; ((rule caps) | (rule disjI2, rule runs_says, rule runs_all [OF e],
        simp add: documented_def plain_commands_def reading_commands_def) | simp))
qed

lemma runs_command:
  assumes e: "env_ok (cli_server ce)" and agents: "cmd_Name c = ''caps'' \<Longrightarrow> agents_readable (cli_server ce)"
    and other: "\<And>name args. runs (cli_server ce) (says (asked args)) (cli_other ce name args)"
    and c: "c \<in> set commandRegistry" "validateArgs c args = None"
  shows "runs (cli_server ce) (says (asked args \<and> \<not> text_anyway c args)) (run_command ce c args)"
proof (cases "map_of (command_runs ce c args) (cmd_Name c)")
  case None
  then show ?thesis using runs_says [OF other] by (simp add: run_command_def)
next
  case (Some k)
  from map_of_SomeD [OF this] have k: "runs (cli_server ce) (says (documented (cmd_Name c) args)) k"
    using runs_table [OF e, of args c] agents by (auto simp: list_all_iff)
  have "asked args \<and> \<not> text_anyway c args \<Longrightarrow> documented (cmd_Name c) args"
    using asked_flags [OF c] by (auto simp: documented_def text_anyway_def)
  from runs_says [OF k this] Some show ?thesis by (simp add: run_command_def)
qed

section \<open>The process\<close>

text \<open>How a process may end: a code goes with its status, and what was asked for as a document is one.\<close>

definition good_end :: "bool \<Rightarrow> process_end \<Rightarrow> bool" where
  "good_end b p \<longleftrightarrow>
     (case end_Error p of
        Some (code, _) \<Rightarrow> end_Status p = exitCode code \<and> end_Output p = None
      | None \<Rightarrow> \<exists>out. end_Output p = Some out \<and> end_Status p \<in> {0, 1} \<and> (b \<longrightarrow> \<not> is_text out))"

lemma ended_good: "says b r \<Longrightarrow> good_end b (ended r)"
  by (cases r) (auto simp: ended_def good_end_def failed_def says_def split: prod.split)

lemma failed_good [simp]: "good_end b (failed code err)"
  by (simp add: good_end_def failed_def)

lemma wrote_good [simp]: "n \<in> {0, 1} \<Longrightarrow> good_end False (wrote n text)"
  by (auto simp: good_end_def wrote_def)

lemma lookup_member: "lookupCommand name = Some c \<Longrightarrow> c \<in> set commandRegistry"
  by (auto simp: lookupCommand_def registryIndex_def dest!: map_of_SomeD)

lemma caps_index: "list_all (\<lambda>(name, c). cmd_Name c = ''caps'' \<longrightarrow> name = ''caps'') registryIndex"
  by code_simp

lemma lookup_caps: "lookupCommand name = Some c \<Longrightarrow> cmd_Name c = ''caps'' \<Longrightarrow> name = ''caps''"
  using caps_index by (auto simp: lookupCommand_def list_all_iff dest!: map_of_SomeD)

lemma projectRoot_irrelevant [simp]:
  "env_ok (e\<lparr>projectRoot := dir\<rparr>) = env_ok e" "files_inv P (e\<lparr>projectRoot := dir\<rparr>) f = files_inv P e f"
  "agents_readable (e\<lparr>projectRoot := dir\<rparr>) = agents_readable e"
  by (simp_all add: env_ok_def files_inv_def agents_readable_def)

text \<open>The commands that are not modelled here behave like the others.\<close>

definition others_behave :: "'b cli_env \<Rightarrow> bool" where
  "others_behave ce \<longleftrightarrow>
     (\<forall>dir name args. runs ((cli_server ce)\<lparr>projectRoot := dir\<rparr>) (says (asked args)) (cli_other ce name args))"

lemma run_in_good:
  assumes "env_ok (cli_server ce)" "cmd_Name c = ''caps'' \<Longrightarrow> agents_readable (cli_server ce)" "others_behave ce"
    and "c \<in> set commandRegistry" "files_inv roomy (cli_server ce) (w_files w)"
  shows "\<exists>p w'. run_in ce dir c args w = Some (p, w') \<and> files_inv store_inv (cli_server ce) (w_files w')
    \<and> good_end (asked args \<and> \<not> text_anyway c args) p"
proof (cases "validateArgs c args")
  case None
  let ?ce = "ce\<lparr>cli_server := (cli_server ce)\<lparr>projectRoot := dir\<rparr>\<rparr>"
  have "runs (cli_server ?ce) (says (asked args \<and> \<not> text_anyway c args)) (run_command ?ce c args)"
    by (rule runs_command) (use assms None in \<open>simp_all add: others_behave_def\<close>)
  then obtain r w' where "run_command ?ce c args w = Some (r, w')" "files_inv store_inv (cli_server ce) (w_files w')"
    "says (asked args \<and> \<not> text_anyway c args) r"
    using assms(5) by (auto simp: runs_def)
  with None show ?thesis by (auto simp: run_in_def intro: ended_good)
next
  case (Some err)
  then show ?thesis
    using files_inv_mono [OF assms(5)] roomy_store_inv by (auto simp: run_in_def)
qed


definition sample_cli :: "TaskStore cli_env" where
  "sample_cli =
     \<lparr>cli_server = sample_env, cli_show_err = (\<lambda>_. []), cli_parse = (\<lambda>_. None), cli_local_time = id,
      cli_percent = (\<lambda>_. []), cli_polls = 0, cli_rounds = 0, cli_other = (\<lambda>_ _. misuse ''elsewhere'')\<rparr>"

lemma sample_cli_ok: "env_ok (cli_server sample_cli)" "others_behave sample_cli"
  by (auto simp: sample_cli_def sample_env_ok others_behave_def intro: runs_stop)


end
