(* ===== verification/Surfaces.thy ===== *)
theory Surfaces
  imports CliRuns
begin

text \<open>
  The two surfaces of the program do the same: a request of the JSON-RPC server that asks for a receipt,
  and the command line with the same values and \<^verbatim>\<open>--receipt\<close>. The proofs go step by step through the
  handler and the command with the relation \<open>matches\<close>.
\<close>

section \<open>Answers that agree\<close>

fun agree :: "rpcError + rpc_result \<Rightarrow> ErrorCode \<times> goerr + cli_output \<Rightarrow> bool" where
  "agree (Inl err) (Inl (code, _)) = (rpc_Code err = rpcCodeForErrorCode code)"
| "agree (Inr (RReceipt m)) (Inr (OReceipt m')) = (m = m')"
| "agree _ _ = False"

text \<open>From the same world of sound files, an initialized project: the same world, and answers that agree.\<close>

definition matches :: "'b server_env \<Rightarrow> 'b act \<Rightarrow> 'b cmd \<Rightarrow> bool" where
  "matches e h k \<longleftrightarrow>
     (\<forall>w. files_inv roomy e (w_files w) \<longrightarrow> w_initialized w \<longrightarrow> rel_option (rel_prod agree (=)) (h w) (k w))"

text \<open>The same for the end of an action, where the files are as the transaction left them.\<close>

definition concludes :: "'b act \<Rightarrow> 'b cmd \<Rightarrow> bool" where
  "concludes h k \<longleftrightarrow> (\<forall>w. rel_option (rel_prod agree (=)) (h w) (k w))"

lemma matches_ends: "concludes h k \<Longrightarrow> matches e h k"
  by (simp add: concludes_def matches_def)

lemma fails_agree [simp]:
  "rel_option (rel_prod agree (=)) (fail err w) (stop code g w) \<longleftrightarrow> rpc_Code err = rpcCodeForErrorCode code"
  by (simp add: fail_def stop_def)

lemma concludes_fail: "rpc_Code err = rpcCodeForErrorCode code \<Longrightarrow> concludes (fail err) (stop code g)"
  by (simp add: concludes_def fail_def stop_def)

lemma matches_fail: "rpc_Code err = rpcCodeForErrorCode code \<Longrightarrow> matches e (fail err) (stop code g)"
  by (rule matches_ends, rule concludes_fail)

lemma concludes_receipt: "m = m' \<Longrightarrow> concludes (respond (RReceipt m)) (emit (OReceipt m'))"
  by (simp add: concludes_def respond_def emit_def)

lemma concludes_task: "(\<And>t. concludes (h t) (k t)) \<Longrightarrow> concludes (with_task s i h) (with_task s i k)"
  by (simp add: with_task_def concludes_def split: option.split)

lemma concludes_at_task:
  "map_of (Tasks s) i = Some t \<Longrightarrow> concludes (h t) (k t) \<Longrightarrow> concludes (with_task s i h) (with_task s i k)"
  by (simp add: with_task_def)

lemma matches_read: "env_ok e \<Longrightarrow> (\<And>f. matches e (h f) (k f)) \<Longrightarrow> matches e (read_files e h) (read_files e k)"
  unfolding matches_def read_files_def Let_def using opened_sound opened_initialized by blast

lemma matches_snapshot:
  "env_ok e \<Longrightarrow> (\<And>r. matches e (h r) (k r)) \<Longrightarrow> matches e (with_snapshot e ts h) (with_snapshot e ts k)"
  unfolding matches_def with_snapshot_def with_resolver_def Let_def using opened_sound opened_initialized by blast

lemma matches_touch: "env_ok e \<Longrightarrow> matches e h k \<Longrightarrow> matches e (touch e actor h) (cli_touch e actor k)"
  using concludes_fail [of "rpcErrorf rpcStoreCorrupted err" ErrStoreCorrupted for err]
  by (auto simp: matches_def concludes_def touch_def cli_touch_def update_agents_def Let_def opened_sound
      split: prod.split option.split)

lemma matches_ttl:
  assumes "env_ok e" "\<And>ttl. 0 < ttl \<Longrightarrow> ttl < 2 ^ 63 \<Longrightarrow> matches e (h ttl) (k ttl)" "optionValue args ''--ttl'' = explicit"
  shows "matches e (with_ttl e explicit h) (lease_ttl e args k)"
  unfolding with_ttl_def lease_ttl_def assms(3)
proof (rule matches_read [OF assms(1)])
  fix f :: "'a files"
  show "matches e
      (case parseLeaseTTL (f_config f) explicit of
         Inl err \<Rightarrow> if errors_Is err errInvalidTTL then refuse rpcInvalidParams (Errorf ''ttl %v'' [] [err])
                    else refuse rpcStoreCorrupted err
       | Inr ttl \<Rightarrow> h ttl)
      (case parseLeaseTTL (f_config f) explicit of
         Inl err \<Rightarrow> if errors_Is err errInvalidTTL then stop ErrInvalidArgs (Errorf ''--ttl %v'' [] [err])
                    else stop ErrStoreCorrupted err
       | Inr ttl \<Rightarrow> k ttl)"
    using assms(2) parseLeaseTTL_positive [of "f_config f" explicit]
    by (cases "parseLeaseTTL (f_config f) explicit") (auto intro!: matches_fail)
qed

text \<open>The load leaves sound files, so what follows may rely on them.\<close>

lemma load_current_sound:
  fixes e :: "'b server_env" and w :: "'b world"
  assumes e: "env_ok e" and w: "files_inv roomy e (w_files w)"
  obtains r ds where "LoadCurrent (codec e) (io e (w_turn w)) (io e (w_turn (opened e w))) (store_clock e (w_turn w))
      (f_store (w_files (opened e w)) path) (f_store (w_files (opened e (opened e w))) path) = Some (r, ds)"
    "files_inv roomy e (set_store path (last ds) (w_files (opened e (opened e w))))"
proof -
  let ?w1 = "opened e w" and ?w2 = "opened e (opened e w)"
  have f: "files_inv roomy e (w_files ?w1)" "files_inv roomy e (w_files ?w2)" using e w opened_sound by blast+
  have ok: "codec_ok (codec e)" using e by (simp add: env_ok_def)
  have h: "roomy s" if "holds (codec e) (f_store (w_files ?w1) path) s \<or> holds (codec e) (f_store (w_files ?w2) path) s" for s
    using that f by (auto simp: files_inv_def)
  from roomy.LoadCurrent_sound [OF ok h [OF disjI1] h [OF disjI2],
      where ?e1.0 = "io e (w_turn w)" and ?e2.0 = "io e (w_turn ?w1)" and clk = "store_clock e (w_turn w)"]
  obtain r ds where r: "LoadCurrent (codec e) (io e (w_turn w)) (io e (w_turn ?w1)) (store_clock e (w_turn w))
      (f_store (w_files ?w1) path) (f_store (w_files ?w2) path) = Some (r, ds)" "ds \<noteq> []"
    "\<forall>d' \<in> set ds. \<forall>s. holds (codec e) d' s \<longrightarrow> roomy s" by blast
  have "files_inv roomy e (set_store path (last ds) (w_files ?w2))"
    using r f(2) by (intro files_inv_set_store) auto
  with r(1) that show thesis by blast
qed

lemma matches_load:
  fixes e :: "'b server_env"
  assumes e: "env_ok e" and k: "\<And>s. matches e (h s) (k s)"
  shows "matches e (loadStoreSafe e h) (loadStore e k)"
  unfolding matches_def
proof (intro allI impI)
  fix w :: "'b world" assume w: "files_inv roomy e (w_files w)" "w_initialized w"
  let ?w2 = "opened e (opened e w)"
  from load_current_sound [OF e w(1), of "tasksBinPath e"] obtain r ds where
    r: "LoadCurrent (codec e) (io e (w_turn w)) (io e (w_turn (opened e w))) (store_clock e (w_turn w))
      (f_store (w_files (opened e w)) (tasksBinPath e)) (f_store (w_files ?w2) (tasksBinPath e)) = Some (r, ds)"
    and f: "files_inv roomy e (set_store (tasksBinPath e) (last ds) (w_files ?w2))" .
  show "rel_option (rel_prod agree (=)) (loadStoreSafe e h w) (loadStore e k w)"
    using k r f w(2)
    by (cases r) (auto simp: loadStoreSafe_def loadStore_def load_current_def Let_def matches_def concludes_def storeError_def)
qed

section \<open>Transactions with related callbacks\<close>

lemma Update_related:
  assumes "\<And>s. rel_prod (rel_sum (=) R) (=) (m1 s) (m2 s)"
  shows "rel_option (rel_prod (rel_sum (=) (rel_prod R (=))) (=)) (Update c e m1 d) (Update c e m2 d)"
proof (cases "loadUnlocked c (target d)")
  case (Inr s)
  show ?thesis
  proof (cases "CleanExpiredLeases (clean_time e) s")
    case (Some p)
    obtain n s1 where p: "p = (n, s1)" by (cases p)
    obtain r1 r2 s2 where m: "m1 s1 = (r1, s2)" "m2 s1 = (r2, s2)" "rel_sum (=) R r1 r2"
      using assms [of s1] by (cases "m1 s1"; cases "m2 s1") auto
    show ?thesis using m(3)
      by (cases r1; cases r2) (auto simp: Update_def Inr Some p m(1,2) split: option.split prod.split)
  qed (simp add: Update_def Inr split: option.split)
qed (simp add: Update_def split: option.split)

lemma matches_update:
  fixes e :: "'b server_env"
  assumes e: "env_ok e"
    and m: "\<And>n s. rel_prod (rel_sum (=) R) (=) (m1 (store_clock e n) (project_clock e n) s)
      (m2 (store_clock e n) (project_clock e n) s)"
    and k: "\<And>n s a b s1 s'. roomy s \<Longrightarrow> m1 (store_clock e n) (project_clock e n) s = (Inr a, s1)
      \<Longrightarrow> Tasks s' = Tasks s1 \<Longrightarrow> R a b \<Longrightarrow> concludes (h a s') (k b s')"
  shows "matches e (updateStoreSafe e rpcErrorFromDomain m1 h) (updateStore e m2 k)"
  unfolding matches_def
proof (intro allI impI)
  fix w :: "'b world" assume "files_inv roomy e (w_files w)" "w_initialized w"
  then have f: "files_inv roomy e (w_files (opened e w))" using e opened_sound by blast
  have ok: "codec_ok (codec e)" using e by (simp add: env_ok_def)
  let ?n = "w_turn w" and ?d = "f_store (w_files (opened e w)) (tasksBinPath e)"
  let ?m1 = "m1 (store_clock e ?n) (project_clock e ?n)" and ?m2 = "m2 (store_clock e ?n) (project_clock e ?n)"
  have rel: "rel_option (rel_prod (rel_sum (=) (rel_prod R (=))) (=)) (Update (codec e) (io e ?n) ?m1 ?d)
      (Update (codec e) (io e ?n) ?m2 ?d)"
    by (rule Update_related) (rule m)
  show "rel_option (rel_prod agree (=)) (updateStoreSafe e rpcErrorFromDomain m1 h w) (updateStore e m2 k w)"
  proof (cases "Update (codec e) (io e ?n) ?m1 ?d")
    case None
    with rel show ?thesis
      by (cases "Update (codec e) (io e ?n) ?m2 ?d")
         (simp_all add: updateStoreSafe_def updateStore_def update_store_def Let_def)
  next
    case (Some p)
    then obtain r1 ds r2 where r: "Update (codec e) (io e ?n) ?m1 ?d = Some (r1, ds)"
      "Update (codec e) (io e ?n) ?m2 ?d = Some (r2, ds)" "rel_sum (=) (rel_prod R (=)) r1 r2"
      using rel by (auto simp: option_rel_Some1 rel_prod_conv)
    show ?thesis
    proof (cases r1)
      case (Inl err)
      with r show ?thesis
        by (cases r2) (auto simp: updateStoreSafe_def updateStore_def update_store_def Let_def concludes_def
            rpc_code_agrees_with_cli)
    next
      case (Inr p)
      obtain a s' where a: "r1 = Inr (a, s')" using Inr by (cases p) auto
      then obtain b where b: "r2 = Inr (b, s')" "R a b" using r(3) by (cases r2) auto
      from Update_committed [OF ok r(1) [unfolded a]] obtain s n s1 s2 where s: "holds (codec e) ?d s"
        "CleanExpiredLeases (clean_time (io e ?n)) s = Some (n, s1)" "?m1 s1 = (Inr a, s2)" "s' = stamped (write_time (io e ?n)) s2"
        by metis
      have "roomy s1" using s(1,2) f roomy.inv_sweep unfolding files_inv_def by blast
      from k [OF this s(3) _ b(2), of s'] s(4) have "concludes (h a s') (k b s')" by simp
      then show ?thesis
        by (simp add: updateStoreSafe_def updateStore_def update_store_def Let_def r(1,2) a b concludes_def)
    qed
  qed
qed

lemma same_callback: "rel_prod (rel_sum (=) (=)) (=) r r"
  by (cases r) (simp add: sum.rel_eq)

text \<open>Both surfaces answer a call on one task with its receipt.\<close>

lemma matches_call:
  assumes "env_ok e" "receiptRequested args"
  shows "matches e
    (updateStoreSafe e rpcErrorFromDomain m (\<lambda>i s. with_task s i (\<lambda>t. respond (RReceipt (receipt t)))))
    (updateStore e m (\<lambda>i s. with_task s i (\<lambda>t. emit_task args (receipt t) t (out t))))"
  by (rule matches_update [where R = "(=)"])
     (auto simp: assms same_callback emit_task_def intro!: concludes_task concludes_receipt)

section \<open>The calls\<close>

lemma matches_initialized: "matches e h k \<Longrightarrow> matches e (ensureInitialized h) k"
  by (simp add: matches_def ensureInitialized_def)

lemma receipt_of_claim:
  assumes "env_ok e" "0 < ttl" "ttl < 2 ^ 63" "roomy s" "Tasks s' = Tasks s1"
    and "claimTask clk i actor ttl resolver (project_clock e n) s = (Inr j, s1)"
  shows "\<exists>t. j = i \<and> map_of (Tasks s') i = Some t \<and> newTaskMutationReceipt ''claim'' t = claim_receipt
    \<lparr>claimed_ID = i, claimed_Owner = actor, claimed_Expires = formatTimestamp (LeaseExpires t),
     claimed_RetryCount = RetryCount t, claimed_LastError = LastError t\<rparr>"
proof -
  from claimTask_effect [OF assms(6)] obtain t where j: "j = i" and t: "map_of (Tasks s) i = Some t"
    "updates i (claimed clk actor (millis (project_clock e n) + ttl_millis ttl) t) s s1" by blast
  have "store_inv s" using assms(4) roomy_store_inv by blast
  then have "ID t = i" using t(1) by (simp add: store_invD)
  moreover have "millis (project_clock e n) + ttl_millis ttl \<noteq> 0" by (rule clock_facts(2) [OF assms(1-3)])
  ultimately show ?thesis
    using updates_at [OF t(2)] j assms(5)
    by (simp add: claimed_def newTaskMutationReceipt_def newMutationTaskReference_def claim_receipt_def
        optional_timestamp_def statusName_def word_gt_0)
qed

lemma claims_match:
  assumes e: "env_ok e" and p: "decode_claimParams params = Inr p" "claim_ID p \<noteq> 0" "claim_Actor p \<noteq> []"
      "validateActor (claim_Actor p) True = None" "claim_Receipt p"
    and a: "parseIDs c args = claim_ID p # rest" "optionValue args ''--as'' = claim_Actor p"
      "optionValue args ''--ttl'' = claim_TTL p" "receiptRequested args"
  shows "matches e (handleClaim e params) (cmdClaim e c args)"
proof -
  have m: "rel_prod (rel_sum (=) (\<lambda>i (j, r, f). j = i)) (=) (claimTask clk i actor ttl resolver now s)
      (claim_mutate clk i actor ttl resolver now s)" for clk i actor ttl resolver now s
    by (cases "claimTask clk i actor ttl resolver now s"; cases "fst (claimTask clk i actor ttl resolver now s)")
       (auto simp: claim_mutate_def claimTask_def requireTask_simps split: sum.splits)
  have u: "matches e
      (updateStoreSafe e rpcErrorFromDomain (\<lambda>clk now. claimTask clk (claim_ID p) (claim_Actor p) ttl resolver now)
        (\<lambda>i s. with_task s i (\<lambda>task. respond (RReceipt (claim_receipt
          \<lparr>claimed_ID = claim_ID p, claimed_Owner = claim_Actor p, claimed_Expires = formatTimestamp (LeaseExpires task),
           claimed_RetryCount = RetryCount task, claimed_LastError = LastError task\<rparr>)))))
      (updateStore e (\<lambda>clk now. claim_mutate clk (claim_ID p) (claim_Actor p) ttl resolver now)
        (\<lambda>(j, r, f) s. with_task s j (\<lambda>claimed. emit_task args (newTaskMutationReceipt ''claim'' claimed) claimed (out r f))))"
    if ttl: "0 < ttl" "ttl < 2 ^ 63" for ttl resolver out
  proof (rule matches_update [OF e m])
    fix n a and b :: "u64 \<times> u32 \<times> string" and s s1 s' :: TaskStore
    assume h: "roomy s" "claimTask (store_clock e n) (claim_ID p) (claim_Actor p) ttl resolver (project_clock e n) s = (Inr a, s1)"
      "Tasks s' = Tasks s1" "case b of (j, r, f) \<Rightarrow> j = a"
    obtain t where "a = claim_ID p" "map_of (Tasks s') (claim_ID p) = Some t" "newTaskMutationReceipt ''claim'' t = claim_receipt
        \<lparr>claimed_ID = claim_ID p, claimed_Owner = claim_Actor p, claimed_Expires = formatTimestamp (LeaseExpires t),
         claimed_RetryCount = RetryCount t, claimed_LastError = LastError t\<rparr>"
      using receipt_of_claim [OF e ttl h(1,3,2)] by blast
    then show "concludes (with_task s' a (\<lambda>task. respond (RReceipt (claim_receipt
          \<lparr>claimed_ID = claim_ID p, claimed_Owner = claim_Actor p, claimed_Expires = formatTimestamp (LeaseExpires task),
           claimed_RetryCount = RetryCount task, claimed_LastError = LastError task\<rparr>))))
        ((\<lambda>(j, r, f) s. with_task s j (\<lambda>claimed. emit_task args (newTaskMutationReceipt ''claim'' claimed) claimed (out r f))) b s')"
      using h(4) a(4) by (cases b) (auto simp: emit_task_def intro!: concludes_at_task concludes_receipt)
  qed
  show ?thesis
    unfolding handleClaim_def cmdClaim_def with_params_def p(1) sum.case Let_def
    by (auto simp: p a require_def validated_def checked_def first_id_def
        intro!: matches_initialized matches_ttl matches_touch matches_load matches_snapshot u e split: option.split)
qed

lemma releases_match:
  assumes e: "env_ok e" and p: "decode_releaseParams params = Inr p" "release_ID p \<noteq> 0" "release_Actor p \<noteq> []"
      "validateActor (release_Actor p) True = None" "release_Receipt p"
    and a: "parseIDs c args = [release_ID p]" "optionValue args ''--as'' = release_Actor p"
      "optionValue args ''--error'' = release_Error p" "receiptRequested args"
  shows "matches e (handleRelease e params) (cmdRelease e c args)"
proof -
  have m: "rel_prod (rel_sum (=) (\<lambda>j js. js = [j])) (=) (releaseTask clk i actor failure s)
      (release_mutate clk [i] actor failure s)" for clk i actor failure s
    by (cases "releaseTask clk i actor failure s"; cases "fst (releaseTask clk i actor failure s)") auto
  have actor: "validateActor (release_Actor p) False = None" using p(3,4) by (simp add: validateActor_def)
  have r: "single_receipt ''release'' [t] = newTaskMutationReceipt ''release'' t" for t
    by (simp add: single_receipt_def newTaskMutationReceipt_def)
  have u: "matches e
      (updateStoreSafe e rpcErrorFromDomain (\<lambda>clk now. releaseTask clk (release_ID p) (release_Actor p) (release_Error p))
        (\<lambda>i s. with_task s i (\<lambda>t. respond (RReceipt (newTaskMutationReceipt ''release'' t)))))
      (updateStore e (\<lambda>clk now. release_mutate clk [release_ID p] (release_Actor p) (release_Error p))
        (\<lambda>js s. with_tasks s js (\<lambda>ts. emit_tasks args (single_receipt ''release'' ts) ts (out js))))" for out
    by (rule matches_update [OF e m])
       (auto simp: with_task_def with_tasks_def concludes_def emit_tasks_def a(4) r respond_def emit_def split: option.split)
  show ?thesis
    unfolding handleRelease_def cmdRelease_def with_params_def p(1) sum.case Let_def
    by (auto simp: p a actor require_def validated_def checked_def first_id_def
        intro!: matches_initialized u matches_fail split: option.split)
qed

lemma blocks_match:
  assumes e: "env_ok e" and p: "decode_blockParams params = Inr p" "block_ID p \<noteq> 0" "block_Receipt p"
    and a: "parseIDs c args = block_ID p # rest" "optionValue args ''--as'' = block_Actor p"
      "optionValue args ''--reason'' = block_Reason p" "receiptRequested args"
  shows "matches e (handleBlock e params) (cmdBlock e c args)"
  unfolding handleBlock_def cmdBlock_def with_params_def p(1) sum.case Let_def
  by (auto simp: p a require_def validated_def checked_def first_id_def
      intro!: matches_initialized matches_call [OF e a(4)] matches_fail split: option.split)

lemma unblocks_match:
  assumes e: "env_ok e" and p: "decode_unblockParams params = Inr p" "unblock_ID p \<noteq> 0" "unblock_Receipt p"
    and a: "parseIDs c args = unblock_ID p # rest" "optionValue args ''--as'' = unblock_Actor p" "receiptRequested args"
  shows "matches e (handleUnblock e params) (cmdUnblock e c args)"
  unfolding handleUnblock_def cmdUnblock_def with_params_def p(1) sum.case Let_def
  by (auto simp: p a require_def validated_def checked_def first_id_def
      intro!: matches_initialized matches_call [OF e a(3)] matches_fail split: option.split)

lemma logs_match:
  assumes e: "env_ok e" and p: "decode_logParams params = Inr p" "log_ID p \<noteq> 0" "log_Receipt p"
    and a: "parseIDs c args = log_ID p # rest" "optionValue args ''--as'' = log_Actor p"
      "optionValue args ''--msg'' = log_Message p" "receiptRequested args"
  shows "matches e (handleLog e params) (cmdLog e c args)"
  unfolding handleLog_def cmdLog_def with_params_def p(1) sum.case Let_def
  by (auto simp: p a require_def validated_def checked_def first_id_def
      intro!: matches_initialized matches_call [OF e a(4)] matches_fail split: option.split)

lemma prunes_match:
  assumes e: "env_ok e" and p: "decode_pruneParams params = Inr p" "prune_Receipt p" and a: "receiptRequested args"
  shows "matches e (handlePrune e params) (cmdPrune e args)"
  unfolding handlePrune_def cmdPrune_def with_params_def p(1) sum.case Let_def
  by (rule matches_initialized, rule matches_update [OF e, where R = "\<lambda>ids ts. ids = map ID ts"])
     (auto simp: p a emit_tasks_def case_prod_unfold intro!: concludes_receipt)

text \<open>
  A request with \<^verbatim>\<open>receipt\<close> and the arguments of the command that say the same: what the handler decodes is
  what the command scans. A heartbeat, a handoff, a completion and an acquisition are not among them,
  because the two surfaces do not classify every error alike there or do not fill the receipt alike.
\<close>

inductive same_request :: "string \<Rightarrow> json option \<Rightarrow> cli_command \<Rightarrow> string list \<Rightarrow> bool" where
  same_claim: "decode_claimParams params = Inr p \<Longrightarrow> claim_ID p \<noteq> 0 \<Longrightarrow> claim_Actor p \<noteq> []
    \<Longrightarrow> validateActor (claim_Actor p) True = None \<Longrightarrow> claim_Receipt p \<Longrightarrow> cmd_Name c = ''claim''
    \<Longrightarrow> parseIDs c args = claim_ID p # rest \<Longrightarrow> optionValue args ''--as'' = claim_Actor p
    \<Longrightarrow> optionValue args ''--ttl'' = claim_TTL p \<Longrightarrow> receiptRequested args
    \<Longrightarrow> same_request ''todo.claim'' params c args"
| same_release: "decode_releaseParams params = Inr p \<Longrightarrow> release_ID p \<noteq> 0 \<Longrightarrow> release_Actor p \<noteq> []
    \<Longrightarrow> validateActor (release_Actor p) True = None \<Longrightarrow> release_Receipt p \<Longrightarrow> cmd_Name c = ''release''
    \<Longrightarrow> parseIDs c args = [release_ID p] \<Longrightarrow> optionValue args ''--as'' = release_Actor p
    \<Longrightarrow> optionValue args ''--error'' = release_Error p \<Longrightarrow> receiptRequested args
    \<Longrightarrow> same_request ''todo.release'' params c args"
| same_block: "decode_blockParams params = Inr p \<Longrightarrow> block_ID p \<noteq> 0 \<Longrightarrow> block_Receipt p \<Longrightarrow> cmd_Name c = ''block''
    \<Longrightarrow> parseIDs c args = block_ID p # rest \<Longrightarrow> optionValue args ''--as'' = block_Actor p
    \<Longrightarrow> optionValue args ''--reason'' = block_Reason p \<Longrightarrow> receiptRequested args
    \<Longrightarrow> same_request ''todo.block'' params c args"
| same_unblock: "decode_unblockParams params = Inr p \<Longrightarrow> unblock_ID p \<noteq> 0 \<Longrightarrow> unblock_Receipt p
    \<Longrightarrow> cmd_Name c = ''unblock'' \<Longrightarrow> parseIDs c args = unblock_ID p # rest
    \<Longrightarrow> optionValue args ''--as'' = unblock_Actor p \<Longrightarrow> receiptRequested args
    \<Longrightarrow> same_request ''todo.unblock'' params c args"
| same_log: "decode_logParams params = Inr p \<Longrightarrow> log_ID p \<noteq> 0 \<Longrightarrow> log_Receipt p \<Longrightarrow> cmd_Name c = ''log''
    \<Longrightarrow> parseIDs c args = log_ID p # rest \<Longrightarrow> optionValue args ''--as'' = log_Actor p
    \<Longrightarrow> optionValue args ''--msg'' = log_Message p \<Longrightarrow> receiptRequested args
    \<Longrightarrow> same_request ''todo.log'' params c args"
| same_prune: "decode_pruneParams params = Inr p \<Longrightarrow> prune_Receipt p \<Longrightarrow> cmd_Name c = ''prune''
    \<Longrightarrow> receiptRequested args \<Longrightarrow> same_request ''todo.prune'' params c args"

lemma dispatched:
  "dispatch e ''todo.claim'' = handleClaim e" "dispatch e ''todo.release'' = handleRelease e"
  "dispatch e ''todo.block'' = handleBlock e" "dispatch e ''todo.unblock'' = handleUnblock e"
  "dispatch e ''todo.log'' = handleLog e" "dispatch e ''todo.prune'' = handlePrune e"
  by (rule ext, simp add: dispatch_def method_handlers_def)+

lemma commanded:
  "cmd_Name c = ''claim'' \<Longrightarrow> run_command ce c args = cmdClaim (cli_server ce) c args"
  "cmd_Name c = ''release'' \<Longrightarrow> run_command ce c args = cmdRelease (cli_server ce) c args"
  "cmd_Name c = ''block'' \<Longrightarrow> run_command ce c args = cmdBlock (cli_server ce) c args"
  "cmd_Name c = ''unblock'' \<Longrightarrow> run_command ce c args = cmdUnblock (cli_server ce) c args"
  "cmd_Name c = ''log'' \<Longrightarrow> run_command ce c args = cmdLog (cli_server ce) c args"
  "cmd_Name c = ''prune'' \<Longrightarrow> run_command ce c args = cmdPrune (cli_server ce) args"
  by (simp add: run_command_def command_runs_def Let_def)+

lemma requests_match:
  assumes "env_ok (cli_server ce)" "same_request meth params c args"
  shows "matches (cli_server ce) (dispatch (cli_server ce) meth params) (run_command ce c args)"
  using assms(2)
  by cases (simp_all add: dispatched commanded assms(1) claims_match releases_match blocks_match unblocks_match
      logs_match prunes_match)

text \<open>
  C29: the two surfaces of the program are one. In an initialized project, a JSON-RPC request to claim,
  release, block, unblock, log to or prune that asks for a receipt, and the command with the same
  values, take the same world to the same world, whatever the other processes do at each access; and
  they answer the same receipt, or errors of the same class.
\<close>

theorem surfaces_agree:
  assumes "env_ok (cli_server ce)" "same_request meth params c args"
    and "files_inv roomy (cli_server ce) (w_files w)" "w_initialized w"
  shows "\<exists>answer out w'. dispatch (cli_server ce) meth params w = Some (answer, w')
    \<and> run_command ce c args w = Some (out, w') \<and> agree answer out"
proof -
  obtain answer w' where d: "dispatch (cli_server ce) meth params w = Some (answer, w')"
    using dispatch_good [OF assms(1), of meth params] assms(3) unfolding runs_def by blast
  have "rel_option (rel_prod agree (=)) (dispatch (cli_server ce) meth params w) (run_command ce c args w)"
    using requests_match [OF assms(1,2)] assms(3,4) unfolding matches_def by blast
  with d show ?thesis by (auto simp: option_rel_Some1 rel_prod_conv)
qed

lemma surfaces_agree_witness:
  "\<exists>answer out w'. dispatch sample_env ''todo.claim''
      (Some (JObject [(''id'', JNumber ''1''), (''actor'', JString ''ann''), (''receipt'', JBool True)]))
      (sample_world (FileBytes two_store) True) = Some (answer, w')
    \<and> run_command sample_cli (hd agent_commands) [''1'', ''--as'', ''ann'', ''--receipt'']
      (sample_world (FileBytes two_store) True) = Some (out, w') \<and> agree answer out"
proof -
  let ?params = "Some (JObject [(''id'', JNumber ''1''), (''actor'', JString ''ann''), (''receipt'', JBool True)])"
  let ?args = "[''1'', ''--as'', ''ann'', ''--receipt'']"
  have w: "files_inv roomy (cli_server sample_cli) (w_files (sample_world (FileBytes two_store) True))"
    "w_initialized (sample_world (FileBytes two_store) True)"
    using sample_files_roomy by (simp_all add: sample_cli_def sample_world_def)
  have n: "ParseUint ''1'' = Some 1" by (simp add: ParseUint_def is_digit_def of_char_def)
  then have p: "decode_claimParams ?params = Inr \<lparr>claim_ID = 1, claim_Actor = ''ann'', claim_TTL = [], claim_Receipt = True\<rparr>"
    by (simp add: decode_claimParams_def unmarshalParams_def find_field_def n)
  have c: "cmd_Name (hd agent_commands) = ''claim''" "valueFlags (hd agent_commands) = [''--as'', ''--ttl'']" by code_simp+
  have a: "parseIDs (hd agent_commands) ?args = [1]" "optionValue ?args ''--as'' = ''ann''" "optionValue ?args ''--ttl'' = []"
    "receiptRequested ?args"
    by (simp_all add: parseIDs_def parseIDsWithValueFlags_def c(2) HasPrefix_def n optionValue_def optionalValue_def
        receiptRequested_def hasFlag_def)
  have "same_request ''todo.claim'' ?params (hd agent_commands) ?args"
    by (rule same_claim [OF p]) (simp_all add: claim_actor c a)
  from surfaces_agree [OF sample_cli_ok(1) this w] show ?thesis by (simp add: sample_cli_def)
qed

end
