(* ===== verification/Catalog.thy ===== *)
theory Catalog
  imports Evaluation StoreFile
begin

text \<open>
  The catalog of real-agent scenarios (\<^verbatim>\<open>conformance/catalog.go\<close>): loading the embedded manifest with its
  scoring model and scenarios, and the validation of what was loaded. The result is that the validation
  accepts exactly the catalogs in which every name is given once and every reference has its target. The
  embedded files are the parameter \<open>catalog_assets\<close>, each as what decoding it gives; \<open>parse_time\<close> is
  \<^verbatim>\<open>time.Parse\<close> with the layout RFC 3339.
\<close>

section \<open>Data\<close>

record CatalogActor =
  ca_Ref :: string
  ca_Name :: string
  ca_Capabilities :: "string list"
  ca_MaxLoad :: int

record CatalogTask =
  ct_Ref :: string
  ct_Title :: string
  ct_Status :: string
  ct_Capabilities :: "string list"
  ct_DependsOn :: "string list"
  ct_Owner :: string
  ct_LeaseExpires :: string
  ct_Metadata :: "(string, string) gomap"

record CatalogProject =
  cp_Initialized :: bool
  cp_Tasks :: "CatalogTask list"

record CatalogTurn =
  tn_ID :: string
  tn_By :: string
  tn_Action :: string
  tn_Prompt :: string
  tn_Seconds :: int
  tn_Actors :: "string list"
  tn_Instruction :: string

record CatalogAssertion =
  xa_ID :: string
  xa_Kind :: string
  xa_Description :: string
  xa_Criteria :: "string list"
  xa_HardGate :: string
  xa_Expect :: "(string \<times> json) list"

record CatalogScenario =
  sc_SchemaVersion :: string
  sc_ID :: string
  sc_Title :: string
  sc_Summary :: string
  sc_InitialTime :: gotime
  sc_InitialTimeRaw :: string
  sc_SkillPolicy :: string
  sc_TimeoutSeconds :: int
  sc_Actors :: "CatalogActor list"
  sc_Project :: CatalogProject
  sc_Turns :: "CatalogTurn list"
  sc_Assertions :: "CatalogAssertion list"

record Catalog =
  cat_SchemaVersion :: string
  SuiteID :: string
  cat_ScenarioSchema :: string
  cat_ScoringModel :: ScoringModel
  Scenarios :: "CatalogScenario list"

record catalogEntry =
  entry_ID :: string
  entry_File :: string

record catalogManifest =
  mf_SchemaVersion :: string
  mf_SuiteID :: string
  mf_ScenarioSchema :: string
  mf_ScoringModel :: string
  mf_Scenarios :: "catalogEntry list"

section \<open>Validation\<close>

text \<open>The loop over the actors; \<open>seen\<close> holds the references of the ones before.\<close>

fun check_catalog_actors :: "string \<Rightarrow> string list \<Rightarrow> CatalogActor list \<Rightarrow> goerr option" where
  "check_catalog_actors i seen [] = None"
| "check_catalog_actors i seen (actor # actors) =
     (if TrimSpace (ca_Ref actor) = [] \<or> TrimSpace (ca_Name actor) = []
      then Some (Errorf ''scenario %q has an invalid actor'' [ArgStr i] [])
      else if ca_Ref actor \<in> set seen
      then Some (Errorf ''scenario %q repeats actor %q'' [ArgStr i, ArgStr (ca_Ref actor)] [])
      else check_catalog_actors i (ca_Ref actor # seen) actors)"

definition task_statuses :: "string list" where
  "task_statuses = [''pending'', ''in_progress'', ''completed'', ''blocked'']"

text \<open>A reference such as \<^verbatim>\<open>actor:alpha\<close> to one of the names.\<close>

definition refers :: "string \<Rightarrow> string list \<Rightarrow> string \<Rightarrow> bool" where
  "refers p names val \<longleftrightarrow> HasPrefix val p \<and> TrimPrefix val p \<in> set names"

fun check_catalog_tasks ::
  "(string \<Rightarrow> goerr + gotime) \<Rightarrow> string \<Rightarrow> string list \<Rightarrow> string list \<Rightarrow> CatalogTask list \<Rightarrow> goerr option" where
  "check_catalog_tasks parse_time i actors seen [] = None"
| "check_catalog_tasks parse_time i actors seen (task # tasks) =
     (if TrimSpace (ct_Ref task) = [] \<or> TrimSpace (ct_Title task) = []
      then Some (Errorf ''scenario %q has an invalid task'' [ArgStr i] [])
      else if ct_Ref task \<in> set seen
      then Some (Errorf ''scenario %q repeats task %q'' [ArgStr i, ArgStr (ct_Ref task)] [])
      else if ct_Status task \<notin> set task_statuses
      then Some (Errorf ''scenario %q task %q has invalid status %q''
             [ArgStr i, ArgStr (ct_Ref task), ArgStr (ct_Status task)] [])
      else if ct_Owner task \<noteq> [] \<and> \<not> refers ''actor:'' actors (ct_Owner task)
      then Some (Errorf ''scenario %q task %q references unknown owner %q''
             [ArgStr i, ArgStr (ct_Ref task), ArgStr (ct_Owner task)] [])
      else
        (case (if ct_LeaseExpires task = [] then Inr 0 else parse_time (ct_LeaseExpires task)) of
           Inl err \<Rightarrow> Some (Errorf ''scenario %q task %q lease expiry: %w'' [ArgStr i, ArgStr (ct_Ref task)] [err])
         | Inr _ \<Rightarrow> check_catalog_tasks parse_time i actors (ct_Ref task # seen) tasks))"

text \<open>The two nested loops over the dependencies, after all tasks are known.\<close>

fun check_task_dependencies :: "string \<Rightarrow> string list \<Rightarrow> string \<Rightarrow> string list \<Rightarrow> goerr option" where
  "check_task_dependencies i tasks ref [] = None"
| "check_task_dependencies i tasks ref (dependency # dependencies) =
     (if \<not> HasPrefix dependency ''task:'' \<or> TrimPrefix dependency ''task:'' = ref
      then Some (Errorf ''scenario %q task %q has invalid dependency %q'' [ArgStr i, ArgStr ref, ArgStr dependency] [])
      else if TrimPrefix dependency ''task:'' \<notin> set tasks
      then Some (Errorf ''scenario %q task %q references unknown dependency %q'' [ArgStr i, ArgStr ref, ArgStr dependency] [])
      else check_task_dependencies i tasks ref dependencies)"

fun check_catalog_dependencies :: "string \<Rightarrow> string list \<Rightarrow> CatalogTask list \<Rightarrow> goerr option" where
  "check_catalog_dependencies i refs [] = None"
| "check_catalog_dependencies i refs (task # tasks) =
     (case check_task_dependencies i refs (ct_Ref task) (ct_DependsOn task) of
        Some err \<Rightarrow> Some err
      | None \<Rightarrow> check_catalog_dependencies i refs tasks)"

fun check_turn_actors :: "string \<Rightarrow> string \<Rightarrow> string list \<Rightarrow> string list \<Rightarrow> string list \<Rightarrow> goerr option" where
  "check_turn_actors i turn actors seen [] = None"
| "check_turn_actors i turn actors seen (actor # rest) =
     (if \<not> refers ''actor:'' actors actor \<or> actor \<in> set seen
      then Some (Errorf ''scenario %q concurrent turn %q has invalid actor %q'' [ArgStr i, ArgStr turn, ArgStr actor] [])
      else check_turn_actors i turn actors (actor # seen) rest)"

definition validateCatalogTurn :: "string \<Rightarrow> CatalogTurn \<Rightarrow> string list \<Rightarrow> goerr option" where
  "validateCatalogTurn i turn actors =
     (let refuse = (\<lambda>bad format. if bad then Some (Errorf format [ArgStr i, ArgStr (tn_ID turn)] []) else None);
          actorRef = refers ''actor:'' actors
      in if tn_Action turn = ''prompt''
         then refuse (\<not> actorRef (tn_By turn) \<or> TrimSpace (tn_Prompt turn) = []) ''scenario %q prompt turn %q is invalid''
         else if tn_Action turn = ''resume''
         then refuse (\<not> actorRef (tn_By turn) \<or> TrimSpace (tn_Instruction turn) = []) ''scenario %q resume turn %q is invalid''
         else if tn_Action turn = ''advance_clock''
         then refuse (tn_By turn \<noteq> ''harness'' \<or> tn_Seconds turn < 1) ''scenario %q clock turn %q is invalid''
         else if tn_Action turn = ''checkpoint''
         then refuse (tn_By turn \<noteq> ''harness'' \<or> TrimSpace (tn_Instruction turn) = [])
                ''scenario %q checkpoint turn %q is invalid''
         else if tn_Action turn = ''concurrent_turns'' then
           (if tn_By turn \<noteq> ''harness'' \<or> length (tn_Actors turn) < 2 \<or> TrimSpace (tn_Prompt turn) = []
            then refuse True ''scenario %q concurrent turn %q is invalid''
            else check_turn_actors i (tn_ID turn) actors [] (tn_Actors turn))
         else Some (Errorf ''scenario %q turn %q has invalid action %q''
                [ArgStr i, ArgStr (tn_ID turn), ArgStr (tn_Action turn)] []))"

fun check_turns :: "string \<Rightarrow> string list \<Rightarrow> string list \<Rightarrow> CatalogTurn list \<Rightarrow> goerr option" where
  "check_turns i actors seen [] = None"
| "check_turns i actors seen (turn # turns) =
     (if TrimSpace (tn_ID turn) = [] \<or> tn_ID turn \<in> set seen
      then Some (Errorf ''scenario %q has invalid or duplicate turn %q'' [ArgStr i, ArgStr (tn_ID turn)] [])
      else
        (case validateCatalogTurn i turn actors of
           Some err \<Rightarrow> Some err
         | None \<Rightarrow> check_turns i actors (tn_ID turn # seen) turns))"

definition assertion_kinds :: "string list" where
  "assertion_kinds = [''operation_trace'', ''task_state'', ''event_log'', ''domain_error'', ''assistant_output'']"

text \<open>The criteria of an assertion; the referenced ones are collected.\<close>

fun check_assertion_criteria ::
  "string \<Rightarrow> string \<Rightarrow> string list \<Rightarrow> string list \<Rightarrow> string list \<Rightarrow> goerr + string list" where
  "check_assertion_criteria i a criteria referenced [] = Inr referenced"
| "check_assertion_criteria i a criteria referenced (criterion # rest) =
     (if criterion \<notin> set criteria
      then Inl (Errorf ''scenario %q assertion %q references unknown criterion %q'' [ArgStr i, ArgStr a, ArgStr criterion] [])
      else check_assertion_criteria i a criteria (criterion # referenced) rest)"

definition check_assertion ::
  "string \<Rightarrow> string list \<Rightarrow> string list \<Rightarrow> string list \<Rightarrow> CatalogAssertion \<Rightarrow> goerr + string list" where
  "check_assertion i criteria gates referenced a =
     (if TrimSpace (xa_Description a) = [] \<or> xa_Expect a = []
      then Inl (Errorf ''scenario %q assertion %q is incomplete'' [ArgStr i, ArgStr (xa_ID a)] [])
      else if xa_Kind a \<notin> set assertion_kinds
      then Inl (Errorf ''scenario %q assertion %q has invalid kind %q'' [ArgStr i, ArgStr (xa_ID a), ArgStr (xa_Kind a)] [])
      else if xa_Criteria a = []
      then Inl (Errorf ''scenario %q assertion %q has no criteria'' [ArgStr i, ArgStr (xa_ID a)] [])
      else
        (case check_assertion_criteria i (xa_ID a) criteria referenced (xa_Criteria a) of
           Inl err \<Rightarrow> Inl err
         | Inr referenced \<Rightarrow>
             if xa_HardGate a \<noteq> [] \<and> xa_HardGate a \<notin> set gates
             then Inl (Errorf ''scenario %q assertion %q references unknown hard gate %q''
                    [ArgStr i, ArgStr (xa_ID a), ArgStr (xa_HardGate a)] [])
             else Inr referenced))"

fun check_catalog_assertions ::
  "string \<Rightarrow> string list \<Rightarrow> string list \<Rightarrow> string list \<Rightarrow> string list \<Rightarrow> CatalogAssertion list \<Rightarrow> goerr + string list" where
  "check_catalog_assertions i criteria gates referenced seen [] = Inr referenced"
| "check_catalog_assertions i criteria gates referenced seen (a # as) =
     (if TrimSpace (xa_ID a) = [] \<or> xa_ID a \<in> set seen
      then Inl (Errorf ''scenario %q has invalid or duplicate assertion %q'' [ArgStr i, ArgStr (xa_ID a)] [])
      else
        (case check_assertion i criteria gates referenced a of
           Inl err \<Rightarrow> Inl err
         | Inr referenced \<Rightarrow> check_catalog_assertions i criteria gates referenced (xa_ID a # seen) as))"

text \<open>The criteria that are referenced after the scenario, or its first error.\<close>

definition validateCatalogScenario ::
  "(string \<Rightarrow> goerr + gotime) \<Rightarrow> CatalogScenario \<Rightarrow> string list \<Rightarrow> string list \<Rightarrow> string list \<Rightarrow> goerr + string list" where
  "validateCatalogScenario parse_time sc criteria gates referenced =
     (let i = sc_ID sc; actors = map ca_Ref (sc_Actors sc); tasks = cp_Tasks (sc_Project sc)
      in if sc_SchemaVersion sc \<noteq> ''1'' \<or> TrimSpace i = [] \<or> TrimSpace (sc_Title sc) = [] \<or> TrimSpace (sc_Summary sc) = []
         then Inl (Errorf ''scenario %q has invalid identity'' [ArgStr i] [])
         else if sc_SkillPolicy sc \<noteq> ''project_integration'' \<and> sc_SkillPolicy sc \<noteq> ''not_preloaded''
         then Inl (Errorf ''scenario %q has invalid skill policy %q'' [ArgStr i, ArgStr (sc_SkillPolicy sc)] [])
         else if sc_TimeoutSeconds sc < 1 \<or> sc_TimeoutSeconds sc > 600
         then Inl (Errorf ''scenario %q timeout must be between 1 and 600 seconds'' [ArgStr i] [])
         else
           (case check_catalog_actors i [] (sc_Actors sc) of
              Some err \<Rightarrow> Inl err
            | None \<Rightarrow>
                if sc_Actors sc = [] then Inl (Errorf ''scenario %q has no actors'' [ArgStr i] [])
                else
                  (case first_some [check_catalog_tasks parse_time i actors [] tasks,
                                    check_catalog_dependencies i (map ct_Ref tasks) tasks,
                                    check_turns i actors [] (sc_Turns sc)] of
                     Some err \<Rightarrow> Inl err
                   | None \<Rightarrow>
                       if sc_Turns sc = [] then Inl (Errorf ''scenario %q has no turns'' [ArgStr i] [])
                       else
                         (case check_catalog_assertions i criteria gates referenced [] (sc_Assertions sc) of
                            Inl err \<Rightarrow> Inl err
                          | Inr referenced \<Rightarrow>
                              if sc_Assertions sc = [] then Inl (Errorf ''scenario %q has no assertions'' [ArgStr i] [])
                              else Inr referenced))))"

fun check_scenarios ::
  "(string \<Rightarrow> goerr + gotime) \<Rightarrow> string list \<Rightarrow> string list \<Rightarrow> string list \<Rightarrow> string list \<Rightarrow> CatalogScenario list
   \<Rightarrow> goerr + string list" where
  "check_scenarios parse_time criteria gates referenced seen [] = Inr referenced"
| "check_scenarios parse_time criteria gates referenced seen (sc # scs) =
     (if sc_ID sc \<in> set seen then Inl (Errorf ''duplicate conformance scenario %q'' [ArgStr (sc_ID sc)] [])
      else
        (case validateCatalogScenario parse_time sc criteria gates referenced of
           Inl err \<Rightarrow> Inl err
         | Inr referenced \<Rightarrow> check_scenarios parse_time criteria gates referenced (sc_ID sc # seen) scs))"

definition validateCatalog :: "(string \<Rightarrow> goerr + gotime) \<Rightarrow> Catalog \<Rightarrow> goerr option" where
  "validateCatalog parse_time catalog =
     (if cat_SchemaVersion catalog \<noteq> ''1'' \<or> TrimSpace (SuiteID catalog) = []
      then Some (msg ''invalid conformance catalog identity'')
      else
        (case validateScoringModel (cat_ScoringModel catalog) of
           Some err \<Rightarrow> Some err
         | None \<Rightarrow>
             if Scenarios catalog = [] then Some (msg ''conformance catalog has no scenarios'')
             else
               (case check_scenarios parse_time (criterionIDs (cat_ScoringModel catalog))
                       (hardGateIDs (cat_ScoringModel catalog)) [] [] (Scenarios catalog) of
                  Inl err \<Rightarrow> Some err
                | Inr referenced \<Rightarrow>
                    (case find (\<lambda>criterion. criterion \<notin> set referenced) (criterionIDs (cat_ScoringModel catalog)) of
                       Some criterion \<Rightarrow> Some (Errorf ''conformance criterion %q is not exercised'' [ArgStr criterion] [])
                     | None \<Rightarrow> None))))"

section \<open>Loading\<close>

record catalog_assets =
  asset_manifest :: "string \<Rightarrow> catalogManifest json_file"
  asset_model :: "string \<Rightarrow> ScoringModel json_file"
  asset_scenario :: "string \<Rightarrow> CatalogScenario json_file"

definition filepath_Base :: "string \<Rightarrow> string" where
  "filepath_Base path =
     (if path = [] then ''.''
      else
        (let trimmed = rev (dropWhile (\<lambda>c. c = CHR ''/'') (rev path));
             base = last (Split CHR ''/'' trimmed)
         in if base = [] then ''/'' else base))"

definition readCatalogAsset :: "(string \<Rightarrow> 'a json_file) \<Rightarrow> string \<Rightarrow> goerr + 'a" where
  "readCatalogAsset assets name =
     (if TrimSpace name = [] \<or> filepath_Base name \<noteq> name
      then Inl (Errorf ''invalid conformance catalog asset %q'' [ArgStr name] [])
      else
        (case assets (''scenarios/'' @ name) of
           JSONAbsent \<Rightarrow> Inl (Errorf ''read conformance catalog asset %q: %w'' [ArgStr name] [msg ''file does not exist''])
         | JSONUnreadable err \<Rightarrow> Inl (Errorf ''read conformance catalog asset %q: %w'' [ArgStr name] [err])
         | JSONInvalid err \<Rightarrow> Inl (Errorf ''parse conformance catalog asset %q: %w'' [ArgStr name] [err])
         | JSONHolds val \<Rightarrow> Inr val))"

fun load_scenarios ::
  "(string \<Rightarrow> goerr + gotime) \<Rightarrow> catalog_assets \<Rightarrow> catalogEntry list \<Rightarrow> goerr + CatalogScenario list" where
  "load_scenarios parse_time assets [] = Inr []"
| "load_scenarios parse_time assets (entry # entries) =
     (if filepath_Base (entry_File entry) \<noteq> entry_File entry
      then Inl (Errorf ''scenario %q uses unsafe file path %q'' [ArgStr (entry_ID entry), ArgStr (entry_File entry)] [])
      else
        (case readCatalogAsset (asset_scenario assets) (entry_File entry) of
           Inl err \<Rightarrow> Inl err
         | Inr sc \<Rightarrow>
             if sc_ID sc \<noteq> entry_ID entry
             then Inl (Errorf ''manifest scenario %q loaded fixture %q'' [ArgStr (entry_ID entry), ArgStr (sc_ID sc)] [])
             else
               (case parse_time (sc_InitialTimeRaw sc) of
                  Inl err \<Rightarrow> Inl (Errorf ''scenario %q initial time: %w'' [ArgStr (sc_ID sc)] [err])
                | Inr initialTime \<Rightarrow>
                    map_sum id ((#) (sc\<lparr>sc_InitialTime := initialTime\<rparr>)) (load_scenarios parse_time assets entries))))"

definition loadCatalogManifest ::
  "(string \<Rightarrow> goerr + gotime) \<Rightarrow> catalog_assets \<Rightarrow> string \<Rightarrow> goerr + Catalog" where
  "loadCatalogManifest parse_time assets manifestName =
     (case readCatalogAsset (asset_manifest assets) manifestName of
        Inl err \<Rightarrow> Inl err
      | Inr manifest \<Rightarrow>
          (case readCatalogAsset (asset_model assets) (mf_ScoringModel manifest) of
             Inl err \<Rightarrow> Inl err
           | Inr model \<Rightarrow>
               (case load_scenarios parse_time assets (mf_Scenarios manifest) of
                  Inl err \<Rightarrow> Inl err
                | Inr scenarios \<Rightarrow>
                    (let catalog = \<lparr>cat_SchemaVersion = mf_SchemaVersion manifest, SuiteID = mf_SuiteID manifest,
                                    cat_ScenarioSchema = mf_ScenarioSchema manifest, cat_ScoringModel = model,
                                    Scenarios = scenarios\<rparr>
                     in case validateCatalog parse_time catalog of Some err \<Rightarrow> Inl err | None \<Rightarrow> Inr catalog))))"

definition LoadCatalogVersion ::
  "(string \<Rightarrow> goerr + gotime) \<Rightarrow> catalog_assets \<Rightarrow> string \<Rightarrow> goerr + Catalog" where
  "LoadCatalogVersion parse_time assets v =
     (if v = ''v1'' then loadCatalogManifest parse_time assets ''manifest.json''
      else if v = ''v2'' then loadCatalogManifest parse_time assets ''manifest-v2.json''
      else Inl (Errorf ''unsupported conformance suite %q'' [ArgStr v] []))"

definition LoadCatalog :: "(string \<Rightarrow> goerr + gotime) \<Rightarrow> catalog_assets \<Rightarrow> goerr + Catalog" where
  "LoadCatalog parse_time assets = LoadCatalogVersion parse_time assets ''v1''"

section \<open>What is accepted\<close>

text \<open>A chain of checks succeeds when each of them does.\<close>

lemma chain_Inr:
  "(if bad then Inl err else k) = Inr r \<longleftrightarrow> \<not> bad \<and> k = Inr r"
  "(case found of None \<Rightarrow> k | Some e \<Rightarrow> Inl e) = Inr r \<longleftrightarrow> found = None \<and> k = Inr r"
  "(case x of Inl e \<Rightarrow> Inl e | Inr y \<Rightarrow> f y) = Inr r \<longleftrightarrow> (\<exists>y. x = Inr y \<and> f y = Inr r)"
  by (auto split: option.splits sum.splits)

lemma chain_None:
  "(if bad then Some err else k') = None \<longleftrightarrow> \<not> bad \<and> k' = None"
  "(case found of None \<Rightarrow> k' | Some e \<Rightarrow> Some e) = None \<longleftrightarrow> found = None \<and> k' = None"
  "(case x of Inl e \<Rightarrow> Some e | Inr y \<Rightarrow> g y) = None \<longleftrightarrow> (\<exists>y. x = Inr y \<and> g y = None)"
  "(case missing of None \<Rightarrow> None | Some z \<Rightarrow> Some (h z)) = None \<longleftrightarrow> missing = None"
  by (auto split: option.splits sum.splits)

lemma check_catalog_actors_iff:
  "check_catalog_actors i seen actors = None \<longleftrightarrow>
     (\<forall>a \<in> set actors. TrimSpace (ca_Ref a) \<noteq> [] \<and> TrimSpace (ca_Name a) \<noteq> [])
     \<and> distinct (map ca_Ref actors) \<and> set seen \<inter> set (map ca_Ref actors) = {}"
  by (induction i seen actors rule: check_catalog_actors.induct) auto

definition task_ok :: "(string \<Rightarrow> goerr + gotime) \<Rightarrow> string list \<Rightarrow> CatalogTask \<Rightarrow> bool" where
  "task_ok parse_time actors task \<longleftrightarrow>
     TrimSpace (ct_Ref task) \<noteq> [] \<and> TrimSpace (ct_Title task) \<noteq> [] \<and> ct_Status task \<in> set task_statuses
     \<and> (ct_Owner task = [] \<or> refers ''actor:'' actors (ct_Owner task))
     \<and> (ct_LeaseExpires task = [] \<or> (\<exists>t. parse_time (ct_LeaseExpires task) = Inr t))"

lemma check_catalog_tasks_iff:
  "check_catalog_tasks parse_time i actors seen tasks = None \<longleftrightarrow>
     (\<forall>t \<in> set tasks. task_ok parse_time actors t)
     \<and> distinct (map ct_Ref tasks) \<and> set seen \<inter> set (map ct_Ref tasks) = {}"
proof (induction parse_time i actors seen tasks rule: check_catalog_tasks.induct)
  case (2 parse_time i actors seen task tasks)
  show ?case
  proof (cases "if ct_LeaseExpires task = [] then Inr 0 else parse_time (ct_LeaseExpires task)")
    case (Inl err)
    then have "\<not> task_ok parse_time actors task" by (auto simp: task_ok_def split: if_splits)
    with Inl show ?thesis by auto
  next
    case (Inr t)
    then have "task_ok parse_time actors task \<longleftrightarrow>
        TrimSpace (ct_Ref task) \<noteq> [] \<and> TrimSpace (ct_Title task) \<noteq> [] \<and> ct_Status task \<in> set task_statuses
        \<and> (ct_Owner task = [] \<or> refers ''actor:'' actors (ct_Owner task))" by (auto simp: task_ok_def split: if_splits)
    with Inr "2.IH" show ?thesis by auto
  qed
qed simp

lemma check_task_dependencies_iff:
  "check_task_dependencies i tasks ref ds = None \<longleftrightarrow>
     (\<forall>d \<in> set ds. refers ''task:'' tasks d \<and> TrimPrefix d ''task:'' \<noteq> ref)"
  by (induction i tasks ref ds rule: check_task_dependencies.induct) (auto simp: refers_def)

lemma check_catalog_dependencies_iff:
  "check_catalog_dependencies i refs tasks = None \<longleftrightarrow>
     (\<forall>t \<in> set tasks. \<forall>d \<in> set (ct_DependsOn t). refers ''task:'' refs d \<and> TrimPrefix d ''task:'' \<noteq> ct_Ref t)"
  by (induction i refs tasks rule: check_catalog_dependencies.induct)
    (auto simp: chain_None check_task_dependencies_iff)

lemma check_turn_actors_iff:
  "check_turn_actors i turn actors seen as = None \<longleftrightarrow>
     (\<forall>a \<in> set as. refers ''actor:'' actors a) \<and> distinct as \<and> set seen \<inter> set as = {}"
  by (induction i turn actors seen as rule: check_turn_actors.induct) auto

definition turn_ok :: "string list \<Rightarrow> CatalogTurn \<Rightarrow> bool" where
  "turn_ok actors turn \<longleftrightarrow>
     tn_Action turn = ''prompt'' \<and> refers ''actor:'' actors (tn_By turn) \<and> TrimSpace (tn_Prompt turn) \<noteq> []
     \<or> tn_Action turn = ''resume'' \<and> refers ''actor:'' actors (tn_By turn) \<and> TrimSpace (tn_Instruction turn) \<noteq> []
     \<or> tn_Action turn = ''advance_clock'' \<and> tn_By turn = ''harness'' \<and> tn_Seconds turn \<ge> 1
     \<or> tn_Action turn = ''checkpoint'' \<and> tn_By turn = ''harness'' \<and> TrimSpace (tn_Instruction turn) \<noteq> []
     \<or> tn_Action turn = ''concurrent_turns'' \<and> tn_By turn = ''harness'' \<and> length (tn_Actors turn) \<ge> 2
        \<and> TrimSpace (tn_Prompt turn) \<noteq> [] \<and> distinct (tn_Actors turn)
        \<and> (\<forall>a \<in> set (tn_Actors turn). refers ''actor:'' actors a)"

lemma validateCatalogTurn_iff: "validateCatalogTurn i turn actors = None \<longleftrightarrow> turn_ok actors turn"
  by (auto simp: validateCatalogTurn_def turn_ok_def Let_def check_turn_actors_iff)

lemma check_turns_iff:
  "check_turns i actors seen turns = None \<longleftrightarrow>
     (\<forall>t \<in> set turns. TrimSpace (tn_ID t) \<noteq> [] \<and> turn_ok actors t)
     \<and> distinct (map tn_ID turns) \<and> set seen \<inter> set (map tn_ID turns) = {}"
  by (induction i actors seen turns rule: check_turns.induct) (auto simp: chain_None validateCatalogTurn_iff)

lemma check_assertion_criteria_Inr:
  "check_assertion_criteria i a criteria referenced cs = Inr r \<longleftrightarrow> set cs \<subseteq> set criteria \<and> r = rev cs @ referenced"
  by (induction i a criteria referenced cs rule: check_assertion_criteria.induct) auto

definition assertion_ok :: "string list \<Rightarrow> string list \<Rightarrow> CatalogAssertion \<Rightarrow> bool" where
  "assertion_ok criteria gates a \<longleftrightarrow>
     TrimSpace (xa_ID a) \<noteq> [] \<and> TrimSpace (xa_Description a) \<noteq> [] \<and> xa_Expect a \<noteq> []
     \<and> xa_Kind a \<in> set assertion_kinds \<and> xa_Criteria a \<noteq> [] \<and> set (xa_Criteria a) \<subseteq> set criteria
     \<and> (xa_HardGate a = [] \<or> xa_HardGate a \<in> set gates)"

lemma check_assertion_Inr:
  "TrimSpace (xa_ID a) \<noteq> [] \<Longrightarrow> check_assertion i criteria gates referenced a = Inr r \<longleftrightarrow>
     assertion_ok criteria gates a \<and> r = rev (xa_Criteria a) @ referenced"
  by (auto simp: check_assertion_def assertion_ok_def chain_Inr check_assertion_criteria_Inr)

lemma check_catalog_assertions_Inr:
  "check_catalog_assertions i criteria gates referenced seen as = Inr r \<longleftrightarrow>
     (\<forall>a \<in> set as. assertion_ok criteria gates a) \<and> distinct (map xa_ID as) \<and> set seen \<inter> set (map xa_ID as) = {}
     \<and> r = rev (concat (map xa_Criteria as)) @ referenced"
proof (induction i criteria gates referenced seen as rule: check_catalog_assertions.induct)
  case (2 i criteria gates referenced seen a as)
  show ?case
  proof (cases "TrimSpace (xa_ID a) = [] \<or> xa_ID a \<in> set seen")
    case False
    then have checked: "check_assertion i criteria gates referenced a = Inr r' \<longleftrightarrow>
        assertion_ok criteria gates a \<and> r' = rev (xa_Criteria a) @ referenced" for r' by (simp add: check_assertion_Inr)
    with False have "check_catalog_assertions i criteria gates referenced seen (a # as) = Inr r \<longleftrightarrow>
        assertion_ok criteria gates a
        \<and> check_catalog_assertions i criteria gates (rev (xa_Criteria a) @ referenced) (xa_ID a # seen) as = Inr r"
      by (simp add: chain_Inr)
    also have "\<dots> \<longleftrightarrow> assertion_ok criteria gates a
        \<and> (\<forall>a \<in> set as. assertion_ok criteria gates a) \<and> distinct (map xa_ID as)
        \<and> set (xa_ID a # seen) \<inter> set (map xa_ID as) = {}
        \<and> r = rev (concat (map xa_Criteria as)) @ rev (xa_Criteria a) @ referenced"
      using "2.IH" [OF False] by (simp only: checked) blast
    finally show ?thesis using False by simp blast
  qed (auto simp: assertion_ok_def)
qed auto

definition scenario_ok ::
  "(string \<Rightarrow> goerr + gotime) \<Rightarrow> string list \<Rightarrow> string list \<Rightarrow> CatalogScenario \<Rightarrow> bool" where
  "scenario_ok parse_time criteria gates sc \<longleftrightarrow>
     (let actors = map ca_Ref (sc_Actors sc); tasks = cp_Tasks (sc_Project sc); refs = map ct_Ref tasks in
       sc_SchemaVersion sc = ''1'' \<and> TrimSpace (sc_ID sc) \<noteq> [] \<and> TrimSpace (sc_Title sc) \<noteq> [] \<and> TrimSpace (sc_Summary sc) \<noteq> []
       \<and> sc_SkillPolicy sc \<in> {''project_integration'', ''not_preloaded''} \<and> sc_TimeoutSeconds sc \<in> {1..600}
       \<and> (\<forall>a \<in> set (sc_Actors sc). TrimSpace (ca_Ref a) \<noteq> [] \<and> TrimSpace (ca_Name a) \<noteq> [])
       \<and> distinct actors \<and> sc_Actors sc \<noteq> []
       \<and> (\<forall>t \<in> set tasks. task_ok parse_time actors t) \<and> distinct refs
       \<and> (\<forall>t \<in> set tasks. \<forall>d \<in> set (ct_DependsOn t). refers ''task:'' refs d \<and> TrimPrefix d ''task:'' \<noteq> ct_Ref t)
       \<and> (\<forall>t \<in> set (sc_Turns sc). TrimSpace (tn_ID t) \<noteq> [] \<and> turn_ok actors t)
       \<and> distinct (map tn_ID (sc_Turns sc)) \<and> sc_Turns sc \<noteq> []
       \<and> (\<forall>a \<in> set (sc_Assertions sc). assertion_ok criteria gates a)
       \<and> distinct (map xa_ID (sc_Assertions sc)) \<and> sc_Assertions sc \<noteq> [])"

definition exercised :: "CatalogScenario \<Rightarrow> string list" where
  "exercised sc = concat (map xa_Criteria (sc_Assertions sc))"

lemma first_some_None: "first_some os = None \<longleftrightarrow> (\<forall>x \<in> set os. x = None)"
  by (induction os rule: first_some.induct) auto

lemma first_some_Some: "first_some os = Some e \<Longrightarrow> \<exists>x \<in> set os. x \<noteq> None"
  using first_some_None [of os] by auto

lemma neither: "\<not> (a \<noteq> x \<and> a \<noteq> y) \<longleftrightarrow> a \<in> {x, y}"
  by auto

lemma outside: "\<not> (t < 1 \<or> t > 600) \<longleftrightarrow> t \<in> {1..600 :: int}"
  by auto

lemma validateCatalogScenario_Inr:
  "validateCatalogScenario parse_time sc criteria gates referenced = Inr r \<longleftrightarrow>
     scenario_ok parse_time criteria gates sc \<and> r = rev (exercised sc) @ referenced"
  unfolding validateCatalogScenario_def scenario_ok_def exercised_def Let_def chain_Inr neither outside
    check_catalog_assertions_Inr first_some_None
  by (simp add: check_catalog_actors_iff check_catalog_tasks_iff check_catalog_dependencies_iff check_turns_iff
      eq_commute [of _ r] conj_assoc)

lemma check_scenarios_Inr:
  "check_scenarios parse_time criteria gates referenced seen scs = Inr r \<longleftrightarrow>
     (\<forall>sc \<in> set scs. scenario_ok parse_time criteria gates sc) \<and> distinct (map sc_ID scs)
     \<and> set seen \<inter> set (map sc_ID scs) = {} \<and> r = rev (concat (map exercised scs)) @ referenced"
proof (induction parse_time criteria gates referenced seen scs rule: check_scenarios.induct)
  case (2 parse_time criteria gates referenced seen sc scs)
  show ?case
  proof (cases "sc_ID sc \<in> set seen")
    case False
    then have "check_scenarios parse_time criteria gates referenced seen (sc # scs) = Inr r \<longleftrightarrow>
        scenario_ok parse_time criteria gates sc
        \<and> check_scenarios parse_time criteria gates (rev (exercised sc) @ referenced) (sc_ID sc # seen) scs = Inr r"
      by (simp add: chain_Inr validateCatalogScenario_Inr)
    also have "\<dots> \<longleftrightarrow> scenario_ok parse_time criteria gates sc
        \<and> (\<forall>sc \<in> set scs. scenario_ok parse_time criteria gates sc) \<and> distinct (map sc_ID scs)
        \<and> set (sc_ID sc # seen) \<inter> set (map sc_ID scs) = {}
        \<and> r = rev (concat (map exercised scs)) @ rev (exercised sc) @ referenced"
      using "2.IH" [OF False] by (simp only: validateCatalogScenario_Inr) blast
    finally show ?thesis using False by simp blast
  qed simp
qed auto

text \<open>
  C39: the catalog validator decides well-formedness. A catalog is accepted exactly when its identity and
  scoring model are valid, its scenarios have different names, each scenario gives every actor, task,
  turn and assertion one name of its own, every owner, dependency, actor of a turn, criterion and hard
  gate refers to something that is there, no task depends on itself, statuses, times, timeouts and
  actions are valid, and every criterion of the model is exercised by some assertion.
\<close>

theorem validateCatalog_decides:
  "validateCatalog parse_time catalog = None \<longleftrightarrow>
     (let model = cat_ScoringModel catalog in
       cat_SchemaVersion catalog = ''1'' \<and> TrimSpace (SuiteID catalog) \<noteq> [] \<and> validateScoringModel model = None
       \<and> Scenarios catalog \<noteq> [] \<and> distinct (map sc_ID (Scenarios catalog))
       \<and> (\<forall>sc \<in> set (Scenarios catalog). scenario_ok parse_time (criterionIDs model) (hardGateIDs model) sc)
       \<and> (\<forall>criterion \<in> set (criterionIDs model). \<exists>sc \<in> set (Scenarios catalog). criterion \<in> set (exercised sc)))"
  unfolding validateCatalog_def Let_def chain_None check_scenarios_Inr
  by (auto simp: find_None_iff)

section \<open>A catalog\<close>

definition sample_scenario :: CatalogScenario where
  "sample_scenario =
     \<lparr>sc_SchemaVersion = ''1'', sc_ID = ''s'', sc_Title = ''t'', sc_Summary = ''y'', sc_InitialTime = 0, sc_InitialTimeRaw = ''0'',
      sc_SkillPolicy = ''not_preloaded'', sc_TimeoutSeconds = 60,
      sc_Actors = [\<lparr>ca_Ref = ''a'', ca_Name = ''ann'', ca_Capabilities = [], ca_MaxLoad = 0\<rparr>],
      sc_Project = \<lparr>cp_Initialized = True, cp_Tasks =
        [\<lparr>ct_Ref = ''w'', ct_Title = ''work'', ct_Status = ''in_progress'', ct_Capabilities = [], ct_DependsOn = [''task:d''],
          ct_Owner = ''actor:a'', ct_LeaseExpires = ''0'', ct_Metadata = []\<rparr>,
         \<lparr>ct_Ref = ''d'', ct_Title = ''done'', ct_Status = ''completed'', ct_Capabilities = [], ct_DependsOn = [],
          ct_Owner = [], ct_LeaseExpires = [], ct_Metadata = []\<rparr>]\<rparr>,
      sc_Turns =
        [\<lparr>tn_ID = ''go'', tn_By = ''actor:a'', tn_Action = ''prompt'', tn_Prompt = ''p'', tn_Seconds = 0, tn_Actors = [],
          tn_Instruction = []\<rparr>,
         \<lparr>tn_ID = ''on'', tn_By = ''actor:a'', tn_Action = ''resume'', tn_Prompt = [], tn_Seconds = 0, tn_Actors = [],
          tn_Instruction = ''i''\<rparr>],
      sc_Assertions =
        [\<lparr>xa_ID = ''x'', xa_Kind = ''task_state'', xa_Description = ''d'', xa_Criteria = [''a'', ''b''], xa_HardGate = [],
          xa_Expect = [(''task'', JString ''task:w''), (''status'', JString ''in_progress'')]\<rparr>]\<rparr>"

definition sample_catalog :: Catalog where
  "sample_catalog =
     \<lparr>cat_SchemaVersion = ''1'', SuiteID = ''suite'', cat_ScenarioSchema = [], cat_ScoringModel = sample_model,
      Scenarios = [sample_scenario]\<rparr>"

abbreviation zero_time :: "string \<Rightarrow> goerr + gotime" where
  "zero_time \<equiv> \<lambda>_. Inr 0"

lemma sample_texts:
  "TrimSpace ''s'' \<noteq> []" "TrimSpace ''t'' \<noteq> []" "TrimSpace ''y'' \<noteq> []" "TrimSpace ''a'' \<noteq> []" "TrimSpace ''w'' \<noteq> []"
  "TrimSpace ''d'' \<noteq> []" "TrimSpace ''go'' \<noteq> []" "TrimSpace ''on'' \<noteq> []" "TrimSpace ''p'' \<noteq> []" "TrimSpace ''i'' \<noteq> []"
  "TrimSpace ''x'' \<noteq> []" "TrimSpace ''ann'' \<noteq> []" "TrimSpace ''work'' \<noteq> []" "TrimSpace ''done'' \<noteq> []" "TrimSpace ''suite'' \<noteq> []"
  by code_simp+

lemma sample_scenario_ok: "scenario_ok zero_time [''a'', ''b''] [''g''] sample_scenario"
  by (simp add: scenario_ok_def sample_scenario_def task_ok_def turn_ok_def assertion_ok_def refers_def task_statuses_def
      assertion_kinds_def HasPrefix_def TrimPrefix_def sample_texts)

lemma sample_model_valid: "validateScoringModel sample_model = None"
  by (simp add: sample_model_def validateScoringModel_def total_points_def)

lemma validateCatalog_decides_witness:
  "validateCatalog zero_time sample_catalog = None
   \<and> validateCatalog zero_time (sample_catalog\<lparr>Scenarios := [sample_scenario, sample_scenario]\<rparr>) \<noteq> None"
proof -
  have "criterionIDs sample_model = [''a'', ''b'']" "hardGateIDs sample_model = [''g'']" "exercised sample_scenario = [''a'', ''b'']"
    by (simp_all add: sample_model_def criterionIDs_def hardGateIDs_def exercised_def sample_scenario_def)
  then show ?thesis
    by (simp add: validateCatalog_decides sample_catalog_def sample_scenario_ok sample_model_valid sample_texts)
qed

end
