(* ===== verification/Mcp.thy ===== *)
theory Mcp
  imports Session
begin

text \<open>
  The MCP server (\<^verbatim>\<open>mcp.go\<close>, \<^verbatim>\<open>mcp_summary.go\<close>, the recording half of \<^verbatim>\<open>conformance_trace.go\<close>): the
  surface that coding agents use. It is a second front end of the JSON-RPC server of \<open>Serve\<close>: a
  session has to be initialized by a handshake, then \<^verbatim>\<open>tools/call\<close> maps a tool name to a method and
  wraps the answer of the method into a tool result with a one-line summary. The text of an error is
  a parameter, like the success of encoding a result as JSON.
\<close>

section \<open>Tools\<close>

record mcpToolAnnotations =
  ReadOnlyHint :: bool
  DestructiveHint :: bool
  IdempotentHint :: bool
  OpenWorldHint :: bool

text \<open>The schemas of arguments, with their descriptions, as the local functions of \<^verbatim>\<open>terminalTodoMCPTools\<close> build them.\<close>

datatype argument_schema =
    SString "nat option" string
  | SInteger "nat option" "nat option" string
  | SNumber string
  | SBoolean string
  | SStrings "nat option" "nat option" string
  | SIntegers "nat option"
  | SStringMap "nat option" "nat option" "nat option" string
  | SObjects nat nat "(string \<times> argument_schema) list" "string list" string

record object_schema =
  sch_properties :: "(string \<times> argument_schema) list"
  sch_required :: "string list"

record mcpTool =
  tool_Name :: string
  tool_Title :: string
  tool_Description :: string
  InputSchema :: object_schema
  Annotations :: mcpToolAnnotations

definition receiptProp :: argument_schema where
  "receiptProp = SBoolean ''Return a bounded versioned mutation receipt. Follow detail_follow_up when full detail is needed.''"

definition work_tools :: "mcpTool list" where
  "work_tools =
     [\<lparr>tool_Name = ''terminal_todo_ping'',
        tool_Title = ''Check terminal-todo'',
        tool_Description = ''Discover the terminal-todo protocol version, project root, initialization state, and coordination capabilities.'',
        InputSchema = \<lparr>sch_properties =
          [],
          sch_required = []\<rparr>,
        Annotations = \<lparr>ReadOnlyHint = True, DestructiveHint = False, IdempotentHint = True, OpenWorldHint = False\<rparr>\<rparr>,
      \<lparr>tool_Name = ''terminal_todo_init'',
        tool_Title = ''Initialize terminal-todo'',
        tool_Description = ''Initialize terminal-todo's user-owned state in the current project. Safe to call when already initialized.'',
        InputSchema = \<lparr>sch_properties =
          [],
          sch_required = []\<rparr>,
        Annotations = \<lparr>ReadOnlyHint = False, DestructiveHint = False, IdempotentHint = True, OpenWorldHint = False\<rparr>\<rparr>,
      \<lparr>tool_Name = ''terminal_todo_bootstrap'',
        tool_Title = ''Get worker session brief'',
        tool_Description = ''Summarize a caller-supplied worker identity with one bounded brief: objective progress, owned work, compatible ready work, blockers, capability demand, and recent events. Prefer this over dumping status and event history.'',
        InputSchema = \<lparr>sch_properties =
          [(''actor'', SString None ''Stable identity for this worker or session.''),
           (''capabilities'', SStrings None None ''Capabilities available to this worker. Omit to use its registered agent card.''),
           (''objectiveId'', SInteger (Some 1) None ''Optional objective task whose local dependency closure defines progress.''),
           (''limit'', SInteger (Some 1) (Some maxBootstrapLimit) ''Maximum entries per work, blocker, and capability section; defaults to 5.''),
           (''eventLimit'', SInteger (Some 1) (Some maxBootstrapLimit) ''Maximum recent events; defaults to 5.'')],
          sch_required = [''actor'']\<rparr>,
        Annotations = \<lparr>ReadOnlyHint = False, DestructiveHint = False, IdempotentHint = True, OpenWorldHint = False\<rparr>\<rparr>,
      \<lparr>tool_Name = ''terminal_todo_status'',
        tool_Title = ''Inspect task graph'',
        tool_Description = ''Inspect the shared execution graph. Use before planning or resuming work to understand task state and ownership.'',
        InputSchema = \<lparr>sch_properties =
          [(''tag'', SString None ''Return only tasks with this tag.''),
           (''actor'', SString None ''Return only tasks owned by this actor.''),
           (''all'', SBoolean ''Include linked repositories.'')],
          sch_required = []\<rparr>,
        Annotations = \<lparr>ReadOnlyHint = False, DestructiveHint = False, IdempotentHint = True, OpenWorldHint = False\<rparr>\<rparr>,
      \<lparr>tool_Name = ''terminal_todo_cat'',
        tool_Title = ''Read task details'',
        tool_Description = ''Read one task's full state, dependencies, lease metadata, findings, and audit fields.'',
        InputSchema = \<lparr>sch_properties =
          [(''id'', SInteger (Some 1) None ''Positive task ID.'')],
          sch_required = [''id'']\<rparr>,
        Annotations = \<lparr>ReadOnlyHint = False, DestructiveHint = False, IdempotentHint = True, OpenWorldHint = False\<rparr>\<rparr>,
      \<lparr>tool_Name = ''terminal_todo_add'',
        tool_Title = ''Add task'',
        tool_Description = ''Add durable work to the shared DAG, optionally with dependencies, priority, required capabilities, and tags.'',
        InputSchema = \<lparr>sch_properties =
          [(''title'', SString (Some maxTaskTitleBytes) ''Clear outcome-oriented task title, at most 1024 UTF-8 bytes.''),
           (''after'', SStrings (Some maxTaskDependencies) (Some maxDependencyBytes) ''Task IDs or todo:// dependency URIs that must complete first.''),
           (''priority'', SNumber ''Higher values are allocated first.''),
           (''capabilities'', SStrings (Some maxTaskCapabilities) (Some maxCapabilityBytes) ''Capabilities an actor must advertise to acquire this task.''),
           (''tags'', SStrings (Some maxTaskTags) (Some maxTagBytes) ''User-defined task tags.''),
           (''receipt'', receiptProp)],
          sch_required = [''title'']\<rparr>,
        Annotations = \<lparr>ReadOnlyHint = False, DestructiveHint = False, IdempotentHint = False, OpenWorldHint = False\<rparr>\<rparr>,
      \<lparr>tool_Name = ''terminal_todo_acquire'',
        tool_Title = ''Acquire ready work'',
        tool_Description = ''Atomically select and lease one ready task. Always use this instead of separately listing and claiming work. Reuse requestId when retrying the same allocation.'',
        InputSchema = \<lparr>sch_properties =
          [(''actor'', SString (Some maxActorBytes) ''Stable identity for this worker or session.''),
           (''requestId'', SString (Some 128) ''Unique idempotency key for this allocation attempt.''),
           (''ttl'', SString None ''Lease duration such as 30m or 2h.''),
           (''capabilities'', SStrings (Some maxTaskCapabilities) (Some maxCapabilityBytes) ''Capabilities available to this worker.''),
           (''receipt'', receiptProp)],
          sch_required = [''actor'', ''requestId'']\<rparr>,
        Annotations = \<lparr>ReadOnlyHint = False, DestructiveHint = True, IdempotentHint = True, OpenWorldHint = False\<rparr>\<rparr>,
      \<lparr>tool_Name = ''terminal_todo_heartbeat'',
        tool_Title = ''Renew task lease'',
        tool_Description = ''Renew an active lease before it expires. Use periodically during long-running work.'',
        InputSchema = \<lparr>sch_properties =
          [(''id'', SInteger (Some 1) None ''Positive task ID.''),
           (''actor'', SString (Some maxActorBytes) ''Current lease owner.''),
           (''ttl'', SString None ''New lease duration such as 30m or 2h.''),
           (''receipt'', receiptProp)],
          sch_required = [''id'', ''actor'']\<rparr>,
        Annotations = \<lparr>ReadOnlyHint = False, DestructiveHint = True, IdempotentHint = False, OpenWorldHint = False\<rparr>\<rparr>]"

definition record_tools :: "mcpTool list" where
  "record_tools =
     [\<lparr>tool_Name = ''terminal_todo_update'',
        tool_Title = ''Update task'',
        tool_Description = ''Update owned task metadata, dependencies, or structured successor context. Use extra for durable handoffs; prefer canonical keys finding, decision, tests, commit, files, and blocker.'',
        InputSchema = \<lparr>sch_properties =
          [(''id'', SInteger (Some 1) None ''Positive task ID.''),
           (''title'', SString (Some maxTaskTitleBytes) ''Replacement task title.''),
           (''priority'', SNumber []),
           (''capabilities'', SStrings (Some maxTaskCapabilities) (Some maxCapabilityBytes) ''Replacement required capabilities.''),
           (''actor'', SString (Some maxActorBytes) ''Actor making the update; required when another actor owns the task.''),
           (''extra'', SStringMap None (Some maxTaskExtraEntries) (Some maxMetadataValueBytes) ''Structured durable handoff fields. Prefer canonical keys finding, decision, tests, commit, files, and blocker. Keys are at most 128 UTF-8 bytes and values at most 16384.''),
           (''addDeps'', SStrings (Some maxTaskDependencies) (Some maxDependencyBytes) ''Dependencies to add.''),
           (''removeDeps'', SStrings (Some maxTaskDependencies) (Some maxDependencyBytes) ''Dependencies to remove.''),
           (''receipt'', receiptProp)],
          sch_required = [''id'']\<rparr>,
        Annotations = \<lparr>ReadOnlyHint = False, DestructiveHint = True, IdempotentHint = False, OpenWorldHint = False\<rparr>\<rparr>,
      \<lparr>tool_Name = ''terminal_todo_handoff'',
        tool_Title = ''Hand off task'',
        tool_Description = ''Atomically persist structured successor context and yield a valid owned lease. Prefer this over separate update and release calls when another worker will continue the task.'',
        InputSchema = \<lparr>sch_properties =
          [(''id'', SInteger (Some 1) None ''Positive task ID.''),
           (''actor'', SString (Some maxActorBytes) ''Current active lease owner.''),
           (''extra'', SStringMap (Some 1) (Some maxTaskExtraEntries) (Some maxMetadataValueBytes) ''Structured durable handoff fields. Prefer canonical keys finding, decision, tests, commit, files, and blocker.''),
           (''receipt'', receiptProp)],
          sch_required = [''id'', ''actor'', ''extra'']\<rparr>,
        Annotations = \<lparr>ReadOnlyHint = False, DestructiveHint = True, IdempotentHint = False, OpenWorldHint = False\<rparr>\<rparr>,
      \<lparr>tool_Name = ''terminal_todo_log'',
        tool_Title = ''Record task note'',
        tool_Description = ''Append an immutable chronological audit note. Use terminal_todo_update extra, not a log alone, for context a successor must recover by structured lookup.'',
        InputSchema = \<lparr>sch_properties =
          [(''id'', SInteger (Some 1) None ''Positive task ID.''),
           (''message'', SString (Some maxLogMessageBytes) ''Concise chronological progress, decision, or risk note; not a substitute for structured handoff fields.''),
           (''actor'', SString (Some maxActorBytes) ''Actor recording the note.''),
           (''receipt'', receiptProp)],
          sch_required = [''id'', ''message'']\<rparr>,
        Annotations = \<lparr>ReadOnlyHint = False, DestructiveHint = False, IdempotentHint = False, OpenWorldHint = False\<rparr>\<rparr>,
      \<lparr>tool_Name = ''terminal_todo_decompose'',
        tool_Title = ''Decompose task'',
        tool_Description = ''Split a broad task into child tasks. The parent becomes pending on the children and any active parent lease is safely released.'',
        InputSchema = \<lparr>sch_properties =
          [(''id'', SInteger (Some 1) None ''Positive task ID.''),
           (''actor'', SString (Some maxActorBytes) ''Current parent lease owner when claimed.''),
           (''subtasks'', SObjects 1 maxMutationReceiptIDs
           [(''title'', SString (Some maxTaskTitleBytes) ''Outcome-oriented child title.''),
            (''capabilities'', SStrings (Some maxTaskCapabilities) (Some maxCapabilityBytes) ''Capabilities required for this child.'')]
           [''title''] ''Child work items.''),
           (''receipt'', receiptProp)],
          sch_required = [''id'', ''subtasks'']\<rparr>,
        Annotations = \<lparr>ReadOnlyHint = False, DestructiveHint = True, IdempotentHint = False, OpenWorldHint = False\<rparr>\<rparr>,
      \<lparr>tool_Name = ''terminal_todo_block'',
        tool_Title = ''Block task'',
        tool_Description = ''Mark work explicitly blocked and preserve the reason for coordinators and future sessions.'',
        InputSchema = \<lparr>sch_properties =
          [(''id'', SInteger (Some 1) None ''Positive task ID.''),
           (''reason'', SString (Some maxReasonBytes) ''Concrete blocking condition and what would unblock it.''),
           (''actor'', SString (Some maxActorBytes) ''Actor reporting the blocker.''),
           (''receipt'', receiptProp)],
          sch_required = [''id'', ''reason'']\<rparr>,
        Annotations = \<lparr>ReadOnlyHint = False, DestructiveHint = True, IdempotentHint = False, OpenWorldHint = False\<rparr>\<rparr>,
      \<lparr>tool_Name = ''terminal_todo_release'',
        tool_Title = ''Release task lease'',
        tool_Description = ''Yield an owned lease back to the ready pool, optionally recording a failed-attempt error for retries and recovery.'',
        InputSchema = \<lparr>sch_properties =
          [(''id'', SInteger (Some 1) None ''Positive task ID.''),
           (''actor'', SString (Some maxActorBytes) ''Current lease owner.''),
           (''error'', SString (Some maxErrorBytes) ''Failure summary when releasing after an unsuccessful attempt.''),
           (''receipt'', receiptProp)],
          sch_required = [''id'', ''actor'']\<rparr>,
        Annotations = \<lparr>ReadOnlyHint = False, DestructiveHint = True, IdempotentHint = True, OpenWorldHint = False\<rparr>\<rparr>,
      \<lparr>tool_Name = ''terminal_todo_complete'',
        tool_Title = ''Complete tasks'',
        tool_Description = ''Complete one or more tasks after verifying their outcome and dependencies. Claimed tasks require the owning actor.'',
        InputSchema = \<lparr>sch_properties =
          [(''ids'', SIntegers (Some 1)),
           (''actor'', SString (Some maxActorBytes) ''Current lease owner for claimed tasks.''),
           (''receipt'', receiptProp)],
          sch_required = [''ids'']\<rparr>,
        Annotations = \<lparr>ReadOnlyHint = False, DestructiveHint = True, IdempotentHint = False, OpenWorldHint = False\<rparr>\<rparr>,
      \<lparr>tool_Name = ''terminal_todo_events'',
        tool_Title = ''Read coordination events'',
        tool_Description = ''Read coordination events. Set page=true for a bounded, versioned page, continue from cursor.next_since, and resynchronize current status when cursor.history_gap is true.'',
        InputSchema = \<lparr>sch_properties =
          [(''since'', SInteger (Some 0) None ''Return events after this event sequence.''),
           (''limit'', SInteger (Some 1) (Some (nat maxEventPageLimit)) ''Maximum events to return; defaults to 100.''),
           (''page'', SBoolean ''Return the bounded, versioned page envelope. Recommended for agent callers.'')],
          sch_required = []\<rparr>,
        Annotations = \<lparr>ReadOnlyHint = False, DestructiveHint = False, IdempotentHint = True, OpenWorldHint = False\<rparr>\<rparr>]"


definition terminalTodoMCPTools :: "mcpTool list" where
  "terminalTodoMCPTools = work_tools @ record_tools"

definition mcpToolMethods :: "(string \<times> string) list" where
  "mcpToolMethods =
     [(''terminal_todo_ping'', ''todo.ping''), (''terminal_todo_init'', ''todo.init''),
      (''terminal_todo_bootstrap'', ''todo.bootstrap''), (''terminal_todo_status'', ''todo.status''),
      (''terminal_todo_cat'', ''todo.cat''), (''terminal_todo_add'', ''todo.add''),
      (''terminal_todo_acquire'', ''todo.acquire''), (''terminal_todo_heartbeat'', ''todo.heartbeat''),
      (''terminal_todo_handoff'', ''todo.handoff''), (''terminal_todo_update'', ''todo.update''),
      (''terminal_todo_log'', ''todo.log''), (''terminal_todo_decompose'', ''todo.decompose''),
      (''terminal_todo_block'', ''todo.block''), (''terminal_todo_release'', ''todo.release''),
      (''terminal_todo_complete'', ''todo.done''), (''terminal_todo_events'', ''todo.events'')]"

section \<open>Values and results\<close>

text \<open>The value of a tool result: the result of the method, or the error with its text.\<close>

datatype mcp_value = VResult rpc_result | VError int string "allocationDiagnostics option"

record mcpCallResult =
  Content :: string
  StructuredContent :: mcp_value
  IsError :: bool

datatype mcp_answer = MEmpty | MInitialize string string | MTools "mcpTool list" | MCall mcpCallResult

section \<open>Summaries\<close>

abbreviation "maxMCPResultSummaryLength \<equiv> (240 :: nat)"

definition compactMCPResultSummary :: "string \<Rightarrow> string" where
  "compactMCPResultSummary val =
     (let val = Join '' '' (Fields val)
      in if length val \<le> maxMCPResultSummaryLength then val
         else take (rune_boundary val (maxMCPResultSummaryLength - 3)) val @ ''...'')"

definition mcpErrorSummary :: "mcp_value \<Rightarrow> string" where
  "mcpErrorSummary val =
     (case val of
        VResult _ \<Rightarrow> ''terminal-todo operation failed.''
      | VError code message _ \<Rightarrow>
          (let name = (if mcpErrorName code = [] then ''ERROR'' else mcpErrorName code)
           in if message = [] then name @ ''.'' else name @ '': '' @ message))"

text \<open>\<^verbatim>\<open>strings.ToUpper(operation[:1])\<close>; the operations are ASCII constants.\<close>

definition mutationVerb :: "string \<Rightarrow> string" where
  "mutationVerb operation =
     (case operation of
        [] \<Rightarrow> ''Mutation''
      | c # cs \<Rightarrow> (if 97 \<le> byte c \<and> byte c \<le> (122 :: nat) then char_of (byte c - 32 :: nat) else c) # cs)"

definition mcpMutationReceiptSummary :: "mutationReceipt \<Rightarrow> string" where
  "mcpMutationReceiptSummary receipt =
     (case mr_Task receipt of
        Some task \<Rightarrow>
          if mr_Operation receipt = ''acquire''
          then (if mr_Replayed receipt = Some True then ''Replayed acquisition for'' else ''Acquired'')
               @ '' task '' @ fmt_id (tr_ID task) @ ''.''
          else if mr_Operation receipt = ''heartbeat''
          then ''Renewed task '' @ fmt_id (tr_ID task) @ '' lease.''
          else if mr_Operation receipt = ''decompose''
          then ''Decomposed task '' @ fmt_id (tr_ID task) @ '' into '' @ decimal (af_Total (mr_Affected receipt))
               @ '' subtask(s).''
          else mutationVerb (mr_Operation receipt) @ '' task '' @ fmt_id (tr_ID task) @ ''.''
      | None \<Rightarrow>
          mutationVerb (mr_Operation receipt) @ '' affected '' @ decimal (af_Total (mr_Affected receipt)) @ '' task(s).'')"

definition summarizeMCPTasks :: "protocolTask list \<Rightarrow> string" where
  "summarizeMCPTasks tasks =
     (let count = (\<lambda>status. decimal (length (filter (\<lambda>t. p_Status t = status) tasks)))
      in decimal (length tasks) @ '' task(s): '' @ count ''pending'' @ '' pending, '' @ count ''in_progress''
         @ '' in progress, '' @ count ''blocked'' @ '' blocked, '' @ count ''completed'' @ '' completed.'')"

definition summarizeMCPTask :: "protocolTask \<Rightarrow> string" where
  "summarizeMCPTask task = ''Task '' @ fmt_id (p_ID task) @ '' ['' @ p_Status task @ '']: '' @ p_Title task @ ''.''"

definition joinTaskIDs :: "u64 list \<Rightarrow> string" where
  "joinTaskIDs ids = Join '', '' (map fmt_id ids)"

definition bootstrap_summary :: "bootstrapResult \<Rightarrow> string" where
  "bootstrap_summary result =
     (case br_Objective result of
        None \<Rightarrow> ''No objective''
      | Some t \<Rightarrow> ''Objective '' @ fmt_id (bt_ID t) @ '' ['' @ bt_Status t @ '']'')
     @ ''; '' @ decimal (bp_Completed (br_Progress result)) @ ''/'' @ decimal (bp_Total (br_Progress result))
     @ '' complete; '' @ decimal (bl_Total (br_OwnedWork result)) @ '' owned, ''
     @ decimal (bl_Total (br_ReadyWork result)) @ '' compatible ready, ''
     @ decimal (bb_ExplicitTotal (br_Blockers result) + bb_DependencyBlockedTotal (br_Blockers result)) @ '' blocked.''"

text \<open>The switch over the tool name and the type of the result; a result of another type leaves the summary empty.\<close>

definition tool_summary :: "string \<Rightarrow> rpc_result \<Rightarrow> string" where
  "tool_summary toolName result =
     (if toolName = ''terminal_todo_ping''
      then (case result of
              RPing p \<Rightarrow> ''terminal-todo '' @ (if ping_Initialized p then ''ready'' else ''not initialized'')
                @ '' (protocol '' @ ping_ProtocolVersion p @ '').''
            | _ \<Rightarrow> [])
      else if toolName = ''terminal_todo_init'' then ''Initialized terminal-todo project state.''
      else if toolName = ''terminal_todo_bootstrap''
      then (case result of RBootstrap b \<Rightarrow> bootstrap_summary b | _ \<Rightarrow> [])
      else if toolName = ''terminal_todo_status''
      then (case result of
              RTasks r \<Rightarrow> summarizeMCPTasks (tse_Tasks r)
            | RProjects r \<Rightarrow>
                ''Returned '' @ decimal (sum_list (map (\<lambda>p. length (ps_Tasks p)) (pse_Projects r)))
                @ '' task(s) across '' @ decimal (length (pse_Projects r)) @ '' project(s).''
            | _ \<Rightarrow> [])
      else if toolName = ''terminal_todo_cat''
      then (case result of RTask task \<Rightarrow> summarizeMCPTask task | _ \<Rightarrow> [])
      else if toolName = ''terminal_todo_add''
      then (case result of RAdd i title \<Rightarrow> ''Added task '' @ fmt_id i @ '': '' @ title @ ''.'' | _ \<Rightarrow> [])
      else if toolName = ''terminal_todo_acquire''
      then (case result of
              RAcquire r \<Rightarrow>
                (if ae_Replayed r then ''Replayed acquisition for'' else ''Acquired'')
                @ '' task '' @ fmt_id (p_ID (ae_Task r)) @ '': '' @ p_Title (ae_Task r) @ ''.''
            | _ \<Rightarrow> [])
      else if toolName = ''terminal_todo_heartbeat''
      then (case result of RTaskEnvelope r \<Rightarrow> ''Renewed task '' @ fmt_id (p_ID (te_Task r)) @ '' lease.'' | _ \<Rightarrow> [])
      else if toolName = ''terminal_todo_update''
      then (case result of RTask task \<Rightarrow> ''Updated task '' @ fmt_id (p_ID task) @ ''.'' | _ \<Rightarrow> [])
      else if toolName = ''terminal_todo_handoff''
      then (case result of RRelease i _ \<Rightarrow> ''Handed off task '' @ fmt_id i @ '' with structured context.'' | _ \<Rightarrow> [])
      else if toolName = ''terminal_todo_log''
      then (case result of RLog i \<Rightarrow> ''Recorded a note on task '' @ fmt_id i @ ''.'' | _ \<Rightarrow> [])
      else if toolName = ''terminal_todo_decompose''
      then (case result of
              RDecompose r \<Rightarrow> ''Decomposed task '' @ fmt_id (p_ID (dc_Parent r)) @ '' into ''
                @ decimal (length (dc_Subtasks r)) @ '' subtask(s).''
            | _ \<Rightarrow> [])
      else if toolName = ''terminal_todo_block''
      then (case result of RBlock i _ \<Rightarrow> ''Blocked task '' @ fmt_id i @ ''.'' | _ \<Rightarrow> [])
      else if toolName = ''terminal_todo_release''
      then (case result of RRelease i _ \<Rightarrow> ''Released task '' @ fmt_id i @ ''.'' | _ \<Rightarrow> [])
      else if toolName = ''terminal_todo_complete''
      then (case result of
              RDone ids _ \<Rightarrow> ''Completed '' @ decimal (length ids) @ '' task(s): '' @ joinTaskIDs ids @ ''.''
            | _ \<Rightarrow> [])
      else if toolName = ''terminal_todo_events'' then ''Returned coordination event history.''
      else [])"

definition mcpResultSummary :: "string \<Rightarrow> mcp_value \<Rightarrow> bool \<Rightarrow> string" where
  "mcpResultSummary toolName val isError =
     (if isError then compactMCPResultSummary (mcpErrorSummary val)
      else
        (case val of
           VResult (RReceipt receipt) \<Rightarrow> compactMCPResultSummary (mcpMutationReceiptSummary receipt)
         | VResult result \<Rightarrow>
             compactMCPResultSummary
               (if tool_summary toolName result = [] then ''terminal-todo operation completed.''
                else tool_summary toolName result)
         | VError _ _ _ \<Rightarrow> compactMCPResultSummary ''terminal-todo operation completed.''))"

lemma compactMCPResultSummary_bound: "length (compactMCPResultSummary s) \<le> maxMCPResultSummaryLength"
  using rune_boundary_le [of "Join '' '' (Fields s)" "maxMCPResultSummaryLength - 3"]
  by (simp add: compactMCPResultSummary_def Let_def)

lemma mcpResultSummary_bound: "length (mcpResultSummary toolName val isError) \<le> maxMCPResultSummaryLength"
  by (simp add: mcpResultSummary_def compactMCPResultSummary_bound split: mcp_value.split rpc_result.split)

section \<open>The session\<close>

text \<open>
  \<open>trace_file\<close> and \<open>trace_actor\<close> are the environment variables of a conformance run;
  \<open>trace_written\<close> says whether appending at an access succeeds.
\<close>

record 'b mcp_env =
  backend :: "'b server_env"
  Marshal_ok :: "mcp_value \<Rightarrow> bool"
  error_text :: "goerr \<Rightarrow> string"
  trace_file :: string
  trace_actor :: string
  trace_written :: "nat \<Rightarrow> bool"

record TraceRecord =
  trace_Actor :: string
  trace_Operation :: string
  trace_Timestamp :: gotime
  trace_Arguments :: "(string \<times> json) list"
  trace_Result :: "rpc_result option"
  trace_Error :: "(string \<times> goerr \<times> allocationDiagnostics option) option"

record 'b mcpServer =
  initializeSeen :: bool
  mcp_initialized :: bool
  mcp_world :: "'b world"
  mcp_trace :: "TraceRecord list"

fun traceActorFromArguments :: "(string \<times> json) list \<Rightarrow> string" where
  "traceActorFromArguments arguments =
     (case map_of (rev arguments) ''actor'' of
        Some (JString val) \<Rightarrow> TrimSpace val
      | _ \<Rightarrow> (case map_of (rev arguments) ''as'' of Some (JString val) \<Rightarrow> TrimSpace val | _ \<Rightarrow> []))"

definition recordConformanceToolCall ::
  "'b mcp_env \<Rightarrow> string \<Rightarrow> json \<Rightarrow> rpcError + rpc_result \<Rightarrow> 'b mcpServer \<Rightarrow> 'b mcpServer" where
  "recordConformanceToolCall m meth arguments answer srv =
     (if TrimSpace (trace_file m) = [] then srv
      else
        (let turn = w_turn (mcp_world srv);
             object = (case arguments of JObject kvs \<Rightarrow> kvs | _ \<Rightarrow> []);
             actor = TrimSpace (trace_actor m);
             record' =
               \<lparr>trace_Actor = (if actor = [] then traceActorFromArguments object else actor),
                trace_Operation = TrimPrefix ''todo.'' meth,
                trace_Timestamp = project_clock (backend m) turn,
                trace_Arguments = object,
                trace_Result = (case answer of Inr result \<Rightarrow> Some result | Inl _ \<Rightarrow> None),
                trace_Error =
                  (case answer of
                     Inl err \<Rightarrow> Some (conformanceDomainErrorCode (rpc_Code err), rpc_Message err, rpc_Data err)
                   | Inr _ \<Rightarrow> None)\<rparr>
         in if trace_written m turn then srv\<lparr>mcp_trace := mcp_trace srv @ [record']\<rparr> else srv))"

definition newMCPCallResult :: "'b mcp_env \<Rightarrow> string \<Rightarrow> mcp_value \<Rightarrow> bool \<Rightarrow> mcpCallResult" where
  "newMCPCallResult m toolName val isError =
     (let (val, isError) =
            (if Marshal_ok m val then (val, isError)
             else (VError rpcInternal ''could not encode tool result'' None, True))
      in \<lparr>Content = mcpResultSummary toolName val isError, StructuredContent = val, IsError = isError\<rparr>)"

record mcpCallParams =
  call_Name :: string
  call_Arguments :: "json option"

definition decode_mcpCallParams :: "json option \<Rightarrow> rpcError + mcpCallParams" where
  "decode_mcpCallParams =
     unmarshalParams
       [(''name'', set_string (\<lambda>v r. r\<lparr>call_Name := v\<rparr>)),
        (''arguments'', \<lambda>v r. Some (r\<lparr>call_Arguments := Some v\<rparr>)),
        (''_meta'', \<lambda>v r. Some r)]
       \<lparr>call_Name = [], call_Arguments = None\<rparr>"

definition call_answer :: "'b mcp_env \<Rightarrow> string \<Rightarrow> rpcError + rpc_result \<Rightarrow> mcpCallResult" where
  "call_answer m toolName answer =
     (case answer of
        Inl err \<Rightarrow>
          newMCPCallResult m toolName (VError (rpc_Code err) (error_text m (rpc_Message err)) (rpc_Data err)) True
      | Inr result \<Rightarrow> newMCPCallResult m toolName (VResult result) False)"

definition callTool :: "'b mcp_env \<Rightarrow> json option \<Rightarrow> 'b mcpServer \<Rightarrow> ((rpcError + mcp_answer) \<times> 'b mcpServer) option" where
  "callTool m params srv =
     (case decode_mcpCallParams params of
        Inl err \<Rightarrow> Some (Inl err, srv)
      | Inr p \<Rightarrow>
          if call_Name p = [] then Some (Inl (rpcErrorf rpcInvalidParams (msg ''tool name is required'')), srv)
          else
            (case map_of mcpToolMethods (call_Name p) of
               None \<Rightarrow>
                 Some (Inl (rpcErrorf rpcInvalidParams (Errorf ''unknown tool: %s'' [ArgStr (call_Name p)] [])), srv)
             | Some meth \<Rightarrow>
                 (let arguments =
                        (case call_Arguments p of
                           None \<Rightarrow> JObject [] | Some JNull \<Rightarrow> JObject [] | Some j \<Rightarrow> j)
                  in case dispatch (backend m) meth (Some arguments) (mcp_world srv) of
                       None \<Rightarrow> None
                     | Some (answer, w) \<Rightarrow>
                         Some (Inr (MCall (call_answer m (call_Name p) answer)),
                               recordConformanceToolCall m meth arguments answer (srv\<lparr>mcp_world := w\<rparr>)))))"

record mcpImplementation =
  impl_Name :: string
  impl_Version :: string

record initializeParams =
  ini_ProtocolVersion :: string
  ini_ClientInfo :: mcpImplementation

text \<open>The fields that are decoded and never read only restrict the shape of the request.\<close>

fun raw_array :: "json \<Rightarrow> 'r \<Rightarrow> 'r option" where
  "raw_array (JArray _) r = Some r"
| "raw_array JNull r = Some r"
| "raw_array _ r = None"

fun raw_object :: "json \<Rightarrow> 'r \<Rightarrow> 'r option" where
  "raw_object (JObject _) r = Some r"
| "raw_object JNull r = Some r"
| "raw_object _ r = None"

definition implementation_fields :: "mcpImplementation fields" where
  "implementation_fields =
     [(''name'', set_string (\<lambda>v r. r\<lparr>impl_Name := v\<rparr>)), (''version'', set_string (\<lambda>v r. r\<lparr>impl_Version := v\<rparr>)),
      (''title'', set_string (\<lambda>v r. r)), (''websiteUrl'', set_string (\<lambda>v r. r)), (''icons'', raw_array)]"

definition decode_initializeParams :: "json option \<Rightarrow> rpcError + initializeParams" where
  "decode_initializeParams =
     unmarshalParams
       [(''protocolVersion'', set_string (\<lambda>v r. r\<lparr>ini_ProtocolVersion := v\<rparr>)),
        (''capabilities'', raw_object),
        (''clientInfo'', \<lambda>v r. map_option (\<lambda>c. r\<lparr>ini_ClientInfo := c\<rparr>)
                           (decode_struct implementation_fields v (ini_ClientInfo r))),
        (''_meta'', \<lambda>v r. Some r)]
       \<lparr>ini_ProtocolVersion = [], ini_ClientInfo = \<lparr>impl_Name = [], impl_Version = []\<rparr>\<rparr>"

definition mcpProtocolVersion :: string where
  "mcpProtocolVersion = ''2025-06-18''"

definition initialize :: "'b mcp_env \<Rightarrow> json option \<Rightarrow> 'b mcpServer \<Rightarrow> (rpcError + mcp_answer) \<times> 'b mcpServer" where
  "initialize m params srv =
     (case decode_initializeParams params of
        Inl err \<Rightarrow> (Inl err, srv)
      | Inr p \<Rightarrow>
          if ini_ProtocolVersion p = [] \<or> impl_Name (ini_ClientInfo p) = [] \<or> impl_Version (ini_ClientInfo p) = []
          then (Inl (rpcErrorf rpcInvalidParams (msg ''protocolVersion and clientInfo name/version are required'')), srv)
          else (Inr (MInitialize mcpProtocolVersion (version (backend m))), srv\<lparr>initializeSeen := True\<rparr>))"

definition not_ready :: rpcError where
  "not_ready = rpcErrorf rpcNotInitialized (msg ''MCP client has not completed initialization'')"

definition mcp_dispatch ::
  "'b mcp_env \<Rightarrow> string \<Rightarrow> json option \<Rightarrow> 'b mcpServer \<Rightarrow> ((rpcError + mcp_answer) \<times> 'b mcpServer) option" where
  "mcp_dispatch m meth params srv =
     (if meth = ''initialize'' then Some (initialize m params srv)
      else if meth = ''notifications/initialized''
      then (if \<not> initializeSeen srv
            then Some (Inl (rpcErrorf rpcNotInitialized (msg ''initialize must be called first'')), srv)
            else Some (Inr MEmpty, srv\<lparr>mcp_initialized := True\<rparr>))
      else if meth = ''ping'' then Some (Inr MEmpty, srv)
      else if meth = ''tools/list''
      then Some (if \<not> mcp_initialized srv then Inl not_ready else Inr (MTools terminalTodoMCPTools), srv)
      else if meth = ''tools/call''
      then (if \<not> mcp_initialized srv then Some (Inl not_ready, srv) else callTool m params srv)
      else Some (Inl (rpcErrorf rpcMethodNotFound (Errorf ''Method not found: %s'' [ArgStr meth] [])), srv))"

record mcpResponse =
  mcp_ID :: "json option"
  mcp_Answer :: "rpcError + mcp_answer"

definition mcp_error :: "json option \<Rightarrow> int \<Rightarrow> string \<Rightarrow> mcpResponse" where
  "mcp_error i code text = \<lparr>mcp_ID = i, mcp_Answer = Inl (rpcErrorf code (msg text))\<rparr>"

definition mcp_line :: "'b mcp_env \<Rightarrow> input_line \<Rightarrow> 'b mcpServer \<Rightarrow> (mcpResponse list \<times> 'b mcpServer) option" where
  "mcp_line m line srv =
     (case line of
        EmptyLine \<Rightarrow> Some ([], srv)
      | InvalidLine \<Rightarrow> Some ([mcp_error None rpcParse ''Parse error''], srv)
      | JSONLine j \<Rightarrow>
          (case decode_request j of
             None \<Rightarrow> Some ([mcp_error None rpcInvalidRequest ''Invalid Request''], srv)
           | Some req \<Rightarrow>
               if JSONRPC req \<noteq> ''2.0'' \<or> Method req = []
               then Some ([mcp_error (req_ID req) rpcInvalidRequest ''Invalid Request''], srv)
               else
                 (case mcp_dispatch m (Method req) (Params req) srv of
                    None \<Rightarrow> None
                  | Some (answer, srv) \<Rightarrow>
                      Some (if req_ID req = None then [] else [\<lparr>mcp_ID = req_ID req, mcp_Answer = answer\<rparr>], srv))))"

fun mcp_readRequests :: "'b mcp_env \<Rightarrow> input_line list \<Rightarrow> 'b mcpServer \<Rightarrow> (mcpResponse list \<times> 'b mcpServer) option" where
  "mcp_readRequests m [] srv = Some ([], srv)"
| "mcp_readRequests m (line # rest) srv =
     (case mcp_line m line srv of
        None \<Rightarrow> None
      | Some (out, srv) \<Rightarrow>
          (case mcp_readRequests m rest srv of None \<Rightarrow> None | Some (out', srv) \<Rightarrow> Some (out @ out', srv)))"

definition mcp_start :: "'b mcp_env \<Rightarrow> 'b files \<Rightarrow> nat \<Rightarrow> 'b mcpServer" where
  "mcp_start m f turn =
     \<lparr>initializeSeen = False, mcp_initialized = False,
      mcp_world = \<lparr>w_files = f, w_initialized = file_exists f (tasksBinPath (backend m)), w_turn = turn\<rparr>,
      mcp_trace = []\<rparr>"

definition cmdMCP :: "'b mcp_env \<Rightarrow> 'b files \<Rightarrow> nat \<Rightarrow> input_line list \<Rightarrow> (mcpResponse list \<times> 'b mcpServer) option" where
  "cmdMCP m f turn lines = mcp_readRequests m lines (mcp_start m f turn)"

section \<open>The session is served\<close>

lemma recordConformanceToolCall_keeps [simp]:
  "mcp_world (recordConformanceToolCall m meth arguments answer srv) = mcp_world srv"
  "initializeSeen (recordConformanceToolCall m meth arguments answer srv) = initializeSeen srv"
  "mcp_initialized (recordConformanceToolCall m meth arguments answer srv) = mcp_initialized srv"
  by (simp_all add: recordConformanceToolCall_def Let_def)

text \<open>
  What the world of a session may become: any call of a method. A session whose client has not
  finished the handshake leaves it, and the record of calls, alone.
\<close>

lemma initialize_keeps:
  assumes "initialize m params srv = (answer, srv')"
  shows "mcp_world srv' = mcp_world srv" "mcp_trace srv' = mcp_trace srv" "mcp_initialized srv' = mcp_initialized srv"
    "initializeSeen srv \<Longrightarrow> initializeSeen srv'"
  using assms by (auto simp: initialize_def split: sum.splits if_splits)

lemma callTool_keeps:
  assumes "callTool m params srv = Some (answer, srv')"
  shows "mcp_initialized srv' = mcp_initialized srv" "initializeSeen srv' = initializeSeen srv"
  using assms by (auto simp: callTool_def Let_def split: sum.splits if_splits option.splits prod.splits)

definition guarded :: "'b mcpServer \<Rightarrow> 'b mcpServer \<Rightarrow> bool" where
  "guarded srv srv' \<longleftrightarrow>
     (mcp_initialized srv \<longrightarrow> mcp_initialized srv')
     \<and> (\<not> mcp_initialized srv' \<longrightarrow> mcp_world srv' = mcp_world srv \<and> mcp_trace srv' = mcp_trace srv)
     \<and> ((mcp_initialized srv \<longrightarrow> initializeSeen srv) \<longrightarrow> (mcp_initialized srv' \<longrightarrow> initializeSeen srv'))"

lemma guarded_refl [simp]: "guarded srv srv"
  by (simp add: guarded_def)

lemma guarded_trans: "guarded srv srv1 \<Longrightarrow> guarded srv1 srv2 \<Longrightarrow> guarded srv srv2"
  unfolding guarded_def by metis

lemma guarded_initialize: "initialize m params srv = (answer, srv') \<Longrightarrow> guarded srv srv'"
  using initialize_keeps [of m params srv answer srv'] by (simp add: guarded_def)

lemma guarded_callTool: "callTool m params srv = Some (answer, srv') \<Longrightarrow> mcp_initialized srv \<Longrightarrow> guarded srv srv'"
  using callTool_keeps [of m params srv answer srv'] by (simp add: guarded_def)

lemma guarded_dispatch:
  assumes "mcp_dispatch m meth params srv = Some (answer, srv')"
  shows "guarded srv srv'"
proof -
  consider "initialize m params srv = (answer, srv')" | "srv' = srv"
    | "srv' = srv\<lparr>mcp_initialized := True\<rparr>" "initializeSeen srv"
    | "callTool m params srv = Some (answer, srv')" "mcp_initialized srv"
    using assms by (auto simp: mcp_dispatch_def split: if_splits)
  then show ?thesis
    by cases (simp_all add: guarded_initialize guarded_callTool, simp add: guarded_def)
qed

lemma guarded_line:
  assumes "mcp_line m line srv = Some (out, srv')"
  shows "guarded srv srv'"
proof -
  have "srv' = srv \<or> (\<exists>meth params answer. mcp_dispatch m meth params srv = Some (answer, srv'))"
    using assms by (auto simp: mcp_line_def split: input_line.splits option.splits if_splits prod.splits)
  then show ?thesis using guarded_dispatch by fastforce
qed

lemma guarded_session:
  "mcp_readRequests m lines srv = Some (out, srv') \<Longrightarrow> guarded srv srv'"
proof (induction lines arbitrary: srv out)
  case (Cons line rest)
  from Cons.prems obtain out1 srv1 out2 where
    "mcp_line m line srv = Some (out1, srv1)" "mcp_readRequests m rest srv1 = Some (out2, srv')"
    by (auto split: option.splits)
  with Cons.IH guarded_line guarded_trans show ?case by blast
qed simp

definition concise :: "mcpResponse \<Rightarrow> bool" where
  "concise r =
     (case mcp_Answer r of
        Inr (MCall result) \<Rightarrow>
          length (Content result) \<le> maxMCPResultSummaryLength
          \<and> IsError result = (\<exists>code message d. StructuredContent result = VError code message d)
      | _ \<Rightarrow> True)"

lemma call_answer_concise:
  "length (Content (call_answer m toolName answer)) \<le> maxMCPResultSummaryLength"
  "IsError (call_answer m toolName answer)
    = (\<exists>code message d. StructuredContent (call_answer m toolName answer) = VError code message d)"
  by (auto simp: call_answer_def newMCPCallResult_def mcpResultSummary_bound split: sum.split)

lemma callTool_answers:
  assumes "env_ok (backend m)" "files_inv roomy (backend m) (w_files (mcp_world srv))"
  shows "\<exists>answer srv'. callTool m params srv = Some (answer, srv')
    \<and> files_inv store_inv (backend m) (w_files (mcp_world srv')) \<and> concise \<lparr>mcp_ID = i, mcp_Answer = answer\<rparr>"
proof -
  have keep: "files_inv store_inv (backend m) (w_files (mcp_world srv))"
    using assms(2) roomy_store_inv by (rule files_inv_mono)
  have run: "\<exists>r w'. dispatch (backend m) meth p (mcp_world srv) = Some (r, w') \<and> files_inv store_inv (backend m) (w_files w')"
    for meth p
    using dispatch_good [OF assms(1), of meth p] assms(2) unfolding runs_def by blast
  show ?thesis
  proof (cases "decode_mcpCallParams params")
    case (Inr p)
    show ?thesis
    proof (cases "map_of mcpToolMethods (call_Name p)")
      case (Some meth)
      let ?arguments = "case call_Arguments p of None \<Rightarrow> JObject [] | Some JNull \<Rightarrow> JObject [] | Some j \<Rightarrow> j"
      obtain r w' where "dispatch (backend m) meth (Some ?arguments) (mcp_world srv) = Some (r, w')"
        "files_inv store_inv (backend m) (w_files w')" using run by blast
      with keep show ?thesis by (simp add: callTool_def Inr Some Let_def concise_def call_answer_concise)
    qed (use keep in \<open>simp add: callTool_def Inr concise_def\<close>)
  qed (use keep in \<open>simp add: callTool_def concise_def\<close>)
qed

lemma mcp_dispatch_answers:
  assumes "env_ok (backend m)" "files_inv roomy (backend m) (w_files (mcp_world srv))"
  shows "\<exists>answer srv'. mcp_dispatch m meth params srv = Some (answer, srv')
    \<and> files_inv store_inv (backend m) (w_files (mcp_world srv')) \<and> concise \<lparr>mcp_ID = i, mcp_Answer = answer\<rparr>"
proof -
  have keep: "files_inv store_inv (backend m) (w_files (mcp_world srv))"
    using assms(2) roomy_store_inv by (rule files_inv_mono)
  have "\<exists>answer srv'. initialize m params srv = (answer, srv') \<and> mcp_world srv' = mcp_world srv
      \<and> concise \<lparr>mcp_ID = i, mcp_Answer = answer\<rparr>"
    by (auto simp: initialize_def concise_def split: sum.split)
  then obtain answer srv' where ini: "initialize m params srv = (answer, srv')" "mcp_world srv' = mcp_world srv"
    "concise \<lparr>mcp_ID = i, mcp_Answer = answer\<rparr>" by blast
  have "mcp_dispatch m meth params srv = Some (initialize m params srv)
      \<or> mcp_dispatch m meth params srv = callTool m params srv
      \<or> (\<exists>answer srv'. mcp_dispatch m meth params srv = Some (answer, srv') \<and> mcp_world srv' = mcp_world srv
           \<and> concise \<lparr>mcp_ID = i, mcp_Answer = answer\<rparr>)"
    by (simp add: mcp_dispatch_def concise_def)
  then show ?thesis
  proof (elim disjE)
    assume "mcp_dispatch m meth params srv = Some (initialize m params srv)"
    with ini keep show ?thesis by simp
  next
    assume "mcp_dispatch m meth params srv = callTool m params srv"
    with callTool_answers [OF assms, of params i] show ?thesis by simp
  next
    assume "\<exists>answer srv'. mcp_dispatch m meth params srv = Some (answer, srv') \<and> mcp_world srv' = mcp_world srv
           \<and> concise \<lparr>mcp_ID = i, mcp_Answer = answer\<rparr>"
    with keep show ?thesis by auto
  qed
qed

lemma mcp_line_answers:
  assumes "env_ok (backend m)" "files_inv roomy (backend m) (w_files (mcp_world srv))"
  shows "\<exists>out srv'. mcp_line m line srv = Some (out, srv') \<and> map mcp_ID out = expected_responses line
    \<and> files_inv store_inv (backend m) (w_files (mcp_world srv')) \<and> list_all concise out"
proof -
  have keep: "files_inv store_inv (backend m) (w_files (mcp_world srv))"
    using assms(2) roomy_store_inv by (rule files_inv_mono)
  show ?thesis
  proof (cases line)
    case (JSONLine j)
    show ?thesis
    proof (cases "decode_request j")
      case (Some req)
      from mcp_dispatch_answers [OF assms, of "Method req" "Params req" "req_ID req"] keep show ?thesis
        by (auto simp: mcp_line_def JSONLine Some mcp_error_def concise_def)
    qed (use keep in \<open>simp add: mcp_line_def JSONLine mcp_error_def concise_def\<close>)
  qed (use keep in \<open>simp_all add: mcp_line_def mcp_error_def concise_def\<close>)
qed

fun mcp_worlds :: "'b mcp_env \<Rightarrow> input_line list \<Rightarrow> 'b mcpServer \<Rightarrow> 'b world list" where
  "mcp_worlds m [] srv = []"
| "mcp_worlds m (line # rest) srv =
     mcp_world srv # (case mcp_line m line srv of None \<Rightarrow> [] | Some (_, srv) \<Rightarrow> mcp_worlds m rest srv)"

lemma session_answers:
  assumes "env_ok (backend m)" "files_inv store_inv (backend m) (w_files (mcp_world srv))"
    "\<forall>v \<in> set (mcp_worlds m lines srv). has_room (backend m) (w_files v)"
  shows "\<exists>out srv'. mcp_readRequests m lines srv = Some (out, srv')
    \<and> map mcp_ID out = concat (map expected_responses lines) \<and> list_all concise out
    \<and> files_inv store_inv (backend m) (w_files (mcp_world srv'))"
  using assms(2,3)
proof (induction lines arbitrary: srv)
  case (Cons line rest)
  from Cons.prems have "files_inv roomy (backend m) (w_files (mcp_world srv))" by (simp add: has_room_roomy)
  from mcp_line_answers [OF assms(1) this, of line] obtain out srv1 where
    1: "mcp_line m line srv = Some (out, srv1)" "map mcp_ID out = expected_responses line" "list_all concise out"
      "files_inv store_inv (backend m) (w_files (mcp_world srv1))" by blast
  moreover have "\<forall>v \<in> set (mcp_worlds m rest srv1). has_room (backend m) (w_files v)" using Cons.prems(2) 1(1) by simp
  ultimately show ?case using Cons.IH [of srv1] by auto
qed simp

section \<open>Advertised arguments\<close>

text \<open>
  Arguments that meet the schema of a tool: every key is a property and every value has the type and
  the bounds of that property. Numbers have to be in the range of the Go type they are decoded to:
  \<^verbatim>\<open>uint64\<close> and \<^verbatim>\<open>float32\<close>.
\<close>

definition in_range :: "nat option \<Rightarrow> nat option \<Rightarrow> nat \<Rightarrow> bool" where
  "in_range lo hi n \<longleftrightarrow> (case lo of Some l \<Rightarrow> l \<le> n | None \<Rightarrow> True) \<and> (case hi of Some h \<Rightarrow> n \<le> h | None \<Rightarrow> True)"

definition integer_within :: "nat option \<Rightarrow> nat option \<Rightarrow> json \<Rightarrow> bool" where
  "integer_within lo hi v \<longleftrightarrow>
     (case v of JNumber n \<Rightarrow> (case ParseUint n of Some w \<Rightarrow> in_range lo hi (unat w) | None \<Rightarrow> False) | _ \<Rightarrow> False)"

definition string_within :: "nat option \<Rightarrow> json \<Rightarrow> bool" where
  "string_within hi v \<longleftrightarrow> (case v of JString s \<Rightarrow> in_range None hi (length s) | _ \<Rightarrow> False)"

lemma size_property: "map_of fs k = Some sch \<Longrightarrow> size sch < size (SObjects lo hi fs req d)"
  by (induction fs) (auto split: if_splits)

function well_typed :: "(string \<Rightarrow> float32 option) \<Rightarrow> argument_schema \<Rightarrow> json \<Rightarrow> bool" where
  "well_typed parse (SString hi _) v = string_within hi v"
| "well_typed parse (SInteger lo hi _) v = integer_within lo hi v"
| "well_typed parse (SNumber _) v = (case v of JNumber n \<Rightarrow> parse n \<noteq> None | _ \<Rightarrow> False)"
| "well_typed parse (SBoolean _) v = (case v of JBool _ \<Rightarrow> True | _ \<Rightarrow> False)"
| "well_typed parse (SStrings items hi _) v =
     (case v of JArray js \<Rightarrow> in_range None items (length js) \<and> list_all (string_within hi) js | _ \<Rightarrow> False)"
| "well_typed parse (SIntegers lo) v =
     (case v of JArray js \<Rightarrow> in_range lo None (length js) \<and> list_all (integer_within (Some 1) None) js | _ \<Rightarrow> False)"
| "well_typed parse (SStringMap lo hi len _) v =
     (case v of
        JObject kvs \<Rightarrow> in_range lo hi (length kvs) \<and> list_all (\<lambda>(_, x). string_within len x) kvs
      | _ \<Rightarrow> False)"
| "well_typed parse (SObjects lo hi fs required _) v =
     (case v of
        JArray js \<Rightarrow>
          in_range (Some lo) (Some hi) (length js)
          \<and> list_all (\<lambda>j. case j of
                JObject kvs \<Rightarrow>
                  set required \<subseteq> set (map fst kvs)
                  \<and> list_all (\<lambda>(k, x). case map_of fs k of Some sch \<Rightarrow> well_typed parse sch x | None \<Rightarrow> False) kvs
              | _ \<Rightarrow> False) js
      | _ \<Rightarrow> False)"
  by pat_completeness auto
termination
  by (relation "measure (\<lambda>(_, sch, _). size sch)") (auto simp del: argument_schema.size simp: size_property)

definition meets_schema :: "(string \<Rightarrow> float32 option) \<Rightarrow> object_schema \<Rightarrow> (string \<times> json) list \<Rightarrow> bool" where
  "meets_schema parse schema kvs \<longleftrightarrow>
     set (sch_required schema) \<subseteq> set (map fst kvs)
     \<and> list_all (\<lambda>(k, v). case map_of (sch_properties schema) k of Some sch \<Rightarrow> well_typed parse sch v | None \<Rightarrow> False) kvs"

text \<open>Does the method decode these parameters?\<close>

definition accepted :: "rpcError + 'p \<Rightarrow> bool" where
  "accepted r = (case r of Inl _ \<Rightarrow> False | Inr _ \<Rightarrow> True)"

definition method_accepts :: "(string \<Rightarrow> float32 option) \<Rightarrow> (string \<times> (json option \<Rightarrow> bool)) list" where
  "method_accepts parse =
     [(''todo.ping'', \<lambda>j. accepted (decode_empty j)), (''todo.init'', \<lambda>j. accepted (decode_empty j)),
      (''todo.bootstrap'', \<lambda>j. accepted (decode_bootstrapParams j)), (''todo.status'', \<lambda>j. accepted (decode_statusParams j)),
      (''todo.cat'', \<lambda>j. accepted (decode_catParams j)), (''todo.add'', \<lambda>j. accepted (decode_addParams parse j)),
      (''todo.acquire'', \<lambda>j. accepted (decode_acquireParams j)), (''todo.heartbeat'', \<lambda>j. accepted (decode_heartbeatParams j)),
      (''todo.handoff'', \<lambda>j. accepted (decode_handoffParams j)), (''todo.update'', \<lambda>j. accepted (decode_updateParams parse j)),
      (''todo.log'', \<lambda>j. accepted (decode_logParams j)), (''todo.decompose'', \<lambda>j. accepted (decode_decomposeParams j)),
      (''todo.block'', \<lambda>j. accepted (decode_blockParams j)), (''todo.release'', \<lambda>j. accepted (decode_releaseParams j)),
      (''todo.done'', \<lambda>j. accepted (decode_doneParams j)), (''todo.events'', \<lambda>j. accepted (decode_eventsParams j))]"

lemma decode_object_total:
  assumes "list_all (\<lambda>(k, v). case find_field fs k of Some set' \<Rightarrow> \<forall>r. set' v r \<noteq> None | None \<Rightarrow> False) kvs"
  shows "\<exists>r'. decode_object fs kvs r = Some r'"
  using assms
proof (induction kvs arbitrary: r)
  case (Cons kv rest)
  obtain k v where kv: "kv = (k, v)" by force
  from Cons.prems obtain set' where set': "find_field fs k = Some set'" "set' v r \<noteq> None"
    by (auto simp: kv split: option.splits)
  then obtain r' where "set' v r = Some r'" by blast
  moreover have "\<exists>r''. decode_object fs rest r' = Some r''" using Cons by (simp add: kv)
  ultimately show ?case by (simp add: kv set'(1))
qed simp

text \<open>Field by field: a decoder accepts a schema.\<close>

definition fields_accept :: "(string \<Rightarrow> float32 option) \<Rightarrow> 'r fields \<Rightarrow> (string \<times> argument_schema) list \<Rightarrow> bool" where
  "fields_accept parse fs properties \<longleftrightarrow>
     (\<forall>(k, sch) \<in> set properties. \<exists>set'. map_of fs k = Some set' \<and> (\<forall>v r. well_typed parse sch v \<longrightarrow> set' v r \<noteq> None))"

lemma fields_accept_decode:
  assumes "fields_accept parse fs properties"
    "list_all (\<lambda>(k, v). case map_of properties k of Some sch \<Rightarrow> well_typed parse sch v | None \<Rightarrow> False) kvs"
  shows "list_all (\<lambda>(k, v). case find_field fs k of Some set' \<Rightarrow> \<forall>r. set' v r \<noteq> None | None \<Rightarrow> False) kvs"
proof -
  have "case find_field fs k of Some set' \<Rightarrow> \<forall>r. set' v r \<noteq> None | None \<Rightarrow> False" if "(k, v) \<in> set kvs" for k v
  proof -
    from that assms(2) obtain sch where "map_of properties k = Some sch" "well_typed parse sch v"
      by (auto simp: list_all_iff split: option.splits)
    with assms(1) obtain set' where "map_of fs k = Some set'" "\<forall>r. set' v r \<noteq> None"
      unfolding fields_accept_def by (fastforce dest: map_of_SomeD)
    then show ?thesis by (simp add: find_field_def)
  qed
  then show ?thesis by (auto simp: list_all_iff)
qed

lemma decoder_accepts:
  assumes "fields_accept parse fs properties"
    "meets_schema parse \<lparr>sch_properties = properties, sch_required = required\<rparr> kvs"
  shows "accepted (unmarshalParams fs zero (Some (JObject kvs)))"
proof -
  have "\<exists>r'. decode_object fs kvs zero = Some r'"
    using assms(2) unfolding meets_schema_def object_schema.simps
    by (elim conjE) (rule decode_object_total, rule fields_accept_decode [OF assms(1)])
  then show ?thesis by (auto simp: accepted_def unmarshalParams_def)
qed

lemma minus_not_digit: "\<not> is_digit CHR ''-''"
  by (auto simp: is_digit_def)

lemma no_minus: "c \<noteq> CHR ''-'' \<Longrightarrow> (case c # cs of CHR ''-'' # ds \<Rightarrow> f ds | _ \<Rightarrow> g) = g"
  by (cases c) (auto split: bool.splits)

lemma ParseInt_of_ParseUint:
  assumes "ParseUint n = Some w" "unat w < 2 ^ 63"
  shows "ParseInt n = Some (uint w)"
proof -
  obtain c cs where n: "n = c # cs" using assms(1) by (cases n) (auto simp: ParseUint_def)
  have "c \<noteq> CHR ''-''" using ParseUint_all_digits [OF assms(1), of c] minus_not_digit by (auto simp: n)
  then have "ParseInt n = (case ParseUint n of Some w \<Rightarrow> if uint w < 2 ^ 63 then Some (uint w) else None | None \<Rightarrow> None)"
    unfolding ParseInt_def n by (rule no_minus)
  moreover have "uint w < 2 ^ 63"
  proof -
    have "int (unat w) < int (2 ^ 63)" using assms(2) by (simp only: of_nat_less_iff)
    then show ?thesis by simp
  qed
  ultimately show ?thesis by (simp add: assms(1))
qed

text \<open>Each setter takes what its schema admits.\<close>

lemma take_string: "string_within hi v \<Longrightarrow> set_string upd v r \<noteq> None"
  by (cases v) (auto simp: string_within_def)

lemma take_uint64: "integer_within lo hi v \<Longrightarrow> set_uint64 upd v r \<noteq> None"
  by (cases v) (auto simp: integer_within_def split: option.splits)

lemma take_int: "integer_within lo (Some h) v \<Longrightarrow> h < 2 ^ 63 \<Longrightarrow> set_int upd v r \<noteq> None"
  by (cases v) (auto simp: integer_within_def in_range_def ParseInt_of_ParseUint split: option.splits)

lemma take_strings: "list_all (string_within hi) js \<Longrightarrow> json_strings js \<noteq> None"
proof (induction js)
  case (Cons j js)
  then show ?case by (cases j) (auto simp: string_within_def)
qed simp

lemma take_uint64s: "list_all (integer_within lo hi) js \<Longrightarrow> json_uint64s js \<noteq> None"
proof (induction js)
  case (Cons j js)
  then show ?case by (cases j) (auto simp: integer_within_def split: option.splits)
qed simp

lemma take_map: "list_all (\<lambda>(_, x). string_within len x) kvs \<Longrightarrow> json_map kvs m \<noteq> None"
proof (induction kvs arbitrary: m)
  case (Cons kv kvs)
  obtain k v where "kv = (k, v)" by force
  with Cons show ?case by (cases v) (auto simp: string_within_def)
qed simp

lemma take_field:
  "well_typed parse (SString hi d) v \<Longrightarrow> set_string upd v r \<noteq> None"
  "well_typed parse (SString hi d) v \<Longrightarrow> set_pointer set_string [] upd' v r \<noteq> None"
  "well_typed parse (SInteger lo hi d) v \<Longrightarrow> set_uint64 upd1 v r \<noteq> None"
  "well_typed parse (SInteger lo (Some h) d) v \<Longrightarrow> h < 2 ^ 63 \<Longrightarrow> set_int upd2 v r \<noteq> None"
  "well_typed parse (SInteger lo (Some h) d) v \<Longrightarrow> h < 2 ^ 63 \<Longrightarrow> set_pointer set_int 0 upd3 v r \<noteq> None"
  "well_typed parse (SNumber d) v \<Longrightarrow> set_pointer (set_float32 parse) z upd4 v r \<noteq> None"
  "well_typed parse (SBoolean d) v \<Longrightarrow> set_bool upd5 v r \<noteq> None"
  "well_typed parse (SStrings items hi d) v \<Longrightarrow> set_strings upd6 v r \<noteq> None"
  "well_typed parse (SIntegers lo) v \<Longrightarrow> set_uint64s upd7 v r \<noteq> None"
  "well_typed parse (SStringMap lo hi len d) v \<Longrightarrow> set_string_map upd8 v r \<noteq> None"
  using take_string take_uint64 take_int
  by (auto simp: set_pointer_def split: json.splits dest: take_strings take_uint64s take_map)

lemma take_subtasks:
  assumes "well_typed parse (SObjects lo hi
      [(''title'', SString t d1), (''capabilities'', SStrings items c d2)] required d) v"
  shows "set_subtasks upd v r \<noteq> None"
proof -
  let ?fs = "[(''title'', SString t d1), (''capabilities'', SStrings items c d2)]"
  let ?typed = "list_all (\<lambda>(k, x). case map_of ?fs k of Some sch \<Rightarrow> well_typed parse sch x | None \<Rightarrow> False)"
  have "fields_accept parse subtask_fields ?fs"
    unfolding fields_accept_def subtask_fields_def
    by (simp del: well_typed.simps not_None_eq) (intro conjI allI impI; erule take_field)
  then have sub: "?typed kvs \<Longrightarrow> \<exists>p. decode_object subtask_fields kvs zero = Some p" for kvs zero
    by (intro decode_object_total fields_accept_decode)
  obtain js where v: "v = JArray js" using assms by (cases v) auto
  let ?typed_json = "\<lambda>j. case j of JObject kvs \<Rightarrow> set required \<subseteq> set (map fst kvs) \<and> ?typed kvs | _ \<Rightarrow> False"
  have object: "?typed_json j \<Longrightarrow> \<exists>kvs. j = JObject kvs \<and> ?typed kvs" for j
    by (cases j) simp_all
  have "list_all ?typed_json js" using assms unfolding v well_typed.simps json.case by (rule conjunct2)
  then have "list_all (\<lambda>j. \<exists>kvs. j = JObject kvs \<and> ?typed kvs) js"
    by (rule list.pred_mono_strong) (rule object)
  then have "json_subtasks js \<noteq> None"
  proof (induction js)
    case (Cons j js)
    then obtain kvs where "j = JObject kvs" "?typed kvs" by auto
    moreover have "json_subtasks js \<noteq> None" using Cons by simp
    ultimately show ?case using sub [of kvs "\<lparr>sub_Title = [], sub_Capabilities = []\<rparr>"] by auto
  qed simp
  then show ?thesis by (auto simp: v)
qed

lemma tools_accepted:
  "list_all (\<lambda>t. \<exists>meth accepts. map_of mcpToolMethods (tool_Name t) = Some meth
      \<and> map_of (method_accepts parse) meth = Some accepts
      \<and> (\<forall>kvs. meets_schema parse (InputSchema t) kvs \<longrightarrow> accepts (Some (JObject kvs)))) terminalTodoMCPTools"
  unfolding terminalTodoMCPTools_def work_tools_def record_tools_def
  apply (simp add: mcpToolMethods_def method_accepts_def del: well_typed.simps not_None_eq)
  apply (intro conjI allI impI; unfold decode_defs receiptProp_def; erule decoder_accepts [rotated];
      simp add: fields_accept_def del: well_typed.simps not_None_eq)
  apply (intro conjI allI impI; (erule take_field take_subtasks, simp?))+
  done

lemma tool_names:
  "distinct (map tool_Name terminalTodoMCPTools)" "set (map tool_Name terminalTodoMCPTools) = fst ` set mcpToolMethods"
  by (simp_all add: terminalTodoMCPTools_def work_tools_def record_tools_def mcpToolMethods_def insert_commute)

lemma tool_methods_served:
  assumes "map_of mcpToolMethods name = Some meth"
  shows "map_of (method_handlers e) meth \<noteq> None"
proof -
  have "list_all (\<lambda>(_, meth). map_of (method_handlers e) meth \<noteq> None) mcpToolMethods"
    by (simp add: mcpToolMethods_def method_handlers_def)
  with map_of_SomeD [OF assms] show ?thesis by (auto simp: list_all_iff)
qed

section \<open>Properties\<close>

definition sample_mcp :: "TaskStore mcp_env" where
  "sample_mcp =
     \<lparr>backend = sample_env, Marshal_ok = (\<lambda>_. True), error_text = (\<lambda>_. ''error''), trace_file = [], trace_actor = [],
      trace_written = (\<lambda>_. True)\<rparr>"

definition early_call :: json where
  "early_call = JObject [(''jsonrpc'', JString ''2.0''), (''id'', JNumber ''7''), (''method'', JString ''tools/call'')]"



text \<open>
  C32: the tools that are advertised can be called as advertised. Every tool of \<^verbatim>\<open>tools/list\<close> has a
  method, the tools are the keys of the method table, each once, and any arguments that meet the
  schema of a tool are decoded by the parameters of its method; none is refused as malformed.
\<close>

theorem advertised_arguments_accepted:
  assumes "tool \<in> set terminalTodoMCPTools" "meets_schema parse (InputSchema tool) kvs"
  shows "\<exists>meth accepts. map_of mcpToolMethods (tool_Name tool) = Some meth
      \<and> map_of (method_accepts parse) meth = Some accepts \<and> accepts (Some (JObject kvs))
      \<and> map_of (method_handlers e) meth \<noteq> None
      \<and> distinct (map tool_Name terminalTodoMCPTools) \<and> set (map tool_Name terminalTodoMCPTools) = fst ` set mcpToolMethods"
proof -
  obtain meth accepts where m: "map_of mcpToolMethods (tool_Name tool) = Some meth"
    "map_of (method_accepts parse) meth = Some accepts" "accepts (Some (JObject kvs))"
    using tools_accepted [of parse] assms by (auto simp: list_all_iff)
  moreover from m(1) have "map_of (method_handlers e) meth \<noteq> None" using tool_methods_served by blast
  ultimately show ?thesis using tool_names by blast
qed

lemma advertised_arguments_accepted_witness:
  "\<exists>meth accepts. map_of mcpToolMethods ''terminal_todo_cat'' = Some meth
      \<and> map_of (method_accepts (ParseFloat32 sample_env)) meth = Some accepts \<and> accepts (Some (JObject [(''id'', JNumber ''12'')]))"
proof -
  let ?tool = "terminalTodoMCPTools ! 4"
  have "?tool \<in> set terminalTodoMCPTools" "tool_Name ?tool = ''terminal_todo_cat''"
    by (simp_all add: terminalTodoMCPTools_def work_tools_def)
  moreover have "integer_within (Some 1) None (JNumber ''12'')"
    by (simp add: integer_within_def in_range_def ParseUint_def is_digit_def of_char_def)
  then have "meets_schema (ParseFloat32 sample_env) (InputSchema ?tool) [(''id'', JNumber ''12'')]"
    by (simp add: meets_schema_def terminalTodoMCPTools_def work_tools_def)
  ultimately show ?thesis using advertised_arguments_accepted [of ?tool "ParseFloat32 sample_env" "[(''id'', JNumber ''12'')]" sample_env] by auto
qed

end
