(* ===== verification/Integrate.thy ===== *)
theory Integrate
  imports Mcp CliText "HOL-Library.Countable"
begin

text \<open>
  \<^verbatim>\<open>todo integrate\<close> (\<^verbatim>\<open>cmd_integrate.go\<close>): the configuration of Codex and Claude Code is merged with the
  entry of the MCP server, the bundled skill is installed beside it, and \<^verbatim>\<open>--check --live\<close> runs the
  handshake with a server. Files are their contents by path; no other process is at work here. The
  parameters are the two embedded assets, \<^verbatim>\<open>encoding/json\<close> on values without a type, \<^verbatim>\<open>unicode.IsPrint\<close>
  of a character of more than one byte, \<^verbatim>\<open>strings.ToLower\<close>, \<^verbatim>\<open>filepath.Abs\<close>, \<^verbatim>\<open>filepath.Rel\<close> and what the
  operating system answers.
\<close>

section \<open>\<^verbatim>\<open>strconv.Quote\<close>\<close>

definition hex_digit :: "nat \<Rightarrow> char" where
  "hex_digit d = ''0123456789abcdef'' ! d"

definition hex_digits :: "nat \<Rightarrow> nat \<Rightarrow> string" where
  "hex_digits width n = map (\<lambda>i. hex_digit (n div 16 ^ i mod 16)) (rev [0..<width])"

text \<open>The code point of the character at the start of a string.\<close>

definition rune_value :: "string \<Rightarrow> nat" where
  "rune_value s =
     (case map byte (take (rune_len s) s) of
        [a] \<Rightarrow> a
      | [a, b] \<Rightarrow> (a mod 32) * 64 + b mod 64
      | [a, b, c] \<Rightarrow> (a mod 16) * 4096 + (b mod 64) * 64 + c mod 64
      | [a, b, c, d] \<Rightarrow> (a mod 8) * 262144 + (b mod 64) * 4096 + (c mod 64) * 64 + d mod 64
      | _ \<Rightarrow> 0)"

definition control_escapes :: "(nat \<times> char) list" where
  "control_escapes =
     [(7, CHR ''a''), (8, CHR ''b''), (12, CHR ''f''), (10, CHR ''n''), (13, CHR ''r''), (9, CHR ''t''), (11, CHR ''v'')]"

definition appendEscapedRune :: "(string \<Rightarrow> bool) \<Rightarrow> string \<Rightarrow> string" where
  "appendEscapedRune is_print s =
     (let r = rune_value s
      in if hd s = CHR 0x22 \<or> hd s = CHR 0x5C then [CHR 0x5C, hd s]
         else if (if r < 0x80 then 0x20 \<le> r \<and> r < 0x7F else is_print (take (rune_len s) s)) then take (rune_len s) s
         else (case map_of control_escapes r of
                 Some c \<Rightarrow> [CHR 0x5C, c]
               | None \<Rightarrow>
                   if r < 0x20 \<or> r = 0x7F then [CHR 0x5C, CHR ''x''] @ hex_digits 2 r
                   else if r < 0x10000 then [CHR 0x5C, CHR ''u''] @ hex_digits 4 r
                   else [CHR 0x5C, CHR ''U''] @ hex_digits 8 r))"

function quote_body :: "(string \<Rightarrow> bool) \<Rightarrow> string \<Rightarrow> string" where
  "quote_body is_print s =
     (if s = [] then []
      else if rune_len s = 0 then [CHR 0x5C, CHR ''x''] @ hex_digits 2 (byte (hd s)) @ quote_body is_print (tl s)
      else appendEscapedRune is_print s @ quote_body is_print (drop (rune_len s) s))"
  by pat_completeness auto
termination by (relation "measure (length \<circ> snd)") auto

declare quote_body.simps [simp del]

definition Quote :: "(string \<Rightarrow> bool) \<Rightarrow> string \<Rightarrow> string" where
  "Quote is_print s = [CHR 0x22] @ quote_body is_print s @ [CHR 0x22]"

text \<open>What is quoted is on one line.\<close>

lemma hex_digits_no_newline: "CHR 0x0A \<notin> set (hex_digits width n)"
proof -
  have "hex_digit d \<noteq> CHR 0x0A" if "d < 16" for d
    using that by (auto simp: hex_digit_def less_Suc_eq numeral_eq_Suc)
  then have "hex_digit (m mod 16) \<noteq> CHR 0x0A" for m by simp
  then show ?thesis by (auto simp: hex_digits_def dest!: sym [of "CHR 0x0A"])
qed

lemma printed_no_newline:
  assumes "rune_len s \<noteq> 0" "rune_value s \<noteq> 10"
  shows "CHR 0x0A \<notin> set (take (rune_len s) s)"
proof (cases "rune_len s = 1")
  case True
  then obtain c r where "s = c # r" by (cases s) auto
  with True assms(2) show ?thesis by (auto simp: rune_value_def)
next
  case False
  with assms(1) have "1 < rune_len s" by simp
  from rune_tail_high [OF this] show ?thesis by fastforce
qed

lemma appendEscapedRune_no_newline:
  assumes "rune_len s \<noteq> 0"
  shows "CHR 0x0A \<notin> set (appendEscapedRune is_print s)"
proof (cases "rune_value s = 10")
  case True
  then show ?thesis by (auto simp: appendEscapedRune_def control_escapes_def)
next
  case False
  from printed_no_newline [OF assms this] show ?thesis
    by (auto simp: appendEscapedRune_def control_escapes_def hex_digits_no_newline Let_def split: if_splits)
qed

lemma quote_body_no_newline: "CHR 0x0A \<notin> set (quote_body is_print s)"
proof (induction is_print s rule: quote_body.induct)
  case (1 is_print s)
  then show ?case
    by (subst quote_body.simps) (simp add: hex_digits_no_newline appendEscapedRune_no_newline)
qed

lemma Quote_no_newline: "CHR 0x0A \<notin> set (Quote is_print s)"
  using quote_body_no_newline by (simp add: Quote_def)

section \<open>The configuration of Codex\<close>

definition trim_newlines :: "string \<Rightarrow> string" where
  "trim_newlines s = rev (dropWhile (\<lambda>c. c = CHR 0x0A) (rev s))"

definition TrimSuffix_newline :: "string \<Rightarrow> string" where
  "TrimSuffix_newline s = (if s \<noteq> [] \<and> last s = CHR 0x0A then butlast s else s)"

definition codex_header :: string where
  "codex_header = ''[mcp_servers.terminal-todo]''"

definition codex_block :: "(string \<Rightarrow> bool) \<Rightarrow> string \<Rightarrow> string" where
  "codex_block is_print command =
     codex_header @ newline @ ''command = '' @ Quote is_print command @ newline
     @ ''args = ['' @ [CHR 0x22] @ ''mcp'' @ [CHR 0x22] @ '', '' @ [CHR 0x22] @ ''--stdio'' @ [CHR 0x22] @ '']''"

definition is_codex_header :: "string \<Rightarrow> bool" where
  "is_codex_header l \<longleftrightarrow>
     TrimSpace l = codex_header \<or> TrimSpace l = ''[mcp_servers.'' @ [CHR 0x22] @ ''terminal-todo'' @ [CHR 0x22] @ '']''"

definition opens_table :: "string \<Rightarrow> bool" where
  "opens_table l \<longleftrightarrow> HasPrefix (TrimSpace l) ''[''"

text \<open>
  What is before the section, the section and what is after it. The section is the first line that names
  the server and what follows up to the next line that opens a table.
\<close>

definition codex_parts :: "string \<Rightarrow> string list \<times> string list \<times> string list" where
  "codex_parts existing =
     (let ls = Split CHR 0x0A (TrimSuffix_newline existing)
      in case dropWhile (\<lambda>l. \<not> is_codex_header l) ls of
           [] \<Rightarrow> (ls, [], [])
         | header # rest \<Rightarrow>
             (takeWhile (\<lambda>l. \<not> is_codex_header l) ls, header # takeWhile (\<lambda>l. \<not> opens_table l) rest,
              dropWhile (\<lambda>l. \<not> opens_table l) rest))"

definition mergeCodexMCPConfig :: "(string \<Rightarrow> bool) \<Rightarrow> string \<Rightarrow> string \<Rightarrow> bool \<Rightarrow> goerr + string" where
  "mergeCodexMCPConfig is_print existing command force =
     (let block = codex_block is_print command;
          (before, current, after) = codex_parts existing
      in if existing = [] then Inr (block @ newline)
         else if current = [] then Inr (trim_newlines existing @ newline @ newline @ block @ newline)
         else if TrimSpace (Join newline current) = block then Inr existing
         else if \<not> force
         then Inl (msg ''.codex/config.toml already defines mcp_servers.terminal-todo differently; rerun with --force to replace that section'')
         else Inr (trim_newlines (Join newline (before @ Split CHR 0x0A block @ after)) @ newline))"

section \<open>Lines\<close>

abbreviation lines_of :: "string \<Rightarrow> string list" where
  "lines_of \<equiv> Split CHR 0x0A"

lemma Split_append: "Split sep (a @ sep # b) = Split sep a @ Split sep b"
proof (induction a)
  case (Cons c cs)
  then show ?case by (cases "Split sep cs") auto
qed simp

lemma Split_Join:
  assumes "ls \<noteq> []" "\<forall>l \<in> set ls. sep \<notin> set l"
  shows "Split sep (Join [sep] ls) = ls"
  using assms
proof (induction ls rule: list_nonempty_induct)
  case (cons l ls)
  then obtain v vs where "ls = v # vs" by (cases ls) auto
  with cons show ?case by (simp add: Split_append_sep)
qed (simp add: Split_no_sep)

lemma lines_newline: "lines_of (a @ newline @ b) = lines_of a @ lines_of b"
  by (simp add: newline_def Split_append)

lemma no_sep_in_part: "l \<in> set (Split sep s) \<Longrightarrow> sep \<notin> set l"
  by (induction s arbitrary: l) (auto split: list.splits if_splits)

lemma lines_Join: "ls \<noteq> [] \<Longrightarrow> \<forall>l \<in> set ls. CHR 0x0A \<notin> set l \<Longrightarrow> lines_of (Join newline ls) = ls"
  by (simp add: newline_def Split_Join)

lemma Join_lines: "Join newline (lines_of s) = s"
  unfolding newline_def by (rule Join_Split)

lemma trim_newlines_shape:
  obtains k where "s = trim_newlines s @ replicate k (CHR 0x0A)" "trim_newlines s = [] \<or> last (trim_newlines s) \<noteq> CHR 0x0A"
proof
  let ?P = "\<lambda>c. c = CHR 0x0A"
  have "takeWhile ?P (rev s) = replicate (length (takeWhile ?P (rev s))) (CHR 0x0A)"
    by (intro replicate_eqI) (auto dest: set_takeWhileD)
  then have "rev s = replicate (length (takeWhile ?P (rev s))) (CHR 0x0A) @ rev (trim_newlines s)"
    unfolding trim_newlines_def rev_rev_ident by (metis takeWhile_dropWhile_id)
  then have "rev (rev s) = rev (replicate (length (takeWhile ?P (rev s))) (CHR 0x0A) @ rev (trim_newlines s))" by simp
  then show "s = trim_newlines s @ replicate (length (takeWhile ?P (rev s))) (CHR 0x0A)" by (simp only: rev_rev_ident rev_append rev_replicate)
  show "trim_newlines s = [] \<or> last (trim_newlines s) \<noteq> CHR 0x0A"
    using hd_dropWhile [of ?P "rev s"] by (auto simp: trim_newlines_def last_rev)
qed

lemma trim_newlines_append:
  assumes "s \<noteq> []" "last s \<noteq> CHR 0x0A"
  shows "trim_newlines (s @ replicate k (CHR 0x0A)) = s"
proof -
  have "dropWhile (\<lambda>c. c = CHR 0x0A) (replicate k (CHR 0x0A) @ rev s) = rev s"
    using assms by (induction k) (cases s rule: rev_cases; simp)+
  then show ?thesis by (simp add: trim_newlines_def)
qed

lemma lines_replicate: "lines_of (s @ replicate k (CHR 0x0A)) = lines_of s @ replicate k []"
proof (induction k)
  case (Suc k)
  have "s @ replicate (Suc k) (CHR 0x0A) = (s @ replicate k (CHR 0x0A)) @ CHR 0x0A # []"
    by (simp add: replicate_append_same)
  with Suc show ?case by (simp only: Split_append) (simp add: replicate_append_same)
qed simp

text \<open>Text between two printable ASCII characters has no space around it.\<close>

definition plain_ascii :: "char \<Rightarrow> bool" where
  "plain_ascii c \<longleftrightarrow> 32 < byte c \<and> byte c < (0x80 :: nat)"

lemma space_bytes_high: "bs \<in> set space_bytes \<Longrightarrow> 0x80 \<le> hd bs \<and> 0x80 \<le> last bs"
  by (auto simp: space_bytes_def)

lemma space_len_plain: "plain_ascii c \<Longrightarrow> space_len (c # r) = 0"
  using space_bytes_high [of "map byte (take 2 (c # r))"] space_bytes_high [of "map byte (take 3 (c # r))"]
  by (auto simp: space_len_def plain_ascii_def ascii_space_def)

lemma space_len_end_plain:
  assumes "s \<noteq> []" "plain_ascii (last s)"
  shows "space_len_end s = 0"
proof -
  have "map byte (drop (length s - n) s) \<notin> set space_bytes" if "0 < n" for n
  proof
    assume h: "map byte (drop (length s - n) s) \<in> set space_bytes"
    have "last (map byte (drop (length s - n) s)) = byte (last s)"
      using assms(1) that diff_less [of n "length s"] by (subst last_map) (auto simp: last_drop simp del: diff_less)
    with space_bytes_high [OF h] assms(2) show False by (simp add: plain_ascii_def)
  qed
  with assms show ?thesis by (auto simp: space_len_end_def plain_ascii_def ascii_space_def)
qed

lemma TrimSpace_plain: "plain_ascii c \<Longrightarrow> plain_ascii (last (c # r)) \<Longrightarrow> TrimSpace (c # r) = c # r"
  by (simp add: TrimSpace_def TrimLeft.simps space_len_plain TrimRight.simps space_len_end_plain)

lemma TrimRight_take: "\<exists>k. TrimRight s = take k s"
proof (induction s rule: TrimRight.induct)
  case (1 s)
  show ?case
  proof (cases "space_len_end s = 0")
    case True
    then show ?thesis by (intro exI [of _ "length s"]) (simp add: TrimRight.simps)
  next
    case False
    from 1 [OF this] obtain k where "TrimRight (take (length s - space_len_end s) s) = take k (take (length s - space_len_end s) s)"
      by blast
    with False show ?thesis by (subst TrimRight.simps) (auto simp: take_take)
  qed
qed

lemma opens_table_plain:
  assumes "plain_ascii c" "c \<noteq> CHR ''[''"
  shows "\<not> opens_table (c # r)"
proof
  assume "opens_table (c # r)"
  moreover obtain k where "TrimSpace (c # r) = take k (c # r)"
    using TrimRight_take [of "c # r"] assms(1) by (auto simp: TrimSpace_def TrimLeft.simps space_len_plain)
  ultimately show False using assms(2) by (cases k) (auto simp: opens_table_def HasPrefix_def)
qed

definition command_line :: "(string \<Rightarrow> bool) \<Rightarrow> string \<Rightarrow> string" where
  "command_line is_print command = ''command = '' @ Quote is_print command"

definition args_line :: string where
  "args_line = ''args = ['' @ [CHR 0x22] @ ''mcp'' @ [CHR 0x22] @ '', '' @ [CHR 0x22] @ ''--stdio'' @ [CHR 0x22] @ '']''"

lemma plain_simps [simp]: "plain_ascii CHR ''[''" "plain_ascii CHR '']''" "plain_ascii CHR ''c''" "plain_ascii CHR ''a''"
  by (simp_all add: plain_ascii_def)

lemma codex_block_lines: "lines_of (codex_block is_print command) = [codex_header, command_line is_print command, args_line]"
proof -
  have block: "codex_block is_print command = Join newline [codex_header, command_line is_print command, args_line]"
    by (simp add: codex_block_def command_line_def args_line_def)
  show ?thesis
    unfolding block
    by (rule lines_Join) (simp_all add: codex_header_def args_line_def command_line_def Quote_no_newline)
qed

lemma codex_block_trimmed: "TrimSpace (codex_block is_print command) = codex_block is_print command"
proof -
  obtain r where "codex_block is_print command = CHR ''['' # r @ [CHR '']'']"
    by (simp add: codex_block_def codex_header_def)
  then show ?thesis by (simp add: TrimSpace_plain)
qed

lemma codex_block_body:
  "is_codex_header codex_header" "\<not> opens_table (command_line is_print command)" "\<not> opens_table args_line"
proof -
  have "TrimSpace codex_header = codex_header"
    by (simp add: codex_header_def TrimSpace_plain)
  then show "is_codex_header codex_header" by (simp add: is_codex_header_def)
qed (simp_all add: command_line_def args_line_def opens_table_plain)

section \<open>What a merge changes\<close>

lemma codex_parts_of:
  assumes "lines_of (TrimSuffix_newline s) = before @ (h # body) @ after" "\<forall>l \<in> set before. \<not> is_codex_header l"
    "is_codex_header h" "\<forall>l \<in> set body. \<not> opens_table l" "after = [] \<or> opens_table (hd after)"
  shows "codex_parts s = (before, h # body, after)"
proof -
  have "takeWhile (\<lambda>l. \<not> opens_table l) (body @ after) = body \<and> dropWhile (\<lambda>l. \<not> opens_table l) (body @ after) = after"
    using assms(4,5) by (cases after) (auto simp: takeWhile_append dropWhile_append)
  with assms(1-3) show ?thesis
    by (simp add: codex_parts_def takeWhile_append dropWhile_append)
qed

lemma codex_parts_facts:
  assumes "codex_parts s = (before, current, after)"
  shows "lines_of (TrimSuffix_newline s) = before @ current @ after" "\<forall>l \<in> set before. \<not> is_codex_header l"
    "current = [] \<Longrightarrow> after = []" "after = [] \<or> opens_table (hd after)"
    "\<forall>l \<in> set (before @ current @ after). CHR 0x0A \<notin> set l"
proof -
  let ?ls = "lines_of (TrimSuffix_newline s)"
  have f: "?ls = before @ current @ after \<and> (\<forall>l \<in> set before. \<not> is_codex_header l)
    \<and> (current = [] \<longrightarrow> after = []) \<and> (after = [] \<or> opens_table (hd after))"
  proof (cases "dropWhile (\<lambda>l. \<not> is_codex_header l) ?ls")
    case Nil
    with assms show ?thesis by (auto simp: codex_parts_def dropWhile_eq_Nil_conv)
  next
    case (Cons h rest)
    have "?ls = takeWhile (\<lambda>l. \<not> is_codex_header l) ?ls @ h # rest" using Cons by (metis takeWhile_dropWhile_id)
    with Cons assms show ?thesis
      using hd_dropWhile [of "\<lambda>l. \<not> opens_table l" rest]
      by (auto simp: codex_parts_def dest: set_takeWhileD)
  qed
  then show "?ls = before @ current @ after" "\<forall>l \<in> set before. \<not> is_codex_header l"
    "current = [] \<Longrightarrow> after = []" "after = [] \<or> opens_table (hd after)" by auto
  with no_sep_in_part [of _ "CHR 0x0A" "TrimSuffix_newline s"] show "\<forall>l \<in> set (before @ current @ after). CHR 0x0A \<notin> set l" by metis
qed

abbreviation nonblank :: "string list \<Rightarrow> string list" where
  "nonblank \<equiv> filter (\<lambda>l. l \<noteq> [])"

lemma nonblank_replicate [simp]: "nonblank (replicate k []) = []"
  by (induction k) auto

lemma lines_trimmed:
  obtains k where "lines_of (TrimSuffix_newline s) = lines_of (trim_newlines s) @ replicate k []"
proof -
  obtain k where k: "s = trim_newlines s @ replicate k (CHR 0x0A)" "trim_newlines s = [] \<or> last (trim_newlines s) \<noteq> CHR 0x0A"
    by (rule trim_newlines_shape)
  have "TrimSuffix_newline s = trim_newlines s @ replicate (k - 1) (CHR 0x0A)"
  proof (cases k)
    case 0
    with k show ?thesis by (auto simp: TrimSuffix_newline_def)
  next
    case (Suc n)
    then have "s = (trim_newlines s @ replicate n (CHR 0x0A)) @ [CHR 0x0A]" using k(1) by (simp add: replicate_append_same)
    then show ?thesis using Suc by (metis TrimSuffix_newline_def butlast_snoc diff_Suc_1 last_snoc snoc_eq_iff_butlast)
  qed
  then show thesis using that lines_replicate by metis
qed

lemma trim_Join:
  assumes "ls \<noteq> []" "last ls \<noteq> []" "\<forall>l \<in> set ls. CHR 0x0A \<notin> set l"
  shows "trim_newlines (Join newline (ls @ replicate k [])) = Join newline ls"
proof -
  have "lines_of (Join newline ls @ replicate k (CHR 0x0A)) = lines_of (Join newline (ls @ replicate k []))"
    using assms by (simp add: lines_replicate lines_Join ball_Un)
  then have j: "Join newline (ls @ replicate k []) = Join newline ls @ replicate k (CHR 0x0A)" by (metis Join_lines)
  obtain init l where ls: "ls = init @ [l]" using assms(1) by (cases ls rule: rev_cases) auto
  have "\<exists>x. Join newline (init @ [l]) = x @ l" by (induction init rule: induct_list012) (auto intro: exI [of _ "[]"])
  then obtain x where "Join newline ls = x @ l" using ls by blast
  moreover have "l \<noteq> []" "last l \<noteq> CHR 0x0A" using assms(2,3) ls by (auto dest: last_in_set)
  ultimately show ?thesis using trim_newlines_append [of "x @ l" k] by (simp add: j)
qed

lemma TrimSuffix_snoc [simp]: "TrimSuffix_newline (s @ newline) = s"
  by (simp add: TrimSuffix_newline_def newline_def)

text \<open>The parts of a file in which the block stands between lines that do not concern it.\<close>

lemma codex_parts_block:
  assumes "lines_of s = before @ lines_of (codex_block is_print command) @ after"
    "\<forall>l \<in> set before. \<not> is_codex_header l" "after = [] \<or> opens_table (hd after)"
  shows "codex_parts (s @ newline) = (before, lines_of (codex_block is_print command), after)"
  using codex_parts_of [of "s @ newline" before codex_header "[command_line is_print command, args_line]" after] assms
  by (simp add: codex_block_lines codex_block_body)

lemma blank_not_header: "\<not> is_codex_header []"
  by (simp add: is_codex_header_def codex_header_def)

lemma codex_appended:
  assumes "codex_parts existing = (before, [], after)"
  shows "codex_parts (trim_newlines existing @ newline @ newline @ codex_block is_print command @ newline)
      = (lines_of (trim_newlines existing) @ [[]], lines_of (codex_block is_print command), [])"
    "nonblank (lines_of (trim_newlines existing) @ [[]]) = nonblank before" "after = []"
proof -
  note f = codex_parts_facts [OF assms]
  obtain k where k: "before = lines_of (trim_newlines existing) @ replicate k []"
    using lines_trimmed [of existing] f(1,3) by (metis append_Nil append_Nil2)
  have l: "lines_of (trim_newlines existing @ newline @ newline @ codex_block is_print command)
      = (lines_of (trim_newlines existing) @ [[]]) @ lines_of (codex_block is_print command) @ []"
    using lines_newline [of "[]"] by (simp add: lines_newline)
  have "\<forall>l \<in> set (lines_of (trim_newlines existing) @ [[]]). \<not> is_codex_header l"
    using f(2) k by (auto simp: blank_not_header)
  from codex_parts_block [OF l this]
  show "codex_parts (trim_newlines existing @ newline @ newline @ codex_block is_print command @ newline)
      = (lines_of (trim_newlines existing) @ [[]], lines_of (codex_block is_print command), [])" by simp
  show "nonblank (lines_of (trim_newlines existing) @ [[]]) = nonblank before" using k by simp
  show "after = []" using f(3) by simp
qed

lemma codex_replaced:
  assumes "codex_parts existing = (before, current, after)"
  obtains after' where "codex_parts (trim_newlines (Join newline (before @ lines_of (codex_block is_print command) @ after)) @ newline)
      = (before, lines_of (codex_block is_print command), after')" "nonblank after' = nonblank after"
proof -
  note f = codex_parts_facts [OF assms]
  let ?B = "lines_of (codex_block is_print command)"
  define after' where "after' = rev (dropWhile (\<lambda>l. l = []) (rev after))"
  define k where "k = length (takeWhile (\<lambda>l. l = []) (rev after))"
  have "takeWhile (\<lambda>l. l = []) (rev after) = replicate k []"
    unfolding k_def by (intro replicate_eqI) (auto dest: set_takeWhileD)
  then have "rev after = replicate k [] @ rev after'"
    unfolding after'_def rev_rev_ident by (metis takeWhile_dropWhile_id)
  then have after: "after = after' @ replicate k []" by (metis rev_append rev_replicate rev_rev_ident)
  have hd: "after' = [] \<or> opens_table (hd after')"
    using f(4) after by (cases after'; cases k) (auto simp: opens_table_def HasPrefix_def)
  have no_nl: "\<forall>l \<in> set (before @ ?B @ after'). CHR 0x0A \<notin> set l"
    using f(5) after no_sep_in_part [of _ "CHR 0x0A" "codex_block is_print command"] by auto
  have last: "last (before @ ?B @ after') \<noteq> []"
  proof (cases after' rule: rev_cases)
    case Nil
    then show ?thesis by (simp add: codex_block_lines args_line_def)
  next
    case (snoc xs l)
    then have "dropWhile (\<lambda>l. l = []) (rev after) = l # rev xs" unfolding after'_def by (metis rev_rev_ident rev_append rev.simps append_Cons append_Nil)
    with hd_dropWhile [of "\<lambda>l. l = []" "rev after"] have "l \<noteq> []" by auto
    with snoc show ?thesis by simp
  qed
  have "trim_newlines (Join newline (before @ ?B @ after)) = Join newline (before @ ?B @ after')"
    using trim_Join [OF _ last no_nl, of k] by (simp add: after codex_block_lines)
  moreover have "lines_of (Join newline (before @ ?B @ after')) = before @ ?B @ after'"
    by (rule lines_Join [OF _ no_nl]) (simp add: codex_block_lines)
  ultimately have "codex_parts (trim_newlines (Join newline (before @ ?B @ after)) @ newline) = (before, ?B, after')"
    using codex_parts_block [OF _ f(2) hd] by simp
  moreover have "nonblank after' = nonblank after" by (simp add: after)
  ultimately show thesis using that by blast
qed

theorem codex_merge_exact:
  assumes "mergeCodexMCPConfig is_print existing command force = Inr out" "codex_parts existing = (before, current, after)"
  shows "\<exists>before' current' after'. codex_parts out = (before', current', after')
    \<and> TrimSpace (Join newline current') = codex_block is_print command
    \<and> nonblank before' = nonblank before \<and> nonblank after' = nonblank after"
proof -
  let ?block = "codex_block is_print command"
  consider "existing = []" "out = ?block @ newline"
    | "current = []" "out = trim_newlines existing @ newline @ newline @ ?block @ newline"
    | "TrimSpace (Join newline current) = ?block" "out = existing"
    | "out = trim_newlines (Join newline (before @ lines_of ?block @ after)) @ newline"
    using assms by (auto simp: mergeCodexMCPConfig_def Let_def split: if_splits)
  then show ?thesis
  proof cases
    case 1
    have "before = [[]]" "after = []"
      using assms(2) 1(1) by (auto simp: codex_parts_def TrimSuffix_newline_def blank_not_header)
    moreover have "codex_parts out = ([], lines_of ?block, [])"
      using codex_parts_block [of ?block "[]" is_print command "[]"] 1(2) by simp
    ultimately show ?thesis by (simp add: Join_lines codex_block_trimmed)
  next
    case 2
    with codex_appended [of existing before after] assms(2) show ?thesis by (simp add: Join_lines codex_block_trimmed)
  next
    case 3
    with assms(2) show ?thesis by simp
  next
    case 4
    obtain after' where "codex_parts out = (before, lines_of ?block, after')" "nonblank after' = nonblank after"
      using codex_replaced [OF assms(2)] 4 by metis
    then show ?thesis by (simp add: Join_lines codex_block_trimmed)
  qed
qed

text \<open>A second merge changes nothing.\<close>

lemma codex_merge_idempotent:
  assumes "mergeCodexMCPConfig is_print existing command force = Inr out"
  shows "out \<noteq> [] \<and> mergeCodexMCPConfig is_print out command force' = Inr out"
proof -
  obtain before current after where p: "codex_parts existing = (before, current, after)" by (cases "codex_parts existing") auto
  from codex_merge_exact [OF assms p] obtain before' current' after' where o: "codex_parts out = (before', current', after')"
    "TrimSpace (Join newline current') = codex_block is_print command" by blast
  have "current' \<noteq> []" using o(2) by (auto simp: codex_block_def codex_header_def)
  moreover have "out \<noteq> []"
  proof
    assume "out = []"
    then have "current' = []" using o(1) by (auto simp: codex_parts_def TrimSuffix_newline_def blank_not_header)
    with \<open>current' \<noteq> []\<close> show False by simp
  qed
  ultimately show ?thesis by (simp add: mergeCodexMCPConfig_def o)
qed

section \<open>The configuration of Claude Code\<close>

text \<open>
  \<^verbatim>\<open>encoding/json\<close> on \<^verbatim>\<open>interface{}\<close>: an object is a Go map, here its entries in the order in which
  \<^verbatim>\<open>MarshalIndent\<close> writes them, and a number is the text it writes for the \<^verbatim>\<open>float64\<close>.
\<close>

record json_any =
  any_Unmarshal :: "string \<Rightarrow> goerr + json"
  any_MarshalIndent :: "json \<Rightarrow> string"
  any_number :: "string \<Rightarrow> bool"

definition keys_sorted :: "(string \<times> json) list \<Rightarrow> bool" where
  "keys_sorted kvs \<longleftrightarrow> sorted_wrt (\<lambda>a b. str_less (fst a) (fst b)) kvs"

fun is_value :: "(string \<Rightarrow> bool) \<Rightarrow> json \<Rightarrow> bool" where
  "is_value num JNull = True"
| "is_value num (JBool b) = True"
| "is_value num (JNumber n) = num n"
| "is_value num (JString s) = ValidString s"
| "is_value num (JArray xs) = (\<forall>x \<in> set xs. is_value num x)"
| "is_value num (JObject kvs) = (keys_sorted kvs \<and> (\<forall>kv \<in> set kvs. ValidString (fst kv) \<and> is_value num (snd kv)))"

definition set_entry :: "string \<Rightarrow> json \<Rightarrow> (string \<times> json) list \<Rightarrow> (string \<times> json) list" where
  "set_entry k v kvs = filter (\<lambda>kv. str_less (fst kv) k) kvs @ (k, v) # filter (\<lambda>kv. str_less k (fst kv)) kvs"

definition desired_server :: "string \<Rightarrow> json" where
  "desired_server command =
     JObject [(''args'', JArray [JString ''mcp'', JString ''--stdio'']), (''command'', JString command),
              (''type'', JString ''stdio'')]"

definition claude_entry ::
  "json_any \<Rightarrow> string \<Rightarrow> bool \<Rightarrow> (string \<times> json) list \<Rightarrow> (string \<times> json) list \<Rightarrow> goerr + string" where
  "claude_entry j command force config servers =
     (if (case map_of servers ''terminal-todo'' of
            Some current \<Rightarrow> current \<noteq> desired_server command \<and> \<not> force
          | None \<Rightarrow> False)
      then Inl (msg ''.mcp.json already defines terminal-todo differently; rerun with --force to replace it'')
      else Inr (any_MarshalIndent j (JObject (set_entry ''mcpServers''
              (JObject (set_entry ''terminal-todo'' (desired_server command) servers)) config)) @ newline))"

text \<open>
  Reading \<^verbatim>\<open>null\<close> leaves the map nil: its entries can be read, but storing into it is a panic, which is
  \<open>None\<close>.
\<close>

definition mergeClaudeMCPConfig :: "json_any \<Rightarrow> string \<Rightarrow> string \<Rightarrow> bool \<Rightarrow> (goerr + string) option" where
  "mergeClaudeMCPConfig j existing command force =
     (case (if existing = [] then Inr (JObject []) else any_Unmarshal j existing) of
        Inl err \<Rightarrow> Some (Inl (Errorf ''.mcp.json is not valid JSON: %w'' [] [err]))
      | Inr (JObject config) \<Rightarrow>
          (case map_of config ''mcpServers'' of
             Some (JObject servers) \<Rightarrow> Some (claude_entry j command force config servers)
           | None \<Rightarrow> Some (claude_entry j command force config [])
           | Some JNull \<Rightarrow> Some (claude_entry j command force config [])
           | Some _ \<Rightarrow> Some (Inl (msg ''.mcp.json mcpServers must be an object'')))
      | Inr JNull \<Rightarrow> None
      | Inr _ \<Rightarrow>
          Some (Inl (Errorf ''.mcp.json is not valid JSON: %w'' []
            [msg ''json: cannot unmarshal into Go value of type map[string]interface {}''])))"

text \<open>What is documented of \<^verbatim>\<open>encoding/json\<close>: it reads values, and reads what it wrote as it was.\<close>

definition json_laws :: "json_any \<Rightarrow> bool" where
  "json_laws j \<longleftrightarrow>
     (\<forall>s v. any_Unmarshal j s = Inr v \<longrightarrow> is_value (any_number j) v)
     \<and> (\<forall>v. is_value (any_number j) v \<longrightarrow> any_Unmarshal j (any_MarshalIndent j v @ newline) = Inr v)"

lemma map_of_set_entry [simp]: "map_of (set_entry k v kvs) k' = (if k' = k then Some v else map_of kvs k')"
proof (cases "k' = k")
  case True
  have "map_of (filter (\<lambda>kv. str_less (fst kv) k) kvs) k = None"
    by (auto simp: map_of_eq_None_iff str_less_irrefl)
  with True show ?thesis by (simp add: set_entry_def map_add_def)
next
  case False
  have f: "map_of (filter (\<lambda>kv. P (fst kv)) kvs) k' = (if P k' then map_of kvs k' else None)" for P
    by (induction kvs) auto
  from False str_less_total [OF False] show ?thesis
    by (auto simp: set_entry_def map_add_def f [of "\<lambda>x. str_less x k"] f [of "str_less k"] split: option.split)
qed

lemma set_entry_same:
  assumes "keys_sorted kvs" "map_of kvs k = Some v"
  shows "set_entry k v kvs = kvs"
  using assms unfolding keys_sorted_def set_entry_def
proof (induction kvs)
  case (Cons kv kvs)
  show ?case
  proof (cases "fst kv = k")
    case True
    with Cons.prems have "kv = (k, v)" "\<forall>x \<in> set kvs. str_less k (fst x)" by (cases kv; auto)+
    moreover from this have "\<forall>x \<in> set kvs. \<not> str_less (fst x) k" using str_less_irrefl str_less_trans by blast
    ultimately show ?thesis by (simp add: filter_empty_conv filter_id_conv str_less_irrefl)
  next
    case False
    with Cons.prems have m: "map_of kvs k = Some v" by (cases kv) auto
    then have "(k, v) \<in> set kvs" by (rule map_of_SomeD)
    with Cons.prems(1) have "str_less (fst kv) k" by force
    moreover from this have "\<not> str_less k (fst kv)" using str_less_irrefl str_less_trans by blast
    ultimately show ?thesis using Cons.IH [OF _ m] Cons.prems(1) by simp
  qed
qed simp

lemma keys_sorted_set_entry:
  assumes "keys_sorted kvs"
  shows "keys_sorted (set_entry k v kvs)"
proof -
  have "sorted_wrt (\<lambda>a b. str_less (fst a) (fst b)) (filter P kvs)" for P
    using assms by (simp add: keys_sorted_def sorted_wrt_filter)
  then show ?thesis
    using str_less_trans by (auto simp: keys_sorted_def set_entry_def sorted_wrt_append)
qed

lemma is_value_set_entry:
  assumes "is_value num (JObject kvs)" "ValidString k" "is_value num v"
  shows "is_value num (JObject (set_entry k v kvs))"
  using assms keys_sorted_set_entry [of kvs k v] by (auto simp: set_entry_def)

lemma is_value_object:
  assumes "is_value num (JObject kvs)"
  shows "keys_sorted kvs" "map_of kvs k = Some v \<Longrightarrow> is_value num v"
  using assms by (force dest: map_of_SomeD)+

lemma ascii_valid: "list_all (\<lambda>c. byte c < 0x80) s \<Longrightarrow> ValidString s"
  by (induction s) (auto simp: ValidString.simps rune_len_def)

lemma desired_server_value: "ValidString command \<Longrightarrow> is_value num (desired_server command)"
  by (simp add: desired_server_def keys_sorted_def ascii_valid)

declare is_value.simps(6) [simp del]

lemma claude_entry_idempotent:
  assumes j: "json_laws j" and c: "ValidString command" and v: "is_value (any_number j) (JObject config)"
      "is_value (any_number j) (JObject servers)" and r: "claude_entry j command force config servers = Inr out"
  shows "mergeClaudeMCPConfig j out command force' = Some (Inr out)"
proof -
  let ?servers = "set_entry ''terminal-todo'' (desired_server command) servers"
  let ?config = "set_entry ''mcpServers'' (JObject ?servers) config"
  have s: "is_value (any_number j) (JObject ?servers)"
    using v(2) c by (intro is_value_set_entry desired_server_value) (simp_all add: ascii_valid)
  have config: "is_value (any_number j) (JObject ?config)" by (rule is_value_set_entry [OF v(1) _ s]) (simp add: ascii_valid)
  have out: "out = any_MarshalIndent j (JObject ?config) @ newline"
    using r by (simp add: claude_entry_def split: if_splits)
  have "set_entry ''terminal-todo'' (desired_server command) ?servers = ?servers"
    using is_value_object(1) [OF s] by (intro set_entry_same) simp_all
  moreover have "set_entry ''mcpServers'' (JObject ?servers) ?config = ?config"
    using is_value_object(1) [OF config] by (intro set_entry_same) simp_all
  moreover have "any_Unmarshal j out = Inr (JObject ?config)" "out \<noteq> []"
    using j config by (simp_all add: json_laws_def out newline_def)
  ultimately show ?thesis by (simp add: mergeClaudeMCPConfig_def claude_entry_def out [symmetric])
qed

lemma claude_merge_idempotent:
  assumes "json_laws j" "ValidString command" "mergeClaudeMCPConfig j existing command force = Some (Inr out)"
  shows "mergeClaudeMCPConfig j out command force' = Some (Inr out)"
proof -
  have e: "is_value (any_number j) (JObject [])" by (simp add: keys_sorted_def is_value.simps(6))
  let ?read = "if existing = [] then Inr (JObject []) else any_Unmarshal j existing"
  obtain config where c: "?read = Inr (JObject config)"
    using assms(3) by (auto simp: mergeClaudeMCPConfig_def split: sum.splits json.splits if_splits)
  then have v: "is_value (any_number j) (JObject config)"
    using assms(1) e unfolding json_laws_def by (cases "existing = []") (metis Inr_inject, metis)
  consider "claude_entry j command force config [] = Inr out"
    | servers where "map_of config ''mcpServers'' = Some (JObject servers)" "claude_entry j command force config servers = Inr out"
    using assms(3) c unfolding mergeClaudeMCPConfig_def c by (auto split: option.splits json.splits)
  then show ?thesis
  proof cases
    case 1
    from claude_entry_idempotent [OF assms(1,2) v e this] show ?thesis .
  next
    case 2
    then have "is_value (any_number j) (JObject servers)" using is_value_object(2) [OF v] by blast
    from claude_entry_idempotent [OF assms(1,2) v this 2(2)] show ?thesis .
  qed
qed

section \<open>Installing\<close>

datatype integrationTarget = integrateCodex | integrateClaude

definition target_name :: "integrationTarget \<Rightarrow> string" where
  "target_name t = (case t of integrateCodex \<Rightarrow> ''codex'' | integrateClaude \<Rightarrow> ''claude'')"

record integrationFile =
  if_Path :: string
  if_Content :: string
  if_Changed :: bool

text \<open>What \<^verbatim>\<open>os.ReadFile\<close> gives.\<close>

datatype disk_file = Missing | Unreadable goerr | FileText string

record install_errors =
  ie_MkdirAll :: "goerr option"
  ie_CreateTemp :: "goerr option"
  ie_Chmod :: "goerr option"
  ie_Write :: "goerr option"
  ie_Sync :: "goerr option"
  ie_Close :: "goerr option"
  ie_Rename :: "goerr option"

record integrate_env =
  int_Root :: string
  int_ToLower :: "string \<Rightarrow> string"
  int_IsPrint :: "string \<Rightarrow> bool"
  int_JSON :: json_any
  int_Skill :: string
  int_OpenAIAgentMetadata :: string
  int_Rel :: "string \<Rightarrow> string \<Rightarrow> string option"
  int_Errors :: "string \<Rightarrow> install_errors"

text \<open>The loop over the arguments; \<open>chosen\<close> is the one seen so far.\<close>

fun integration_target :: "(string \<Rightarrow> string) \<Rightarrow> string \<Rightarrow> string list \<Rightarrow> goerr + string" where
  "integration_target lower chosen [] = Inr chosen"
| "integration_target lower chosen (arg # rest) =
     (if arg = ''--command'' then integration_target lower chosen (tl rest)
      else if HasPrefix arg ''-'' then integration_target lower chosen rest
      else if chosen \<noteq> ''all'' then Inl (msg ''specify one integration target: codex, claude, or all'')
      else integration_target lower (lower arg) rest)"

definition parseIntegrationTargets :: "(string \<Rightarrow> string) \<Rightarrow> string list \<Rightarrow> goerr + integrationTarget list" where
  "parseIntegrationTargets lower args =
     (case integration_target lower ''all'' args of
        Inl err \<Rightarrow> Inl err
      | Inr chosen \<Rightarrow>
          if chosen = ''all'' then Inr [integrateCodex, integrateClaude]
          else if chosen = ''codex'' then Inr [integrateCodex]
          else if chosen = ''claude'' then Inr [integrateClaude]
          else Inl (Errorf ''unknown integration target %q (expected codex, claude, or all)'' [ArgStr chosen] []))"

definition readOptionalFile :: "(string \<Rightarrow> disk_file) \<Rightarrow> string \<Rightarrow> goerr + string" where
  "readOptionalFile disk path =
     (case disk path of Missing \<Rightarrow> Inr [] | Unreadable err \<Rightarrow> Inl err | FileText s \<Rightarrow> Inr s)"

definition isSkillPath :: "string \<Rightarrow> bool" where
  "isSkillPath path = Contains path ''/skills/terminal-todo/''"

definition relativeIntegrationPath :: "integrate_env \<Rightarrow> string \<Rightarrow> string" where
  "relativeIntegrationPath e path = (case int_Rel e (int_Root e) path of Some relative \<Rightarrow> relative | None \<Rightarrow> path)"

definition formatIntegrationTargets :: "integrationTarget list \<Rightarrow> string" where
  "formatIntegrationTargets targets = Join '' and '' (map target_name targets)"

definition skill_files :: "integrate_env \<Rightarrow> string \<Rightarrow> integrationFile list" where
  "skill_files e dir =
     [\<lparr>if_Path = filepath_Join [int_Root e, dir, ''skills'', ''terminal-todo'', ''SKILL.md''], if_Content = int_Skill e,
       if_Changed = False\<rparr>,
      \<lparr>if_Path = filepath_Join [int_Root e, dir, ''skills'', ''terminal-todo'', ''agents'', ''openai.yaml''],
       if_Content = int_OpenAIAgentMetadata e, if_Changed = False\<rparr>]"

definition config_path :: "integrate_env \<Rightarrow> integrationTarget \<Rightarrow> string" where
  "config_path e t =
     (case t of
        integrateCodex \<Rightarrow> filepath_Join [int_Root e, ''.codex'', ''config.toml'']
      | integrateClaude \<Rightarrow> filepath_Join [int_Root e, ''.mcp.json''])"

definition merge_config :: "integrate_env \<Rightarrow> integrationTarget \<Rightarrow> string \<Rightarrow> string \<Rightarrow> bool \<Rightarrow> (goerr + string) option" where
  "merge_config e t existing command force =
     (case t of
        integrateCodex \<Rightarrow> Some (mergeCodexMCPConfig (int_IsPrint e) existing command force)
      | integrateClaude \<Rightarrow> mergeClaudeMCPConfig (int_JSON e) existing command force)"

definition target_files ::
  "integrate_env \<Rightarrow> (string \<Rightarrow> disk_file) \<Rightarrow> string \<Rightarrow> bool \<Rightarrow> integrationTarget \<Rightarrow> (goerr + integrationFile list) option" where
  "target_files e disk command force t =
     (case readOptionalFile disk (config_path e t) of
        Inl err \<Rightarrow> Some (Inl err)
      | Inr existing \<Rightarrow>
          map_option (map_sum id (\<lambda>config.
              skill_files e (case t of integrateCodex \<Rightarrow> ''.agents'' | integrateClaude \<Rightarrow> ''.claude'')
              @ [\<lparr>if_Path = config_path e t, if_Content = config, if_Changed = False\<rparr>]))
            (merge_config e t existing command force))"

fun gather_files ::
  "integrate_env \<Rightarrow> (string \<Rightarrow> disk_file) \<Rightarrow> string \<Rightarrow> bool \<Rightarrow> integrationTarget list \<Rightarrow> (goerr + integrationFile list) option" where
  "gather_files e disk command force [] = Some (Inr [])"
| "gather_files e disk command force (t # ts) =
     (case target_files e disk command force t of
        None \<Rightarrow> None
      | Some (Inl err) \<Rightarrow> Some (Inl err)
      | Some (Inr files) \<Rightarrow> map_option (map_sum id ((@) files)) (gather_files e disk command force ts))"

text \<open>An absent file reads as nil, which no content equals.\<close>

fun mark_changed :: "integrate_env \<Rightarrow> (string \<Rightarrow> disk_file) \<Rightarrow> bool \<Rightarrow> integrationFile list \<Rightarrow> goerr + integrationFile list" where
  "mark_changed e disk force [] = Inr []"
| "mark_changed e disk force (f # fs) =
     (case readOptionalFile disk (if_Path f) of
        Inl err \<Rightarrow> Inl err
      | Inr existing \<Rightarrow>
          (let changed = (disk (if_Path f) \<noteq> FileText (if_Content f))
           in if existing \<noteq> [] \<and> changed \<and> isSkillPath (if_Path f) \<and> \<not> force
              then Inl (Errorf ''%s differs from the bundled skill; rerun with --force to replace it''
                     [ArgStr (relativeIntegrationPath e (if_Path f))] [])
              else map_sum id ((#) (f\<lparr>if_Changed := changed\<rparr>)) (mark_changed e disk force fs)))"

definition prepareIntegration ::
  "integrate_env \<Rightarrow> (string \<Rightarrow> disk_file) \<Rightarrow> integrationTarget list \<Rightarrow> string \<Rightarrow> bool \<Rightarrow> (goerr + integrationFile list) option" where
  "prepareIntegration e disk targets command force =
     (if TrimSpace command = [] then Some (Inl (msg ''MCP command cannot be empty''))
      else
        (case gather_files e disk command force targets of
           None \<Rightarrow> None
         | Some (Inl err) \<Rightarrow> Some (Inl err)
         | Some (Inr files) \<Rightarrow> Some (mark_changed e disk force files)))"

text \<open>The rename at the end puts the content in place; before it the file is as it was.\<close>

definition writeIntegrationFile ::
  "install_errors \<Rightarrow> string \<Rightarrow> string \<Rightarrow> (string \<Rightarrow> disk_file) \<Rightarrow> goerr option \<times> (string \<Rightarrow> disk_file)" where
  "writeIntegrationFile w path content disk =
     (case first_some [ie_MkdirAll w, ie_CreateTemp w, ie_Chmod w, ie_Write w, ie_Sync w, ie_Close w, ie_Rename w] of
        Some err \<Rightarrow> (Some err, disk)
      | None \<Rightarrow> (None, disk(path := FileText content)))"

text \<open>The loop that installs and reports: what it printed, how many files had changed, and the error that ended it.\<close>

fun install_files ::
  "integrate_env \<Rightarrow> bool \<Rightarrow> integrationFile list \<Rightarrow> (string \<Rightarrow> disk_file)
    \<Rightarrow> string \<times> nat \<times> goerr option \<times> (string \<Rightarrow> disk_file)" where
  "install_files e checking [] disk = ([], 0, None, disk)"
| "install_files e checking (f # fs) disk =
     (let report = (\<lambda>state. line [''  '', pad_runes 45 (relativeIntegrationPath e (if_Path f)), '' '', state])
      in if \<not> if_Changed f then apfst ((@) (report ''ok'')) (install_files e checking fs disk)
         else if checking
         then map_prod ((@) (report ''missing or outdated'')) (apfst Suc) (install_files e checking fs disk)
         else
           (case writeIntegrationFile (int_Errors e (if_Path f)) (if_Path f) (if_Content f) disk of
              (Some err, disk) \<Rightarrow> ([], 1, Some err, disk)
            | (None, disk) \<Rightarrow> map_prod ((@) (report ''installed'')) (apfst Suc) (install_files e checking fs disk)))"

record integrationHealth =
  ToolCount :: nat
  ih_Project :: string

text \<open>A run: what was printed, the error it failed with, and the files it left; \<open>None\<close> is a panic.\<close>

definition integrate ::
  "integrate_env \<Rightarrow> (goerr + integrationHealth) \<Rightarrow> integrationTarget list \<Rightarrow> string \<Rightarrow> bool \<Rightarrow> bool \<Rightarrow> bool
    \<Rightarrow> (string \<Rightarrow> disk_file) \<Rightarrow> (string \<times> (ErrorCode \<times> goerr) option \<times> (string \<Rightarrow> disk_file)) option" where
  "integrate e health targets command force checking live disk =
     (case prepareIntegration e disk targets command force of
        None \<Rightarrow> None
      | Some (Inl err) \<Rightarrow> Some ([], Some (ErrInvalidArgs, Errorf ''integration: %v'' [] [err]), disk)
      | Some (Inr files) \<Rightarrow>
          (case install_files e checking files disk of
             (printed, changed, Some err, disk) \<Rightarrow>
               Some (printed, Some (ErrStoreCorrupted, Errorf ''writing integration: %v'' [] [err]), disk)
           | (printed, changed, None, disk) \<Rightarrow>
               Some
                 (if checking then
                    (if changed > 0
                     then (printed, Some (ErrInvalidArgs,
                            Errorf ''%d integration file(s) need installation or update'' [ArgInt (int changed)] []), disk)
                     else if live then
                       (case health of
                          Inl err \<Rightarrow> (printed, Some (ErrInvalidArgs, Errorf ''live integration check failed: %v'' [] [err]), disk)
                        | Inr report \<Rightarrow>
                            (printed @ line [''Live MCP check passed ('', decimal (ToolCount report), '' tools, project '',
                                             ih_Project report, '').''], None, disk))
                     else (printed @ line [''Integration check passed.''], None, disk))
                  else if changed = 0 then (printed @ line [''Integrations are already up to date.''], None, disk)
                  else (printed @ line [''Installed terminal-todo integration for '', formatIntegrationTargets targets, ''.''],
                        None, disk))))"

definition cmdIntegrate ::
  "integrate_env \<Rightarrow> (string \<Rightarrow> goerr + integrationHealth) \<Rightarrow> string list \<Rightarrow> (string \<Rightarrow> disk_file)
    \<Rightarrow> (string \<times> (ErrorCode \<times> goerr) option \<times> (string \<Rightarrow> disk_file)) option" where
  "cmdIntegrate e verify args disk =
     (case parseIntegrationTargets (int_ToLower e) args of
        Inl err \<Rightarrow> Some ([], Some (ErrInvalidArgs, err), disk)
      | Inr targets \<Rightarrow>
          (let command = (if optionValue args ''--command'' = [] then ''todo'' else optionValue args ''--command'');
               checking = hasFlag args ''--check'';
               live = hasFlag args ''--live''
           in if live \<and> \<not> checking then Some ([], Some (ErrInvalidArgs, msg ''--live requires --check''), disk)
              else integrate e (verify command) targets command (hasFlag args ''--force'') checking live disk))"

section \<open>The files of an installation are different files\<close>

definition plain_elem :: "string \<Rightarrow> bool" where
  "plain_elem x \<longleftrightarrow> x \<notin> {[], ''.'', ''..''} \<and> CHR ''/'' \<notin> set x"

lemma clean_plain: "list_all plain_elem fs \<Longrightarrow> clean_elems rooted fs out = rev out @ fs"
  by (induction fs arbitrary: out) (auto simp: plain_elem_def)

lemma clean_append:
  assumes "list_all plain_elem fs"
  shows "clean_elems rooted (es @ fs) out = clean_elems rooted es out @ fs"
proof (induction es arbitrary: out)
  case Nil
  show ?case using clean_plain [OF assms] by simp
next
  case (Cons x es)
  then show ?case by (cases out) auto
qed

lemma clean_elems_set: "set (clean_elems rooted es out) \<subseteq> set es \<union> set out \<union> {''..''}"
proof (induction es arbitrary: out)
  case (Cons e es)
  note IH = Cons.IH [of out] Cons.IH [of "e # out"] Cons.IH [of "[]"] Cons.IH [of "tl out"] Cons.IH [of "[''..'']"]
  show ?case
  proof (cases out)
    case Nil
    with IH show ?thesis by auto
  next
    case (Cons o1 rest)
    with IH show ?thesis by auto
  qed
qed auto

lemma filepath_Join_plain:
  obtains pre xs where "\<And>fs. list_all plain_elem fs \<Longrightarrow> fs \<noteq> [] \<Longrightarrow> filepath_Join (dir # fs) = pre @ Join ''/'' (xs @ fs)"
    "\<forall>x \<in> set xs. CHR ''/'' \<notin> set x"
proof
  let ?rooted = "IsAbs dir"
  let ?xs = "if dir = [] then [] else clean_elems ?rooted (Split CHR ''/'' dir) []"
  show "filepath_Join (dir # fs) = (if ?rooted then ''/'' else []) @ Join ''/'' (?xs @ fs)"
    if fs: "list_all plain_elem fs" "fs \<noteq> []" for fs
  proof -
    have slash: "\<forall>l \<in> set fs. CHR ''/'' \<notin> set l" using fs(1) by (auto simp: list_all_iff plain_elem_def)
    obtain f fs' where f: "fs = f # fs'" using fs(2) by (cases fs) auto
    have nonempty: "Join ''/'' (xs @ fs) \<noteq> []" for xs
    proof -
      have "f \<noteq> []" using f fs(1) by (simp add: plain_elem_def)
      with f have "Join ''/'' fs \<noteq> []" by (cases fs') auto
      with f show ?thesis by (induction xs rule: induct_list012) auto
    qed
    show ?thesis
    proof (cases "dir = []")
      case True
      have "dropWhile (\<lambda>e. e = []) (dir # fs) = fs" using True f fs(1) by (simp add: plain_elem_def)
      moreover have "\<not> IsAbs (Join ''/'' fs)"
        using f fs(1) slash by (cases fs'; cases f) (auto simp: IsAbs_def HasPrefix_def plain_elem_def)
      ultimately show ?thesis
        using nonempty [of "[]"] f True Split_Join [OF fs(2) slash] clean_plain [OF fs(1)]
        by (simp add: filepath_Join_def Clean_def IsAbs_def HasPrefix_def)
    next
      case False
      have j: "Join ''/'' (dir # fs) = dir @ CHR ''/'' # Join ''/'' fs" using f by simp
      then have "Split CHR ''/'' (Join ''/'' (dir # fs)) = Split CHR ''/'' dir @ fs"
        using Split_Join [OF fs(2) slash] by (simp add: Split_append)
      moreover have "IsAbs (Join ''/'' (dir # fs)) = ?rooted"
        using False j by (cases dir) (simp_all add: IsAbs_def HasPrefix_def)
      ultimately show ?thesis
        using False nonempty by (simp add: filepath_Join_def Clean_def clean_append [OF fs(1)])
    qed
  qed
  show "\<forall>x \<in> set ?xs. CHR ''/'' \<notin> set x"
  proof -
    have "\<forall>x \<in> set (Split CHR ''/'' dir). CHR ''/'' \<notin> set x" using no_sep_in_part by blast
    with clean_elems_set [of ?rooted "Split CHR ''/'' dir" "[]"] show ?thesis by (cases "dir = []") auto
  qed
qed

lemma filepath_Join_inject:
  assumes "list_all plain_elem fs" "fs \<noteq> []" "list_all plain_elem gs" "gs \<noteq> []"
  shows "filepath_Join (dir # fs) = filepath_Join (dir # gs) \<longleftrightarrow> fs = gs"
proof
  assume eq: "filepath_Join (dir # fs) = filepath_Join (dir # gs)"
  obtain pre xs where j: "\<And>fs. list_all plain_elem fs \<Longrightarrow> fs \<noteq> [] \<Longrightarrow> filepath_Join (dir # fs) = pre @ Join ''/'' (xs @ fs)"
    "\<forall>x \<in> set xs. CHR ''/'' \<notin> set x"
    by (rule filepath_Join_plain [of dir]) blast
  have s: "Split CHR ''/'' (Join ''/'' (xs @ hs)) = xs @ hs" if "list_all plain_elem hs" "hs \<noteq> []" for hs
    using that j(2) by (intro Split_Join) (auto simp: list_all_iff plain_elem_def)
  from eq have "Join ''/'' (xs @ fs) = Join ''/'' (xs @ gs)" using j(1) assms by simp
  then have "xs @ fs = xs @ gs" using s assms by metis
  then show "fs = gs" by simp
qed simp

section \<open>After an installation the check passes\<close>

definition target_paths :: "integrate_env \<Rightarrow> integrationTarget \<Rightarrow> string list" where
  "target_paths e t = map if_Path (skill_files e (case t of integrateCodex \<Rightarrow> ''.agents'' | integrateClaude \<Rightarrow> ''.claude'')) @ [config_path e t]"

lemma target_paths_distinct: "distinct targets \<Longrightarrow> distinct (concat (map (target_paths e) targets))"
proof -
  assume d: "distinct targets"
  have one: "distinct (target_paths e t)" for t
    by (cases t) (simp_all add: target_paths_def skill_files_def config_path_def filepath_Join_inject plain_elem_def)
  have two: "set (target_paths e integrateCodex) \<inter> set (target_paths e integrateClaude) = {}"
    by (auto simp: target_paths_def skill_files_def config_path_def filepath_Join_inject plain_elem_def)
  have disjoint: "t = u" if "p \<in> set (target_paths e t)" "p \<in> set (target_paths e u)" for p t u
    using two that by (cases t; cases u) auto
  show ?thesis
    using d
  proof (induction targets)
    case (Cons t ts)
    then have "set (target_paths e t) \<inter> set (concat (map (target_paths e) ts)) = {}" using disjoint by fastforce
    with Cons one show ?case by simp
  qed simp
qed

text \<open>The files of an installation hold what they should.\<close>

definition installed :: "(string \<Rightarrow> disk_file) \<Rightarrow> integrationFile list \<Rightarrow> bool" where
  "installed disk fs \<longleftrightarrow> (\<forall>f \<in> set fs. disk (if_Path f) = FileText (if_Content f))"

lemma target_files_Inr:
  assumes "target_files e disk command force t = Some (Inr files)"
  obtains existing config where "merge_config e t existing command force = Some (Inr config)"
    "files = skill_files e (case t of integrateCodex \<Rightarrow> ''.agents'' | integrateClaude \<Rightarrow> ''.claude'')
      @ [\<lparr>if_Path = config_path e t, if_Content = config, if_Changed = False\<rparr>]"
proof -
  obtain existing where r: "readOptionalFile disk (config_path e t) = Inr existing"
    using assms by (auto simp: target_files_def split: sum.splits)
  then obtain m where m: "merge_config e t existing command force = Some m"
    using assms by (auto simp: target_files_def)
  with r assms that show thesis by (cases m) (auto simp: target_files_def)
qed

lemma gather_files_Cons:
  assumes "gather_files e disk command force (t # ts) = Some (Inr files)"
  obtains fs gs where "target_files e disk command force t = Some (Inr fs)"
    "gather_files e disk command force ts = Some (Inr gs)" "files = fs @ gs"
proof -
  obtain fs where f: "target_files e disk command force t = Some (Inr fs)"
    using assms by (auto split: option.splits sum.splits)
  then obtain m where m: "gather_files e disk command force ts = Some m" using assms by auto
  with f assms that show thesis by (cases m) auto
qed

lemma gathered_paths:
  assumes "gather_files e disk command force targets = Some (Inr files)"
  shows "map if_Path files = concat (map (target_paths e) targets)"
  using assms
proof (induction targets arbitrary: files)
  case (Cons t ts)
  from Cons.prems obtain fs gs where f: "target_files e disk command force t = Some (Inr fs)"
    "gather_files e disk command force ts = Some (Inr gs)" "files = fs @ gs" by (rule gather_files_Cons)
  from f(1) have "map if_Path fs = target_paths e t" by (rule target_files_Inr) (simp add: target_paths_def)
  with Cons.IH [OF f(2)] f(3) show ?case by simp
qed simp

lemma target_files_again:
  assumes "json_laws (int_JSON e)" "ValidString command" "target_files e disk command force t = Some (Inr files)" "installed disk' files"
  shows "target_files e disk' command force' t = Some (Inr files)"
proof -
  from assms(3) obtain existing config where r: "merge_config e t existing command force = Some (Inr config)"
    "files = skill_files e (case t of integrateCodex \<Rightarrow> ''.agents'' | integrateClaude \<Rightarrow> ''.claude'')
      @ [\<lparr>if_Path = config_path e t, if_Content = config, if_Changed = False\<rparr>]" by (rule target_files_Inr)
  have "merge_config e t config command force' = Some (Inr config)"
    using r(1) claude_merge_idempotent [OF assms(1,2)] codex_merge_idempotent
    by (cases t) (auto simp: merge_config_def)
  moreover have "disk' (config_path e t) = FileText config" using assms(4) r(2) by (simp add: installed_def)
  ultimately show ?thesis using r(2) by (simp add: target_files_def readOptionalFile_def)
qed

lemma gather_files_again:
  assumes "json_laws (int_JSON e)" "ValidString command" "gather_files e disk command force targets = Some (Inr files)"
    "installed disk' files"
  shows "gather_files e disk' command force' targets = Some (Inr files)"
  using assms(3,4)
proof (induction targets arbitrary: files)
  case (Cons t ts)
  from Cons.prems(1) obtain fs gs where f: "target_files e disk command force t = Some (Inr fs)"
    "gather_files e disk command force ts = Some (Inr gs)" "files = fs @ gs" by (rule gather_files_Cons)
  with Cons have "installed disk' fs" "installed disk' gs" by (auto simp: installed_def)
  with Cons.IH [OF f(2)] target_files_again [OF assms(1,2) f(1)] f(3) show ?case by simp
qed simp

lemma mark_changed_shape:
  assumes "mark_changed e disk force files = Inr marked"
  shows "marked = map (\<lambda>f. f\<lparr>if_Changed := (disk (if_Path f) \<noteq> FileText (if_Content f))\<rparr>) files"
  using assms
  by (induction files arbitrary: marked) (auto simp: Let_def map_sum_def split: sum.splits if_splits)

lemma mark_changed_installed:
  "installed disk files \<Longrightarrow> mark_changed e disk force files = Inr (map (\<lambda>f. f\<lparr>if_Changed := False\<rparr>) files)"
  by (induction files) (auto simp: installed_def readOptionalFile_def)

lemma install_files_installs:
  assumes "install_files e False fs disk = (printed, n, None, disk')" "distinct (map if_Path fs)"
    "\<forall>f \<in> set fs. \<not> if_Changed f \<longrightarrow> disk (if_Path f) = FileText (if_Content f)"
  shows "installed disk' fs \<and> (\<forall>p. p \<notin> set (map if_Path fs) \<longrightarrow> disk' p = disk p)"
  using assms
proof (induction fs arbitrary: disk printed n)
  case (Cons f fs)
  show ?case
  proof (cases "if_Changed f")
    case False
    then obtain printed' where "install_files e False fs disk = (printed', n, None, disk')"
      using Cons.prems(1) by (cases "install_files e False fs disk") (auto simp: Let_def apfst_def)
    with Cons.IH [OF this] Cons.prems(2,3) False show ?thesis by (auto simp: installed_def)
  next
    case True
    let ?disk = "disk(if_Path f := FileText (if_Content f))"
    have w: "writeIntegrationFile (int_Errors e (if_Path f)) (if_Path f) (if_Content f) disk = (None, ?disk)"
      using Cons.prems(1) True by (auto simp: Let_def writeIntegrationFile_def split: option.splits)
    obtain printed' n' where run: "install_files e False fs ?disk = (printed', n', None, disk')"
      using Cons.prems(1) True w by (cases "install_files e False fs ?disk") (auto simp: Let_def)
    have c: "\<forall>g \<in> set fs. \<not> if_Changed g \<longrightarrow> ?disk (if_Path g) = FileText (if_Content g)"
      using Cons.prems(2,3) by (auto simp: image_iff)
    have d: "distinct (map if_Path fs)" using Cons.prems(2) by simp
    from Cons.IH [OF run d c] have "installed disk' fs" "\<forall>p. p \<notin> set (map if_Path fs) \<longrightarrow> disk' p = ?disk p" by blast+
    with Cons.prems(2) show ?thesis by (auto simp: installed_def)
  qed
qed (simp add: installed_def)

lemma install_files_checks:
  "\<forall>f \<in> set fs. \<not> if_Changed f \<Longrightarrow> \<exists>printed. install_files e checking fs disk = (printed, 0, None, disk)"
proof (induction fs)
  case (Cons f fs)
  then obtain printed where "install_files e checking fs disk = (printed, 0, None, disk)" by auto
  with Cons.prems show ?case by simp
qed simp


section \<open>The live check\<close>

text \<open>
  The server that is checked, as a process: what it answers may depend on the requests it was sent. A
  line of it is decoded into a value; \<open>NoLine\<close> says whether the deadline had passed and what error
  the scanner had. \<open>number_is\<close> is whether a number in a document has an integer as its value.
\<close>

datatype peer_line = NoLine bool "goerr option" | Line "goerr + json"

record mcp_peer =
  peer_Start :: "goerr option"
  peer_Write :: "nat \<Rightarrow> goerr option"
  peer_Read :: "json list \<Rightarrow> nat \<Rightarrow> peer_line"
  peer_Stderr :: string
  peer_Close :: "goerr option"
  peer_Wait :: "goerr option"
  peer_Expired :: bool

definition ensure :: "bool \<Rightarrow> goerr \<Rightarrow> goerr + 'a \<Rightarrow> goerr + 'a" where
  "ensure b err k = (if b then k else Inl err)"

definition object_at :: "string \<Rightarrow> (string \<times> json) list \<Rightarrow> goerr \<Rightarrow> ((string \<times> json) list \<Rightarrow> goerr + 'a) \<Rightarrow> goerr + 'a" where
  "object_at name kvs err k = (case map_of kvs name of Some (JObject o') \<Rightarrow> k o' | _ \<Rightarrow> Inl err)"

definition array_at :: "string \<Rightarrow> (string \<times> json) list \<Rightarrow> goerr \<Rightarrow> (json list \<Rightarrow> goerr + 'a) \<Rightarrow> goerr + 'a" where
  "array_at name kvs err k = (case map_of kvs name of Some (JArray xs) \<Rightarrow> k xs | _ \<Rightarrow> Inl err)"

definition string_at :: "string \<Rightarrow> (string \<times> json) list \<Rightarrow> string" where
  "string_at name kvs = (case map_of kvs name of Some (JString s) \<Rightarrow> s | _ \<Rightarrow> [])"

text \<open>The requests.\<close>

definition rpc_request :: "nat option \<Rightarrow> string \<Rightarrow> json \<Rightarrow> json" where
  "rpc_request i meth params =
     JObject ((case i of Some n \<Rightarrow> [(''id'', JNumber (decimal n))] | None \<Rightarrow> [])
       @ [(''jsonrpc'', JString ''2.0''), (''method'', JString meth), (''params'', params)])"

definition handshake_requests :: "json list" where
  "handshake_requests =
     [rpc_request (Some 1) ''initialize''
        (JObject [(''capabilities'', JObject []),
                  (''clientInfo'', JObject [(''name'', JString ''terminal-todo-integrate''), (''version'', JString ''1'')]),
                  (''protocolVersion'', JString mcpProtocolVersion)]),
      rpc_request None ''notifications/initialized'' (JObject []),
      rpc_request (Some 2) ''tools/list'' (JObject []),
      rpc_request (Some 3) ''tools/call''
        (JObject [(''arguments'', JObject []), (''name'', JString ''terminal_todo_ping'')])]"

definition send :: "mcp_peer \<Rightarrow> nat \<Rightarrow> goerr + 'a \<Rightarrow> goerr + 'a" where
  "send peer n k = (case peer_Write peer n of Some err \<Rightarrow> Inl (Errorf ''writing MCP request: %w'' [] [err]) | None \<Rightarrow> k)"

definition read_response ::
  "(string \<Rightarrow> nat \<Rightarrow> bool) \<Rightarrow> mcp_peer \<Rightarrow> nat \<Rightarrow> nat \<Rightarrow> ((string \<times> json) list \<Rightarrow> goerr + 'a) \<Rightarrow> goerr + 'a" where
  "read_response number_is peer sent i k =
     (let about = (\<lambda>text. Errorf text [ArgInt (int i)] [])
      in case peer_Read peer (take sent handshake_requests) (i - 1) of
           NoLine expired err \<Rightarrow>
             Inl (if expired then msg ''MCP handshake timed out''
                  else case err of
                    Some err \<Rightarrow> Errorf ''reading MCP response: %w'' [] [err]
                  | None \<Rightarrow>
                      if TrimSpace (peer_Stderr peer) \<noteq> []
                      then Errorf ''MCP response %d is missing: %s'' [ArgInt (int i), ArgStr (TrimSpace (peer_Stderr peer))] []
                      else about ''MCP response %d is missing'')
         | Line (Inl err) \<Rightarrow> Inl (Errorf ''invalid MCP response: %w'' [] [err])
         | Line (Inr (JObject response)) \<Rightarrow>
             ensure (map_of response ''jsonrpc'' = Some (JString ''2.0'')) (about ''MCP response %d has invalid jsonrpc version'')
            (ensure (case map_of response ''id'' of Some (JNumber n) \<Rightarrow> number_is n i | _ \<Rightarrow> False)
               (about ''MCP response %d has unexpected id'')
            (ensure (map_of response ''error'' = None) (about ''MCP response %d failed'')
            (k response)))
         | Line (Inr JNull) \<Rightarrow> Inl (about ''MCP response %d has invalid jsonrpc version'')
         | Line (Inr _) \<Rightarrow>
             Inl (Errorf ''invalid MCP response: %w'' [] [msg ''json: cannot unmarshal into Go value of type map[string]interface {}'']))"

definition requiredMCPIntegrationCapabilities :: "string list" where
  "requiredMCPIntegrationCapabilities =
     [''dag'', ''leases'', ''lease_heartbeat'', ''atomic_acquire'', ''idempotent_acquire'', ''session_bootstrap'',
      ''compact_receipts'', ''atomic_handoff'', ''events'', ''event_pages'', ''cross_repository_dependencies'']"

definition requiredMCPIntegrationTools :: "string list" where
  "requiredMCPIntegrationTools =
     [''terminal_todo_ping'', ''terminal_todo_init'', ''terminal_todo_bootstrap'', ''terminal_todo_status'',
      ''terminal_todo_cat'', ''terminal_todo_add'', ''terminal_todo_acquire'', ''terminal_todo_heartbeat'',
      ''terminal_todo_handoff'', ''terminal_todo_update'', ''terminal_todo_log'', ''terminal_todo_decompose'',
      ''terminal_todo_block'', ''terminal_todo_release'', ''terminal_todo_complete'', ''terminal_todo_events'']"

text \<open>The loops over what is advertised; \<open>seen\<close> holds the names before.\<close>

fun advertised_tools :: "json list \<Rightarrow> string list \<Rightarrow> goerr + string list" where
  "advertised_tools [] seen = Inr seen"
| "advertised_tools (raw # rest) seen =
     (case raw of
        JObject tool \<Rightarrow>
          (let name = string_at ''name'' tool
           in if name = [] then Inl (msg ''MCP tool list contains an unnamed tool'')
              else if name \<in> set seen then Inl (Errorf ''MCP tool list contains duplicate %q'' [ArgStr name] [])
              else advertised_tools rest (name # seen))
      | _ \<Rightarrow> Inl (msg ''MCP tool list contains a malformed entry''))"

fun advertised_capabilities :: "json list \<Rightarrow> string list \<Rightarrow> goerr + string list" where
  "advertised_capabilities [] seen = Inr seen"
| "advertised_capabilities (raw # rest) seen =
     (case raw of
        JString capability \<Rightarrow>
          if capability = [] then Inl (msg ''MCP ping capabilities contain a malformed entry'')
          else if capability \<in> set seen
          then Inl (Errorf ''MCP ping capabilities contain duplicate %q'' [ArgStr capability] [])
          else advertised_capabilities rest (capability # seen)
      | _ \<Rightarrow> Inl (msg ''MCP ping capabilities contain a malformed entry''))"

definition all_required :: "string \<Rightarrow> string list \<Rightarrow> goerr + string list \<Rightarrow> goerr + 'a \<Rightarrow> goerr + 'a" where
  "all_required text required advertised k =
     (case advertised of
        Inl err \<Rightarrow> Inl err
      | Inr names \<Rightarrow>
          (case find (\<lambda>expected. expected \<notin> set names) required of
             Some expected \<Rightarrow> Inl (Errorf text [ArgStr expected] [])
           | None \<Rightarrow> k))"

definition check_initialize :: "(string \<times> json) list \<Rightarrow> goerr + 'a \<Rightarrow> goerr + 'a" where
  "check_initialize response k =
     object_at ''result'' response (msg ''MCP protocol negotiation failed'') (\<lambda>result.
     ensure (map_of result ''protocolVersion'' = Some (JString mcpProtocolVersion)) (msg ''MCP protocol negotiation failed'')
    (object_at ''serverInfo'' result (msg ''MCP server identity is not terminal-todo'') (\<lambda>serverInfo.
     ensure (map_of serverInfo ''name'' = Some (JString ''terminal-todo'')) (msg ''MCP server identity is not terminal-todo'')
    (object_at ''capabilities'' result (msg ''MCP server capabilities are missing'') (\<lambda>capabilities.
     object_at ''tools'' capabilities (msg ''MCP tools capability is missing'') (\<lambda>tools.
     ensure (case map_of tools ''listChanged'' of Some (JBool _) \<Rightarrow> True | _ \<Rightarrow> False)
       (msg ''MCP tools capability listChanged flag is missing'') k))))))"

definition check_tools :: "(string \<times> json) list \<Rightarrow> (json list \<Rightarrow> goerr + 'a) \<Rightarrow> goerr + 'a" where
  "check_tools response k =
     object_at ''result'' response (msg ''MCP tool list is malformed'') (\<lambda>result.
     array_at ''tools'' result (msg ''MCP tool list is empty'') (\<lambda>tools.
     ensure (tools \<noteq> []) (msg ''MCP tool list is empty'')
    (all_required ''MCP tool list is missing %q'' requiredMCPIntegrationTools (advertised_tools tools []) (k tools))))"

definition check_project ::
  "(string \<Rightarrow> goerr + string) \<Rightarrow> string \<Rightarrow> string \<Rightarrow> goerr + 'a \<Rightarrow> goerr + 'a" where
  "check_project abs_path dir project k =
     (case abs_path dir of
        Inl err \<Rightarrow> Inl err
      | Inr expectedRoot \<Rightarrow>
          (case abs_path project of
             Inl err \<Rightarrow> Inl err
           | Inr actualRoot \<Rightarrow>
               ensure (Clean actualRoot = Clean expectedRoot)
                 (Errorf ''MCP resolved project %q, expected %q'' [ArgStr actualRoot, ArgStr expectedRoot] []) k))"

definition check_ping ::
  "(string \<Rightarrow> goerr + string) \<Rightarrow> string \<Rightarrow> (string \<times> json) list \<Rightarrow> (string \<Rightarrow> goerr + 'a) \<Rightarrow> goerr + 'a" where
  "check_ping abs_path dir response k =
     object_at ''result'' response (msg ''MCP ping result is malformed'') (\<lambda>result.
     ensure (map_of result ''isError'' \<noteq> Some (JBool True)) (msg ''MCP ping reported an error'')
    (object_at ''structuredContent'' result (msg ''MCP ping structured content is missing'') (\<lambda>structured.
     let project = string_at ''project'' structured
     in ensure (TrimSpace project \<noteq> []) (msg ''MCP ping project is empty'')
       (ensure (map_of structured ''initialized'' = Some (JBool True)) (msg ''terminal-todo project state is not initialized'')
       (ensure (TrimSpace (string_at ''version'' structured) \<noteq> []) (msg ''MCP ping version is empty'')
       (ensure (map_of structured ''protocol_version'' = Some (JString protocolVersion))
          (Errorf ''terminal-todo protocol mismatch: expected %s'' [ArgStr protocolVersion] [])
       (array_at ''capabilities'' structured (msg ''MCP ping capabilities are missing'') (\<lambda>capabilities.
        all_required ''MCP ping capabilities are missing %q'' requiredMCPIntegrationCapabilities
          (advertised_capabilities capabilities [])
       (check_project abs_path dir project (k project))))))))))"

definition finish_peer :: "mcp_peer \<Rightarrow> integrationHealth \<Rightarrow> goerr + integrationHealth" where
  "finish_peer peer health =
     (case peer_Close peer of
        Some err \<Rightarrow> Inl (Errorf ''closing MCP input: %w'' [] [err])
      | None \<Rightarrow>
          (case peer_Wait peer of
             Some err \<Rightarrow>
               Inl (if peer_Expired peer then msg ''MCP handshake timed out''
                    else if TrimSpace (peer_Stderr peer) \<noteq> []
                    then Errorf ''MCP server exited: %s'' [ArgStr (TrimSpace (peer_Stderr peer))] []
                    else Errorf ''MCP server exited: %w'' [] [err])
           | None \<Rightarrow> Inr health))"

definition verifyMCPIntegration ::
  "(string \<Rightarrow> nat \<Rightarrow> bool) \<Rightarrow> (string \<Rightarrow> goerr + string) \<Rightarrow> mcp_peer \<Rightarrow> string \<Rightarrow> string \<Rightarrow> goerr + integrationHealth" where
  "verifyMCPIntegration number_is abs_path peer command dir =
     (case peer_Start peer of
        Some err \<Rightarrow> Inl (Errorf ''starting %q: %w'' [ArgStr command] [err])
      | None \<Rightarrow>
          send peer 0
         (read_response number_is peer 1 1 (\<lambda>initializeResponse.
          check_initialize initializeResponse
         (send peer 1
         (send peer 2
         (read_response number_is peer 3 2 (\<lambda>listResponse.
          check_tools listResponse (\<lambda>tools.
          send peer 3
         (read_response number_is peer 4 3 (\<lambda>pingResponse.
          check_ping abs_path dir pingResponse (\<lambda>project.
          finish_peer peer \<lparr>ToolCount = length tools, ih_Project = project\<rparr>)))))))))))"

section \<open>The live check passes on this server\<close>

text \<open>
  The answers of the MCP server as documents: the fields of the response, of the results of the handshake
  and of \<^verbatim>\<open>todo.ping\<close>. The schema of a tool and the result of another method are parameters.
\<close>

definition ping_json :: "pingResult \<Rightarrow> json" where
  "ping_json r =
     JObject [(''version'', JString (ping_Version r)), (''protocol_version'', JString (ping_ProtocolVersion r)),
              (''project'', JString (ping_Project r)), (''initialized'', JBool (ping_Initialized r)),
              (''capabilities'', JArray (map JString (ping_Capabilities r)))]"

definition value_json :: "(mcp_value \<Rightarrow> json) \<Rightarrow> mcp_value \<Rightarrow> json" where
  "value_json other v = (case v of VResult (RPing r) \<Rightarrow> ping_json r | _ \<Rightarrow> other v)"

definition tool_json :: "(object_schema \<Rightarrow> json) \<Rightarrow> mcpTool \<Rightarrow> json" where
  "tool_json schema t =
     JObject [(''name'', JString (tool_Name t)), (''title'', JString (tool_Title t)),
              (''description'', JString (tool_Description t)), (''inputSchema'', schema (InputSchema t)),
              (''annotations'',
                 JObject [(''readOnlyHint'', JBool (ReadOnlyHint (Annotations t))),
                          (''destructiveHint'', JBool (DestructiveHint (Annotations t))),
                          (''idempotentHint'', JBool (IdempotentHint (Annotations t))),
                          (''openWorldHint'', JBool (OpenWorldHint (Annotations t)))])]"

definition mcp_instructions :: string where
  "mcp_instructions = ''Treat routine coordination as background bookkeeping. Use terminal_todo_acquire for atomic work allocation, heartbeat active leases, record findings with update/log, and complete or release every acquired task. Tell the user about meaningful outcomes and blockers, not every coordination call.''"

definition answer_json :: "(object_schema \<Rightarrow> json) \<Rightarrow> (mcp_value \<Rightarrow> json) \<Rightarrow> mcp_answer \<Rightarrow> json" where
  "answer_json schema other answer =
     (case answer of
        MEmpty \<Rightarrow> JObject []
      | MInitialize protocol v \<Rightarrow>
          JObject [(''protocolVersion'', JString protocol),
                   (''capabilities'', JObject [(''tools'', JObject [(''listChanged'', JBool False)])]),
                   (''serverInfo'', JObject [(''name'', JString ''terminal-todo''), (''title'', JString ''terminal-todo''),
                                            (''version'', JString v)]),
                   (''instructions'', JString mcp_instructions)]
      | MTools tools \<Rightarrow> JObject [(''tools'', JArray (map (tool_json schema) tools))]
      | MCall r \<Rightarrow>
          JObject ([(''content'', JArray [JObject [(''type'', JString ''text''), (''text'', JString (Content r))]]),
                    (''structuredContent'', value_json other (StructuredContent r))]
                   @ (if IsError r then [(''isError'', JBool True)] else [])))"

definition response_json :: "(object_schema \<Rightarrow> json) \<Rightarrow> (mcp_value \<Rightarrow> json) \<Rightarrow> (rpcError \<Rightarrow> json) \<Rightarrow> mcpResponse \<Rightarrow> json" where
  "response_json schema other show_error r =
     JObject [(''jsonrpc'', JString ''2.0''), (''id'', (case mcp_ID r of Some i \<Rightarrow> i | None \<Rightarrow> JNull)),
              (case mcp_Answer r of
                 Inr answer \<Rightarrow> (''result'', answer_json schema other answer)
               | Inl err \<Rightarrow> (''error'', show_error err))]"

text \<open>\<^verbatim>\<open>todo mcp --stdio\<close> as the server of the check: it has answered the lines it has read.\<close>

definition own_peer ::
  "(object_schema \<Rightarrow> json) \<Rightarrow> (mcp_value \<Rightarrow> json) \<Rightarrow> (rpcError \<Rightarrow> json) \<Rightarrow> 'b mcp_env \<Rightarrow> 'b files \<Rightarrow> nat \<Rightarrow> mcp_peer" where
  "own_peer schema other show_error m f turn =
     \<lparr>peer_Start = None, peer_Write = (\<lambda>_. None),
      peer_Read = (\<lambda>sent k.
        case cmdMCP m f turn (map JSONLine sent) of
          Some (out, _) \<Rightarrow> if k < length out then Line (Inr (response_json schema other show_error (out ! k))) else NoLine False None
        | None \<Rightarrow> NoLine False None),
      peer_Stderr = [], peer_Close = None, peer_Wait = None, peer_Expired = False\<rparr>"

lemma decode_sent:
  "decode_request (rpc_request i meth params)
   = Some \<lparr>JSONRPC = ''2.0'', req_ID = map_option (\<lambda>n. JNumber (decimal n)) i, Method = meth, Params = Some params\<rparr>"
  by (cases i) (simp_all add: rpc_request_def decode_request_def request_fields_def find_field_def)

lemma initialize_sent:
  "initialize m (Some (JObject [(''capabilities'', JObject []),
      (''clientInfo'', JObject [(''name'', JString ''terminal-todo-integrate''), (''version'', JString ''1'')]),
      (''protocolVersion'', JString mcpProtocolVersion)])) srv
   = (Inr (MInitialize mcpProtocolVersion (version (backend m))), srv\<lparr>initializeSeen := True\<rparr>)"
proof -
  have "decode_initializeParams (Some (JObject [(''capabilities'', JObject []),
      (''clientInfo'', JObject [(''name'', JString ''terminal-todo-integrate''), (''version'', JString ''1'')]),
      (''protocolVersion'', JString mcpProtocolVersion)]))
    = Inr \<lparr>ini_ProtocolVersion = mcpProtocolVersion,
           ini_ClientInfo = \<lparr>impl_Name = ''terminal-todo-integrate'', impl_Version = ''1''\<rparr>\<rparr>"
    by (simp add: decode_initializeParams_def unmarshalParams_def find_field_def implementation_fields_def)
  then show ?thesis by (simp add: initialize_def mcpProtocolVersion_def)
qed

definition own_ping :: "'b mcp_env \<Rightarrow> bool \<Rightarrow> pingResult" where
  "own_ping m b =
     \<lparr>ping_Version = version (backend m), ping_ProtocolVersion = protocolVersion, ping_Project = projectRoot (backend m),
      ping_Initialized = b,
      ping_Capabilities =
        [''dag'', ''leases'', ''lease_heartbeat'', ''atomic_handoff'', ''atomic_acquire'', ''idempotent_acquire'',
         ''session_bootstrap'', ''compact_receipts'', ''events'', ''event_pages'', ''cross_repository_dependencies'']\<rparr>"

lemma ping_called:
  "\<exists>srv'. callTool m (Some (JObject [(''arguments'', JObject []), (''name'', JString ''terminal_todo_ping'')])) srv
   = Some (Inr (MCall (call_answer m ''terminal_todo_ping''
       (Inr (RPing (own_ping m (w_initialized (mcp_world srv))))))), srv')"
proof -
  have "decode_mcpCallParams (Some (JObject [(''arguments'', JObject []), (''name'', JString ''terminal_todo_ping'')]))
    = Inr \<lparr>call_Name = ''terminal_todo_ping'', call_Arguments = Some (JObject [])\<rparr>"
    by (simp add: decode_mcpCallParams_def unmarshalParams_def find_field_def)
  moreover have "dispatch (backend m) ''todo.ping'' (Some (JObject [])) w = Some (Inr (RPing (own_ping m (w_initialized w))), w)" for w
    by (simp add: dispatch_def method_handlers_def handlePing_def decode_empty_def unmarshalParams_def with_params_def
        respond_def own_ping_def)
  ultimately show ?thesis by (simp add: callTool_def mcpToolMethods_def)
qed

abbreviation own_answers :: "'b mcp_env \<Rightarrow> bool \<Rightarrow> mcpResponse list" where
  "own_answers m b \<equiv>
     [\<lparr>mcp_ID = Some (JNumber (decimal 1)), mcp_Answer = Inr (MInitialize mcpProtocolVersion (version (backend m)))\<rparr>,
      \<lparr>mcp_ID = Some (JNumber (decimal 2)), mcp_Answer = Inr (MTools terminalTodoMCPTools)\<rparr>,
      \<lparr>mcp_ID = Some (JNumber (decimal 3)),
       mcp_Answer = Inr (MCall (call_answer m ''terminal_todo_ping'' (Inr (RPing (own_ping m b)))))\<rparr>]"

lemma handshake_answered:
  fixes m :: "'b mcp_env" and f :: "'b files"
  defines "b \<equiv> file_exists f (tasksBinPath (backend m))"
  shows "\<exists>srv. cmdMCP m f turn (map JSONLine (take 1 handshake_requests)) = Some (take 1 (own_answers m b), srv)"
    "\<exists>srv. cmdMCP m f turn (map JSONLine (take 3 handshake_requests)) = Some (take 2 (own_answers m b), srv)"
    "\<exists>srv. cmdMCP m f turn (map JSONLine (take 4 handshake_requests)) = Some (own_answers m b, srv)"
proof -
  let ?s0 = "mcp_start m f turn"
  let ?s1 = "?s0\<lparr>initializeSeen := True\<rparr>"
  let ?s2 = "?s1\<lparr>mcp_initialized := True\<rparr>"
  let ?r = "\<lambda>k. JSONLine (handshake_requests ! k)"
  have l0: "mcp_line m (?r 0) ?s0 = Some ([own_answers m b ! 0], ?s1)"
    by (simp add: mcp_line_def handshake_requests_def decode_sent mcp_dispatch_def initialize_sent)
  have l1: "mcp_line m (?r 1) ?s1 = Some ([], ?s2)"
    by (simp add: mcp_line_def handshake_requests_def decode_sent mcp_dispatch_def)
  have l2: "mcp_line m (?r 2) ?s2 = Some ([own_answers m b ! 1], ?s2)"
    by (simp add: mcp_line_def handshake_requests_def decode_sent mcp_dispatch_def)
  have "w_initialized (mcp_world ?s2) = b" by (simp add: mcp_start_def b_def)
  with ping_called [of m ?s2] obtain s3 where l3: "mcp_line m (?r 3) ?s2 = Some ([own_answers m b ! 2], s3)"
    by (auto simp: mcp_line_def handshake_requests_def decode_sent mcp_dispatch_def)
  have t: "take 1 handshake_requests = [handshake_requests ! 0]"
    "take 3 handshake_requests = [handshake_requests ! 0, handshake_requests ! 1, handshake_requests ! 2]"
    "take 4 handshake_requests = [handshake_requests ! 0, handshake_requests ! 1, handshake_requests ! 2, handshake_requests ! 3]"
    by (simp_all add: handshake_requests_def)
  show "\<exists>srv. cmdMCP m f turn (map JSONLine (take 1 handshake_requests)) = Some (take 1 (own_answers m b), srv)"
    unfolding t by (simp add: cmdMCP_def l0 [simplified])
  show "\<exists>srv. cmdMCP m f turn (map JSONLine (take 3 handshake_requests)) = Some (take 2 (own_answers m b), srv)"
    unfolding t by (simp add: cmdMCP_def l0 [simplified] l1 [simplified] l2 [simplified])
  show "\<exists>srv. cmdMCP m f turn (map JSONLine (take 4 handshake_requests)) = Some (own_answers m b, srv)"
    unfolding t by (simp add: cmdMCP_def l0 [simplified] l1 [simplified] l2 [simplified] l3 [simplified])
qed

lemma advertised_tools_names:
  assumes "distinct (map tool_Name ts)" "[] \<notin> set (map tool_Name ts)" "set (map tool_Name ts) \<inter> set seen = {}"
  shows "\<exists>names. advertised_tools (map (tool_json schema) ts) seen = Inr names \<and> set names = set (map tool_Name ts) \<union> set seen"
  using assms
proof (induction ts arbitrary: seen)
  case (Cons t ts)
  then obtain names where names: "advertised_tools (map (tool_json schema) ts) (tool_Name t # seen) = Inr names"
    "set names = set (map tool_Name ts) \<union> set (tool_Name t # seen)"
    using Cons.IH [of "tool_Name t # seen"] by auto
  obtain kvs where "tool_json schema t = JObject kvs" "string_at ''name'' kvs = tool_Name t"
    by (simp add: tool_json_def string_at_def)
  with Cons.prems names show ?case by (auto simp: Let_def)
qed simp

lemma all_required_present:
  "set required \<subseteq> set names \<Longrightarrow> all_required t required (Inr names) k = k"
  by (auto simp: all_required_def find_None_iff split: option.split) (metis find_Some_iff nth_mem subsetD)

lemma own_initialize:
  assumes "\<forall>n. number_is (decimal n) n"
  shows "read_response number_is (own_peer schema other show_error m f turn) 1 1 (\<lambda>response. check_initialize response k) = k"
proof -
  obtain srv where "cmdMCP m f turn (map JSONLine (take 1 handshake_requests))
      = Some (take 1 (own_answers m (file_exists f (tasksBinPath (backend m)))), srv)"
    using handshake_answered(1) by blast
  then show ?thesis
    by (simp add: read_response_def own_peer_def response_json_def ensure_def assms check_initialize_def object_at_def
        answer_json_def)
qed

lemma own_tools:
  assumes "\<forall>n. number_is (decimal n) n"
  shows "read_response number_is (own_peer schema other show_error m f turn) 3 2 (\<lambda>response. check_tools response k)
    = k (map (tool_json schema) terminalTodoMCPTools)"
proof -
  obtain srv where r: "cmdMCP m f turn (map JSONLine (take 3 handshake_requests))
      = Some (take 2 (own_answers m (file_exists f (tasksBinPath (backend m)))), srv)"
    using handshake_answered(2) by blast
  have some: "terminalTodoMCPTools \<noteq> []" "[] \<notin> set (map tool_Name terminalTodoMCPTools)"
    by (simp add: terminalTodoMCPTools_def work_tools_def, simp only: tool_names, simp add: mcpToolMethods_def)
  obtain names where n: "advertised_tools (map (tool_json schema) terminalTodoMCPTools) [] = Inr names"
    "set names = fst ` set mcpToolMethods"
    using advertised_tools_names [of terminalTodoMCPTools "[]" schema] some tool_names by auto
  have "set requiredMCPIntegrationTools \<subseteq> set names"
    by (simp add: n(2) requiredMCPIntegrationTools_def mcpToolMethods_def)
  then show ?thesis
    using r some(1)
    by (simp add: read_response_def own_peer_def response_json_def ensure_def assms check_tools_def object_at_def
        array_at_def answer_json_def n(1) all_required_present)
qed

lemma own_ping_passes:
  assumes "\<forall>n. number_is (decimal n) n" "Marshal_ok m (VResult (RPing (own_ping m True)))" "file_exists f (tasksBinPath (backend m))"
    "TrimSpace (version (backend m)) \<noteq> []" "TrimSpace (projectRoot (backend m)) \<noteq> []"
    "abs_path (projectRoot (backend m)) = Inr path"
  shows "read_response number_is (own_peer schema other show_error m f turn) 4 3
      (\<lambda>response. check_ping abs_path (projectRoot (backend m)) response k) = k (projectRoot (backend m))"
proof -
  obtain srv where r: "cmdMCP m f turn (map JSONLine (take 4 handshake_requests)) = Some (own_answers m True, srv)"
    using handshake_answered(3) [of m f turn] assms(3) by auto
  have "advertised_capabilities (map JString (ping_Capabilities (own_ping m True))) [] = Inr (rev (ping_Capabilities (own_ping m True)))"
    by (simp add: own_ping_def)
  moreover have "set requiredMCPIntegrationCapabilities \<subseteq> set (rev (ping_Capabilities (own_ping m True)))"
    by (simp add: requiredMCPIntegrationCapabilities_def own_ping_def)
  ultimately have capabilities:
    "all_required t requiredMCPIntegrationCapabilities (advertised_capabilities (map JString (ping_Capabilities (own_ping m True))) []) k' = k'"
    for t k' by (simp add: all_required_present)
  have p: "ping_Version (own_ping m True) = version (backend m)" "ping_ProtocolVersion (own_ping m True) = protocolVersion"
    "ping_Project (own_ping m True) = projectRoot (backend m)" "ping_Initialized (own_ping m True)"
    by (simp_all add: own_ping_def)
  show ?thesis
    using r assms(4-6)
    by (simp add: read_response_def own_peer_def response_json_def ensure_def assms(1,2) check_ping_def object_at_def
        array_at_def string_at_def answer_json_def call_answer_def newMCPCallResult_def value_json_def ping_json_def
        Let_def check_project_def p capabilities)
qed

text \<open>
  C38: \<^verbatim>\<open>todo integrate --check --live\<close> passes on the server of this very program. If the project is
  initialized, run against \<^verbatim>\<open>todo mcp --stdio\<close> in the same directory the handshake succeeds: the server
  negotiates the version the client asks for, advertises every tool and every capability the client
  requires, each once, and names the same project.
\<close>

theorem live_check_passes:
  assumes "\<forall>n. number_is (decimal n) n" "Marshal_ok m (VResult (RPing (own_ping m True)))"
    "file_exists f (tasksBinPath (backend m))" "TrimSpace (version (backend m)) \<noteq> []"
    "TrimSpace (projectRoot (backend m)) \<noteq> []" "abs_path (projectRoot (backend m)) = Inr path"
  shows "verifyMCPIntegration number_is abs_path (own_peer schema other show_error m f turn) command (projectRoot (backend m))
    = Inr \<lparr>ToolCount = length terminalTodoMCPTools, ih_Project = projectRoot (backend m)\<rparr>"
proof -
  let ?peer = "own_peer schema other show_error m f turn"
  have os: "peer_Start ?peer = None" "send ?peer n k = k" "finish_peer ?peer health = Inr health" for n k health
    by (simp_all add: own_peer_def send_def finish_peer_def)
  show ?thesis
    by (simp add: verifyMCPIntegration_def os own_initialize [where number_is = number_is, OF assms(1)]
        own_tools [where number_is = number_is, OF assms(1)] own_ping_passes [where number_is = number_is and m = m and f = f and abs_path = abs_path and path = path, OF assms] del: One_nat_def)
qed

section \<open>Witnesses\<close>

instance json :: countable
  by countable_datatype

definition sample_json :: json_any where
  "sample_json =
     (let marshal = (\<lambda>v. replicate (to_nat (v :: json)) CHR ''x'')
      in \<lparr>any_Unmarshal = (\<lambda>s.
             let v = from_nat (length s - 1)
             in if is_value (\<lambda>_. False) v \<and> s = marshal v @ newline then Inr v else Inl (msg ''invalid'')),
          any_MarshalIndent = marshal, any_number = (\<lambda>_. False)\<rparr>)"

lemma sample_json_laws: "json_laws sample_json"
  by (auto simp: json_laws_def sample_json_def Let_def newline_def split: if_splits)

definition no_install_errors :: install_errors where
  "no_install_errors = \<lparr>ie_MkdirAll = None, ie_CreateTemp = None, ie_Chmod = None, ie_Write = None, ie_Sync = None,
     ie_Close = None, ie_Rename = None\<rparr>"

definition sample_integration :: integrate_env where
  "sample_integration =
     \<lparr>int_Root = ''/p'', int_ToLower = id, int_IsPrint = (\<lambda>_. True), int_JSON = sample_json, int_Skill = ''skill'',
      int_OpenAIAgentMetadata = ''agent'', int_Rel = (\<lambda>_ _. None), int_Errors = (\<lambda>_. no_install_errors)\<rparr>"

lemma install_sample:
  "\<forall>f \<in> set fs. if_Changed f \<Longrightarrow> \<exists>printed n disk'. install_files sample_integration False fs disk = (printed, n, None, disk')"
proof (induction fs arbitrary: disk)
  case (Cons f fs)
  then obtain printed n disk' where
    "install_files sample_integration False fs (disk(if_Path f := FileText (if_Content f))) = (printed, n, None, disk')" by fastforce
  with Cons.prems show ?case
    by (simp add: writeIntegrationFile_def sample_integration_def no_install_errors_def)
qed simp


lemma live_check_passes_witness:
  "verifyMCPIntegration (\<lambda>n i. n = decimal i) Inr
      (own_peer (\<lambda>_. JNull) (\<lambda>_. JNull) (\<lambda>_. JNull) sample_mcp (sample_files (FileBytes two_store)) 0) ''todo'' (projectRoot sample_env)
    = Inr \<lparr>ToolCount = length terminalTodoMCPTools, ih_Project = projectRoot sample_env\<rparr>"
proof -
  have s: "TrimSpace (version sample_env) \<noteq> []" "TrimSpace (projectRoot sample_env) \<noteq> []"
    by (simp_all add: sample_env_def) code_simp+
  show ?thesis
    using live_check_passes [of "\<lambda>n i. n = decimal i" sample_mcp "sample_files (FileBytes two_store)" Inr "projectRoot sample_env"] s
    by (simp add: sample_mcp_def file_exists_def)
qed

end
