(* ===== verification/Hosts.thy ===== *)
theory Hosts
  imports Evaluation Integrate
begin

text \<open>
  The adapters for the two agent hosts (\<^verbatim>\<open>conformance/hosts.go\<close>) and the choice of their model
  (\<^verbatim>\<open>applyConformanceModel\<close> of \<^verbatim>\<open>cmd_conformance.go\<close>): the command lines that start and resume a session,
  and how the session identifier is read from the output. The result is that a prompt reaches the host on
  its standard input and never as an argument. \<open>is_print\<close> is \<^verbatim>\<open>strconv.IsPrint\<close> as in \<open>Integrate\<close>,
  \<open>parse\<close> is \<^verbatim>\<open>json.Unmarshal\<close> into a value.
\<close>

section \<open>Options\<close>

abbreviation "ConformanceWorkspacePlaceholder \<equiv> ''{workspace}''"
abbreviation "ConformancePromptPlaceholder \<equiv> ''{prompt}''"
abbreviation "CodexProjectConfigFile \<equiv> ''.codex/config.toml''"
abbreviation "ClaudeProjectMCPConfigFile \<equiv> ''.mcp.json''"

definition ConformanceTraceEnvironment :: string where
  "ConformanceTraceEnvironment = ''TERMINAL_TODO_CONFORMANCE_TRACE''"

record MachineHostOptions =
  opt_Executable :: string
  opt_MCPExecutable :: string
  opt_Version :: string
  opt_Model :: string
  opt_IntegrationVersion :: string
  opt_Prompt :: string
  opt_PersistentSessions :: bool

definition validateMachineHostOptions :: "MachineHostOptions \<Rightarrow> goerr option" where
  "validateMachineHostOptions options =
     (if TrimSpace (opt_Executable options) = [] then Some (msg ''conformance host executable is required'')
      else if TrimSpace (opt_Prompt options) = [] then Some (msg ''conformance host prompt is required'')
      else None)"

section \<open>Sessions\<close>

definition validateSessionID :: "string \<Rightarrow> goerr option" where
  "validateSessionID sessionID =
     (let sessionID = TrimSpace sessionID
      in if sessionID = [] then Some (msg ''conformance host session ID is required'')
         else if length sessionID > 256 then Some (msg ''conformance host session ID exceeds 256 bytes'')
         else None)"

text \<open>\<^verbatim>\<open>json.Unmarshal\<close> into a struct: members without a field are skipped.\<close>

fun fill_struct :: "'r fields \<Rightarrow> (string \<times> json) list \<Rightarrow> 'r \<Rightarrow> 'r option" where
  "fill_struct fs [] r = Some r"
| "fill_struct fs ((name, v) # rest) r =
     (case find_field fs name of
        None \<Rightarrow> fill_struct fs rest r
      | Some set' \<Rightarrow> (case set' v r of None \<Rightarrow> None | Some r \<Rightarrow> fill_struct fs rest r))"

fun unmarshal_struct :: "'r fields \<Rightarrow> json option \<Rightarrow> 'r \<Rightarrow> 'r option" where
  "unmarshal_struct fs (Some JNull) r = Some r"
| "unmarshal_struct fs (Some (JObject kvs)) r = fill_struct fs kvs r"
| "unmarshal_struct fs _ r = None"

record codex_event =
  cx_Type :: string
  cx_ThreadID :: string

definition codex_event_fields :: "codex_event fields" where
  "codex_event_fields =
     [(''type'', set_string (\<lambda>v. cx_Type_update (\<lambda>_. v))), (''thread_id'', set_string (\<lambda>v. cx_ThreadID_update (\<lambda>_. v)))]"

definition codexSessionID :: "(string \<Rightarrow> json option) \<Rightarrow> Stream \<Rightarrow> string \<Rightarrow> string option" where
  "codexSessionID parse stream bytes =
     (if stream \<noteq> StreamStdout then None
      else
        (case unmarshal_struct codex_event_fields (parse bytes) \<lparr>cx_Type = [], cx_ThreadID = []\<rparr> of
           None \<Rightarrow> None
         | Some val \<Rightarrow>
             if cx_Type val \<noteq> ''thread.started'' \<or> TrimSpace (cx_ThreadID val) = [] then None
             else Some (TrimSpace (cx_ThreadID val))))"

record claude_event =
  cl_Type :: string
  cl_Subtype :: string
  cl_SessionID :: string

definition claude_event_fields :: "claude_event fields" where
  "claude_event_fields =
     [(''type'', set_string (\<lambda>v. cl_Type_update (\<lambda>_. v))), (''subtype'', set_string (\<lambda>v. cl_Subtype_update (\<lambda>_. v))),
      (''session_id'', set_string (\<lambda>v. cl_SessionID_update (\<lambda>_. v)))]"

definition claudeSessionID :: "(string \<Rightarrow> json option) \<Rightarrow> Stream \<Rightarrow> string \<Rightarrow> string option" where
  "claudeSessionID parse stream bytes =
     (if stream \<noteq> StreamStdout then None
      else
        (case unmarshal_struct claude_event_fields (parse bytes) \<lparr>cl_Type = [], cl_Subtype = [], cl_SessionID = []\<rparr> of
           None \<Rightarrow> None
         | Some val \<Rightarrow>
             if TrimSpace (cl_SessionID val) = [] then None
             else if cl_Type val = ''system'' \<and> cl_Subtype val = ''init'' \<or> cl_Type val = ''result''
             then Some (TrimSpace (cl_SessionID val))
             else None))"

section \<open>The Codex host\<close>

definition codexMCPEnvironmentOverride :: "(string \<Rightarrow> bool) \<Rightarrow> string" where
  "codexMCPEnvironmentOverride is_print =
     ''mcp_servers.terminal-todo.env_vars=[''
     @ Join '','' (map (Quote is_print) [ConformanceTraceEnvironment, conformanceActorEnvironment, clockEnvironment]) @ '']''"

definition codex_run_args :: "(string \<Rightarrow> bool) \<Rightarrow> bool \<Rightarrow> string \<Rightarrow> string list" where
  "codex_run_args is_print persistent mcpExecutable =
     [''--ask-for-approval'', ''never'', ''exec'']
     @ (if persistent then [] else [''--ephemeral''])
     @ [''--json'', ''--color'', ''never'', ''--strict-config'', ''--sandbox'', ''workspace-write'',
        ''-C'', ConformanceWorkspacePlaceholder, ''--skip-git-repo-check'',
        ''-c'', ''mcp_servers.terminal-todo.command='' @ Quote is_print mcpExecutable,
        ''-c'', ''mcp_servers.terminal-todo.args=[\"mcp\",\"--stdio\"]'',
        ''-c'', ''mcp_servers.terminal-todo.required=true'',
        ''-c'', codexMCPEnvironmentOverride is_print]"

definition codex_resume_args :: "(string \<Rightarrow> bool) \<Rightarrow> string \<Rightarrow> string \<Rightarrow> string list" where
  "codex_resume_args is_print mcpExecutable sessionID =
     [''--ask-for-approval'', ''never'', ''exec'', ''resume'', ''--json'', ''--strict-config'', ''--skip-git-repo-check'',
      ''-c'', ''mcp_servers.terminal-todo.command='' @ Quote is_print mcpExecutable,
      ''-c'', ''mcp_servers.terminal-todo.args=[\"mcp\",\"--stdio\"]'',
      ''-c'', ''mcp_servers.terminal-todo.required=true'',
      ''-c'', codexMCPEnvironmentOverride is_print, sessionID, ''-'']"

definition prompt_command :: "string \<Rightarrow> string list \<Rightarrow> string \<Rightarrow> Command" where
  "prompt_command executable args prompt =
     \<lparr>Executable = executable, Args = args, Env = [], Stdin = ConformancePromptPlaceholder, Prompt = prompt, CleanEnv = False\<rparr>"

definition preflight_command :: "string \<Rightarrow> string list \<Rightarrow> Command" where
  "preflight_command executable args =
     \<lparr>Executable = executable, Args = args, Env = [], Stdin = [], Prompt = [], CleanEnv = False\<rparr>"

definition skip_rule :: "FailureKind \<Rightarrow> string \<Rightarrow> FailureRule" where
  "skip_rule kind contains =
     \<lparr>rule_Kind = kind, rule_Disposition = DispositionSkip, rule_Stream = StreamAny, rule_Contains = contains\<rparr>"

definition codex_resume :: "(string \<Rightarrow> bool) \<Rightarrow> string \<Rightarrow> string \<Rightarrow> string \<Rightarrow> string \<Rightarrow> goerr + Command" where
  "codex_resume is_print executable mcpExecutable sessionID prompt =
     (case validateSessionID sessionID of
        Some err \<Rightarrow> Inl err
      | None \<Rightarrow> Inr (prompt_command executable (codex_resume_args is_print mcpExecutable sessionID) prompt))"

definition NewCodexHost ::
  "(string \<Rightarrow> bool) \<Rightarrow> (string \<Rightarrow> json option) \<Rightarrow> MachineHostOptions \<Rightarrow> goerr + Host" where
  "NewCodexHost is_print parse options =
     (case validateMachineHostOptions options of
        Some err \<Rightarrow> Inl err
      | None \<Rightarrow>
          if TrimSpace (opt_MCPExecutable options) = [] then Inl (msg ''conformance MCP executable is required'')
          else
            (let executable = TrimSpace (opt_Executable options);
                 mcpExecutable = TrimSpace (opt_MCPExecutable options);
                 persistent = opt_PersistentSessions options
             in Inr
                  \<lparr>host_Name = ''codex'', host_Version = TrimSpace (opt_Version options),
                   host_Model = TrimSpace (opt_Model options), host_Transport = ''mcp'',
                   host_IntegrationVersion = TrimSpace (opt_IntegrationVersion options),
                   Preflight = Some (preflight_command executable [''login'', ''status'']),
                   host_Run = prompt_command executable (codex_run_args is_print persistent mcpExecutable) (opt_Prompt options),
                   Resume = (if persistent then Some (codex_resume is_print executable mcpExecutable) else None),
                   ExtractSessionID = (if persistent then Some (codexSessionID parse) else None),
                   FailureRules =
                     [skip_rule FailureAuthentication ''not logged in'',
                      skip_rule FailureAuthentication ''authentication_failed'',
                      skip_rule FailureApproval ''approval required'']\<rparr>))"

section \<open>The Claude host\<close>

definition claude_run_args :: "bool \<Rightarrow> string list" where
  "claude_run_args persistent =
     [''-p'', ''--output-format'', ''stream-json'', ''--verbose'']
     @ (if persistent then [] else [''--no-session-persistence''])
     @ [''--no-chrome'', ''--prompt-suggestions'', ''false'', ''--permission-mode'', ''dontAsk'',
        ''--allowedTools'', ''mcp__terminal-todo__*'',
        ''--mcp-config'', ConformanceWorkspacePlaceholder @ ''/'' @ ClaudeProjectMCPConfigFile, ''--strict-mcp-config'']"

definition claude_resume :: "string \<Rightarrow> string list \<Rightarrow> string \<Rightarrow> string \<Rightarrow> goerr + Command" where
  "claude_resume executable runArgs sessionID prompt =
     (case validateSessionID sessionID of
        Some err \<Rightarrow> Inl err
      | None \<Rightarrow> Inr (prompt_command executable (runArgs @ [''--resume'', sessionID]) prompt))"

definition NewClaudeHost :: "(string \<Rightarrow> json option) \<Rightarrow> MachineHostOptions \<Rightarrow> goerr + Host" where
  "NewClaudeHost parse options =
     (case validateMachineHostOptions options of
        Some err \<Rightarrow> Inl err
      | None \<Rightarrow>
          (let executable = TrimSpace (opt_Executable options);
               persistent = opt_PersistentSessions options;
               runArgs = claude_run_args persistent
           in Inr
                \<lparr>host_Name = ''claude'', host_Version = TrimSpace (opt_Version options),
                 host_Model = TrimSpace (opt_Model options), host_Transport = ''mcp'',
                 host_IntegrationVersion = TrimSpace (opt_IntegrationVersion options),
                 Preflight = Some (preflight_command executable [''auth'', ''status'']),
                 host_Run = prompt_command executable runArgs (opt_Prompt options),
                 Resume = (if persistent then Some (claude_resume executable runArgs) else None),
                 ExtractSessionID = (if persistent then Some (claudeSessionID parse) else None),
                 FailureRules =
                   [skip_rule FailureApproval ''pending approval'',
                    skip_rule FailureAuthentication ''not logged in'',
                    skip_rule FailureAuthentication ''\"loggedIn\":false'',
                    skip_rule FailureAuthentication ''\"loggedIn\": false'',
                    skip_rule FailureAuthentication ''authentication_failed'',
                    skip_rule FailureAuthentication ''invalid api key'']\<rparr>))"

section \<open>The model\<close>

text \<open>The position behind the last argument that is \<^verbatim>\<open>exec\<close> or \<^verbatim>\<open>resume\<close>; \<open>index\<close> counts the arguments before.\<close>

fun model_position :: "nat \<Rightarrow> nat \<Rightarrow> string list \<Rightarrow> nat" where
  "model_position insertAt index [] = insertAt"
| "model_position insertAt index (argument # args) =
     model_position (if argument = ''exec'' \<or> argument = ''resume'' then index + 1 else insertAt) (index + 1) args"

definition insertConformanceModelArgs :: "string \<Rightarrow> string list \<Rightarrow> string \<Rightarrow> string list" where
  "insertConformanceModelArgs hostName arguments model =
     (if hostName \<noteq> ''codex'' then arguments @ [''--model'', model]
      else (let insertAt = model_position 0 0 arguments
            in take insertAt arguments @ [''--model'', model] @ drop insertAt arguments))"

definition applyConformanceModel :: "Host \<Rightarrow> string \<Rightarrow> Host" where
  "applyConformanceModel host model =
     (if TrimSpace model = [] then host
      else host
        \<lparr>host_Run := (host_Run host)\<lparr>Args := insertConformanceModelArgs (host_Name host) (Args (host_Run host)) model\<rparr>,
         Resume := map_option (\<lambda>resume sessionID prompt.
           map_sum id (\<lambda>command. command\<lparr>Args := insertConformanceModelArgs (host_Name host) (Args command) model\<rparr>)
             (resume sessionID prompt)) (Resume host)\<rparr>)"

section \<open>Prompts stay out of the command line\<close>

text \<open>The command of a turn: a fresh session, or one that is resumed.\<close>

definition host_command :: "Host \<Rightarrow> string option \<Rightarrow> string \<Rightarrow> goerr + Command" where
  "host_command host session prompt =
     (case session of
        None \<Rightarrow> Inr ((host_Run host)\<lparr>Prompt := prompt\<rparr>)
      | Some i \<Rightarrow> (case Resume host of None \<Rightarrow> Inl (msg ''no session support'') | Some resume \<Rightarrow> resume i prompt))"

lemma ReplaceAll_absent: "old \<noteq> [] \<Longrightarrow> \<not> sublist old s \<Longrightarrow> ReplaceAll s old repl = s"
  by (subst ReplaceAll.simps) (simp add: Index_None [THEN iffD2])

lemma no_brace: "CHR ''{'' \<notin> set s \<Longrightarrow> \<not> sublist (CHR ''{'' # t) s"
  by (meson list.set_intros(1) set_mono_sublist subsetD)

text \<open>An argument that has no brace once the workspace is filled in does not depend on the prompt.\<close>

definition prompt_free :: "string \<Rightarrow> string \<Rightarrow> bool" where
  "prompt_free workspace val \<longleftrightarrow> CHR ''{'' \<notin> set (ReplaceAll val ConformanceWorkspacePlaceholder workspace)"

lemma expand_prompt_free: "prompt_free workspace val \<Longrightarrow> expand val workspace prompt = expand val workspace other"
  by (simp add: expand_def prompt_free_def ReplaceAll_absent no_brace)

lemma expand_stdin: "expand ConformancePromptPlaceholder workspace prompt = prompt"
proof -
  have "\<not> sublist ConformanceWorkspacePlaceholder ConformancePromptPlaceholder"
    by (simp add: Contains_sublist [symmetric]) code_simp
  then show ?thesis
    by (simp add: expand_def ReplaceAll_absent) (subst ReplaceAll.simps, simp add: HasPrefix_def, simp add: ReplaceAll.simps)
qed

lemma prompt_free_plain: "CHR ''{'' \<notin> set val \<Longrightarrow> prompt_free workspace val"
  by (simp add: prompt_free_def ReplaceAll_absent no_brace)

lemma prompt_free_workspace: "CHR ''{'' \<notin> set workspace \<Longrightarrow> CHR ''{'' \<notin> set rest \<Longrightarrow>
    prompt_free workspace (ConformanceWorkspacePlaceholder @ rest)"
  by (simp add: prompt_free_def) (subst ReplaceAll.simps, simp add: HasPrefix_def ReplaceAll_absent no_brace)

text \<open>What is quoted has a brace only where the text has one.\<close>

lemma hex_digits_no_brace: "CHR ''{'' \<notin> set (hex_digits width n)"
proof -
  have "hex_digit d \<noteq> CHR ''{''" if "d < 16" for d
    using that by (auto simp: hex_digit_def less_Suc_eq numeral_eq_Suc)
  then have "hex_digit (m mod 16) \<noteq> CHR ''{''" for m by simp
  then show ?thesis by (auto simp: hex_digits_def dest!: sym [of "CHR ''{''"])
qed

lemma appendEscapedRune_no_brace: "CHR ''{'' \<notin> set s \<Longrightarrow> s \<noteq> [] \<Longrightarrow> CHR ''{'' \<notin> set (appendEscapedRune is_print s)"
  by (cases s) (auto simp: appendEscapedRune_def control_escapes_def hex_digits_no_brace Let_def dest: in_set_takeD split: if_splits)

lemma quote_body_no_brace: "CHR ''{'' \<notin> set s \<Longrightarrow> CHR ''{'' \<notin> set (quote_body is_print s)"
proof (induction is_print s rule: quote_body.induct)
  case (1 is_print s)
  have "CHR ''{'' \<notin> set (tl s)" "CHR ''{'' \<notin> set (drop n s)" for n
    using "1.prems" by (cases s, auto dest: in_set_dropD)
  with 1 show ?case
    by (subst quote_body.simps) (simp add: hex_digits_no_brace appendEscapedRune_no_brace)
qed

lemma Quote_no_brace: "CHR ''{'' \<notin> set s \<Longrightarrow> CHR ''{'' \<notin> set (Quote is_print s)"
  using quote_body_no_brace by (simp add: Quote_def)

lemma codex_args_prompt_free:
  assumes "CHR ''{'' \<notin> set workspace" "CHR ''{'' \<notin> set mcpExecutable"
  shows "list_all (prompt_free workspace) (codex_run_args is_print persistent mcpExecutable)"
    "CHR ''{'' \<notin> set sessionID \<Longrightarrow> list_all (prompt_free workspace) (codex_resume_args is_print mcpExecutable sessionID)"
proof -
  have names: "CHR ''{'' \<notin> set (codexMCPEnvironmentOverride is_print)"
    by (simp add: codexMCPEnvironmentOverride_def Quote_no_brace ConformanceTraceEnvironment_def
        conformanceActorEnvironment_def clockEnvironment_def)
  note simps = prompt_free_plain Quote_no_brace assms names prompt_free_workspace [of workspace "[]", simplified]
  show "list_all (prompt_free workspace) (codex_run_args is_print persistent mcpExecutable)"
    by (simp add: codex_run_args_def simps)
  show "CHR ''{'' \<notin> set sessionID \<Longrightarrow> list_all (prompt_free workspace) (codex_resume_args is_print mcpExecutable sessionID)"
    by (simp add: codex_resume_args_def simps)
qed

lemma claude_args_prompt_free:
  "CHR ''{'' \<notin> set workspace \<Longrightarrow> list_all (prompt_free workspace) (claude_run_args persistent)"
  by (simp add: claude_run_args_def prompt_free_plain prompt_free_workspace [of workspace "''/.mcp.json''", simplified])

lemma model_args_prompt_free:
  "list_all (prompt_free workspace) args \<Longrightarrow> CHR ''{'' \<notin> set model \<Longrightarrow>
     list_all (prompt_free workspace) (insertConformanceModelArgs hostName args model)"
  by (auto simp: insertConformanceModelArgs_def Let_def prompt_free_plain list_all_iff dest: in_set_takeD in_set_dropD)

lemma TrimLeft_drop: "\<exists>k. TrimLeft s = drop k s"
proof (induction s rule: TrimLeft.induct)
  case (1 s)
  show ?case
  proof (cases "space_len s = 0")
    case True
    then have "TrimLeft s = drop 0 s" by (subst TrimLeft.simps) simp
    then show ?thesis by blast
  next
    case False
    with 1 obtain k where "TrimLeft (drop (space_len s) s) = drop k (drop (space_len s) s)" by blast
    with False have "TrimLeft s = drop (k + space_len s) s" by (subst TrimLeft.simps) simp
    then show ?thesis by blast
  qed
qed

lemma TrimSpace_subset: "set (TrimSpace s) \<subseteq> set s"
  using TrimLeft_drop [of s] TrimRight_take [of "TrimLeft s"] set_take_subset set_drop_subset
  by (fastforce simp: TrimSpace_def)

text \<open>A command that reads its prompt from the standard input, with nothing else that depends on it.\<close>

definition stdin_prompt :: "string \<Rightarrow> Command \<Rightarrow> bool" where
  "stdin_prompt workspace c \<longleftrightarrow>
     Stdin c = ConformancePromptPlaceholder \<and> prompt_free workspace (Executable c) \<and> list_all (prompt_free workspace) (Args c)"

lemma launch_stdin_prompt:
  assumes "stdin_prompt workspace c" "\<forall>(key, val) \<in> set env. prompt_free workspace val"
  shows "l_Stdin (launch_of vars clock workspace (c\<lparr>Prompt := prompt, Env := env\<rparr>)) = prompt"
    "launch_of vars clock workspace (c\<lparr>Prompt := other, Env := env\<rparr>)
       = (launch_of vars clock workspace (c\<lparr>Prompt := prompt, Env := env\<rparr>))\<lparr>l_Stdin := other\<rparr>"
proof -
  have "expand (the (map_of env key)) workspace other = expand (the (map_of env key)) workspace prompt"
    if key: "key \<in> set (sort_Strings (map fst env))" for key
  proof -
    from key have "map_of env key \<noteq> None" by (simp add: map_of_eq_None_iff)
    then obtain val where "map_of env key = Some val" by blast
    with assms(2) show ?thesis by (auto dest!: map_of_SomeD simp: expand_prompt_free [of workspace val other prompt])
  qed
  then have "commandEnvironment vars clock (c\<lparr>Prompt := other, Env := env\<rparr>) workspace
      = commandEnvironment vars clock (c\<lparr>Prompt := prompt, Env := env\<rparr>) workspace"
    by (simp add: commandEnvironment_def)
  moreover have "map (\<lambda>arg. expand arg workspace other) (Args c) = map (\<lambda>arg. expand arg workspace prompt) (Args c)"
    using assms(1) by (auto simp: stdin_prompt_def list_all_iff expand_prompt_free [of workspace _ other prompt])
  moreover have "expand (Executable c) workspace other = expand (Executable c) workspace prompt"
    using assms(1) by (simp add: stdin_prompt_def expand_prompt_free [of workspace _ other prompt])
  ultimately show "launch_of vars clock workspace (c\<lparr>Prompt := other, Env := env\<rparr>)
       = (launch_of vars clock workspace (c\<lparr>Prompt := prompt, Env := env\<rparr>))\<lparr>l_Stdin := other\<rparr>"
    using assms(1) by (simp add: launch_of_def stdin_prompt_def expand_stdin)
  show "l_Stdin (launch_of vars clock workspace (c\<lparr>Prompt := prompt, Env := env\<rparr>)) = prompt"
    using assms(1) by (simp add: launch_of_def stdin_prompt_def expand_stdin)
qed

text \<open>A host whose commands read the prompt from the standard input, for sessions without a brace.\<close>

definition stdin_host :: "string \<Rightarrow> Host \<Rightarrow> bool" where
  "stdin_host workspace host \<longleftrightarrow>
     stdin_prompt workspace (host_Run host)
     \<and> (\<forall>resume i prompt other c. Resume host = Some resume \<longrightarrow> CHR ''{'' \<notin> set i \<longrightarrow> resume i prompt = Inr c \<longrightarrow>
          stdin_prompt workspace c \<and> Prompt c = prompt \<and> resume i other = Inr (c\<lparr>Prompt := other\<rparr>))"

lemma stdin_codex:
  assumes "NewCodexHost is_print parse options = Inr host" "CHR ''{'' \<notin> set workspace"
    "CHR ''{'' \<notin> set (opt_Executable options)" "CHR ''{'' \<notin> set (opt_MCPExecutable options)"
  shows "stdin_host workspace host"
proof -
  have "CHR ''{'' \<notin> set (TrimSpace (opt_Executable options))" "CHR ''{'' \<notin> set (TrimSpace (opt_MCPExecutable options))"
    using assms(3,4) TrimSpace_subset by blast+
  note free = prompt_free_plain [OF this(1)] codex_args_prompt_free [OF assms(2) this(2)]
  show ?thesis
    using assms(1) free
    by (auto simp: NewCodexHost_def stdin_host_def stdin_prompt_def prompt_command_def codex_resume_def Let_def
        split: option.splits if_splits)
qed

lemma stdin_claude:
  assumes "NewClaudeHost parse options = Inr host" "CHR ''{'' \<notin> set workspace" "CHR ''{'' \<notin> set (opt_Executable options)"
  shows "stdin_host workspace host"
proof -
  have "CHR ''{'' \<notin> set (TrimSpace (opt_Executable options))" using assms(3) TrimSpace_subset by blast
  note free = prompt_free_plain [OF this] claude_args_prompt_free [OF assms(2)]
  show ?thesis
    using assms(1) free
    by (auto simp: NewClaudeHost_def stdin_host_def stdin_prompt_def prompt_command_def claude_resume_def Let_def
        prompt_free_plain split: option.splits if_splits)
qed

lemma stdin_model:
  assumes "stdin_host workspace host" "CHR ''{'' \<notin> set model"
  shows "stdin_host workspace (applyConformanceModel host model)"
proof (cases "TrimSpace model = []")
  case False
  have args: "stdin_prompt workspace (c\<lparr>Args := insertConformanceModelArgs name (Args c) model\<rparr>)"
    if "stdin_prompt workspace c" for c name
    using that model_args_prompt_free [OF _ assms(2)] by (simp add: stdin_prompt_def)
  show ?thesis unfolding stdin_host_def
  proof (intro conjI allI impI)
    show "stdin_prompt workspace (host_Run (applyConformanceModel host model))"
      using assms(1) False args [of "host_Run host"] by (simp add: stdin_host_def applyConformanceModel_def)
  next
    fix resume i prompt other c
    assume r: "Resume (applyConformanceModel host model) = Some resume" "CHR ''{'' \<notin> set i" "resume i prompt = Inr c"
    let ?add = "\<lambda>c. c\<lparr>Args := insertConformanceModelArgs (host_Name host) (Args c) model\<rparr>"
    from r(1) False obtain old where old: "Resume host = Some old" "resume = (\<lambda>i prompt. map_sum id ?add (old i prompt))"
      by (auto simp: applyConformanceModel_def)
    from r(3) old(2) obtain c' where c': "old i prompt = Inr c'" "c = ?add c'" by (cases "old i prompt") auto
    from assms(1) old(1) r(2) c'(1)
    have o: "stdin_prompt workspace c'" "Prompt c' = prompt" "old i other = Inr (c'\<lparr>Prompt := other\<rparr>)"
      unfolding stdin_host_def by blast+
    from o args [OF o(1), of "host_Name host"] c'(2) old(2)
    show "stdin_prompt workspace c" "Prompt c = prompt" "resume i other = Inr (c\<lparr>Prompt := other\<rparr>)" by simp_all
  qed
qed (use assms in \<open>simp add: applyConformanceModel_def\<close>)

lemma host_command_shape:
  assumes "stdin_host workspace host" "host_command host session prompt = Inr c" "\<forall>i \<in> set_option session. CHR ''{'' \<notin> set i"
  shows "stdin_prompt workspace c \<and> Prompt c = prompt \<and> host_command host session other = Inr (c\<lparr>Prompt := other\<rparr>)"
proof (cases session)
  case None
  with assms show ?thesis by (auto simp: host_command_def stdin_host_def stdin_prompt_def)
next
  case (Some i)
  with assms obtain resume where r: "Resume host = Some resume" "resume i prompt = Inr c" "CHR ''{'' \<notin> set i"
    by (auto simp: host_command_def split: option.splits)
  with assms(1) have "stdin_prompt workspace c \<and> Prompt c = prompt \<and> resume i other = Inr (c\<lparr>Prompt := other\<rparr>)"
    unfolding stdin_host_def by blast
  with r(1) Some show ?thesis by (simp add: host_command_def)
qed


definition sample_options :: MachineHostOptions where
  "sample_options =
     \<lparr>opt_Executable = ''/bin/codex'', opt_MCPExecutable = ''/bin/todo'', opt_Version = ''1'', opt_Model = [],
      opt_IntegrationVersion = ''1'', opt_Prompt = ''go'', opt_PersistentSessions = True\<rparr>"


end
