(* ===== verification/Fixture.thy ===== *)
theory Fixture
  imports Catalog Hosts
begin

text \<open>
  The project a scenario is run in (\<^verbatim>\<open>cmd_conformance_catalog.go\<close>, \<^verbatim>\<open>ClockFixture\<close> of \<^verbatim>\<open>conformance/clock.go\<close>):
  the integration files, the clock, the task store and the agent registry of the fixture, and the steps of
  the sequence. The calls that stage the store in a temporary directory have their outcomes in
  \<open>fixture_env\<close>; the store is encoded by the codec of \<open>StoreFile\<close>, here into the bytes of a string.
\<close>

section \<open>Integration files\<close>

record fixture_env =
  fix_Integration :: integrate_env
  fix_IntegrationStaging :: "goerr + string"
  fix_StoreStaging :: "goerr + string"
  fix_Codec :: "string codec"
  fix_Save :: io_env
  fix_PatchRead :: "goerr option"
  fix_Patch :: write_env
  fix_Read :: "goerr option"
  fix_MarshalAgents :: "AgentRegistry \<Rightarrow> goerr + string"
  fix_ParseTime :: "string \<Rightarrow> goerr + gotime"
  fix_Clock :: gotime

definition private_mode :: nat where
  "private_mode = 6 * 8 * 8"

definition fixture_file :: "string \<Rightarrow> string \<Rightarrow> FixtureFile" where
  "fixture_file path content = \<lparr>fx_Path = path, fx_Content = content, fx_Mode = private_mode\<rparr>"

definition conformance_variables :: "string list" where
  "conformance_variables = [ConformanceTraceEnvironment, conformanceActorEnvironment, clockEnvironment]"

definition claude_environment :: "(string \<times> json) list \<Rightarrow> (string \<times> json) list" where
  "claude_environment environment =
     foldl (\<lambda>kvs variable. set_entry variable (JString (''${'' @ variable @ ''}'')) kvs) environment conformance_variables"

definition claude_document :: "json \<Rightarrow> goerr + json" where
  "claude_document config =
     (case config of
        JObject kvs \<Rightarrow>
          (case map_of kvs ''mcpServers'' of
             Some (JObject servers) \<Rightarrow>
               (case map_of servers ''terminal-todo'' of
                  Some (JObject server) \<Rightarrow>
                    (case (case map_of server ''env'' of
                             Some (JObject environment) \<Rightarrow> Inr environment
                           | None \<Rightarrow> Inr []
                           | Some JNull \<Rightarrow> Inr []
                           | Some _ \<Rightarrow> Inl (msg ''conformance MCP environment for Claude is not an object'')) of
                       Inl err \<Rightarrow> Inl err
                     | Inr environment \<Rightarrow>
                         Inr (JObject (set_entry ''mcpServers'' (JObject (set_entry ''terminal-todo''
                           (JObject (set_entry ''env'' (JObject (claude_environment environment)) server)) servers)) kvs)))
                | _ \<Rightarrow> Inl (msg ''conformance MCP config for Claude has no terminal-todo server''))
           | _ \<Rightarrow> Inl (msg ''conformance MCP config for Claude has no mcpServers object''))
      | JNull \<Rightarrow> Inl (msg ''conformance MCP config for Claude has no mcpServers object'')
      | _ \<Rightarrow> Inl (Errorf ''parse Claude conformance MCP config: %w'' []
               [msg ''json: cannot unmarshal into Go value of type map[string]interface {}'']))"

fun addClaudeConformanceEnvironment :: "json_any \<Rightarrow> FixtureFile list \<Rightarrow> goerr + FixtureFile list" where
  "addClaudeConformanceEnvironment j [] = Inl (msg ''conformance MCP config for Claude is missing'')"
| "addClaudeConformanceEnvironment j (file # files) =
     (if fx_Path file \<noteq> ClaudeProjectMCPConfigFile
      then map_sum id ((#) file) (addClaudeConformanceEnvironment j files)
      else
        (case any_Unmarshal j (fx_Content file) of
           Inl err \<Rightarrow> Inl (Errorf ''parse Claude conformance MCP config: %w'' [] [err])
         | Inr config \<Rightarrow>
             map_sum id (\<lambda>config. file\<lparr>fx_Content := any_MarshalIndent j config @ newline\<rparr> # files) (claude_document config)))"

text \<open>The paths of the prepared files relative to the staging directory.\<close>

fun relative_files :: "integrate_env \<Rightarrow> integrationFile list \<Rightarrow> goerr + FixtureFile list" where
  "relative_files e [] = Inr []"
| "relative_files e (f # fs) =
     (case int_Rel e (int_Root e) (if_Path f) of
        None \<Rightarrow> Inl (Errorf ''resolve catalog integration path %q'' [ArgStr (if_Path f)] [])
      | Some relative \<Rightarrow>
          if relative = ''.'' \<or> HasPrefix relative ''../''
          then Inl (Errorf ''resolve catalog integration path %q'' [ArgStr (if_Path f)] [])
          else map_sum id ((#) (fixture_file relative (if_Content f))) (relative_files e fs))"

definition catalogIntegrationFiles :: "fixture_env \<Rightarrow> string \<Rightarrow> bool \<Rightarrow> (goerr + FixtureFile list) option" where
  "catalogIntegrationFiles e todoExecutable includeSkills =
     (case fix_IntegrationStaging e of
        Inl err \<Rightarrow> Some (Inl (Errorf ''create catalog integration staging directory: %w'' [] [err]))
      | Inr staging \<Rightarrow>
          (let ie = (fix_Integration e)\<lparr>int_Root := staging\<rparr>; j = int_JSON ie
           in if includeSkills then
                (case prepareIntegration ie (\<lambda>_. Missing) [integrateCodex, integrateClaude] todoExecutable True of
                   None \<Rightarrow> None
                 | Some (Inl err) \<Rightarrow> Some (Inl (Errorf ''prepare catalog integration: %w'' [] [err]))
                 | Some (Inr prepared) \<Rightarrow>
                     Some (case relative_files ie prepared of
                             Inl err \<Rightarrow> Inl err
                           | Inr files \<Rightarrow> addClaudeConformanceEnvironment j files))
              else
                (case mergeCodexMCPConfig (int_IsPrint ie) [] todoExecutable True of
                   Inl err \<Rightarrow> Some (Inl err)
                 | Inr codexConfig \<Rightarrow>
                     (case mergeClaudeMCPConfig j [] todoExecutable True of
                        None \<Rightarrow> None
                      | Some (Inl err) \<Rightarrow> Some (Inl err)
                      | Some (Inr claudeConfig) \<Rightarrow>
                          Some (addClaudeConformanceEnvironment j
                            [fixture_file CodexProjectConfigFile codexConfig,
                             fixture_file ClaudeProjectMCPConfigFile claudeConfig])))))"

section \<open>The store and the agents\<close>

definition lookup_string :: "(string, string) gomap \<Rightarrow> string \<Rightarrow> string" where
  "lookup_string m k = (case map_of m k of Some v \<Rightarrow> v | None \<Rightarrow> [])"

text \<open>The first loop: the tasks and their identifiers.\<close>

definition add_fixture_task ::
  "gotime \<Rightarrow> u64 \<Rightarrow> TaskStore \<times> (string, string) gomap \<Rightarrow> CatalogTask \<Rightarrow> TaskStore \<times> (string, string) gomap" where
  "add_fixture_task clk createdAt = (\<lambda>(s, taskIDs) fixtureTask.
     (case AddTask clk (ct_Title fixtureTask) [] s of
        (task, s) \<Rightarrow>
          (put_task (ID task)
             (task\<lparr>Created := createdAt, Capabilities := ct_Capabilities fixtureTask, Extra := ct_Metadata fixtureTask\<rparr>) s,
           AList.update (''task:'' @ ct_Ref fixtureTask) (fmt_id (ID task)) taskIDs)))"

definition fixture_status :: "u64 \<Rightarrow> string \<Rightarrow> Task \<Rightarrow> Task" where
  "fixture_status createdAt status task =
     (if status = ''pending'' then task\<lparr>Status := StatusPending\<rparr>
      else if status = ''in_progress'' then task\<lparr>Status := StatusInProgress\<rparr>
      else if status = ''completed'' then task\<lparr>Status := StatusCompleted, Completed := createdAt\<rparr>
      else if status = ''blocked'' then task\<lparr>Status := StatusBlocked\<rparr>
      else task)"

definition stamp_last_event :: "u64 \<Rightarrow> TaskStore \<Rightarrow> TaskStore" where
  "stamp_last_event createdAt s =
     s\<lparr>Events := (Events s)[length (Events s) - 1 := (last (Events s))\<lparr>event_Timestamp := createdAt\<rparr>]\<rparr>"

text \<open>The second loop; \<open>None\<close> is a task that is not in the store, a nil pointer.\<close>

fun place_fixture_tasks ::
  "fixture_env \<Rightarrow> u64 \<Rightarrow> (string, string) gomap \<Rightarrow> (string, string) gomap \<Rightarrow> CatalogTask list \<Rightarrow> TaskStore
   \<Rightarrow> (goerr + TaskStore) option" where
  "place_fixture_tasks e createdAt actorNames taskIDs [] s = Some (Inr s)"
| "place_fixture_tasks e createdAt actorNames taskIDs (fixtureTask # rest) s =
     (let i = (case ParseUint (lookup_string taskIDs (''task:'' @ ct_Ref fixtureTask)) of Some w \<Rightarrow> w | None \<Rightarrow> 0)
      in case GetTask s i of
           None \<Rightarrow> None
         | Some task \<Rightarrow>
             (let task = task\<lparr>Depends := Depends task
                    @ map (\<lambda>dependency. ''todo://local/'' @ lookup_string taskIDs dependency) (ct_DependsOn fixtureTask)\<rparr>;
                  task = fixture_status createdAt (ct_Status fixtureTask) task;
                  task = (if ct_Owner fixtureTask = [] then task
                          else task\<lparr>Owner := lookup_string actorNames (ct_Owner fixtureTask)\<rparr>)
              in case (if ct_LeaseExpires fixtureTask = [] then Inr (LeaseExpires task)
                       else map_sum id millis (fix_ParseTime e (ct_LeaseExpires fixtureTask))) of
                   Inl err \<Rightarrow> Some (Inl (Errorf ''parse task %q lease: %w'' [ArgStr (ct_Ref fixtureTask)] [err]))
                 | Inr expires \<Rightarrow>
                     place_fixture_tasks e createdAt actorNames taskIDs rest
                       (stamp_last_event createdAt
                         (AddEvent (fix_Clock e) EventTaskCreated (ID task) ''harness'' [(''title'', Title task)]
                           (put_task i (task\<lparr>LeaseExpires := expires\<rparr>) s)))))"

text \<open>Saving stamps the wall clock; the staged bytes are then rewritten with the time of the scenario, if nothing fails.\<close>

definition patched_bytes :: "fixture_env \<Rightarrow> u64 \<Rightarrow> string \<Rightarrow> string" where
  "patched_bytes e createdAt staged =
     (if fix_PatchRead e \<noteq> None then staged
      else
        (case codec.Unmarshal (fix_Codec e) staged of
           Inl _ \<Rightarrow> staged
         | Inr patched \<Rightarrow>
             (case codec.Marshal (fix_Codec e) (patched\<lparr>LastModified := createdAt\<rparr>) of
                Inl _ \<Rightarrow> staged
              | Inr data \<Rightarrow>
                  if CreateTemp_err (fix_Patch e) = None \<and> ReadFrom_err (fix_Patch e) = None \<and> Rename_err (fix_Patch e) = None
                  then data else staged)))"

definition stage_store :: "fixture_env \<Rightarrow> u64 \<Rightarrow> TaskStore \<Rightarrow> goerr + string" where
  "stage_store e createdAt s =
     (case fix_StoreStaging e of
        Inl err \<Rightarrow> Inl (Errorf ''create catalog store staging directory: %w'' [] [err])
      | Inr _ \<Rightarrow>
          (case Save (fix_Codec e) (fix_Save e) s \<lparr>target = FileAbsent, temporary = TempAbsent\<rparr> of
             (Some err, _) \<Rightarrow> Inl (Errorf ''save catalog task store: %w'' [] [err])
           | (None, ds) \<Rightarrow>
               (case (fix_Read e, target (last ds)) of
                  (None, FileBytes staged) \<Rightarrow> Inr (patched_bytes e createdAt staged)
                | (Some err, _) \<Rightarrow> Inl (Errorf ''read catalog task store: %w'' [] [err])
                | _ \<Rightarrow> Inl (Errorf ''read catalog task store: %w'' [] [msg ''file does not exist'']))))"

definition fixture_card :: "CatalogScenario \<Rightarrow> CatalogActor \<Rightarrow> AgentCard" where
  "fixture_card sc actor =
     \<lparr>card_Name = ca_Name actor, card_Capabilities = ca_Capabilities actor, card_Description = [],
      card_MaxLoad = ca_MaxLoad actor, card_CreatedAt = nowTimestamp (sc_InitialTime sc), card_LastSeen = []\<rparr>"

definition fixture_agents :: "CatalogScenario \<Rightarrow> AgentRegistry" where
  "fixture_agents sc =
     \<lparr>reg_SchemaVersion = ''1'',
      Agents = foldl (\<lambda>m actor. AList.update (ca_Name actor) (fixture_card sc actor) m) [] (sc_Actors sc)\<rparr>"

definition catalogProjectFiles ::
  "fixture_env \<Rightarrow> CatalogScenario \<Rightarrow> (string, string) gomap
   \<Rightarrow> (goerr + FixtureFile \<times> FixtureFile \<times> (string, string) gomap) option" where
  "catalogProjectFiles e sc actorNames =
     (let createdAt = millis (sc_InitialTime sc); tasks = cp_Tasks (sc_Project sc)
      in case foldl (add_fixture_task (fix_Clock e) createdAt) (NewTaskStore, []) tasks of
           (s, taskIDs) \<Rightarrow>
             (case place_fixture_tasks e createdAt actorNames taskIDs tasks s of
                None \<Rightarrow> None
              | Some (Inl err) \<Rightarrow> Some (Inl err)
              | Some (Inr s) \<Rightarrow>
                  Some (case stage_store e createdAt (s\<lparr>LastModified := createdAt\<rparr>) of
                          Inl err \<Rightarrow> Inl err
                        | Inr storeBytes \<Rightarrow>
                            (case fix_MarshalAgents e (fixture_agents sc) of
                               Inl err \<Rightarrow> Inl (Errorf ''encode catalog agent registry: %w'' [] [err])
                             | Inr agentBytes \<Rightarrow>
                                 Inr (fixture_file ''.terminal-todo/tasks.bin'' storeBytes,
                                      fixture_file ''.terminal-todo/agents.json'' (agentBytes @ newline), taskIDs)))))"

section \<open>The fixture of a scenario\<close>

record catalogFixtureRuntime =
  rt_Fixture :: "FixtureFile list"
  rt_ActorNames :: "(string, string) gomap"
  rt_TaskIDs :: "(string, string) gomap"

definition ClockFixture :: "gotime \<Rightarrow> FixtureFile" where
  "ClockFixture initial = fixture_file fixtureClockPath (nowTimestamp initial @ newline)"

definition actor_names :: "CatalogScenario \<Rightarrow> (string, string) gomap" where
  "actor_names sc = foldl (\<lambda>m actor. AList.update (''actor:'' @ ca_Ref actor) (ca_Name actor) m) [] (sc_Actors sc)"

definition materializeCatalogFixture ::
  "fixture_env \<Rightarrow> CatalogScenario \<Rightarrow> string \<Rightarrow> (goerr + catalogFixtureRuntime) option" where
  "materializeCatalogFixture e sc todoExecutable =
     (case catalogIntegrationFiles e todoExecutable (sc_SkillPolicy sc = ''project_integration'') of
        None \<Rightarrow> None
      | Some (Inl err) \<Rightarrow> Some (Inl err)
      | Some (Inr files) \<Rightarrow>
          (let files = files @ [ClockFixture (sc_InitialTime sc)]
           in if \<not> cp_Initialized (sc_Project sc)
              then Some (Inr \<lparr>rt_Fixture = files, rt_ActorNames = actor_names sc, rt_TaskIDs = []\<rparr>)
              else
                (case catalogProjectFiles e sc (actor_names sc) of
                   None \<Rightarrow> None
                 | Some (Inl err) \<Rightarrow> Some (Inl err)
                 | Some (Inr (storeFile, agentFile, taskIDs)) \<Rightarrow>
                     Some (Inr \<lparr>rt_Fixture = files @ [storeFile, agentFile], rt_ActorNames = actor_names sc,
                                rt_TaskIDs = taskIDs\<rparr>))))"

section \<open>The steps\<close>

text \<open>\<open>quote_verb\<close> is \<^verbatim>\<open>%q\<close>. The replacements are made in the order in which \<^verbatim>\<open>range\<close> visits the maps.\<close>

definition catalogActorPrompt :: "(string \<Rightarrow> string) \<Rightarrow> string \<Rightarrow> string \<Rightarrow> string" where
  "catalogActorPrompt quote_verb actor prompt =
     ''Use coordination identity '' @ quote_verb actor
     @ ''. Use the project coordination integration only; do not run shell commands or edit files. '' @ prompt"

definition substituteCatalogSymbols :: "catalogFixtureRuntime \<Rightarrow> string \<Rightarrow> string" where
  "substituteCatalogSymbols rt val =
     foldl (\<lambda>v (reference, taskID). ReplaceAll v reference taskID)
       (foldl (\<lambda>v (reference, actor). ReplaceAll v reference actor) val (rt_ActorNames rt)) (rt_TaskIDs rt)"

text \<open>
  What a harness action reports: advancing the clock of the workspace, by the number of launches before it,
  and whether the context has ended.
\<close>

record harness_env =
  advance_clock :: "nat \<Rightarrow> duration \<Rightarrow> string option"
  context_error :: "nat \<Rightarrow> string option"

text \<open>\<^verbatim>\<open>time.Duration(seconds) * time.Second\<close> in 64 bits.\<close>

definition seconds_duration :: "int \<Rightarrow> duration" where
  "seconds_duration seconds = sint (word_of_int (seconds * 1000000000) :: 64 word)"

definition empty_step :: "string \<Rightarrow> SequenceStep" where
  "empty_step i =
     \<lparr>step_ID = i, step_Actor = [], step_Actors = [], step_Action = OtherAction [], step_Prompt = [], step_Harness = None\<rparr>"

definition catalog_step ::
  "(string \<Rightarrow> string) \<Rightarrow> harness_env \<Rightarrow> CatalogScenario \<Rightarrow> catalogFixtureRuntime \<Rightarrow> CatalogTurn \<Rightarrow> goerr + SequenceStep" where
  "catalog_step quote_verb h sc rt turn =
     (let st = empty_step (tn_ID turn); actor = lookup_string (rt_ActorNames rt)
      in if tn_Action turn = ''prompt''
         then Inr (st\<lparr>step_Action := SequencePrompt, step_Actor := actor (tn_By turn),
                      step_Prompt := catalogActorPrompt quote_verb (actor (tn_By turn)) (substituteCatalogSymbols rt (tn_Prompt turn))\<rparr>)
         else if tn_Action turn = ''resume''
         then Inr (st\<lparr>step_Action := SequenceResume, step_Actor := actor (tn_By turn),
                      step_Prompt := substituteCatalogSymbols rt (tn_Instruction turn)\<rparr>)
         else if tn_Action turn = ''concurrent_turns''
         then Inr (st\<lparr>step_Action := SequenceConcurrent,
                      step_Prompt := catalogActorPrompt quote_verb ''{actor}'' (substituteCatalogSymbols rt (tn_Prompt turn)),
                      step_Actors := map actor (tn_Actors turn)\<rparr>)
         else if tn_Action turn = ''advance_clock''
         then Inr (st\<lparr>step_Action := SequenceHarness,
                      step_Harness := Some (\<lambda>n. advance_clock h n (seconds_duration (tn_Seconds turn)))\<rparr>)
         else if tn_Action turn = ''checkpoint''
         then Inr (st\<lparr>step_Action := SequenceHarness, step_Harness := Some (context_error h)\<rparr>)
         else Inl (Errorf ''compile scenario %q turn %q: unsupported action %q''
                [ArgStr (sc_ID sc), ArgStr (tn_ID turn), ArgStr (tn_Action turn)] []))"

fun compile_turns ::
  "(string \<Rightarrow> string) \<Rightarrow> harness_env \<Rightarrow> CatalogScenario \<Rightarrow> catalogFixtureRuntime \<Rightarrow> CatalogTurn list
   \<Rightarrow> goerr + SequenceStep list" where
  "compile_turns quote_verb h sc rt [] = Inr []"
| "compile_turns quote_verb h sc rt (turn # turns) =
     (case catalog_step quote_verb h sc rt turn of
        Inl err \<Rightarrow> Inl err
      | Inr st \<Rightarrow> map_sum id ((#) st) (compile_turns quote_verb h sc rt turns))"

definition catalogSequenceSteps ::
  "(string \<Rightarrow> string) \<Rightarrow> harness_env \<Rightarrow> CatalogScenario \<Rightarrow> catalogFixtureRuntime \<Rightarrow> goerr + SequenceStep list" where
  "catalogSequenceSteps quote_verb h sc rt = compile_turns quote_verb h sc rt (sc_Turns sc)"

end
