(* ===== verification/Spec2Isabelle.thy ===== *)
theory Spec2Isabelle
  imports OutputLimits Surfaces Fixture
begin

text \<open>
  A verification development for terminal-todo, a task graph shared by coding agents. The program keeps
  the tasks of a project in one file; a command line, a JSON-RPC server and an MCP server work on it, and
  a harness evaluates agents that use them. Source paths below are under \<^verbatim>\<open>src/\<close>.

  \<^bold>\<open>How the parts interact.\<close> Every change of tasks is a transaction of \<^verbatim>\<open>store/store.go\<close>: lock the file,
  decode it, reclaim expired leases, apply one operation, encode, write a temporary file and rename it. The
  operations (\<^verbatim>\<open>internal/cli/coordination_ops.go\<close> and its siblings) ask \<^verbatim>\<open>dag/dag.go\<close> for cycles and readiness.
  A handler of the server or a command of the command line reads its parameters, runs one transaction and
  publishes a document or a text; the MCP server calls the handlers of the JSON-RPC server.

  \<^bold>\<open>Theories and the code they model.\<close>
  \<^item> \<open>Prelude\<close>, \<open>GoLib\<close>, \<open>GoTime\<close>: Go maps as lists of pairs, \<^verbatim>\<open>sort.Slice\<close>, \<^verbatim>\<open>strings\<close>, \<^verbatim>\<open>strconv\<close>, UTF-8, \<^verbatim>\<open>time\<close>,
    \<^verbatim>\<open>float32\<close> comparison; the lemmas about them that all components share.
  \<^item> \<open>Errors\<close>: \<^verbatim>\<open>errors.go\<close>, \<^verbatim>\<open>coordination_errors.go\<close>: error trees, their codes on the two surfaces.
  \<^item> \<open>Store\<close>, \<open>StoreFile\<close>: \<^verbatim>\<open>store/store.go\<close>, \<^verbatim>\<open>lock/lock.go\<close>: the state and its primitive operations; the file
    with every system call that can fail and every state of the disk on the way.
  \<^item> \<open>Dag\<close>: \<^verbatim>\<open>dag/dag.go\<close>. \<open>Invariant\<close>: the checks of \<^verbatim>\<open>cmd_doctor.go\<close> and the declarative invariant they decide.
  \<^item> \<open>InputLimits\<close>, \<open>Coordination\<close>, \<open>GraphOps\<close>, \<open>Removal\<close>: \<^verbatim>\<open>input_limits.go\<close>, \<^verbatim>\<open>coordination_ops.go\<close>, \<^verbatim>\<open>lease.go\<close>,
    \<^verbatim>\<open>handoff.go\<close> and the transactions of \<^verbatim>\<open>cmd_add.go\<close>, \<^verbatim>\<open>cmd_done.go\<close>, \<^verbatim>\<open>cmd_rm.go\<close>. \<open>Lifecycle\<close> puts them together: the
    step relation of a store in use, its specification and what holds of all runs.
  \<^item> \<open>Allocation\<close>, \<open>Project\<close>: \<^verbatim>\<open>allocation.go\<close>, \<^verbatim>\<open>agents.go\<close>, \<^verbatim>\<open>config.go\<close>, \<^verbatim>\<open>repository.go\<close>. \<open>Protocol\<close>: \<^verbatim>\<open>protocol.go\<close>,
    \<^verbatim>\<open>mutation_receipt.go\<close>. \<open>EventLog\<close>: \<^verbatim>\<open>event_protocol.go\<close>, \<^verbatim>\<open>cmd_compact.go\<close>. \<open>Bootstrap\<close>: \<^verbatim>\<open>bootstrap.go\<close>. \<open>Reads\<close>:
    the read operations (status, next, search, lineage, what-if, graph, capabilities).
  \<^item> \<open>Rpc\<close>, \<open>Server\<close>, \<open>Handlers\<close>, \<open>Queries\<close>, \<open>Serve\<close>, \<open>Session\<close>: \<^verbatim>\<open>serve.go\<close>: parameters, the world a handler runs in,
    the handlers, dispatch and the request loop. \<open>Mcp\<close>: \<^verbatim>\<open>mcp.go\<close>, \<^verbatim>\<open>mcp_summary.go\<close>.
  \<^item> \<open>CliArgs\<close>, \<open>CliText\<close>, \<open>Cli\<close>, \<open>CliRuns\<close>: \<^verbatim>\<open>cli_registry.go\<close>, \<^verbatim>\<open>todo.go\<close> and the commands \<^verbatim>\<open>cmd_*.go\<close>, with the text they
    print. \<open>Surfaces\<close>: the server and the command line compared. \<open>Integrate\<close>: \<^verbatim>\<open>cmd_integrate.go\<close>.
  \<^item> \<open>Redact\<close>, \<open>Scoring\<close>, \<open>Evaluation\<close>, \<open>OutputLimits\<close>, \<open>Hosts\<close>, \<open>Catalog\<close>, \<open>Fixture\<close>: \<^verbatim>\<open>conformance/\<close> and
    \<^verbatim>\<open>cmd_conformance_catalog.go\<close>: redaction, grading, runs and sequences of host processes, the adapters for
    Codex and Claude, the catalog of scenarios and the project a scenario runs in.

  \<^bold>\<open>What the lemmas show.\<close> The operations keep the invariant of the store, each meets its specification, and
  refused ones change nothing; the file is replaced as a whole whatever fails; cycle detection, readiness,
  allocation, paging, progress and lineage are exact; no request, no command and no MCP session panics or
  leaves an unsound store; both surfaces agree; texts are bounded and escaped; the harness scores only runs
  without an infrastructure failure, keeps secrets out of its reports and prompts out of command lines, and
  its catalog validator accepts exactly the well-formed catalogs.

  \<^bold>\<open>Modelling.\<close> Identifiers, times in milliseconds and counters are machine words and wrap; where an
  operation needs a free identifier the theorem says so. A Go pointer to a task is its key in the map. The
  iteration of a Go map is the order of a list that nothing fixes, so a theorem covers every order. A
  failing operation returns the state it reached. A world is threaded through handlers and commands; \<open>None\<close>
  is a panic; what other processes do between two accesses to a file, and each system call's outcome, are
  in the environment, so that a theorem covers them all. Documents (JSON, MessagePack) are the values they
  decode to or a codec parameter with the law that decoding undoes encoding. \<^verbatim>\<open>float64\<close> scores are exact
  rationals. Lower-casing, hashing, relative paths, local time and error texts are parameters. An error
  message is its format and arguments, not the rendered text. Files are told apart by their cleaned path.

  \<^bold>\<open>Termination.\<close> Searches and walks have a measure (unvisited tasks); reading pages takes at most one page
  more than there are events; waiting for a lock, polling for work and watching may go on for ever, so these
  loops are given the list of what each round finds, and no result means that it still waits.

  \<^bold>\<open>Not modelled.\<close> The evaluation of the catalog's expectations and the loop that runs the catalog over hosts
  (\<^verbatim>\<open>cmd_conformance_assertions.go\<close>, \<^verbatim>\<open>cmd_conformance.go\<close>), which the runner here has as the parameters
  assertions and host; advancing the clock file and writing the trace file (\<^verbatim>\<open>conformance/clock.go\<close>, \<^verbatim>\<open>trace.go\<close>);
  the checks of \<^verbatim>\<open>cmd_doctor.go\<close> on file permissions and temporary files; \<^verbatim>\<open>projectclock\<close>, \<^verbatim>\<open>fsutil\<close>, the platform
  files of \<^verbatim>\<open>lock\<close> and the two \<^verbatim>\<open>main.go\<close>, which are single calls of the operating system; what is printed to
  standard error; tests, scripts and documents.
\<close>

end
